(* ===== verification/Go_Prelude.thy ===== *)
theory Go_Prelude
  imports Main "HOL-Library.Char_ord" "HOL-Library.List_Lexorder" "HOL-Library.AList"
    "HOL-Library.Sublist" "HOL-Library.Finite_Map" "HOL-Library.Monad_Syntax"
    "HOL-Library.Code_Target_Numeral"
begin

text \<open>
  What the components share: the parts of Go's strings, strconv and fmt packages the sources
  use, 64-bit wrap-around, Go maps, and bounded logs.

  A Go string is a byte string, modelled as a \<^typ>\<open>string\<close> (a list of 8-bit characters). White
  space and letter case are those of ASCII: the Go library treats a few non-ASCII code points as
  white space and folds the case of non-ASCII letters too, and text with such code points is
  outside the model.

  A Go map that is only looked up, updated and compared is a \<^typ>\<open>('k, 'v) fmap\<close>; a Go map the
  code ranges over is an association list whose order is the (arbitrary) iteration order.
\<close>

named_theorems go_str \<open>facts about trimming, lower case and case-insensitive equality\<close>
named_theorems go_int \<open>facts about 64-bit integers\<close>

type_synonym smap = "(string, string) fmap"

section \<open>Strings\<close>

definition is_space :: "char \<Rightarrow> bool" where
  "is_space c \<longleftrightarrow> List.member [CHR 0x20, CHR 0x09, CHR 0x0A, CHR 0x0B, CHR 0x0C, CHR 0x0D] c"

definition trim_func :: "(char \<Rightarrow> bool) \<Rightarrow> string \<Rightarrow> string" where
  "trim_func p s = rev (dropWhile p (rev (dropWhile p s)))"

definition trim_space :: "string \<Rightarrow> string" where
  "trim_space s = trim_func is_space s"

definition trim_cutset :: "string \<Rightarrow> string \<Rightarrow> string" where
  "trim_cutset cs s = trim_func (List.member cs) s"

definition lower_char :: "char \<Rightarrow> char" where
  "lower_char c =
     (let n = (of_char c :: nat) in if 65 \<le> n \<and> n \<le> 90 then char_of (n + 32) else c)"

definition to_lower :: "string \<Rightarrow> string" where
  "to_lower s = map lower_char s"

definition equal_fold :: "string \<Rightarrow> string \<Rightarrow> bool" where
  "equal_fold a b \<longleftrightarrow> to_lower a = to_lower b"

fun has_prefix :: "string \<Rightarrow> string \<Rightarrow> bool" where
  "has_prefix s [] = True"
| "has_prefix [] (p # ps) = False"
| "has_prefix (c # s) (p # ps) = (c = p \<and> has_prefix s ps)"

fun str_contains :: "string \<Rightarrow> string \<Rightarrow> bool" where
  "str_contains [] sub = (sub = [])"
| "str_contains (c # s) sub = (has_prefix (c # s) sub \<or> str_contains s sub)"

text \<open>strings.Split with a one-character separator: always at least one part.\<close>

fun split_char :: "char \<Rightarrow> string \<Rightarrow> string list" where
  "split_char d [] = [[]]"
| "split_char d (c # s) =
     (if c = d then [] # split_char d s
      else (case split_char d s of [] \<Rightarrow> [[c]] | p # ps \<Rightarrow> (c # p) # ps))"

text \<open>strings.SplitN(s, sep, 2) with a one-character separator that occurs in the string.\<close>

definition split_first :: "char \<Rightarrow> string \<Rightarrow> string \<times> string" where
  "split_first d s = (takeWhile (\<lambda>c. c \<noteq> d) s, tl (dropWhile (\<lambda>c. c \<noteq> d) s))"

text \<open>strings.Fields: the maximal runs of characters that are not white space.\<close>

fun fields_acc :: "string \<Rightarrow> string \<Rightarrow> string list" where
  "fields_acc acc [] = (if acc = [] then [] else [rev acc])"
| "fields_acc acc (c # s) =
     (if is_space c then (if acc = [] then fields_acc [] s else rev acc # fields_acc [] s)
      else fields_acc (c # acc) s)"

definition str_fields :: "string \<Rightarrow> string list" where
  "str_fields s = fields_acc [] s"

fun str_join :: "string \<Rightarrow> string list \<Rightarrow> string" where
  "str_join sep [] = []"
| "str_join sep [x] = x"
| "str_join sep (x # y # xs) = x @ sep @ str_join sep (y # xs)"

text \<open>A strings.Replacer whose patterns are single characters.\<close>

definition replace_chars :: "(char \<times> string) list \<Rightarrow> string \<Rightarrow> string" where
  "replace_chars tab s = concat (map (\<lambda>c. case map_of tab c of None \<Rightarrow> [c] | Some r \<Rightarrow> r) s)"

text \<open>Case-insensitive membership of trimmed strings (containsFold in the sources).\<close>

definition contains_fold :: "string list \<Rightarrow> string \<Rightarrow> bool" where
  "contains_fold values needle \<longleftrightarrow>
     list_ex (\<lambda>v. equal_fold (trim_space v) (trim_space needle)) values"

section \<open>Integers\<close>

text \<open>Go's int, int64 and time.Duration have 64 bits; arithmetic wraps around.\<close>

definition wrap64 :: "int \<Rightarrow> int" where
  "wrap64 n = (n + 2 ^ 63) mod 2 ^ 64 - 2 ^ 63"

definition in_int64 :: "int \<Rightarrow> bool" where
  "in_int64 n \<longleftrightarrow> - (2 ^ 63) \<le> n \<and> n < 2 ^ 63"

text \<open>Division truncates towards zero.\<close>

definition go_div :: "int \<Rightarrow> int \<Rightarrow> int" where
  "go_div a b = sgn a * sgn b * (\<bar>a\<bar> div \<bar>b\<bar>)"

definition digit_char :: "nat \<Rightarrow> char" where
  "digit_char d = char_of (48 + d)"

definition is_digit :: "char \<Rightarrow> bool" where
  "is_digit c \<longleftrightarrow> 48 \<le> (of_char c :: nat) \<and> (of_char c :: nat) \<le> 57"

definition digit_val :: "char \<Rightarrow> nat" where
  "digit_val c = of_char c - 48"

fun nat_digits :: "nat \<Rightarrow> string" where
  "nat_digits n = (if n < 10 then [digit_char n] else nat_digits (n div 10) @ [digit_char (n mod 10)])"

declare nat_digits.simps [simp del]

definition digits_val :: "string \<Rightarrow> nat" where
  "digits_val s = foldl (\<lambda>acc c. 10 * acc + digit_val c) 0 s"

definition itoa :: "int \<Rightarrow> string" where
  "itoa i = (if i < 0 then CHR ''-'' # nat_digits (nat (- i)) else nat_digits (nat i))"

text \<open>strconv.Atoi and strconv.ParseInt(s, 10, 64): \<^const>\<open>None\<close> is the syntax or range error.\<close>

definition atoi :: "string \<Rightarrow> int option" where
  "atoi s =
     (let neg = (case s of c # _ \<Rightarrow> c = CHR ''-'' | [] \<Rightarrow> False);
          ds = (case s of c # r \<Rightarrow> if c = CHR ''-'' \<or> c = CHR ''+'' then r else s | [] \<Rightarrow> []);
          v = (if neg then - int (digits_val ds) else int (digits_val ds))
      in if ds \<noteq> [] \<and> list_all is_digit ds \<and> in_int64 v then Some v else None)"

text \<open>The verbs %03d, %04d of fmt: zero padding to a width that counts the sign.\<close>

definition zero_pad :: "nat \<Rightarrow> string \<Rightarrow> string" where
  "zero_pad w s = replicate (w - length s) CHR ''0'' @ s"

definition pad_int :: "nat \<Rightarrow> int \<Rightarrow> string" where
  "pad_int w i =
     (if i < 0 then CHR ''-'' # zero_pad (w - 1) (nat_digits (nat (- i)))
      else zero_pad w (nat_digits (nat i)))"

section \<open>Maps and bounded logs\<close>

text \<open>Reading a missing key of a map from strings gives the empty string.\<close>

definition smap_get :: "smap \<Rightarrow> string \<Rightarrow> string" where
  "smap_get m k = (case fmlookup m k of None \<Rightarrow> [] | Some v \<Rightarrow> v)"

text \<open>A slice cut to its last \<open>n\<close> elements, the idiom of every bounded log in the sources.\<close>

definition keep_last :: "nat \<Rightarrow> 'a list \<Rightarrow> 'a list" where
  "keep_last n xs = (if length xs > n then drop (length xs - n) xs else xs)"

text \<open>The first index whose element satisfies the predicate.\<close>

fun find_idx :: "('a \<Rightarrow> bool) \<Rightarrow> 'a list \<Rightarrow> nat option" where
  "find_idx p [] = None"
| "find_idx p (x # xs) = (if p x then Some 0 else map_option Suc (find_idx p xs))"

section \<open>Lemmas on strings\<close>

lemma char_eq_code: "c = d \<longleftrightarrow> (of_char c :: nat) = of_char d"
  by simp

lemma is_space_code: "is_space c \<longleftrightarrow> (of_char c :: nat) \<in> {32, 9, 10, 11, 12, 13}"
  unfolding is_space_def
  by (simp add: char_eq_code [of c] del: of_char_eq_iff)

lemma of_char_lower: "(of_char (lower_char c) :: nat) =
    (let n = of_char c in if 65 \<le> n \<and> n \<le> 90 then n + 32 else n)"
  by (auto simp: lower_char_def Let_def)

lemma is_space_lower [simp]: "is_space (lower_char c) = is_space c"
  by (auto simp: is_space_code of_char_lower Let_def)

lemma lower_lower [simp]: "lower_char (lower_char c) = lower_char c"
proof -
  have "(of_char (lower_char (lower_char c)) :: nat) = of_char (lower_char c)"
    by (auto simp: of_char_lower Let_def)
  then show ?thesis by simp
qed

lemma to_lower_idem [simp, go_str]: "to_lower (to_lower s) = to_lower s"
  by (simp add: to_lower_def)

lemma to_lower_Nil [simp, go_str]: "to_lower [] = []" "to_lower s = [] \<longleftrightarrow> s = []"
  by (simp_all add: to_lower_def)

lemma equal_fold_refl [simp, go_str]: "equal_fold a a"
  by (simp add: equal_fold_def)

lemma equal_fold_sym: "equal_fold a b \<Longrightarrow> equal_fold b a"
  by (simp add: equal_fold_def)

lemma equal_fold_trans: "equal_fold a b \<Longrightarrow> equal_fold b c \<Longrightarrow> equal_fold a c"
  by (simp add: equal_fold_def)

lemma dropWhile_rev_dropWhile:
  "dropWhile p (rev (dropWhile p (rev (dropWhile p s)))) = rev (dropWhile p (rev (dropWhile p s)))"
proof (cases "dropWhile p s")
  case Nil
  show ?thesis unfolding Nil by simp
next
  case (Cons c r)
  then have c: "\<not> p c" using hd_dropWhile [of p s] by force
  have "dropWhile p (rev (c # r)) = dropWhile p (rev r) @ [c]"
    using c by (cases "\<forall>x \<in> set r. p x") (auto simp: dropWhile_append)
  with Cons c show ?thesis by simp
qed

lemma trim_func_idem [simp]: "trim_func p (trim_func p s) = trim_func p s"
  unfolding trim_func_def by (simp only: dropWhile_rev_dropWhile rev_rev_ident dropWhile_idem)

lemma trim_space_idem [simp, go_str]: "trim_space (trim_space s) = trim_space s"
  by (simp add: trim_space_def)

lemma trim_space_Nil [simp, go_str]: "trim_space [] = []"
  by (simp add: trim_space_def trim_func_def)

lemma trim_space_lower [go_str]: "trim_space (to_lower s) = to_lower (trim_space s)"
  by (simp add: trim_space_def trim_func_def to_lower_def dropWhile_map rev_map comp_def)

lemma trim_func_id: "list_all (\<lambda>c. \<not> p c) s \<Longrightarrow> trim_func p s = s"
  by (metis dropWhile_eq_self_iff hd_in_set list_all_iff rev_rev_ident set_rev trim_func_def)

lemma trim_space_id: "list_all (\<lambda>c. \<not> is_space c) s \<Longrightarrow> trim_space s = s"
  by (simp add: trim_space_def trim_func_id)

lemma trim_space_self_iff:
  "trim_space s = s \<longleftrightarrow> s = [] \<or> \<not> is_space (hd s) \<and> \<not> is_space (last s)"
proof
  assume t: "trim_space s = s"
  have "dropWhile is_space s = s"
    using t unfolding trim_space_def trim_func_def by (metis dropWhile_rev_dropWhile)
  moreover from this have "dropWhile is_space (rev s) = rev s"
    using t by (metis rev_rev_ident trim_func_def trim_space_def)
  ultimately show "s = [] \<or> \<not> is_space (hd s) \<and> \<not> is_space (last s)"
    by (auto simp: dropWhile_eq_self_iff hd_rev)
next
  assume "s = [] \<or> \<not> is_space (hd s) \<and> \<not> is_space (last s)"
  then have "dropWhile is_space s = s" "dropWhile is_space (rev s) = rev s"
    by (auto simp: dropWhile_eq_self_iff hd_rev)
  then show "trim_space s = s" by (simp add: trim_space_def trim_func_def)
qed

lemma trim_space_append:
  assumes "trim_space a = a" "a \<noteq> []" "trim_space b = b" "b \<noteq> []"
  shows "trim_space (a @ m @ b) = a @ m @ b"
  using assms by (simp add: trim_space_self_iff)

lemma append_last_unique:
  assumes "a @ d # b = a' @ d # b'" "d \<notin> set b" "d \<notin> set b'"
  shows "a = a' \<and> b = b'"
proof -
  have "takeWhile (\<lambda>c. c \<noteq> d) (rev (x @ d # y)) = rev y" if "d \<notin> set y" for x y :: "'a list"
  proof -
    have "takeWhile (\<lambda>c. c \<noteq> d) (rev y @ d # rev x) = rev y @ takeWhile (\<lambda>c. c \<noteq> d) (d # rev x)"
      by (rule takeWhile_append2) (use that in auto)
    then show ?thesis by simp
  qed
  from this [OF assms(2), of a] this [OF assms(3), of a'] have "b = b'"
    using assms(1) by (metis rev_rev_ident)
  with assms(1) show ?thesis by simp
qed

lemma set_trim_func: "set (trim_func p s) \<subseteq> set s"
  unfolding trim_func_def by (metis set_dropWhileD set_rev subsetI)

lemma set_trim_space: "set (trim_space s) \<subseteq> set s"
  by (simp add: trim_space_def set_trim_func)

lemma has_prefix_iff: "has_prefix s p \<longleftrightarrow> prefix p s"
  by (induction s p rule: has_prefix.induct) auto

lemma str_contains_iff: "str_contains s sub \<longleftrightarrow> sublist sub s"
  by (induction s) (auto simp: has_prefix_iff sublist_Cons_right)

lemma contains_fold_iff:
  "contains_fold values needle \<longleftrightarrow> (\<exists>v \<in> set values. equal_fold (trim_space v) (trim_space needle))"
  by (simp add: contains_fold_def list_ex_iff)

lemma split_char_nonempty [simp]: "split_char d s \<noteq> []"
  by (induction s) (auto split: list.splits)

lemma split_char_notin: "d \<notin> set s \<Longrightarrow> split_char d s = [s]"
  by (induction s) auto

lemma split_first_join: "d \<in> set s \<Longrightarrow> split_first d s = (a, b) \<Longrightarrow> s = a @ d # b"
  unfolding split_first_def
  by (induction s arbitrary: a b) (auto split: if_splits)

lemma split_first_append: "d \<notin> set a \<Longrightarrow> split_first d (a @ d # b) = (a, b)"
  unfolding split_first_def by (induction a) auto

section \<open>Lemmas on bounded logs and searches\<close>

lemma length_keep_last [simp]: "length (keep_last n xs) = min n (length xs)"
  by (simp add: keep_last_def)

lemma keep_last_le: "length (keep_last n xs) \<le> n"
  by simp

lemma keep_last_short: "length xs \<le> n \<Longrightarrow> keep_last n xs = xs"
  by (simp add: keep_last_def)

lemma set_keep_last: "set (keep_last n xs) \<subseteq> set xs"
  by (auto simp: keep_last_def dest: in_set_dropD)

lemma keep_last_suffix: "\<exists>ys. xs = ys @ keep_last n xs"
  by (metis append_Nil append_take_drop_id keep_last_def)

lemma last_keep_last: "0 < n \<Longrightarrow> xs \<noteq> [] \<Longrightarrow> last (keep_last n xs) = last xs"
  by (simp add: keep_last_def)

lemma find_idx_Some:
  "find_idx p xs = Some i \<longleftrightarrow> i < length xs \<and> p (xs ! i) \<and> (\<forall>j < i. \<not> p (xs ! j))"
proof (induction xs arbitrary: i)
  case (Cons x xs)
  then show ?case by (cases i) (auto simp: All_less_Suc2)
qed simp

lemma find_idx_None: "find_idx p xs = None \<longleftrightarrow> (\<forall>x \<in> set xs. \<not> p x)"
  by (induction xs) auto

lemma find_idx_cong_update:
  "find_idx p xs = Some i \<Longrightarrow> p y \<Longrightarrow> find_idx p (xs[i := y]) = Some i"
  by (auto simp: find_idx_Some)

lemma find_idx_append_None:
  "find_idx p xs = None \<Longrightarrow> p y \<Longrightarrow> find_idx p (xs @ [y]) = Some (length xs)"
  by (induction xs) (auto split: if_splits)

section \<open>Lemmas on integers\<close>

lemma in_int64_bounds [go_int]:
  "in_int64 n \<longleftrightarrow> - 9223372036854775808 \<le> n \<and> n < 9223372036854775808"
  by (simp add: in_int64_def)

lemma wrap64_id [go_int]: "in_int64 n \<Longrightarrow> wrap64 n = n"
  by (simp add: wrap64_def in_int64_def)

lemma wrap64_in_range [simp]: "in_int64 (wrap64 n)"
  by (simp add: wrap64_def in_int64_def pos_mod_bound pos_mod_sign)

lemma wrap64_over: "2 ^ 63 \<le> n \<Longrightarrow> n < 3 * 2 ^ 63 \<Longrightarrow> wrap64 n = n - 2 ^ 64"
  using mod_pos_pos_trivial [of "n - 2 ^ 63" "2 ^ 64 :: int"] mod_add_self2 [of "n - 2 ^ 63" "2 ^ 64 :: int"]
  by (simp add: wrap64_def add.commute)

lemma div_bounds: "0 < (b::int) \<Longrightarrow> b * (a div b) \<le> a" "0 < (b::int) \<Longrightarrow> a < b * (a div b) + b"
  using pos_mod_sign [of b a] pos_mod_bound [of b a] mult_div_mod_eq [of b a] by linarith+

lemma div_eqI: "b * q \<le> a \<Longrightarrow> a < b * q + b \<Longrightarrow> a div b = (q::int)"
  by (rule int_div_pos_eq [of a b q "a - b * q"]) auto

lemma digit_char_code: "d < 10 \<Longrightarrow> (of_char (digit_char d) :: nat) = 48 + d"
  by (simp add: digit_char_def)

lemma digit_char_facts [simp]:
  "d < 10 \<Longrightarrow> digit_val (digit_char d) = d" "d < 10 \<Longrightarrow> is_digit (digit_char d)"
  by (simp_all add: digit_val_def is_digit_def digit_char_code)

lemma digit_char_val [simp]: "is_digit c \<Longrightarrow> digit_char (digit_val c) = c"
  by (simp add: digit_char_def digit_val_def is_digit_def)

lemma digits_val_snoc [simp]: "digits_val (s @ [c]) = 10 * digits_val s + digit_val c"
  by (simp add: digits_val_def)

lemma digits_val_Nil [simp]: "digits_val [] = 0"
  by (simp add: digits_val_def)

lemma nat_digits_val [simp]: "digits_val (nat_digits n) = n"
proof (induction n rule: nat_digits.induct)
  case (1 n)
  then show ?case
    using digits_val_snoc [of "[]" "digit_char n"]
    by (cases "n < 10") (simp_all add: nat_digits.simps [of n])
qed

lemma nat_digits_all [simp]: "list_all is_digit (nat_digits n)"
proof (induction n rule: nat_digits.induct)
  case (1 n)
  then show ?case by (cases "n < 10") (simp_all add: nat_digits.simps [of n])
qed

lemma nat_digits_nonempty [simp]: "nat_digits n \<noteq> []"
  by (subst nat_digits.simps) simp

lemma digit_not_sign: "is_digit c \<Longrightarrow> c \<noteq> CHR ''-'' \<and> c \<noteq> CHR ''+''"
  by (auto simp: is_digit_def)

lemma atoi_itoa [simp]: "in_int64 i \<Longrightarrow> atoi (itoa i) = Some i"
proof -
  assume i: "in_int64 i"
  obtain c r where cr: "nat_digits (nat i) = c # r" by (cases "nat_digits (nat i)") auto
  moreover have "is_digit c" using nat_digits_all [of "nat i"] cr by simp
  ultimately show ?thesis
    using i digit_not_sign [of c] nat_digits_all [of "nat i"] nat_digits_val [of "nat i"]
    by (simp add: atoi_def itoa_def Let_def)
qed

lemma itoa_inj: "itoa i = itoa j \<Longrightarrow> in_int64 i \<Longrightarrow> in_int64 j \<Longrightarrow> i = j"
  by (metis atoi_itoa option.inject)

lemma list_all_replicate_zero: "list_all is_digit (replicate n CHR ''0'')"
  by (simp add: list_all_iff is_digit_def)

lemma digits_val_app: "digits_val (a @ b) = digits_val a * 10 ^ length b + digits_val b"
proof (induction b rule: rev_induct)
  case (snoc c b)
  have "digits_val (a @ b @ [c]) = 10 * digits_val (a @ b) + digit_val c"
    using digits_val_snoc [of "a @ b" c] by simp
  with snoc show ?case by (simp add: algebra_simps)
qed simp

lemma digits_val_zeros [simp]: "digits_val (replicate n CHR ''0'') = 0"
proof (induction n)
  case (Suc n)
  have "replicate (Suc n) CHR ''0'' = replicate n CHR ''0'' @ [CHR ''0'']"
    by (metis replicate_Suc replicate_append_same)
  with Suc show ?case by (simp only: digits_val_snoc) (simp add: digit_val_def)
qed simp

lemma zero_pad_val [simp]: "digits_val (zero_pad w s) = digits_val s"
  by (simp add: zero_pad_def digits_val_app)

lemma zero_pad_all [simp]: "list_all is_digit (zero_pad w s) = list_all is_digit s"
  by (simp add: zero_pad_def list_all_replicate_zero)

lemma zero_pad_nonempty [simp]: "zero_pad w s = [] \<longleftrightarrow> w = 0 \<and> s = []"
  by (auto simp: zero_pad_def)

end
