(* ===== verification/Go_Time.thy ===== *)
theory Go_Time
  imports Go_Prelude
begin

text \<open>
  What the sources use of Go's time package. An instant is an \<^typ>\<open>int\<close>, its nanoseconds since
  the Unix epoch; a \<^emph>\<open>location\<close> gives the offset from UTC, in seconds, at an instant in seconds.
  Formatting and parsing cover the layouts RFC3339 and RFC3339Nano, which the sources write in
  UTC and read back; durations are 64-bit nanosecond counts.

  The main results are the round trips: parsing a formatted instant gives the instant back
  (\<open>parse_format_nano\<close>), and the seconds layout loses exactly the fraction of a second
  (\<open>parse_format_sec\<close>).
\<close>

type_synonym instant = int
type_synonym duration = int
type_synonym location = "int \<Rightarrow> int"

abbreviation Millisecond :: duration where "Millisecond \<equiv> 1000000"
abbreviation Second :: duration where "Second \<equiv> 1000000000"
abbreviation Minute :: duration where "Minute \<equiv> 60000000000"
abbreviation Hour :: duration where "Hour \<equiv> 3600000000000"

section \<open>The calendar\<close>

text \<open>
  Days are counted from 1 March of the year 0, so that the leap day ends its year: a cycle of 400
  years has 146097 days, its first three centuries 36524 days, four years 1461 days.
\<close>

record civil =
  year :: int
  month :: int
  day :: int

definition civil_of_days :: "int \<Rightarrow> civil" where
  "civil_of_days z =
     (let d = z + 719468;
          era = d div 146097; doe = d mod 146097;
          n100 = min (doe div 36524) 3; d1 = doe - 36524 * n100;
          n4 = d1 div 1461; d2 = d1 - 1461 * n4;
          n1 = min (d2 div 365) 3; doy = d2 - 365 * n1;
          mp = (5 * doy + 2) div 153;
          m = (if mp < 10 then mp + 3 else mp - 9)
      in \<lparr>year = 400 * era + 100 * n100 + 4 * n4 + n1 + (if m \<le> 2 then 1 else 0),
          month = m, day = doy - (153 * mp + 2) div 5 + 1\<rparr>)"

definition days_of_civil :: "int \<Rightarrow> int \<Rightarrow> int \<Rightarrow> int" where
  "days_of_civil y m d =
     (let y' = (if m \<le> 2 then y - 1 else y);
          era = y' div 400; yoe = y' mod 400;
          mp = (if m > 2 then m - 3 else m + 9);
          doy = (153 * mp + 2) div 5 + d - 1
      in 146097 * era + 365 * yoe + yoe div 4 - yoe div 100 + doy - 719468)"

definition is_leap :: "int \<Rightarrow> bool" where
  "is_leap y \<longleftrightarrow> y mod 4 = 0 \<and> (y mod 100 \<noteq> 0 \<or> y mod 400 = 0)"

definition days_in_month :: "int \<Rightarrow> int \<Rightarrow> int" where
  "days_in_month m y =
     (if m = 2 then (if is_leap y then 29 else 28)
      else if m = 4 \<or> m = 6 \<or> m = 9 \<or> m = 11 then 30 else 31)"

text \<open>The parts of an instant that the code reads, in a location.\<close>

definition local_seconds :: "location \<Rightarrow> instant \<Rightarrow> int" where
  "local_seconds loc t = t div Second + loc (t div Second)"

definition time_date :: "location \<Rightarrow> instant \<Rightarrow> civil" where
  "time_date loc t = civil_of_days (local_seconds loc t div 86400)"

definition time_month :: "location \<Rightarrow> instant \<Rightarrow> int" where
  "time_month loc t = month (time_date loc t)"

definition time_day :: "location \<Rightarrow> instant \<Rightarrow> int" where
  "time_day loc t = day (time_date loc t)"

definition time_hour :: "location \<Rightarrow> instant \<Rightarrow> int" where
  "time_hour loc t = local_seconds loc t mod 86400 div 3600"

definition time_minute :: "location \<Rightarrow> instant \<Rightarrow> int" where
  "time_minute loc t = local_seconds loc t mod 3600 div 60"

text \<open>Sunday is 0; the epoch was a Thursday.\<close>

definition time_weekday :: "location \<Rightarrow> instant \<Rightarrow> int" where
  "time_weekday loc t = (local_seconds loc t div 86400 + 4) mod 7"

definition utc :: location where
  "utc s = 0"

section \<open>Formatting in UTC\<close>

definition two_digits :: "int \<Rightarrow> string" where
  "two_digits n = pad_int 2 n"

definition format_base :: "instant \<Rightarrow> string" where
  "format_base t =
     (let s = t div Second; c = civil_of_days (s div 86400); r = s mod 86400
      in pad_int 4 (year c) @ ''-'' @ two_digits (month c) @ ''-'' @ two_digits (day c) @ ''T''
         @ two_digits (r div 3600) @ '':'' @ two_digits (r mod 3600 div 60) @ '':''
         @ two_digits (r mod 60))"

text \<open>The fraction of a second without its trailing zeros, nothing for a whole second.\<close>

definition format_frac :: "int \<Rightarrow> string" where
  "format_frac ns =
     (let ds = rev (dropWhile (\<lambda>c. c = CHR ''0'') (rev (pad_int 9 ns)))
      in if ds = [] then [] else CHR ''.'' # ds)"

definition format_nano :: "instant \<Rightarrow> string" where
  "format_nano t = format_base t @ format_frac (t mod Second) @ ''Z''"

definition format_sec :: "instant \<Rightarrow> string" where
  "format_sec t = format_base t @ ''Z''"

section \<open>Parsing\<close>

text \<open>Exactly \<open>n\<close> digits, or one or two digits for the hour, as time.Parse reads them.\<close>

definition get_digits :: "nat \<Rightarrow> string \<Rightarrow> (int \<times> string) option" where
  "get_digits n s =
     (if n \<le> length s \<and> list_all is_digit (take n s)
      then Some (int (digits_val (take n s)), drop n s) else None)"

definition get_hour :: "string \<Rightarrow> (int \<times> string) option" where
  "get_hour s = (case get_digits 2 s of None \<Rightarrow> get_digits 1 s | Some r \<Rightarrow> Some r)"

definition get_char :: "char \<Rightarrow> string \<Rightarrow> string option" where
  "get_char c s = (case s of [] \<Rightarrow> None | d # r \<Rightarrow> if d = c then Some r else None)"

text \<open>A fraction is a period or comma and digits; more than nine digits are cut to nine.\<close>

definition get_frac :: "string \<Rightarrow> int \<times> string" where
  "get_frac s =
     (case s of
        c # d # _ \<Rightarrow>
          if (c = CHR ''.'' \<or> c = CHR '','') \<and> is_digit d
          then let ds = takeWhile is_digit (tl s); ds9 = take 9 ds
               in (int (digits_val ds9) * 10 ^ (9 - length ds9), dropWhile is_digit (tl s))
          else (0, s)
      | _ \<Rightarrow> (0, s))"

text \<open>The offset in seconds: Z, or a sign, two digits, a colon and two digits, then the end.\<close>

definition get_zone :: "string \<Rightarrow> int option" where
  "get_zone s =
     (if s = ''Z'' then Some 0
      else if length s = 6 \<and> (hd s = CHR ''+'' \<or> hd s = CHR ''-'') \<and> s ! 3 = CHR '':''
              \<and> list_all is_digit (take 2 (drop 1 s)) \<and> list_all is_digit (drop 4 s)
           then let hr = int (digits_val (take 2 (drop 1 s))); mm = int (digits_val (drop 4 s));
                    off = 3600 * hr + 60 * mm
                in if hr > 24 \<or> mm > 60 then None
                   else Some (if hd s = CHR ''-'' then - off else off)
      else None)"

definition parse_date :: "string \<Rightarrow> ((int \<times> int \<times> int) \<times> string) option" where
  "parse_date s =
     do {
       (y, s) \<leftarrow> get_digits 4 s; s \<leftarrow> get_char CHR ''-'' s;
       (mo, s) \<leftarrow> get_digits 2 s; s \<leftarrow> get_char CHR ''-'' s;
       (d, s) \<leftarrow> get_digits 2 s; s \<leftarrow> get_char CHR ''T'' s;
       if 1 \<le> mo \<and> mo \<le> 12 \<and> 1 \<le> d \<and> d \<le> days_in_month mo y then Some ((y, mo, d), s) else None
     }"

definition parse_clock :: "string \<Rightarrow> ((int \<times> int \<times> int) \<times> string) option" where
  "parse_clock s =
     do {
       (h, s) \<leftarrow> get_hour s; s \<leftarrow> get_char CHR '':'' s;
       (mi, s) \<leftarrow> get_digits 2 s; s \<leftarrow> get_char CHR '':'' s;
       (sec, s) \<leftarrow> get_digits 2 s;
       if h \<le> 23 \<and> mi \<le> 59 \<and> sec \<le> 59 then Some ((h, mi, sec), s) else None
     }"

definition parse_rfc3339 :: "string \<Rightarrow> instant option" where
  "parse_rfc3339 s =
     do {
       ((y, mo, d), s) \<leftarrow> parse_date s;
       ((h, mi, sec), s) \<leftarrow> parse_clock s;
       (let (frac, s) = get_frac s
        in do {
          off \<leftarrow> get_zone s;
          Some (Second * (86400 * days_of_civil y mo d + 3600 * h + 60 * mi + sec - off) + frac)
        })
     }"

text \<open>The years the layouts can write with four digits.\<close>

definition year_in_range :: "instant \<Rightarrow> bool" where
  "year_in_range t \<longleftrightarrow>
     (let y = year (civil_of_days (t div Second div 86400)) in 0 \<le> y \<and> y \<le> 9999)"

section \<open>Durations\<close>

text \<open>
  time.ParseDuration. The library scales a fraction with float64 arithmetic; the model scales it
  exactly and rounds down, which is the same for every fraction the unit represents exactly.
\<close>

definition dur_unit :: "string \<Rightarrow> nat option" where
  "dur_unit u =
     map_of [(''ns'', 1), (''us'', 1000), ([CHR 0xC2, CHR 0xB5, CHR 0x73], 1000),
             ([CHR 0xCE, CHR 0xBC, CHR 0x73], 1000), (''ms'', 1000000), (''s'', 1000000000),
             (''m'', 60000000000), (''h'', 3600000000000)] u"

text \<open>The digits of a fraction are read until the accumulated number would overflow.\<close>

fun leading_fraction :: "nat \<Rightarrow> nat \<Rightarrow> string \<Rightarrow> nat \<times> nat" where
  "leading_fraction f scale [] = (f, scale)"
| "leading_fraction f scale (c # s) =
     (if f > (2 ^ 63 - 1) div 10 \<or> 10 * f + digit_val c > 2 ^ 63 then (f, scale)
      else leading_fraction (10 * f + digit_val c) (10 * scale) s)"

text \<open>The integer digits, the fraction digits and what follows the number.\<close>

definition dur_number :: "string \<Rightarrow> string \<times> string \<times> string" where
  "dur_number s =
     (let ip = takeWhile is_digit s; s1 = dropWhile is_digit s
      in case s1 of
           [] \<Rightarrow> (ip, [], [])
         | c # s2 \<Rightarrow> if c = CHR ''.'' then (ip, takeWhile is_digit s2, dropWhile is_digit s2)
                     else (ip, [], s1))"

definition unit_char :: "char \<Rightarrow> bool" where
  "unit_char c \<longleftrightarrow> c \<noteq> CHR ''.'' \<and> \<not> is_digit c"

text \<open>One number with its unit, and the rest of the text.\<close>

definition dur_item :: "string \<Rightarrow> (nat \<times> string) option" where
  "dur_item s =
     (let (ip, fp, s3) = dur_number s;
          u = takeWhile unit_char s3; r = dropWhile unit_char s3;
          v = digits_val ip
      in if (ip = [] \<and> fp = []) \<or> v > 2 ^ 63 \<or> u = [] then None
         else case dur_unit u of None \<Rightarrow> None
         | Some unit \<Rightarrow>
             if v > 2 ^ 63 div unit then None
             else let (f, scale) = leading_fraction 0 1 fp;
                      w = v * unit + f * unit div scale
                  in if w > 2 ^ 63 then None else Some (w, r))"

lemma dur_number_shorter:
  assumes "dur_number s = (ip, fp, t)"
  shows "length t \<le> length s"
proof (cases "dropWhile is_digit s")
  case Nil
  with assms show ?thesis by (simp add: dur_number_def)
next
  case (Cons c r)
  have "length (c # r) \<le> length s" using length_dropWhile_le [of is_digit s] Cons by simp
  moreover have "length t \<le> length (c # r)"
    using assms Cons length_dropWhile_le [of is_digit r]
    by (cases "c = CHR ''.''") (auto simp: dur_number_def)
  ultimately show ?thesis by simp
qed

lemma dur_item_shorter:
  assumes "dur_item s = Some (v, r)"
  shows "length r < length s"
proof -
  obtain ip fp t where t: "dur_number s = (ip, fp, t)" by (cases "dur_number s")
  with assms have r: "takeWhile unit_char t \<noteq> []" "r = dropWhile unit_char t"
    by (auto simp: dur_item_def Let_def split: if_splits option.splits prod.splits)
  have "length (takeWhile unit_char t) + length (dropWhile unit_char t) = length t"
    by (metis length_append takeWhile_dropWhile_id)
  then have "length r < length t" using r by (cases "takeWhile unit_char t") auto
  then show ?thesis using dur_number_shorter [OF t] by simp
qed

function dur_loop :: "nat \<Rightarrow> string \<Rightarrow> nat option" where
  "dur_loop d s =
     (if s = [] then Some d
      else case dur_item s of None \<Rightarrow> None
           | Some (v, r) \<Rightarrow> if d + v > 2 ^ 63 then None else dur_loop (d + v) r)"
  by pat_completeness auto
termination
  by (relation "measure (\<lambda>(d, s). length s)") (auto dest: dur_item_shorter)

declare dur_loop.simps [simp del]

definition parse_duration :: "string \<Rightarrow> duration option" where
  "parse_duration s =
     (let neg = (case s of c # _ \<Rightarrow> c = CHR ''-'' | [] \<Rightarrow> False);
          b = (case s of c # r \<Rightarrow> if c = CHR ''-'' \<or> c = CHR ''+'' then r else s | [] \<Rightarrow> [])
      in if b = ''0'' then Some 0
         else if b = [] then None
         else case dur_loop 0 b of None \<Rightarrow> None
              | Some d \<Rightarrow> if neg then Some (- int d)
                           else if d > 2 ^ 63 - 1 then None else Some (int d))"

text \<open>Duration.String, the form a duration has in log, history and trace messages.\<close>

definition dur_frac :: "nat \<Rightarrow> nat \<Rightarrow> string" where
  "dur_frac prec u =
     (let ds = rev (dropWhile (\<lambda>c. c = CHR ''0'') (rev (pad_int prec (int (u mod 10 ^ prec)))))
      in nat_digits (u div 10 ^ prec) @ (if prec = 0 \<or> ds = [] then [] else CHR ''.'' # ds))"

definition dur_string :: "duration \<Rightarrow> string" where
  "dur_string d =
     (let u = nat \<bar>d\<bar>; secs = u div 1000000000; mins = secs div 60;
          s = dur_frac 9 (u mod 60000000000) @ ''s'';
          body =
            (if u = 0 then ''0s''
             else if u < 1000 then dur_frac 0 u @ ''ns''
             else if u < 1000000 then dur_frac 3 u @ [CHR 0xC2, CHR 0xB5, CHR 0x73]
             else if u < 1000000000 then dur_frac 6 u @ ''ms''
             else if mins = 0 then s
             else if mins div 60 = 0 then nat_digits mins @ ''m'' @ s
             else nat_digits (mins div 60) @ ''h'' @ nat_digits (mins mod 60) @ ''m'' @ s)
      in (if d < 0 then CHR ''-'' # body else body))"

section \<open>Calendar lemmas\<close>

text \<open>The parts of a day count, with their bounds, from which all calendar facts follow.\<close>

lemma civil_parts:
  fixes z :: int
  obtains era n100 n4 n1 doy mp where
    "z + 719468 = 146097 * era + 36524 * n100 + 1461 * n4 + 365 * n1 + doy"
    "0 \<le> n100" "n100 \<le> 3" "0 \<le> n4" "n4 \<le> 24" "0 \<le> n1" "n1 \<le> 3" "0 \<le> doy" "doy \<le> 365"
    "doy = 365 \<longrightarrow> n1 = 3 \<and> (n4 \<le> 23 \<or> n100 = 3)"
    "mp = (5 * doy + 2) div 153" "0 \<le> mp" "mp \<le> 11"
    "civil_of_days z =
       \<lparr>year = 400 * era + 100 * n100 + 4 * n4 + n1 + (if mp < 10 then 0 else 1),
        month = (if mp < 10 then mp + 3 else mp - 9), day = doy - (153 * mp + 2) div 5 + 1\<rparr>"
proof -
  define d where "d = z + 719468"
  define era doe where "era = d div 146097" and "doe = d mod 146097"
  define n100 d1 where "n100 = min (doe div 36524) 3" and "d1 = doe - 36524 * n100"
  define n4 d2 where "n4 = d1 div 1461" and "d2 = d1 - 1461 * n4"
  define n1 doy where "n1 = min (d2 div 365) 3" and "doy = d2 - 365 * n1"
  define mp where "mp = (5 * doy + 2) div 153"
  have doe: "0 \<le> doe" "doe < 146097" by (simp_all add: doe_def)
  have n100: "0 \<le> n100" "n100 \<le> 3" "0 \<le> d1" "d1 \<le> 36524" "n100 < 3 \<Longrightarrow> d1 < 36524"
    using doe div_bounds [of 36524 doe] unfolding n100_def d1_def min_def
    by (auto split: if_splits)
  have n4: "0 \<le> n4" "n4 \<le> 24" "0 \<le> d2" "d2 \<le> 1460"
    using n100 div_bounds [of 1461 d1] unfolding n4_def d2_def by linarith+
  have n1: "0 \<le> n1" "n1 \<le> 3" "0 \<le> doy" "doy \<le> 365" "doy = 365 \<Longrightarrow> n1 = 3 \<and> d2 = 1460"
    using n4 div_bounds [of 365 d2] unfolding n1_def doy_def min_def
    by (auto split: if_splits)
  have leap: "n1 = 3 \<and> (n4 \<le> 23 \<or> n100 = 3)" if "doy = 365"
  proof -
    have "d2 = 1460" "n1 = 3" using n1(5) that by auto
    then have "n100 = 3" if "n4 = 24" using n100(2,5) that d2_def by linarith
    then show ?thesis using n4(2) \<open>n1 = 3\<close> by linarith
  qed
  have mp: "0 \<le> mp" "mp \<le> 11" using n1(3,4) div_bounds [of 153 "5 * doy + 2"] unfolding mp_def by linarith+
  have sum: "z + 719468 = 146097 * era + 36524 * n100 + 1461 * n4 + 365 * n1 + doy"
    by (simp add: doy_def d2_def d1_def doe_def era_def d_def minus_mod_eq_mult_div [symmetric])
  have "civil_of_days z =
       \<lparr>year = 400 * era + 100 * n100 + 4 * n4 + n1
          + (if (if mp < 10 then mp + 3 else mp - 9) \<le> 2 then 1 else 0),
        month = (if mp < 10 then mp + 3 else mp - 9), day = doy - (153 * mp + 2) div 5 + 1\<rparr>"
    by (simp only: civil_of_days_def Let_def mp_def doy_def n1_def d2_def n4_def d1_def n100_def
        doe_def era_def d_def)
  moreover have "(if (if mp < 10 then mp + 3 else mp - 9) \<le> 2 then 1 else 0) = (if mp < 10 then 0 else (1::int))"
    using mp by simp
  ultimately have civil: "civil_of_days z =
       \<lparr>year = 400 * era + 100 * n100 + 4 * n4 + n1 + (if mp < 10 then 0 else 1),
        month = (if mp < 10 then mp + 3 else mp - 9), day = doy - (153 * mp + 2) div 5 + 1\<rparr>"
    by (simp only:)
  from leap have leap: "doy = 365 \<longrightarrow> n1 = 3 \<and> (n4 \<le> 23 \<or> n100 = 3)" by blast
  show ?thesis
    by (rule that [OF sum n100(1,2) n4(1,2) n1(1-4) leap mp_def mp civil])
qed

lemma days_of_civil_of_days:
  "days_of_civil (year (civil_of_days z)) (month (civil_of_days z)) (day (civil_of_days z)) = z"
proof -
  obtain era n100 n4 n1 doy mp where p:
    "z + 719468 = 146097 * era + 36524 * n100 + 1461 * n4 + 365 * n1 + doy"
    "0 \<le> n100" "n100 \<le> 3" "0 \<le> n4" "n4 \<le> 24" "0 \<le> n1" "n1 \<le> 3"
    "mp = (5 * doy + 2) div 153" "0 \<le> mp" "mp \<le> 11"
    "civil_of_days z =
       \<lparr>year = 400 * era + 100 * n100 + 4 * n4 + n1 + (if mp < 10 then 0 else 1),
        month = (if mp < 10 then mp + 3 else mp - 9), day = doy - (153 * mp + 2) div 5 + 1\<rparr>"
    using civil_parts [of z] by metis
  define yoe where "yoe = 100 * n100 + 4 * n4 + n1"
  have yoe: "0 \<le> yoe" "yoe < 400" using p(2-7) unfolding yoe_def by linarith+
  have "yoe div 4 = 25 * n100 + n4" "yoe div 100 = n100"
    by (rule div_eqI; use p(2-7) in \<open>simp add: yoe_def\<close>)+
  note yoe = yoe this
  have "(400 * era + yoe) div 400 = era" "(400 * era + yoe) mod 400 = yoe"
    using yoe by simp_all
  then have "(400 * era + 100 * n100 + 4 * n4 + n1) div 400 = era"
    "(400 * era + 100 * n100 + 4 * n4 + n1) mod 400 = yoe"
    by (simp_all add: yoe_def add.assoc)
  then have "days_of_civil (400 * era + 100 * n100 + 4 * n4 + n1 + (if mp < 10 then 0 else 1))
      (if mp < 10 then mp + 3 else mp - 9) (doy - (153 * mp + 2) div 5 + 1)
      = 146097 * era + 365 * yoe + yoe div 4 - yoe div 100 + doy - 719468"
    using p(9,10) by (cases "mp < 10") (simp_all add: days_of_civil_def Let_def)
  also have "\<dots> = z" using p(1) yoe(3,4) by (simp add: yoe_def)
  finally show ?thesis by (simp add: p(11))
qed

lemma civil_valid:
  fixes z
  defines "c \<equiv> civil_of_days z"
  shows "1 \<le> month c" "month c \<le> 12" "1 \<le> day c" "day c \<le> days_in_month (month c) (year c)"
proof -
  obtain era n100 n4 n1 doy mp where p:
    "0 \<le> n100" "n100 \<le> 3" "0 \<le> n4" "n4 \<le> 24" "0 \<le> n1" "n1 \<le> 3" "0 \<le> doy" "doy \<le> 365"
    "doy = 365 \<longrightarrow> n1 = 3 \<and> (n4 \<le> 23 \<or> n100 = 3)"
    "mp = (5 * doy + 2) div 153" "0 \<le> mp" "mp \<le> 11"
    "civil_of_days z =
       \<lparr>year = 400 * era + 100 * n100 + 4 * n4 + n1 + (if mp < 10 then 0 else 1),
        month = (if mp < 10 then mp + 3 else mp - 9), day = doy - (153 * mp + 2) div 5 + 1\<rparr>"
    using civil_parts [of z] by metis
  show "1 \<le> month c" "month c \<le> 12" using p(11,12) by (simp_all add: c_def p(13))
  have days: "153 * mp \<le> 5 * doy + 2" "5 * doy + 2 < 153 * mp + 153"
    using div_bounds [of 153 "5 * doy + 2"] p(10) by linarith+
  show "1 \<le> day c" using days by (simp add: c_def p(13))
  have leap: "is_leap (400 * era + 100 * n100 + 4 * n4 + n1 + 1)" if "doy = 365"
  proof -
    have n1: "n1 = 3" "n4 \<le> 23 \<or> n100 = 3" using p(9) that by simp_all
    let ?y = "400 * era + 100 * n100 + 4 * n4 + n1 + 1"
    have y: "?y = 4 * (n4 + 1) + 100 * (4 * era + n100)" using n1(1) by simp
    have "?y mod 100 = 4 * (n4 + 1) mod 100" unfolding y by (rule mod_mult_self2)
    moreover have "?y mod 4 = 0" using n1(1) by presburger
    moreover have "?y mod 400 = 0" if "n4 = 24" "n100 = 3" using n1(1) that by presburger
    ultimately show ?thesis using n1(2) p(3,4) by (cases "n4 \<le> 23") (auto simp: is_leap_def)
  qed
  then have leap': "doy \<le> 364 \<or> is_leap (400 * era + 100 * n100 + 4 * n4 + n1 + 1)"
    using p(8) by (cases "doy = 365") auto
  have "mp \<in> {0, 1, 2, 3, 4, 5, 6, 7, 8, 9, 10, 11}" using p(11,12) by (simp, presburger)
  then show "day c \<le> days_in_month (month c) (year c)"
    using leap' days p(8)
    by (auto simp: c_def p(13) days_in_month_def)
qed


section \<open>Round trips\<close>

lemma length_nat_digits: "n < 10 ^ k \<Longrightarrow> 0 < k \<Longrightarrow> length (nat_digits n) \<le> k"
proof (induction k arbitrary: n)
  case (Suc k)
  show ?case
  proof (cases "n < 10")
    case True
    then show ?thesis by (simp add: nat_digits.simps [of n])
  next
    case False
    then have "0 < k" using Suc.prems(1) by (cases k) auto
    moreover have "n div 10 < 10 ^ k"
      using Suc.prems(1) by (simp add: less_mult_imp_div_less mult.commute)
    ultimately show ?thesis using Suc.IH [of "n div 10"] False by (simp add: nat_digits.simps [of n])
  qed
qed simp

lemma pad_int_digits:
  assumes "0 \<le> i" "i < 10 ^ w" "0 < w"
  shows "length (pad_int w i) = w" "list_all is_digit (pad_int w i)" "digits_val (pad_int w i) = nat i"
proof -
  have "nat i < 10 ^ w" using assms(1,2) by (simp add: nat_less_iff)
  then have "length (nat_digits (nat i)) \<le> w" using assms(3) by (rule length_nat_digits)
  then show "length (pad_int w i) = w" using assms(1) by (simp add: pad_int_def zero_pad_def)
  show "list_all is_digit (pad_int w i)" "digits_val (pad_int w i) = nat i"
    using assms(1) by (simp_all add: pad_int_def)
qed

lemma get_digits_pad:
  assumes "0 \<le> i" "i < 10 ^ w" "0 < w"
  shows "get_digits w (pad_int w i @ r) = Some (i, r)"
  using pad_int_digits [OF assms] assms(1) by (simp add: get_digits_def)

lemma get_digits_two: "0 \<le> i \<Longrightarrow> i < 100 \<Longrightarrow> get_digits 2 (two_digits i @ r) = Some (i, r)"
  unfolding two_digits_def by (rule get_digits_pad) simp_all

lemma get_hour_two: "0 \<le> i \<Longrightarrow> i < 100 \<Longrightarrow> get_hour (two_digits i @ r) = Some (i, r)"
  by (simp add: get_hour_def get_digits_two)

lemma get_char_Cons [simp]: "get_char c (c # r) = Some r"
  by (simp add: get_char_def)

lemma parse_date_format:
  assumes "year_in_range t"
  defines "c \<equiv> civil_of_days (t div Second div 86400)"
  shows "parse_date (pad_int 4 (year c) @ ''-'' @ two_digits (month c) @ ''-'' @ two_digits (day c) @ ''T'' @ r)
     = Some ((year c, month c, day c), r)"
proof -
  have y: "0 \<le> year c" "year c < 10 ^ 4" using assms(1) by (auto simp: year_in_range_def c_def Let_def)
  note v = civil_valid [of "t div Second div 86400", folded c_def]
  have "day c < 100" using v(4) by (simp add: days_in_month_def split: if_splits)
  with v y show ?thesis
    by (simp add: parse_date_def get_digits_pad get_digits_two)
qed

lemma parse_clock_format:
  assumes "0 \<le> r" "r < 86400"
  shows "parse_clock (two_digits (r div 3600) @ '':'' @ two_digits (r mod 3600 div 60) @ '':''
     @ two_digits (r mod 60) @ s) = Some ((r div 3600, r mod 3600 div 60, r mod 60), s)"
proof -
  have "0 \<le> r div 3600" "r div 3600 \<le> 23" "0 \<le> r mod 3600 div 60" "r mod 3600 div 60 \<le> 59"
    "0 \<le> r mod 60" "r mod 60 \<le> 59"
    using assms by auto
  then show ?thesis by (simp add: parse_clock_def get_digits_two get_hour_two)
qed

lemma hms_sum: "3600 * (r div 3600) + 60 * (r mod 3600 div 60) + r mod 60 = (r::int)"
proof -
  have "r mod 3600 mod 60 = r mod 60" by (simp add: mod_mod_cancel)
  moreover have "60 * (r mod 3600 div 60) + r mod 3600 mod 60 = r mod 3600" by simp
  ultimately show ?thesis using mult_div_mod_eq [of 3600 r] by linarith
qed

lemma parse_format_gen:
  assumes "year_in_range t" "get_frac s = (f, ''Z'')"
  shows "parse_rfc3339 (format_base t @ s) = Some (Second * (t div Second) + f)"
proof -
  define sec where "sec = t div Second"
  define c where "c = civil_of_days (sec div 86400)"
  define r where "r = sec mod 86400"
  have r: "0 \<le> r" "r < 86400" by (simp_all add: r_def)
  have "days_of_civil (year c) (month c) (day c) = sec div 86400"
    unfolding c_def by (rule days_of_civil_of_days)
  then have "86400 * days_of_civil (year c) (month c) (day c)
      + 3600 * (r div 3600) + 60 * (r mod 3600 div 60) + r mod 60 = sec"
    using hms_sum [of r] mult_div_mod_eq [of 86400 sec] unfolding r_def by linarith
  moreover have "get_zone ''Z'' = Some 0" by (simp add: get_zone_def)
  moreover have "format_base t @ s = pad_int 4 (year c) @ ''-'' @ two_digits (month c) @ ''-'' @
      two_digits (day c) @ ''T'' @ two_digits (r div 3600) @ '':'' @ two_digits (r mod 3600 div 60)
      @ '':'' @ two_digits (r mod 60) @ s"
    by (simp add: format_base_def Let_def c_def r_def sec_def)
  ultimately show ?thesis
    using parse_date_format [OF assms(1)] parse_clock_format [OF r] assms(2)
    by (simp add: parse_rfc3339_def c_def sec_def [symmetric])
qed

lemma strip_zeros_val:
  "digits_val (rev (dropWhile (\<lambda>c. c = CHR ''0'') (rev s)))
     * 10 ^ (length s - length (dropWhile (\<lambda>c. c = CHR ''0'') (rev s))) = digits_val s"
proof (induction s rule: rev_induct)
  case (snoc c s)
  show ?case
  proof (cases "c = CHR ''0''")
    case True
    let ?k = "length (dropWhile (\<lambda>c. c = CHR ''0'') (rev s))"
    have "?k \<le> length s" using length_dropWhile_le [of _ "rev s"] by simp
    then have "length (s @ [c]) - ?k = Suc (length s - ?k)" by simp
    with snoc True show ?thesis by (simp add: digit_val_def)
  qed simp
qed simp

lemma get_frac_format:
  assumes "0 \<le> ns" "ns < Second"
  shows "get_frac (format_frac ns @ ''Z'') = (ns, ''Z'')"
proof -
  define p where "p = pad_int 9 ns"
  define ds where "ds = rev (dropWhile (\<lambda>c. c = CHR ''0'') (rev p))"
  have p: "length p = 9" "list_all is_digit p" "digits_val p = nat ns"
    unfolding p_def using pad_int_digits [of ns 9] assms by simp_all
  have val: "digits_val ds * 10 ^ (9 - length ds) = nat ns"
    using strip_zeros_val [of p] p by (simp add: ds_def)
  have len: "length ds \<le> 9"
    unfolding ds_def using length_dropWhile_le [of _ "rev p"] p(1) by simp
  have dig: "list_all is_digit ds"
    using p(2) unfolding ds_def list_all_iff by (metis set_dropWhileD set_rev)
  have Z: "\<not> is_digit CHR ''Z''" by (simp add: is_digit_def)
  have tw: "takeWhile is_digit (ds @ ''Z'') = ds" "dropWhile is_digit (ds @ ''Z'') = ''Z''"
    using dig Z by (simp_all add: list_all_iff takeWhile_append2 dropWhile_append2)
  have ff: "format_frac ns = (if ds = [] then [] else CHR ''.'' # ds)"
    by (simp add: format_frac_def Let_def ds_def p_def)
  show ?thesis
  proof (cases ds)
    case Nil
    then show ?thesis using val assms unfolding ff by (simp add: get_frac_def)
  next
    case (Cons d r)
    have "int (digits_val ds) * 10 ^ (9 - length ds) = ns"
      using val assms(1) by (metis int_nat_eq of_nat_mult of_nat_numeral of_nat_power)
    with Cons dig tw len show ?thesis by (simp add: ff get_frac_def Let_def)
  qed
qed

lemma parse_format_nano: "year_in_range t \<Longrightarrow> parse_rfc3339 (format_nano t) = Some t"
  unfolding format_nano_def
  using parse_format_gen [of t "format_frac (t mod Second) @ ''Z''"]
    get_frac_format [of "t mod Second"] by simp

lemma parse_format_sec:
  "year_in_range t \<Longrightarrow> parse_rfc3339 (format_sec t) = Some (t - t mod Second)"
  unfolding format_sec_def
  using parse_format_gen [of t "''Z''" 0] by (simp add: get_frac_def minus_mod_eq_mult_div)

lemma parse_duration_range: "parse_duration s = Some d \<Longrightarrow> in_int64 d"
proof -
  have loop: "dur_loop d s = Some r \<Longrightarrow> d \<le> 2 ^ 63 \<Longrightarrow> r \<le> 2 ^ 63" for d s r
  proof (induction d s rule: dur_loop.induct)
    case (1 d s)
    then show ?case
      by (subst (asm) dur_loop.simps) (auto split: if_splits option.splits simp: not_less)
  qed
  assume "parse_duration s = Some d"
  then show ?thesis
    using loop [of 0]
    by (fastforce simp: parse_duration_def Let_def in_int64_def split: if_splits option.splits)
qed

text \<open>A formatted time has no white space at its ends.\<close>

lemma pad_int_head: "pad_int w i \<noteq> [] \<and> \<not> is_space (hd (pad_int w i))"
proof -
  have d: "is_digit c \<Longrightarrow> \<not> is_space c" for c by (auto simp: is_space_code is_digit_def)
  have "list_all is_digit (zero_pad w (nat_digits n))" for n by simp
  then have "is_digit (hd (zero_pad w (nat_digits n)))" for n
    by (metis hd_in_set list_all_iff nat_digits_nonempty zero_pad_nonempty)
  then show ?thesis by (auto simp: pad_int_def d is_space_def [of "CHR ''-''"])
qed

lemma format_trim:
  "trim_space (format_nano t) = format_nano t" "trim_space (format_sec t) = format_sec t"
  using pad_int_head
  by (simp_all add: trim_space_self_iff format_nano_def format_sec_def format_base_def Let_def
      is_space_def [of "CHR ''Z''"])

end
