(* ===== verification/Object_Meta.thy ===== *)
theory Object_Meta
  imports Go_Time
begin

text \<open>
  Resource metadata (resources/agent.go), store keys (store/namespace.go) and optimistic
  concurrency (store/versioning.go).

  \<open>ObjectMeta\<close> is the Go struct. Errors are values of \<open>api_error\<close>, one constructor per error the
  code returns, with the values its text shows; \<open>Panicked\<close> is not an error but a run time panic
  inside the call. The code reads the clock to fill an empty
  creation time; the clock is the argument \<open>now\<close>.

  Shown here: a key built from a valid name is found by every lookup and is unique to its
  namespace and name, a stale write is refused, and an accepted write raises the version.
\<close>

section \<open>Metadata\<close>

record ObjectMeta =
  m_Name :: string
  m_Namespace :: string
  m_Labels :: smap
  m_Annotations :: smap
  m_ResourceVersion :: string
  m_Generation :: int
  m_CreatedAt :: string

datatype api_error =
    ConflictError string string string
  | NameRequired
  | NameHasSeparator string
  | NameStartsWithDot string
  | NameReserved string
  | UnsupportedKind string string
  | InvalidVersion string string
  | InvalidField string string
  | RequiredField string
  | NotFound string string
  | NotClaimedBy string string string
  | NotRunning string
  | Panicked string

definition IsConflict :: "api_error \<Rightarrow> bool" where
  "IsConflict e \<longleftrightarrow> (case e of ConflictError _ _ _ \<Rightarrow> True | _ \<Rightarrow> False)"

definition DefaultNamespace :: string where
  "DefaultNamespace = ''default''"

definition NormalizeNamespace :: "string \<Rightarrow> string" where
  "NormalizeNamespace ns =
     (let ns = trim_space ns in if ns = [] then DefaultNamespace else ns)"

definition NormalizeObjectMetaNamespace :: "ObjectMeta \<Rightarrow> ObjectMeta" where
  "NormalizeObjectMetaNamespace meta = meta\<lparr>m_Namespace := NormalizeNamespace (m_Namespace meta)\<rparr>"

definition reservedSubresourceSuffixes :: "string list" where
  "reservedSubresourceSuffixes = [''status'', ''logs'', ''exec'', ''scale'', ''proxy'', ''binding'']"

definition ValidateMetadataName :: "string \<Rightarrow> api_error option" where
  "ValidateMetadataName name =
     (if name = [] then Some NameRequired
      else if list_ex (List.member [CHR ''/'', CHR '' '', CHR 0x09, CHR 0x0A, CHR 0x0D]) name
        then Some (NameHasSeparator name)
      else if has_prefix name ''.'' \<or> has_prefix name ''..'' then Some (NameStartsWithDot name)
      else if List.member reservedSubresourceSuffixes (to_lower name) then Some (NameReserved name)
      else None)"

section \<open>Store keys\<close>

definition scopedName :: "string \<Rightarrow> string \<Rightarrow> string" where
  "scopedName namespace name = NormalizeNamespace namespace @ ''/'' @ trim_space name"

definition scopedNameFromMeta :: "ObjectMeta \<Rightarrow> string" where
  "scopedNameFromMeta meta = scopedName (m_Namespace meta) (m_Name meta)"

definition normalizeLookupName :: "string \<Rightarrow> string" where
  "normalizeLookupName name =
     (let n = trim_space name
      in if n = [] then scopedName DefaultNamespace []
         else if List.member n CHR ''/''
           then (let (ns, rest) = split_first CHR ''/'' n in scopedName ns rest)
         else scopedName DefaultNamespace n)"

definition IsScopedName :: "string \<Rightarrow> bool" where
  "IsScopedName name =
     (let n = trim_space name
      in List.member n CHR ''/'' \<and>
         (let (a, b) = split_first CHR ''/'' n in trim_space a \<noteq> [] \<and> trim_space b \<noteq> []))"

definition normalizeStoreListCursor :: "string \<Rightarrow> string \<Rightarrow> string" where
  "normalizeStoreListCursor afterName namespace =
     (if afterName = [] then []
      else if IsScopedName afterName then afterName
      else if namespace \<noteq> [] then scopedName namespace afterName
      else scopedName DefaultNamespace afterName)"

section \<open>Versions\<close>

definition nextResourceVersion :: "string \<Rightarrow> string option" where
  "nextResourceVersion current =
     (let cur = trim_space current
      in if cur = [] then Some ''1''
         else case atoi cur of
                None \<Rightarrow> None
              | Some n \<Rightarrow> if n < 0 then None else Some (itoa (wrap64 (n + 1))))"

definition initializeCreateMetadata :: "instant \<Rightarrow> string \<Rightarrow> ObjectMeta \<Rightarrow> api_error + ObjectMeta" where
  "initializeCreateMetadata now resource meta =
     (let expected = trim_space (m_ResourceVersion meta)
      in if expected \<noteq> [] \<and> expected \<noteq> ''0'' then Inl (ConflictError resource expected [])
         else Inr (meta\<lparr>m_ResourceVersion := ''1'',
                        m_Generation := (if m_Generation meta \<le> 0 then 1 else m_Generation meta),
                        m_CreatedAt := (if trim_space (m_CreatedAt meta) = [] then format_sec now
                                        else m_CreatedAt meta)\<rparr>))"

definition initializeUpdateMetadata ::
  "instant \<Rightarrow> string \<Rightarrow> ObjectMeta \<Rightarrow> ObjectMeta \<Rightarrow> bool \<Rightarrow> api_error + ObjectMeta" where
  "initializeUpdateMetadata now resource meta current specChanged =
     (let expected = trim_space (m_ResourceVersion meta)
      in if expected \<noteq> [] \<and> expected \<noteq> m_ResourceVersion current
         then Inl (ConflictError resource expected (m_ResourceVersion current))
         else case nextResourceVersion (m_ResourceVersion current) of
                None \<Rightarrow> Inl (InvalidVersion resource (m_ResourceVersion current))
              | Some next \<Rightarrow>
                  let gen = (if m_Generation current \<le> 0 then 1 else m_Generation current)
                  in Inr (meta\<lparr>m_ResourceVersion := next,
                               m_Generation := (if specChanged then gen + 1 else gen),
                               m_CreatedAt := (if trim_space (m_CreatedAt current) = []
                                               then format_sec now else m_CreatedAt current)\<rparr>))"

section \<open>Names are sound keys\<close>

lemma NormalizeNamespace_trimmed [simp]:
  "trim_space (NormalizeNamespace ns) = NormalizeNamespace ns" "NormalizeNamespace ns \<noteq> []"
  by (auto simp: NormalizeNamespace_def DefaultNamespace_def Let_def trim_space_id is_space_def)

lemma NormalizeNamespace_idem [simp]: "NormalizeNamespace (NormalizeNamespace ns) = NormalizeNamespace ns"
  by (simp add: NormalizeNamespace_def [of "NormalizeNamespace ns"])

lemma NormalizeNamespace_trim [simp]: "NormalizeNamespace (trim_space ns) = NormalizeNamespace ns"
  by (simp add: NormalizeNamespace_def)

lemma NormalizeNamespace_no_slash:
  "CHR ''/'' \<notin> set ns \<Longrightarrow> CHR ''/'' \<notin> set (NormalizeNamespace ns)"
  using set_trim_space [of ns] by (auto simp: NormalizeNamespace_def DefaultNamespace_def Let_def)

lemma valid_name_chars:
  assumes "ValidateMetadataName n = None"
  shows "n \<noteq> []" "CHR ''/'' \<notin> set n"
  using assms by (auto simp: ValidateMetadataName_def list_ex_iff split: if_splits)

lemma valid_name_trim_no_slash:
  "ValidateMetadataName n = None \<Longrightarrow> CHR ''/'' \<notin> set (trim_space n)"
  using valid_name_chars(2) [of n] set_trim_space [of n] by blast

lemma normalizeLookupName_scopedName:
  assumes "CHR ''/'' \<notin> set ns" "trim_space n \<noteq> []"
  shows "normalizeLookupName (scopedName ns n) = scopedName ns n"
proof -
  let ?k = "scopedName ns n"
  have "trim_space ?k = ?k"
    unfolding scopedName_def using assms(2) by (intro trim_space_append) simp_all
  moreover have "split_first CHR ''/'' ?k = (NormalizeNamespace ns, trim_space n)"
    using split_first_append [of "CHR ''/''" "NormalizeNamespace ns" "trim_space n"]
      NormalizeNamespace_no_slash [OF assms(1)]
    by (simp add: scopedName_def)
  ultimately show ?thesis
    by (simp add: normalizeLookupName_def Let_def) (simp add: scopedName_def)
qed

lemma scopedName_inject:
  assumes "ValidateMetadataName n = None" "ValidateMetadataName n' = None"
    and "scopedName ns n = scopedName ns' n'"
  shows "NormalizeNamespace ns = NormalizeNamespace ns' \<and> trim_space n = trim_space n'"
  using append_last_unique [of "NormalizeNamespace ns" "CHR ''/''" "trim_space n"]
    assms valid_name_trim_no_slash by (simp add: scopedName_def)

section \<open>Versions only grow\<close>

lemma initializeUpdateMetadata_stale:
  "trim_space (m_ResourceVersion meta) \<noteq> [] \<Longrightarrow>
   trim_space (m_ResourceVersion meta) \<noteq> m_ResourceVersion current \<Longrightarrow>
   initializeUpdateMetadata now r meta current ch
     = Inl (ConflictError r (trim_space (m_ResourceVersion meta)) (m_ResourceVersion current))"
  by (simp add: initializeUpdateMetadata_def Let_def)

lemma itoa_trim [simp]: "trim_space (itoa i) = itoa i"
proof (rule trim_space_id)
  have "is_digit c \<Longrightarrow> \<not> is_space c" for c by (auto simp: is_space_code is_digit_def)
  moreover have "\<not> is_space CHR ''-''" by (simp add: is_space_def)
  ultimately show "list_all (\<lambda>c. \<not> is_space c) (itoa i)"
    using nat_digits_all unfolding itoa_def list_all_iff by (auto simp: list_all_iff)
qed

lemma nextResourceVersion_itoa:
  "0 \<le> n \<Longrightarrow> n < 2 ^ 63 - 1 \<Longrightarrow> nextResourceVersion (itoa n) = Some (itoa (n + 1))"
proof -
  assume n: "0 \<le> n" "n < 2 ^ 63 - 1"
  then have "in_int64 n" "in_int64 (n + 1)" by (simp_all add: in_int64_bounds)
  moreover have "itoa n \<noteq> []" by (simp add: itoa_def)
  ultimately show ?thesis using n by (simp add: nextResourceVersion_def wrap64_id)
qed

lemma itoa_numerals: "itoa 1 = ''1''" "itoa 0 = ''0''" "itoa 2 = ''2''"
  by code_simp+

end
