(* ===== verification/Task_Types.thy ===== *)
theory Task_Types
  imports Object_Meta
begin

text \<open>
  The Task resource and its normalisation (resources/resource_types.go), field by field. A nil
  slice and an empty slice are both \<open>[]\<close>, a nil map and an empty map both the empty map, so the
  steps of Normalize that turn nil into empty are identities here. Pointers are options. Go's int
  and int64 are \<^typ>\<open>int\<close>; where a component computes with them so that they could overflow, it
  wraps explicitly.

  Shown here: normalisation establishes the task's well-formedness and is idempotent.
\<close>

section \<open>Data\<close>

record TaskRetryPolicy =
  rp_MaxAttempts :: int
  rp_Backoff :: string

record TaskMessageRetryPolicy =
  mr_MaxAttempts :: int
  mr_Backoff :: string
  mr_MaxBackoff :: string
  mr_Jitter :: string
  mr_NonRetryable :: "string list"

record TaskRequirements =
  rq_Region :: string
  rq_GPU :: bool
  rq_Model :: string

record TaskSpec =
  sp_System :: string
  sp_Mode :: string
  sp_Input :: smap
  sp_Priority :: string
  sp_MaxTurns :: int
  sp_Retry :: TaskRetryPolicy
  sp_MessageRetry :: TaskMessageRetryPolicy
  sp_Requirements :: TaskRequirements

record TaskTraceEvent =
  te_Timestamp :: string
  te_StepID :: string
  te_Attempt :: int
  te_Step :: int
  te_BranchID :: string
  te_Type :: string
  te_Agent :: string
  te_Tool :: string
  te_ToolContractVersion :: string
  te_ToolRequestID :: string
  te_ToolAttempt :: int
  te_ErrorCode :: string
  te_ErrorReason :: string
  te_Retryable :: "bool option"
  te_Message :: string
  te_LatencyMS :: int
  te_Tokens :: int
  te_InputTokens :: int
  te_OutputTokens :: int
  te_TokenUsageSource :: string
  te_ToolCalls :: int
  te_MemoryWrites :: int
  te_ToolAuthProfile :: string
  te_ToolAuthSecretRef :: string

record TaskHistoryEvent =
  he_Timestamp :: string
  he_Type :: string
  he_Worker :: string
  he_Message :: string

record TaskMessage =
  tm_Timestamp :: string
  tm_MessageID :: string
  tm_IdempotencyKey :: string
  tm_TaskID :: string
  tm_Attempt :: int
  tm_System :: string
  tm_FromAgent :: string
  tm_ToAgent :: string
  tm_BranchID :: string
  tm_ParentBranchID :: string
  tm_Type :: string
  tm_Content :: string
  tm_TraceID :: string
  tm_ParentID :: string
  tm_Phase :: string
  tm_Attempts :: int
  tm_MaxAttempts :: int
  tm_LastError :: string
  tm_Worker :: string
  tm_ProcessedAt :: string
  tm_NextAttemptAt :: string
  tm_DelegateOf :: string

record TaskMessageIdempotency =
  mi_Key :: string
  mi_MessageID :: string
  mi_State :: string
  mi_UpdatedAt :: string
  mi_ExpiresAt :: string
  mi_Worker :: string

record TaskJoinSource =
  js_MessageID :: string
  js_FromAgent :: string
  js_BranchID :: string
  js_Timestamp :: string
  js_Payload :: string

record TaskJoinState =
  jn_Attempt :: int
  jn_Node :: string
  jn_Mode :: string
  jn_Expected :: int
  jn_QuorumRequired :: int
  jn_Activated :: bool
  jn_ActivatedAt :: string
  jn_ActivatedBy :: string
  jn_Sources :: "TaskJoinSource list"

text \<open>The Go struct TaskDelegationState has the same fields as TaskJoinState.\<close>

type_synonym TaskDelegationState = TaskJoinState

record TaskBlockedOn =
  bo_Kind :: string
  bo_Name :: string
  bo_Reason :: string

record AgentJobStepEvt =
  jv_Timestamp :: string
  jv_Type :: string
  jv_Step :: int
  jv_Tool :: string
  jv_Message :: string
  jv_ErrorCode :: string
  jv_ErrorReason :: string
  jv_Retryable :: "bool option"
  jv_ToolContractVersion :: string
  jv_ToolRequestID :: string
  jv_ToolAttempt :: int
  jv_LatencyMS :: int
  jv_Tokens :: int
  jv_InputTokens :: int
  jv_OutputTokens :: int
  jv_UsageSource :: string
  jv_ToolAuthProfile :: string
  jv_ToolAuthSecretRef :: string

record AgentJobResult =
  jr_Output :: string
  jr_LastEvent :: string
  jr_Steps :: int
  jr_ToolCalls :: int
  jr_MemoryWrites :: int
  jr_EstimatedTokens :: int
  jr_TokensUsed :: int
  jr_TokenSource :: string
  jr_DurationMS :: int
  jr_StepEvents :: "AgentJobStepEvt list"
  jr_Events :: "string list"
  jr_Error :: string
  jr_ExitReason :: string

record TaskStatus =
  ts_Phase :: string
  ts_LastError :: string
  ts_StartedAt :: string
  ts_CompletedAt :: string
  ts_NextAttemptAt :: string
  ts_Attempts :: int
  ts_Output :: smap
  ts_AssignedWorker :: string
  ts_ClaimedBy :: string
  ts_LeaseUntil :: string
  ts_LastHeartbeat :: string
  ts_Trace :: "TaskTraceEvent list"
  ts_History :: "TaskHistoryEvent list"
  ts_Messages :: "TaskMessage list"
  ts_MessageIdempotency :: "TaskMessageIdempotency list"
  ts_JoinStates :: "TaskJoinState list"
  ts_DelegationStates :: "TaskDelegationState list"
  ts_BlockedOn :: "TaskBlockedOn option"
  ts_ObservedGeneration :: int
  ts_AgentJobInput :: smap
  ts_AgentJobAgent :: string
  ts_AgentJobMessageID :: string
  ts_AgentJobResult :: "AgentJobResult option"

record Task =
  t_APIVersion :: string
  t_Kind :: string
  t_Metadata :: ObjectMeta
  t_Spec :: TaskSpec
  t_Status :: TaskStatus

text \<open>Go's assignment to a nested field \<open>task.Status.f = v\<close>.\<close>

abbreviation on_status :: "(TaskStatus \<Rightarrow> TaskStatus) \<Rightarrow> Task \<Rightarrow> Task" where
  "on_status f t \<equiv> t\<lparr>t_Status := f (t_Status t)\<rparr>"

section \<open>Zero values\<close>

text \<open>The Go zero values of the structs, which composite literals build on.\<close>

definition zero_meta :: ObjectMeta where
  "zero_meta = \<lparr>m_Name = [], m_Namespace = [], m_Labels = fmempty, m_Annotations = fmempty,
     m_ResourceVersion = [], m_Generation = 0, m_CreatedAt = []\<rparr>"

definition zero_TaskSpec :: TaskSpec where
  "zero_TaskSpec = \<lparr>sp_System = [], sp_Mode = [], sp_Input = fmempty, sp_Priority = [], sp_MaxTurns = 0,
     sp_Retry = \<lparr>rp_MaxAttempts = 0, rp_Backoff = []\<rparr>,
     sp_MessageRetry = \<lparr>mr_MaxAttempts = 0, mr_Backoff = [], mr_MaxBackoff = [], mr_Jitter = [],
       mr_NonRetryable = []\<rparr>,
     sp_Requirements = \<lparr>rq_Region = [], rq_GPU = False, rq_Model = []\<rparr>\<rparr>"

definition zero_TraceEvent :: TaskTraceEvent where
  "zero_TraceEvent = \<lparr>te_Timestamp = [], te_StepID = [], te_Attempt = 0, te_Step = 0, te_BranchID = [],
     te_Type = [], te_Agent = [], te_Tool = [], te_ToolContractVersion = [], te_ToolRequestID = [],
     te_ToolAttempt = 0, te_ErrorCode = [], te_ErrorReason = [], te_Retryable = None, te_Message = [],
     te_LatencyMS = 0, te_Tokens = 0, te_InputTokens = 0, te_OutputTokens = 0,
     te_TokenUsageSource = [], te_ToolCalls = 0, te_MemoryWrites = 0, te_ToolAuthProfile = [],
     te_ToolAuthSecretRef = []\<rparr>"

definition zero_TaskMessage :: TaskMessage where
  "zero_TaskMessage = \<lparr>tm_Timestamp = [], tm_MessageID = [], tm_IdempotencyKey = [], tm_TaskID = [],
     tm_Attempt = 0, tm_System = [], tm_FromAgent = [], tm_ToAgent = [], tm_BranchID = [],
     tm_ParentBranchID = [], tm_Type = [], tm_Content = [], tm_TraceID = [], tm_ParentID = [],
     tm_Phase = [], tm_Attempts = 0, tm_MaxAttempts = 0, tm_LastError = [], tm_Worker = [],
     tm_ProcessedAt = [], tm_NextAttemptAt = [], tm_DelegateOf = []\<rparr>"

definition zero_JoinState :: TaskJoinState where
  "zero_JoinState = \<lparr>jn_Attempt = 0, jn_Node = [], jn_Mode = [], jn_Expected = 0,
     jn_QuorumRequired = 0, jn_Activated = False, jn_ActivatedAt = [], jn_ActivatedBy = [],
     jn_Sources = []\<rparr>"

definition zero_TaskStatus :: TaskStatus where
  "zero_TaskStatus = \<lparr>ts_Phase = [], ts_LastError = [], ts_StartedAt = [], ts_CompletedAt = [],
     ts_NextAttemptAt = [], ts_Attempts = 0, ts_Output = fmempty, ts_AssignedWorker = [],
     ts_ClaimedBy = [], ts_LeaseUntil = [], ts_LastHeartbeat = [], ts_Trace = [], ts_History = [],
     ts_Messages = [], ts_MessageIdempotency = [], ts_JoinStates = [], ts_DelegationStates = [],
     ts_BlockedOn = None, ts_ObservedGeneration = 0, ts_AgentJobInput = fmempty,
     ts_AgentJobAgent = [], ts_AgentJobMessageID = [], ts_AgentJobResult = None\<rparr>"

definition zero_Task :: Task where
  "zero_Task = \<lparr>t_APIVersion = [], t_Kind = [], t_Metadata = zero_meta, t_Spec = zero_TaskSpec,
     t_Status = zero_TaskStatus\<rparr>"

lemmas zero_defs = zero_meta_def zero_TaskSpec_def zero_TraceEvent_def zero_TaskMessage_def
  zero_JoinState_def zero_TaskStatus_def zero_Task_def

section \<open>Normalisation\<close>

definition normalize_message_retry ::
  "TaskRetryPolicy \<Rightarrow> TaskMessageRetryPolicy \<Rightarrow> api_error + TaskMessageRetryPolicy" where
  "normalize_message_retry retry mr =
     (let ma = (if mr_MaxAttempts mr \<le> 0 then rp_MaxAttempts retry else mr_MaxAttempts mr);
          ma = (if ma \<le> 0 then 1 else ma);
          bk = (if trim_space (mr_Backoff mr) = [] then rp_Backoff retry else mr_Backoff mr);
          bk = (if trim_space bk = [] then ''0s'' else bk);
          mb = (if trim_space (mr_MaxBackoff mr) = [] then ''24h'' else mr_MaxBackoff mr);
          j = to_lower (trim_space (mr_Jitter mr));
          jitter = (if j = [] then ''full'' else j)
      in if parse_duration bk = None then Inl (InvalidField ''spec.message_retry.backoff'' bk)
         else if parse_duration mb = None
           then Inl (InvalidField ''spec.message_retry.max_backoff'' mb)
         else if \<not> List.member [''none'', ''full'', ''equal''] jitter
           then Inl (InvalidField ''spec.message_retry.jitter'' (mr_Jitter mr))
         else Inr (mr\<lparr>mr_MaxAttempts := ma, mr_Backoff := bk, mr_MaxBackoff := mb,
                      mr_Jitter := jitter\<rparr>))"

definition normalize_retry :: "TaskRetryPolicy \<Rightarrow> api_error + TaskRetryPolicy" where
  "normalize_retry rp =
     (let ma = (if rp_MaxAttempts rp \<le> 0 then 1 else rp_MaxAttempts rp);
          bk = (if rp_Backoff rp = [] then ''0s'' else rp_Backoff rp)
      in if parse_duration bk = None then Inl (InvalidField ''spec.retry.backoff'' bk)
         else Inr (rp\<lparr>rp_MaxAttempts := ma, rp_Backoff := bk\<rparr>))"

definition normalize_task_spec :: "TaskSpec \<Rightarrow> api_error + TaskSpec" where
  "normalize_task_spec sp =
     (let m = to_lower (trim_space (sp_Mode sp));
          mode = (if m = [] then ''run'' else m);
          sys = (if mode = ''run'' then trim_space (sp_System sp) else sp_System sp);
          prio = (if sp_Priority sp = [] then ''normal'' else sp_Priority sp)
      in if \<not> List.member [''run'', ''template''] mode
           then Inl (InvalidField ''spec.mode'' (sp_Mode sp))
         else if mode = ''run'' \<and> sys = [] then Inl (RequiredField ''spec.system'')
         else if sp_MaxTurns sp < 0 then Inl (InvalidField ''spec.max_turns'' (itoa (sp_MaxTurns sp)))
         else case normalize_retry (sp_Retry sp) of
                Inl e \<Rightarrow> Inl e
              | Inr rp \<Rightarrow>
                  (case normalize_message_retry rp (sp_MessageRetry sp) of
                     Inl e \<Rightarrow> Inl e
                   | Inr mr \<Rightarrow> Inr (sp\<lparr>sp_Mode := mode, sp_System := sys, sp_Priority := prio,
                                       sp_Retry := rp, sp_MessageRetry := mr\<rparr>)))"

definition normalize_task_status :: "TaskStatus \<Rightarrow> TaskStatus" where
  "normalize_task_status s =
     (let b = map_option (\<lambda>b. b\<lparr>bo_Kind := trim_space (bo_Kind b), bo_Name := trim_space (bo_Name b),
                               bo_Reason := trim_space (bo_Reason b)\<rparr>) (ts_BlockedOn s);
          b = (case b of
                 Some x \<Rightarrow> if bo_Kind x = [] \<and> bo_Name x = [] \<and> bo_Reason x = [] then None else Some x
               | None \<Rightarrow> None)
      in s\<lparr>ts_Phase := (if ts_Phase s = [] then ''Pending'' else ts_Phase s), ts_BlockedOn := b\<rparr>)"

definition Task_Normalize :: "Task \<Rightarrow> api_error + Task" where
  "Task_Normalize t =
     (let api = (if t_APIVersion t = [] then ''orloj.dev/v1'' else t_APIVersion t);
          kind = (if t_Kind t = [] then ''Task'' else t_Kind t);
          meta = NormalizeObjectMetaNamespace (t_Metadata t)
      in if \<not> equal_fold kind ''Task'' then Inl (UnsupportedKind kind ''Task'')
         else case ValidateMetadataName (m_Name meta) of
                Some e \<Rightarrow> Inl e
              | None \<Rightarrow>
                  (case normalize_task_spec (t_Spec t) of
                     Inl e \<Rightarrow> Inl e
                   | Inr sp \<Rightarrow>
                       Inr (t\<lparr>t_APIVersion := api, t_Kind := kind, t_Metadata := meta, t_Spec := sp,
                              t_Status := normalize_task_status (t_Status t)\<rparr>)))"

section \<open>What normalisation establishes\<close>

definition retry_ok :: "TaskRetryPolicy \<Rightarrow> bool" where
  "retry_ok rp \<longleftrightarrow> 1 \<le> rp_MaxAttempts rp \<and> rp_Backoff rp \<noteq> [] \<and> parse_duration (rp_Backoff rp) \<noteq> None"

definition message_retry_ok :: "TaskMessageRetryPolicy \<Rightarrow> bool" where
  "message_retry_ok mr \<longleftrightarrow>
     1 \<le> mr_MaxAttempts mr
     \<and> trim_space (mr_Backoff mr) \<noteq> [] \<and> parse_duration (mr_Backoff mr) \<noteq> None
     \<and> trim_space (mr_MaxBackoff mr) \<noteq> [] \<and> parse_duration (mr_MaxBackoff mr) \<noteq> None
     \<and> mr_Jitter mr \<in> {''none'', ''full'', ''equal''}"

definition spec_ok :: "TaskSpec \<Rightarrow> bool" where
  "spec_ok sp \<longleftrightarrow>
     sp_Mode sp \<in> {''run'', ''template''}
     \<and> (sp_Mode sp = ''run'' \<longrightarrow> sp_System sp \<noteq> [] \<and> trim_space (sp_System sp) = sp_System sp)
     \<and> sp_Priority sp \<noteq> [] \<and> 0 \<le> sp_MaxTurns sp
     \<and> retry_ok (sp_Retry sp) \<and> message_retry_ok (sp_MessageRetry sp)"

definition blocked_ok :: "TaskBlockedOn option \<Rightarrow> bool" where
  "blocked_ok b \<longleftrightarrow>
     (case b of None \<Rightarrow> True
      | Some x \<Rightarrow> trim_space (bo_Kind x) = bo_Kind x \<and> trim_space (bo_Name x) = bo_Name x
          \<and> trim_space (bo_Reason x) = bo_Reason x
          \<and> (bo_Kind x \<noteq> [] \<or> bo_Name x \<noteq> [] \<or> bo_Reason x \<noteq> []))"

definition task_ok :: "Task \<Rightarrow> bool" where
  "task_ok t \<longleftrightarrow>
     t_APIVersion t \<noteq> [] \<and> t_Kind t \<noteq> [] \<and> equal_fold (t_Kind t) ''Task''
     \<and> NormalizeNamespace (m_Namespace (t_Metadata t)) = m_Namespace (t_Metadata t)
     \<and> ValidateMetadataName (m_Name (t_Metadata t)) = None
     \<and> spec_ok (t_Spec t) \<and> ts_Phase (t_Status t) \<noteq> [] \<and> blocked_ok (ts_BlockedOn (t_Status t))"

lemmas task_ok_defs = task_ok_def spec_ok_def retry_ok_def message_retry_ok_def blocked_ok_def

lemma trim_word [simp]: "list_all (\<lambda>c. \<not> is_space c) (c # s) \<Longrightarrow> trim_space (c # s) = c # s"
  by (rule trim_space_id)

lemma literal_words:
  "trim_space ''run'' = ''run''" "trim_space ''template'' = ''template''"
  "trim_space ''none'' = ''none''" "trim_space ''full'' = ''full''"
  "trim_space ''equal'' = ''equal''" "trim_space ''0s'' = ''0s''" "trim_space ''24h'' = ''24h''"
  by (simp_all add: is_space_def)

lemma literal_lower:
  "to_lower ''run'' = ''run''" "to_lower ''template'' = ''template''"
  "to_lower ''none'' = ''none''" "to_lower ''full'' = ''full''" "to_lower ''equal'' = ''equal''"
  by (simp_all add: to_lower_def lower_char_def)

lemma parse_defaults:
  "parse_duration ''0s'' = Some 0" "parse_duration ''24h'' = Some 86400000000000"
  by code_simp+

lemma normalize_retry_ok: "normalize_retry rp = Inr rp' \<Longrightarrow> retry_ok rp'"
  by (auto simp: normalize_retry_def retry_ok_def Let_def split: if_splits)

lemma normalize_retry_id: "retry_ok rp \<Longrightarrow> normalize_retry rp = Inr rp"
  by (auto simp: normalize_retry_def retry_ok_def Let_def)

lemma normalize_message_retry_ok:
  "normalize_message_retry rp mr = Inr mr' \<Longrightarrow> message_retry_ok mr'"
  by (auto simp: normalize_message_retry_def message_retry_ok_def Let_def literal_words parse_defaults
      split: if_splits)

lemma normalize_message_retry_id:
  "message_retry_ok mr \<Longrightarrow> normalize_message_retry rp mr = Inr mr"
  by (auto simp: normalize_message_retry_def message_retry_ok_def Let_def literal_words literal_lower)

lemma normalize_task_spec_ok: "normalize_task_spec sp = Inr sp' \<Longrightarrow> spec_ok sp'"
  by (auto simp: normalize_task_spec_def spec_ok_def Let_def not_less
      split: if_splits sum.splits dest: normalize_retry_ok normalize_message_retry_ok)

lemma normalize_task_spec_id: "spec_ok sp \<Longrightarrow> normalize_task_spec sp = Inr sp"
  by (auto simp: normalize_task_spec_def spec_ok_def Let_def literal_words literal_lower normalize_retry_id
      normalize_message_retry_id)

lemma normalize_task_status_ok:
  "ts_Phase (normalize_task_status s) \<noteq> []" "blocked_ok (ts_BlockedOn (normalize_task_status s))"
  by (auto simp: normalize_task_status_def blocked_ok_def Let_def split: option.splits)

lemma normalize_task_status_id:
  "ts_Phase s \<noteq> [] \<Longrightarrow> blocked_ok (ts_BlockedOn s) \<Longrightarrow> normalize_task_status s = s"
  by (cases "ts_BlockedOn s") (auto simp: normalize_task_status_def blocked_ok_def Let_def)

lemma Task_Normalize_ok: "Task_Normalize t = Inr t' \<Longrightarrow> task_ok t'"
  by (auto simp: Task_Normalize_def task_ok_def Let_def NormalizeObjectMetaNamespace_def
      normalize_task_status_ok split: if_splits sum.splits option.splits
      dest: normalize_task_spec_ok)

lemma Task_Normalize_id: "task_ok t \<Longrightarrow> Task_Normalize t = Inr t"
  by (auto simp: Task_Normalize_def task_ok_def Let_def NormalizeObjectMetaNamespace_def
      normalize_task_spec_id normalize_task_status_id)

end
