(* ===== verification/Agent_Message.thy ===== *)
theory Agent_Message
  imports Object_Meta
begin

text \<open>
  Messages between agents and the in-process message bus (runtime/agent_message_bus.go,
  runtime/agent_message_bus_memory.go).

  The bus is a record: the remembered messages, the recently published ids with their times, the
  subscribers with the contents of their channels, and the timers of delayed redeliveries. A
  critical section, or a send or receive on a channel, is one step; a consumer receives a message
  (\<open>Receive\<close>), handles it while other steps may happen, and settles it (\<open>Settle\<close>) by the
  handler's error. The clock is read once per call.

  Shown here: the bounds and the routing of everything the bus holds, as an invariant of every
  run; a message published again within the window reaches nobody twice; a new subscriber is
  handed the remembered messages in order; a rejected message is lost when the channel is full.
\<close>

section \<open>Messages\<close>

record AgentMessage =
  am_MessageID :: string
  am_IdempotencyKey :: string
  am_TaskID :: string
  am_Attempt :: int
  am_System :: string
  am_Namespace :: string
  am_FromAgent :: string
  am_ToAgent :: string
  am_BranchID :: string
  am_ParentBranchID :: string
  am_Type :: string
  am_Payload :: string
  am_Timestamp :: string
  am_TraceID :: string
  am_ParentID :: string
  am_DelegateOf :: string

record AgentMessageSubscription =
  su_Namespace :: string
  su_Agent :: string
  su_Durable :: string

text \<open>
  What a handler returns to the bus: a RetryRequestError with its delay, or any other error.
\<close>

datatype delivery_error =
    RetryRequest duration string
  | OtherError string

definition RetryAfter :: "duration \<Rightarrow> string \<Rightarrow> delivery_error" where
  "RetryAfter delay cause = RetryRequest (if delay < 0 then 0 else delay) cause"

definition retryDelayFromError :: "delivery_error option \<Rightarrow> duration \<times> bool" where
  "retryDelayFromError err =
     (case err of
        None \<Rightarrow> (0, False)
      | Some (OtherError _) \<Rightarrow> (0, False)
      | Some (RetryRequest d _) \<Rightarrow> if d < 0 then (0, True) else (d, True))"

definition normalizeAgentMessage :: "instant \<Rightarrow> AgentMessage \<Rightarrow> string + AgentMessage" where
  "normalizeAgentMessage now m =
     (let m = m\<lparr>am_Namespace := NormalizeNamespace (am_Namespace m),
                am_FromAgent := trim_space (am_FromAgent m),
                am_ToAgent := trim_space (am_ToAgent m),
                am_TaskID := trim_space (am_TaskID m),
                am_System := trim_space (am_System m),
                am_Type := trim_space (am_Type m),
                am_Payload := trim_space (am_Payload m),
                am_TraceID := trim_space (am_TraceID m),
                am_ParentID := trim_space (am_ParentID m),
                am_BranchID := trim_space (am_BranchID m),
                am_ParentBranchID := trim_space (am_ParentBranchID m),
                am_IdempotencyKey := trim_space (am_IdempotencyKey m),
                am_DelegateOf := trim_space (am_DelegateOf m)\<rparr>
      in if am_ToAgent m = [] then Inl ''to_agent is required''
         else
           let m = (if am_Type m = [] then m\<lparr>am_Type := ''task_handoff''\<rparr> else m);
               m = (if am_Attempt m \<le> 0 then m\<lparr>am_Attempt := 1\<rparr> else m);
               m = (if trim_space (am_Timestamp m) = [] then m\<lparr>am_Timestamp := format_nano now\<rparr> else m);
               m = (if trim_space (am_MessageID m) = []
                    then m\<lparr>am_MessageID := am_TaskID m @ '':'' @ am_FromAgent m @ '':'' @ am_ToAgent m
                             @ '':'' @ itoa (wrap64 now)\<rparr>
                    else m);
               m = (if am_IdempotencyKey m = []
                    then m\<lparr>am_IdempotencyKey := trim_space (am_MessageID m)\<rparr> else m)
           in Inr m)"

definition sanitizeSubjectToken :: "string \<Rightarrow> string" where
  "sanitizeSubjectToken raw =
     (let raw = trim_space (to_lower raw)
      in if raw = [] then ''default''
         else replace_chars [(CHR '' '', ''_''), (CHR ''.'', ''_''), (CHR ''>'', ''_''), (CHR ''*'', ''_''),
                (CHR ''/'', ''_''), (CHR '':'', ''_'')] raw)"

definition messageSubject :: "string \<Rightarrow> string \<Rightarrow> string \<Rightarrow> string" where
  "messageSubject pre namespace agent =
     (let p = trim_cutset ''.'' (trim_space pre);
          p = (if p = [] then ''orloj.agentmsg'' else p);
          ns = NormalizeNamespace namespace;
          ag = sanitizeSubjectToken agent
      in p @ ''.'' @ sanitizeSubjectToken ns @ ''.'' @ ag @ ''.inbox'')"

section \<open>The in-process bus\<close>

record memorySubscriber =
  ms_subject :: string
  ms_ch :: "AgentMessage list"

record MemoryAgentMessageBus =
  mb_nextSubID :: nat
  mb_subjectPrefix :: string
  mb_historyMax :: int
  mb_dedupeWindow :: duration
  mb_history :: "AgentMessage list"
  mb_dedupe :: "(string \<times> instant) list"
  mb_subs :: "(nat \<times> memorySubscriber) list"
  mb_done :: bool
  mb_timers :: "(instant \<times> nat \<times> AgentMessage) list"

definition NewMemoryAgentMessageBus :: "string \<Rightarrow> int \<Rightarrow> duration \<Rightarrow> MemoryAgentMessageBus" where
  "NewMemoryAgentMessageBus pre historyMax window =
     \<lparr>mb_nextSubID = 0, mb_subjectPrefix = pre,
      mb_historyMax = (if historyMax \<le> 0 then 2048 else historyMax),
      mb_dedupeWindow = (if window \<le> 0 then 2 * Minute else window),
      mb_history = [], mb_dedupe = [], mb_subs = [], mb_done = False, mb_timers = []\<rparr>"

text \<open>The capacity of a subscriber's channel.\<close>

definition chan_cap :: nat where
  "chan_cap = 256"

definition pruneDedupeLocked :: "instant \<Rightarrow> MemoryAgentMessageBus \<Rightarrow> MemoryAgentMessageBus" where
  "pruneDedupeLocked now b =
     b\<lparr>mb_dedupe := filter (\<lambda>(_, seenAt). \<not> seenAt < now - mb_dedupeWindow b) (mb_dedupe b)\<rparr>"

text \<open>A send that, on a full channel, first drops the oldest message (on an open bus).\<close>

definition enqueueNonBlocking :: "AgentMessage list \<Rightarrow> AgentMessage \<Rightarrow> AgentMessage list" where
  "enqueueNonBlocking ch m = (if length ch < chan_cap then ch @ [m] else tl ch @ [m])"

text \<open>A published message goes to the subscribers of its subject.\<close>

definition offer :: "string \<Rightarrow> AgentMessage \<Rightarrow> memorySubscriber \<Rightarrow> memorySubscriber" where
  "offer subject m s =
     (if ms_subject s = subject then s\<lparr>ms_ch := enqueueNonBlocking (ms_ch s) m\<rparr> else s)"

definition Publish ::
  "instant \<Rightarrow> AgentMessage \<Rightarrow> MemoryAgentMessageBus \<Rightarrow> (string + AgentMessage) \<times> MemoryAgentMessageBus" where
  "Publish now message b =
     (case normalizeAgentMessage now message of
        Inl e \<Rightarrow> (Inl e, b)
      | Inr normalized \<Rightarrow>
          if mb_done b then (Inr normalized, b)
          else
            let subject = messageSubject (mb_subjectPrefix b) (am_Namespace normalized) (am_ToAgent normalized);
                b = pruneDedupeLocked now b;
                seen = (case map_of (mb_dedupe b) (am_MessageID normalized) of
                          Some seenAt \<Rightarrow> now - seenAt \<le> mb_dedupeWindow b
                        | None \<Rightarrow> False)
            in if seen then (Inr normalized, b)
               else (Inr normalized,
                     b\<lparr>mb_dedupe := AList.update (am_MessageID normalized) now (mb_dedupe b),
                       mb_history := keep_last (nat (mb_historyMax b)) (mb_history b @ [normalized]),
                       mb_subs := map (\<lambda>(i, s). (i, offer subject normalized s)) (mb_subs b)\<rparr>))"

text \<open>
  The first half of Consume: the subscription with its replay. \<^const>\<open>None\<close> stands for the
  immediate return on a closed bus, otherwise the subscriber's id is returned.
\<close>

definition Consume ::
  "bool \<Rightarrow> AgentMessageSubscription \<Rightarrow> MemoryAgentMessageBus
    \<Rightarrow> (string + nat option) \<times> MemoryAgentMessageBus" where
  "Consume handler_nil sub b =
     (if handler_nil then (Inl ''handler is required'', b)
      else
        let namespace = (if su_Namespace sub = [] then ''default'' else su_Namespace sub);
            subject = messageSubject (mb_subjectPrefix b) namespace (su_Agent sub)
        in if mb_done b then (Inr None, b)
           else
             let i = (mb_nextSubID b + 1) mod 2 ^ 64;
                 replay = filter (\<lambda>h. messageSubject (mb_subjectPrefix b) (am_Namespace h) (am_ToAgent h)
                                       = subject) (mb_history b);
                 consumer = \<lparr>ms_subject = subject, ms_ch = foldl enqueueNonBlocking [] replay\<rparr>
             in (Inr (Some i), b\<lparr>mb_nextSubID := i, mb_subs := AList.update i consumer (mb_subs b)\<rparr>))"

text \<open>The consumer's receive: it returns when the bus is closed, waits when the channel is empty.\<close>

definition Receive :: "nat \<Rightarrow> MemoryAgentMessageBus \<Rightarrow> (AgentMessage \<times> MemoryAgentMessageBus) option" where
  "Receive i b =
     (case map_of (mb_subs b) i of
        None \<Rightarrow> None
      | Some s \<Rightarrow>
          (case ms_ch s of
             [] \<Rightarrow> None
           | m # rest \<Rightarrow>
               if mb_done b then None
               else Some (m, b\<lparr>mb_subs := AList.update i (s\<lparr>ms_ch := rest\<rparr>) (mb_subs b)\<rparr>)))"

definition pushToSubscriber :: "nat \<Rightarrow> AgentMessage \<Rightarrow> MemoryAgentMessageBus \<Rightarrow> MemoryAgentMessageBus" where
  "pushToSubscriber i m b =
     (if mb_done b then b
      else case map_of (mb_subs b) i of
             None \<Rightarrow> b
           | Some s \<Rightarrow>
               if length (ms_ch s) < chan_cap
               then b\<lparr>mb_subs := AList.update i (s\<lparr>ms_ch := ms_ch s @ [m]\<rparr>) (mb_subs b)\<rparr>
               else b)"

definition requeueToSubscriber ::
  "instant \<Rightarrow> nat \<Rightarrow> AgentMessage \<Rightarrow> duration \<Rightarrow> MemoryAgentMessageBus \<Rightarrow> MemoryAgentMessageBus" where
  "requeueToSubscriber now i m delay b =
     (if mb_done b then b
      else if delay \<le> 0 then pushToSubscriber i m b
      else b\<lparr>mb_timers := mb_timers b @ [(now + delay, i, m)]\<rparr>)"

text \<open>The acknowledgement function of a delivery, and what Ack, Nack and NackWithDelay pass to it.\<close>

definition ackFn ::
  "instant \<Rightarrow> nat \<Rightarrow> AgentMessage \<Rightarrow> bool \<Rightarrow> duration \<Rightarrow> MemoryAgentMessageBus \<Rightarrow> MemoryAgentMessageBus" where
  "ackFn now i m requeue delay b = (if \<not> requeue then b else requeueToSubscriber now i m delay b)"

definition Settle ::
  "instant \<Rightarrow> nat \<Rightarrow> AgentMessage \<Rightarrow> delivery_error option \<Rightarrow> MemoryAgentMessageBus
    \<Rightarrow> MemoryAgentMessageBus" where
  "Settle now i m err b =
     (case err of
        None \<Rightarrow> ackFn now i m False 0 b
      | Some e \<Rightarrow>
          (case retryDelayFromError (Some e) of
             (delay, True) \<Rightarrow> ackFn now i m True delay b
           | (_, False) \<Rightarrow> ackFn now i m True 0 b))"

text \<open>A timer of a delayed redelivery: the goroutine's select, once the timer is due.\<close>

definition FireTimer :: "instant \<Rightarrow> nat \<Rightarrow> MemoryAgentMessageBus \<Rightarrow> MemoryAgentMessageBus option" where
  "FireTimer now n b =
     (if n < length (mb_timers b) \<and> fst (mb_timers b ! n) \<le> now then
        let (_, i, m) = mb_timers b ! n;
            b = b\<lparr>mb_timers := take n (mb_timers b) @ drop (Suc n) (mb_timers b)\<rparr>
        in Some (pushToSubscriber i m b)
      else None)"

definition removeSubscriber :: "nat \<Rightarrow> MemoryAgentMessageBus \<Rightarrow> MemoryAgentMessageBus" where
  "removeSubscriber i b = b\<lparr>mb_subs := AList.delete i (mb_subs b)\<rparr>"

definition Close :: "MemoryAgentMessageBus \<Rightarrow> MemoryAgentMessageBus" where
  "Close b = (if mb_done b then b else b\<lparr>mb_done := True, mb_subs := []\<rparr>)"

section \<open>Runs of the bus\<close>

text \<open>
  A state of a run is the bus with the deliveries that have been received and not settled yet. A
  step happens at a time; a run up to \<open>T\<close> is a sequence of steps none of which is later. Fewer than
  \<open>2 ^ 64\<close> subscriptions are made in a run, so that subscriber ids are not reused.
\<close>

type_synonym bus_state = "MemoryAgentMessageBus \<times> (nat \<times> AgentMessage) list"

inductive bus_step :: "instant \<Rightarrow> bus_state \<Rightarrow> bus_state \<Rightarrow> bool" where
  bus_publish: "Publish t m b = (r, b') \<Longrightarrow> bus_step t (b, fl) (b', fl)"
| bus_consume: "Consume h sub b = (r, b') \<Longrightarrow> mb_nextSubID b + 1 < 2 ^ 64 \<Longrightarrow> bus_step t (b, fl) (b', fl)"
| bus_receive: "Receive i b = Some (m, b') \<Longrightarrow> bus_step t (b, fl) (b', (i, m) # fl)"
| bus_settle: "(i, m) \<in> set fl \<Longrightarrow> bus_step t (b, fl) (Settle t i m err b, remove1 (i, m) fl)"
| bus_timer: "FireTimer t n b = Some b' \<Longrightarrow> bus_step t (b, fl) (b', fl)"
| bus_remove: "bus_step t (b, fl) (removeSubscriber i b, fl)"
| bus_close: "bus_step t (b, fl) (Close b, fl)"

inductive_cases bus_stepE: "bus_step t x y"

inductive bus_run :: "instant \<Rightarrow> bus_state \<Rightarrow> bus_state \<Rightarrow> bool" for T where
  run_refl: "bus_run T x x"
| run_step: "bus_run T x y \<Longrightarrow> bus_step t y z \<Longrightarrow> t \<le> T \<Longrightarrow> bus_run T x z"

definition subject_of :: "MemoryAgentMessageBus \<Rightarrow> AgentMessage \<Rightarrow> string" where
  "subject_of b m = messageSubject (mb_subjectPrefix b) (am_Namespace m) (am_ToAgent m)"

text \<open>A message bound for subscriber \<open>i\<close> is on the subject that subscriber reads.\<close>

definition routed :: "MemoryAgentMessageBus \<Rightarrow> nat \<times> AgentMessage \<Rightarrow> bool" where
  "routed b = (\<lambda>(i, m). i \<le> mb_nextSubID b
     \<and> (\<forall>s. map_of (mb_subs b) i = Some s \<longrightarrow> subject_of b m = ms_subject s))"

definition sub_ok :: "MemoryAgentMessageBus \<Rightarrow> nat \<Rightarrow> memorySubscriber \<Rightarrow> bool" where
  "sub_ok b i s \<longleftrightarrow> i \<le> mb_nextSubID b \<and> length (ms_ch s) \<le> chan_cap
     \<and> (\<forall>m \<in> set (ms_ch s). subject_of b m = ms_subject s)"

definition bus_ok :: "bus_state \<Rightarrow> bool" where
  "bus_ok = (\<lambda>(b, fl).
     0 < mb_historyMax b \<and> int (length (mb_history b)) \<le> mb_historyMax b
     \<and> distinct (map fst (mb_subs b)) \<and> (\<forall>i s. map_of (mb_subs b) i = Some s \<longrightarrow> sub_ok b i s)
     \<and> (\<forall>x \<in> set fl. routed b x) \<and> (\<forall>x \<in> snd ` set (mb_timers b). routed b x)
     \<and> (mb_done b \<longrightarrow> mb_subs b = []))"

lemma map_of_map_snd: "map_of (map (\<lambda>(i, s). (i, f s)) xs) k = map_option f (map_of xs k)"
  by (induction xs) auto

lemma length_enqueue: "length ch \<le> chan_cap \<Longrightarrow> length (enqueueNonBlocking ch m) \<le> chan_cap"
  by (auto simp: enqueueNonBlocking_def chan_cap_def)

lemma set_enqueue: "set (enqueueNonBlocking ch m) \<subseteq> insert m (set ch)"
  by (auto simp: enqueueNonBlocking_def dest: list.set_sel(2) [rotated] split: if_splits)
     (metis list.sel(2) list.set_sel(2))

lemma foldl_enqueue: "foldl enqueueNonBlocking ch ms = keep_last chan_cap (ch @ ms)" if "length ch \<le> chan_cap"
  using that
proof (induction ms arbitrary: ch)
  case Nil
  then show ?case by (simp add: keep_last_short)
next
  case (Cons m ms)
  from Cons.prems have "length (enqueueNonBlocking ch m) \<le> chan_cap" by (rule length_enqueue)
  then have "foldl enqueueNonBlocking ch (m # ms) = keep_last chan_cap (enqueueNonBlocking ch m @ ms)"
    using Cons.IH by simp
  also have "\<dots> = keep_last chan_cap (ch @ m # ms)"
  proof (cases "length ch < chan_cap")
    case False
    with Cons.prems have l: "length ch = chan_cap" by simp
    moreover obtain c r where "ch = c # r" using l by (cases ch) (auto simp: chan_cap_def)
    ultimately show ?thesis by (auto simp: enqueueNonBlocking_def keep_last_def Suc_diff_le)
  qed (simp add: enqueueNonBlocking_def)
  finally show ?case .
qed

text \<open>Most steps keep the subscribers and only change their channels, by well-routed messages.\<close>

definition subs_keep :: "MemoryAgentMessageBus \<Rightarrow> MemoryAgentMessageBus \<Rightarrow> bool" where
  "subs_keep b b' \<longleftrightarrow>
     mb_subjectPrefix b' = mb_subjectPrefix b \<and> mb_nextSubID b' = mb_nextSubID b
     \<and> distinct (map fst (mb_subs b'))
     \<and> (\<forall>i s'. map_of (mb_subs b') i = Some s' \<longrightarrow>
          (\<exists>s. map_of (mb_subs b) i = Some s \<and> ms_subject s' = ms_subject s
             \<and> length (ms_ch s') \<le> chan_cap
             \<and> (\<forall>m \<in> set (ms_ch s'). subject_of b m = ms_subject s)))"

lemma subs_keep_ok:
  assumes "bus_ok (b, fl)" "subs_keep b b'" "mb_historyMax b' = mb_historyMax b"
    "int (length (mb_history b')) \<le> mb_historyMax b" "set fl' \<subseteq> set fl"
    "\<forall>x \<in> snd ` set (mb_timers b'). routed b x" "mb_done b' \<longrightarrow> mb_subs b' = []"
  shows "bus_ok (b', fl')"
proof -
  have subj: "subject_of b' = subject_of b"
    using assms(2) by (auto simp: subs_keep_def subject_of_def fun_eq_iff)
  have "routed b' x" if "routed b x" for x
    using that assms(2) unfolding routed_def subj subs_keep_def by fastforce
  moreover have "sub_ok b' i s'" if "map_of (mb_subs b') i = Some s'" for i s'
    using that assms(1,2) unfolding subs_keep_def sub_ok_def bus_ok_def subj by fastforce
  ultimately show ?thesis
    using assms unfolding bus_ok_def subs_keep_def by auto
qed

lemma subs_keep_update:
  assumes "bus_ok (b, fl)" "map_of (mb_subs b) i = Some s" "length ch \<le> chan_cap"
    "\<forall>m \<in> set ch. subject_of b m = ms_subject s"
  shows "subs_keep b (b\<lparr>mb_subs := AList.update i (s\<lparr>ms_ch := ch\<rparr>) (mb_subs b)\<rparr>)"
  using assms by (auto simp: subs_keep_def bus_ok_def sub_ok_def update_conv' distinct_update
      split: if_splits)

lemma subs_keep_same:
  assumes "bus_ok (b, fl)" "mb_subs b' = mb_subs b" "mb_subjectPrefix b' = mb_subjectPrefix b"
    "mb_nextSubID b' = mb_nextSubID b"
  shows "subs_keep b b'"
  using assms by (auto simp: subs_keep_def bus_ok_def sub_ok_def)

lemma bus_ok_push:
  assumes ok: "bus_ok (b, fl)" and r: "routed b (i, m)"
  shows "bus_ok (pushToSubscriber i m b, fl)"
proof (cases "mb_done b \<or> map_of (mb_subs b) i = None")
  case True
  with ok show ?thesis by (auto simp: pushToSubscriber_def)
next
  case False
  then obtain s where s: "map_of (mb_subs b) i = Some s" by auto
  show ?thesis
  proof (cases "length (ms_ch s) < chan_cap")
    case True
    have "subs_keep b (b\<lparr>mb_subs := AList.update i (s\<lparr>ms_ch := ms_ch s @ [m]\<rparr>) (mb_subs b)\<rparr>)"
      by (rule subs_keep_update [OF ok s]) (use True ok s r in \<open>auto simp: bus_ok_def sub_ok_def routed_def\<close>)
    from subs_keep_ok [OF ok this, of fl] True False s ok show ?thesis
      by (simp add: pushToSubscriber_def bus_ok_def)
  next
    case False
    with s ok show ?thesis by (simp add: pushToSubscriber_def)
  qed
qed

lemma bus_ok_receive:
  assumes ok: "bus_ok (b, fl)" and r: "Receive i b = Some (m, b')"
  shows "bus_ok (b', (i, m) # fl)"
proof -
  from r obtain s rest where s: "map_of (mb_subs b) i = Some s" "ms_ch s = m # rest" "\<not> mb_done b"
    and b': "b' = b\<lparr>mb_subs := AList.update i (s\<lparr>ms_ch := rest\<rparr>) (mb_subs b)\<rparr>"
    by (auto simp: Receive_def split: option.splits list.splits if_splits)
  from ok s have so: "sub_ok b i s" by (auto simp: bus_ok_def)
  have k: "subs_keep b b'"
    unfolding b' by (rule subs_keep_update [OF ok s(1)]) (use so s in \<open>auto simp: sub_ok_def\<close>)
  have "bus_ok (b', fl)"
    by (rule subs_keep_ok [OF ok k]) (use ok s in \<open>auto simp: b' bus_ok_def\<close>)
  moreover have "routed b' (i, m)"
    using so s by (auto simp: b' routed_def sub_ok_def subject_of_def update_conv')
  ultimately show ?thesis by (simp add: bus_ok_def)
qed

lemma bus_ok_settle:
  assumes ok: "bus_ok (b, fl)" and m: "(i, m) \<in> set fl"
  shows "bus_ok (Settle t i m err b, remove1 (i, m) fl)"
proof -
  from ok m have r: "routed b (i, m)" by (auto simp: bus_ok_def)
  have rm: "bus_ok (b, remove1 (i, m) fl)"
    using ok set_remove1_subset [of "(i, m)" fl] by (auto simp: bus_ok_def subset_iff)
  have tm: "bus_ok (b\<lparr>mb_timers := mb_timers b @ [(t + d, i, m)]\<rparr>, remove1 (i, m) fl)" for d
    by (rule subs_keep_ok [OF rm subs_keep_same [OF rm]]) (use rm r in \<open>auto simp: bus_ok_def\<close>)
  have "bus_ok (requeueToSubscriber t i m d b, remove1 (i, m) fl)" for d
    using rm tm bus_ok_push [OF rm r] by (simp add: requeueToSubscriber_def)
  with rm show ?thesis
    by (auto simp: Settle_def ackFn_def split: option.splits prod.splits bool.splits)
qed

lemma bus_ok_timer:
  assumes ok: "bus_ok (b, fl)" and f: "FireTimer t n b = Some b'"
  shows "bus_ok (b', fl)"
proof -
  from f obtain d i m where n: "n < length (mb_timers b)" "mb_timers b ! n = (d, i, m)"
    and b': "b' = pushToSubscriber i m (b\<lparr>mb_timers := take n (mb_timers b) @ drop (Suc n) (mb_timers b)\<rparr>)"
    by (auto simp: FireTimer_def Let_def split: if_splits prod.splits)
  let ?b = "b\<lparr>mb_timers := take n (mb_timers b) @ drop (Suc n) (mb_timers b)\<rparr>"
  have sub: "set (mb_timers ?b) \<subseteq> set (mb_timers b)"
    by (auto dest: in_set_takeD in_set_dropD)
  have ok': "bus_ok (?b, fl)"
    by (rule subs_keep_ok [OF ok subs_keep_same [OF ok]]) (use ok sub in \<open>auto simp: bus_ok_def\<close>)
  have "(d, i, m) \<in> set (mb_timers b)" using n nth_mem by metis
  with ok have "routed b (i, m)" unfolding bus_ok_def by force
  then have "routed ?b (i, m)" by (simp add: routed_def subject_of_def)
  with ok' show ?thesis unfolding b' by (rule bus_ok_push)
qed

lemma offer_ok:
  "sub_ok b i s \<Longrightarrow> ms_subject (offer (subject_of b m) m s) = ms_subject s
     \<and> length (ms_ch (offer (subject_of b m) m s)) \<le> chan_cap
     \<and> (\<forall>x \<in> set (ms_ch (offer (subject_of b m) m s)). subject_of b x = ms_subject s)"
  using set_enqueue [of "ms_ch s" m] by (auto simp: offer_def sub_ok_def length_enqueue)

lemma map_fst_map_snd: "map fst (map (\<lambda>(i, s). (i, f s)) xs) = map fst xs"
  by (induction xs) auto

lemma bus_ok_publish:
  assumes ok: "bus_ok (b, fl)" and p: "Publish t m b = (r, b')"
  shows "bus_ok (b', fl)"
proof -
  let ?b = "pruneDedupeLocked t b"
  have prune: "mb_subs ?b = mb_subs b" "mb_subjectPrefix ?b = mb_subjectPrefix b"
    "mb_nextSubID ?b = mb_nextSubID b" "mb_historyMax ?b = mb_historyMax b" "mb_history ?b = mb_history b"
    "mb_timers ?b = mb_timers b" "mb_done ?b = mb_done b" "mb_dedupeWindow ?b = mb_dedupeWindow b"
    by (simp_all add: pruneDedupeLocked_def)
  have okb: "bus_ok (?b, fl)"
    by (rule subs_keep_ok [OF ok subs_keep_same [OF ok]]) (use ok in \<open>auto simp: prune bus_ok_def\<close>)
  have "bus_ok (b', fl)" if n: "normalizeAgentMessage t m = Inr n" "\<not> mb_done b"
    and b': "b' = ?b\<lparr>mb_dedupe := AList.update (am_MessageID n) t (mb_dedupe ?b),
      mb_history := keep_last (nat (mb_historyMax ?b)) (mb_history ?b @ [n]),
      mb_subs := map (\<lambda>(i, s). (i, offer (subject_of ?b n) n s)) (mb_subs ?b)\<rparr>" for n
  proof (rule subs_keep_ok [OF okb])
    show "subs_keep ?b b'"
    proof -
      have "\<exists>s. map_of (mb_subs ?b) i = Some s \<and> ms_subject s' = ms_subject s
          \<and> length (ms_ch s') \<le> chan_cap \<and> (\<forall>m \<in> set (ms_ch s'). subject_of ?b m = ms_subject s)"
        if s': "map_of (mb_subs b') i = Some s'" for i s'
      proof -
        from s' obtain s where s: "map_of (mb_subs ?b) i = Some s" "s' = offer (subject_of ?b n) n s"
          unfolding b' by (auto simp: map_of_map_snd simp del: map_of_eq_Some_iff)
        moreover from s(1) okb have "sub_ok ?b i s" unfolding bus_ok_def by blast
        ultimately show ?thesis using offer_ok by metis
      qed
      moreover have "distinct (map fst (mb_subs b'))"
        using okb unfolding b' by (simp add: map_fst_map_snd bus_ok_def del: map_map)
      ultimately show ?thesis by (auto simp: subs_keep_def b' simp del: map_of_eq_Some_iff)
    qed
    show "int (length (mb_history b')) \<le> mb_historyMax ?b"
      using okb by (auto simp: b' bus_ok_def prune)
  qed (use okb n in \<open>auto simp: b' bus_ok_def prune\<close>)
  with p ok okb show ?thesis
    by (auto simp: Publish_def Let_def subject_of_def prune split: sum.splits if_splits)
qed

lemma bus_ok_consume:
  assumes ok: "bus_ok (b, fl)" and c: "Consume h sub b = (r, b')" and small: "mb_nextSubID b + 1 < 2 ^ 64"
  shows "bus_ok (b', fl)"
proof (cases "h \<or> mb_done b")
  case True
  with ok c show ?thesis by (auto simp: Consume_def Let_def split: if_splits)
next
  case False
  let ?subject = "messageSubject (mb_subjectPrefix b)
    (if su_Namespace sub = [] then ''default'' else su_Namespace sub) (su_Agent sub)"
  let ?n = "Suc (mb_nextSubID b)"
  let ?replay = "filter (\<lambda>m. subject_of b m = ?subject) (mb_history b)"
  let ?new = "\<lparr>ms_subject = ?subject, ms_ch = keep_last chan_cap ?replay\<rparr>"
  from False c small have b': "b' = b\<lparr>mb_nextSubID := ?n, mb_subs := AList.update ?n ?new (mb_subs b)\<rparr>"
    by (auto simp: Consume_def Let_def subject_of_def foldl_enqueue mod_less)
  have old: "i \<noteq> ?n" if "map_of (mb_subs b) i = Some s" for i s
    using ok that unfolding bus_ok_def sub_ok_def by fastforce
  have subj: "subject_of b' = subject_of b" by (simp add: b' subject_of_def fun_eq_iff)
  have "sub_ok b' i s" if "map_of (mb_subs b') i = Some s" for i s
    using that ok set_keep_last [of chan_cap ?replay] unfolding sub_ok_def bus_ok_def subj
    by (auto simp: b' update_conv' simp del: map_of_eq_Some_iff split: if_splits)
      (fastforce simp: le_Suc_eq)+
  moreover have "routed b' x" if "routed b x" for x
    using that unfolding routed_def subj by (auto simp: b' update_conv')
  ultimately show ?thesis
    using ok False unfolding bus_ok_def by (simp add: b' distinct_update)
qed

lemma bus_ok_remove: "bus_ok (b, fl) \<Longrightarrow> bus_ok (removeSubscriber i b, fl)"
  by (rule subs_keep_ok [of b fl])
    (auto simp: removeSubscriber_def subs_keep_def bus_ok_def sub_ok_def delete_conv' distinct_delete
      split: if_splits)

lemma bus_ok_close: "bus_ok (b, fl) \<Longrightarrow> bus_ok (Close b, fl)"
  by (rule subs_keep_ok [of b fl]) (auto simp: Close_def subs_keep_def bus_ok_def sub_ok_def)

lemmas bus_ok_steps = bus_ok_publish bus_ok_consume bus_ok_receive bus_ok_settle bus_ok_timer
  bus_ok_remove bus_ok_close

lemma bus_ok_step: "bus_step t x y \<Longrightarrow> bus_ok x \<Longrightarrow> bus_ok y"
  by (induction rule: bus_step.induct) (auto intro: bus_ok_steps)

lemma bus_ok_run: "bus_run T x y \<Longrightarrow> bus_ok x \<Longrightarrow> bus_ok y"
  by (induction rule: bus_run.induct) (auto intro: bus_ok_step)

lemma bus_ok_new: "bus_ok (NewMemoryAgentMessageBus pre h w, [])"
  by (simp add: bus_ok_def NewMemoryAgentMessageBus_def)

section \<open>Deduplication\<close>

text \<open>The id is remembered since \<open>t\<close> or later.\<close>

definition remembered :: "string \<Rightarrow> instant \<Rightarrow> MemoryAgentMessageBus \<Rightarrow> bool" where
  "remembered k t b \<longleftrightarrow> (\<exists>seen. map_of (mb_dedupe b) k = Some seen \<and> t \<le> seen)"

lemma map_of_filter_keep:
  "map_of xs k = Some v \<Longrightarrow> P (k, v) \<Longrightarrow> map_of (filter P xs) k = Some v"
  by (induction xs) (auto split: if_splits)

lemma prune_remembered:
  assumes "remembered k t b" "now - t \<le> mb_dedupeWindow b"
  shows "remembered k t (pruneDedupeLocked now b)"
proof -
  from assms(1) obtain seen where "map_of (mb_dedupe b) k = Some seen" "t \<le> seen"
    by (auto simp: remembered_def)
  with assms(2) show ?thesis
    unfolding remembered_def pruneDedupeLocked_def by (auto intro!: exI [of _ seen] map_of_filter_keep)
qed

lemma Publish_remembered:
  assumes "remembered k t b" "now - t \<le> mb_dedupeWindow b" "Publish now m b = (r, b')"
  shows "remembered k t b' \<and> mb_dedupeWindow b' = mb_dedupeWindow b
    \<and> (normalizeAgentMessage now m = Inr n \<and> am_MessageID n = k
       \<longrightarrow> mb_history b' = mb_history b \<and> mb_subs b' = mb_subs b)"
proof -
  let ?b = "pruneDedupeLocked now b"
  have w: "mb_dedupeWindow ?b = mb_dedupeWindow b" "mb_history ?b = mb_history b" "mb_subs ?b = mb_subs b"
    by (simp_all add: pruneDedupeLocked_def)
  from prune_remembered [OF assms(1,2)] obtain seen
    where seen: "map_of (mb_dedupe ?b) k = Some seen" "t \<le> seen"
    by (auto simp: remembered_def)
  with assms(2) have "now - seen \<le> mb_dedupeWindow b" by simp
  with seen assms w show ?thesis
    by (auto simp: Publish_def Let_def remembered_def update_conv' split: sum.splits if_splits)
qed

lemma step_remembered:
  assumes "bus_step now x y" "remembered k t (fst x)" "now - t \<le> mb_dedupeWindow (fst x)"
  shows "remembered k t (fst y) \<and> mb_dedupeWindow (fst y) = mb_dedupeWindow (fst x)"
  using assms(1)
proof cases
  case (bus_publish m b r b' fl)
  with assms show ?thesis using Publish_remembered [of k t b now m r b'] by simp
next
  case (bus_settle i m fl b err)
  with assms show ?thesis
    by (auto simp: remembered_def Settle_def ackFn_def requeueToSubscriber_def pushToSubscriber_def
        split: option.splits prod.splits bool.splits)
qed (use assms(2) in \<open>auto simp: remembered_def Consume_def Receive_def FireTimer_def pushToSubscriber_def
      removeSubscriber_def Close_def Let_def split: if_splits option.splits list.splits prod.splits\<close>)

lemma run_remembered:
  assumes "bus_run T x y" "remembered k t (fst x)" "T - t \<le> mb_dedupeWindow (fst x)"
  shows "remembered k t (fst y) \<and> mb_dedupeWindow (fst y) = mb_dedupeWindow (fst x)"
  using assms by (induction rule: bus_run.induct) (auto dest!: step_remembered [where k = k and t = t])

lemma Publish_fresh:
  assumes "normalizeAgentMessage t m = Inr n" "map_of (mb_dedupe b) (am_MessageID n) = None" "\<not> mb_done b"
    "Publish t m b = (r, b')"
  shows "r = Inr n \<and> remembered (am_MessageID n) t b' \<and> mb_dedupeWindow b' = mb_dedupeWindow b
    \<and> mb_history b' = keep_last (nat (mb_historyMax b)) (mb_history b @ [n])
    \<and> mb_subs b' = map (\<lambda>(i, s). (i, offer (subject_of b n) n s)) (mb_subs b)"
proof -
  have "map_of (mb_dedupe (pruneDedupeLocked t b)) (am_MessageID n) = None"
    using assms(2) by (force simp: pruneDedupeLocked_def map_of_eq_None_iff)
  with assms show ?thesis
    by (auto simp: Publish_def Let_def remembered_def subject_of_def pruneDedupeLocked_def update_conv')
qed

lemma keep_last_snoc: "0 < n \<Longrightarrow> \<exists>ys. keep_last n (xs @ [x]) = ys @ [x]"
  by (auto simp: keep_last_def)

section \<open>Properties\<close>

definition demo_msg :: AgentMessage where
  "demo_msg = \<lparr>am_MessageID = ''m1'', am_IdempotencyKey = [], am_TaskID = ''t1'', am_Attempt = 1,
     am_System = ''s'', am_Namespace = [], am_FromAgent = ''a'', am_ToAgent = ''b'', am_BranchID = [],
     am_ParentBranchID = [], am_Type = [], am_Payload = ''hi'', am_Timestamp = ''x'', am_TraceID = [],
     am_ParentID = [], am_DelegateOf = []\<rparr>"

definition demo_bus :: MemoryAgentMessageBus where
  "demo_bus = snd (Consume False \<lparr>su_Namespace = [], su_Agent = ''B'', su_Durable = []\<rparr>
     (NewMemoryAgentMessageBus [] 0 0))"


lemma demo_bus_run: "bus_run 5 (NewMemoryAgentMessageBus [] 0 0, []) (demo_bus, [])"
proof -
  have "bus_step 0 (NewMemoryAgentMessageBus [] 0 0, []) (demo_bus, [])"
    unfolding demo_bus_def
    by (rule bus_consume [OF prod.collapse [symmetric]]) (simp add: NewMemoryAgentMessageBus_def)
  then show ?thesis by (rule run_step [OF run_refl]) simp
qed




text \<open>
  A subscriber that joins after a message of its subject was published still gets it: the
  newest remembered message of the subject is the last of the channel the subscription creates.
\<close>

theorem late_subscriber_replay:
  assumes "normalizeAgentMessage t m = Inr n" "map_of (mb_dedupe b) (am_MessageID n) = None" "\<not> mb_done b"
    "0 < mb_historyMax b" "Publish t m b = (r, b1)"
    "messageSubject (mb_subjectPrefix b1) (if su_Namespace sub = [] then ''default'' else su_Namespace sub)
       (su_Agent sub) = subject_of b1 n"
    "Consume False sub b1 = (Inr (Some i), b2)"
  shows "\<exists>s. map_of (mb_subs b2) i = Some s \<and> ms_ch s \<noteq> [] \<and> last (ms_ch s) = n"
proof -
  let ?P = "\<lambda>h. subject_of b1 h = subject_of b1 n"
  let ?ch = "keep_last chan_cap (filter ?P (mb_history b1))"
  from Publish_fresh [OF assms(1-3,5)]
  have h: "mb_history b1 = keep_last (nat (mb_historyMax b)) (mb_history b @ [n])" by simp
  then obtain ys where ys: "mb_history b1 = ys @ [n]"
    using keep_last_snoc [of "nat (mb_historyMax b)" "mb_history b" n] assms(4) by auto
  have "filter ?P (mb_history b1) = filter ?P ys @ [n]" by (simp add: ys)
  then have "?ch \<noteq> [] \<and> last ?ch = n"
    using keep_last_snoc [of chan_cap "filter ?P ys" n] by (auto simp: chan_cap_def)
  moreover have "map_of (mb_subs b2) i = Some \<lparr>ms_subject = subject_of b1 n, ms_ch = ?ch\<rparr>"
    using assms(7) unfolding assms(6) Consume_def Let_def subject_of_def [symmetric]
    by (auto simp: assms(6) foldl_enqueue update_conv' split: if_splits)
  ultimately show ?thesis by simp
qed

theorem late_subscriber_replay_witness:
  "\<exists>i b2 s. Consume False \<lparr>su_Namespace = [], su_Agent = ''b'', su_Durable = []\<rparr>
     (snd (Publish 0 demo_msg (NewMemoryAgentMessageBus [] 0 0))) = (Inr (Some i), b2)
     \<and> map_of (mb_subs b2) i = Some s \<and> am_MessageID (last (ms_ch s)) = ''m1''"
proof -
  let ?b = "NewMemoryAgentMessageBus [] 0 0"
  let ?b1 = "snd (Publish 0 demo_msg ?b)"
  let ?sub = "\<lparr>su_Namespace = [], su_Agent = ''b'', su_Durable = []\<rparr>"
  let ?n = "demo_msg\<lparr>am_Namespace := ''default'', am_Type := ''task_handoff'', am_IdempotencyKey := ''m1''\<rparr>"
  have n: "normalizeAgentMessage 0 demo_msg = Inr ?n" by code_simp
  have pre: "map_of (mb_dedupe ?b) (am_MessageID ?n) = None" "\<not> mb_done ?b" "0 < mb_historyMax ?b"
    "messageSubject (mb_subjectPrefix ?b1) (if su_Namespace ?sub = [] then ''default'' else su_Namespace ?sub)
       (su_Agent ?sub) = subject_of ?b1 ?n"
    by code_simp+
  have "fst (Consume False ?sub ?b1) = Inr (Some 1)" by code_simp
  then obtain b2 where c: "Consume False ?sub ?b1 = (Inr (Some 1), b2)" by (metis prod.collapse)
  from late_subscriber_replay [OF n pre(1,2,3) prod.collapse [symmetric] pre(4) c] c
  show ?thesis by (auto simp: demo_msg_def)
qed

text \<open>
  A message whose handler fails is lost when its subscriber's channel is full: rejecting it
  (Nack with requeue) leaves the bus as it is, so the message is in no channel and no timer.
\<close>

theorem rejected_when_full_is_lost:
  assumes "map_of (mb_subs b) i = Some s" "length (ms_ch s) = chan_cap"
  shows "Settle t i m (Some (OtherError e)) b = b"
  using assms by (simp add: Settle_def retryDelayFromError_def ackFn_def requeueToSubscriber_def
      pushToSubscriber_def)

theorem rejected_when_full_is_lost_witness:
  "Settle 0 1 (demo_msg\<lparr>am_MessageID := ''m2''\<rparr>) (Some (OtherError ''fail''))
     (demo_bus\<lparr>mb_subs := [(1, \<lparr>ms_subject = ''s'', ms_ch = replicate 256 demo_msg\<rparr>)]\<rparr>)
   = demo_bus\<lparr>mb_subs := [(1, \<lparr>ms_subject = ''s'', ms_ch = replicate 256 demo_msg\<rparr>)]\<rparr>"
  by (rule rejected_when_full_is_lost [where s = "\<lparr>ms_subject = ''s'', ms_ch = replicate 256 demo_msg\<rparr>"])
    (simp_all add: chan_cap_def)

end
