(* ===== verification/Message_Policy.thy ===== *)
theory Message_Policy
  imports Task_Types Agent_Message Complex_Main "HOL-Library.Log_Nat"
begin

text \<open>
  Retry policy of agent messages: error values (runtime/tool_error.go,
  runtime/model_gateway_error.go), their classification, and the delay before the next attempt
  with its jitter (runtime/agent_message_consumer.go).

  A Go error is a value of \<open>go_error\<close>; \<open>ErrWrap\<close> is what fmt.Errorf builds with one \<open>%w\<close> verb, a
  text around the wrapped error. A float64 is the rational it denotes, and each operation on it is
  the exact one followed by \<open>fl\<close>, which rounds to 53 significant bits, to even on ties; the values
  here stay far from overflow and from subnormal numbers.

  Shown here: the delay without jitter is the exponential one cut at the maximum, and never
  overflows; with jitter it stays positive and never exceeds the maximum; permanent errors are
  never retried.
\<close>

section \<open>Errors\<close>

datatype go_error =
    ErrText string
  | ErrWrap string go_error string
  | ErrGateway int string string
  | ErrTool string string string bool string "(string \<times> string) list" "go_error option"
  | ErrApprovalSentinel
  | ErrApproval string string string

definition formatToolDetails :: "(string \<times> string) list \<Rightarrow> string list" where
  "formatToolDetails details =
     (let keys = sort (filter (\<lambda>k. k \<noteq> []) (map (\<lambda>(k, _). trim_space k) details));
          value = (\<lambda>k. trim_space (case map_of details k of Some v \<Rightarrow> v | None \<Rightarrow> []))
      in map (\<lambda>k. k @ ''='' @ value k) (filter (\<lambda>k. value k \<noteq> []) keys))"

definition tool_error_text ::
  "string \<Rightarrow> string \<Rightarrow> string \<Rightarrow> bool \<Rightarrow> string \<Rightarrow> (string \<times> string) list \<Rightarrow> string option \<Rightarrow> string" where
  "tool_error_text status code reason retryable message details cause =
     (let status = trim_space (to_lower status);
          status = (if status = [] then ''error'' else status);
          code = trim_space (to_lower code);
          code = (if code = [] then ''execution_failed'' else code);
          reason = trim_space (to_lower reason);
          reason = (if reason = [] then ''tool_backend_failure'' else reason);
          msg = trim_space message;
          msg = (if msg = [] then (case cause of Some c \<Rightarrow> trim_space c | None \<Rightarrow> msg) else msg);
          msg = (if msg = [] then ''tool execution failed'' else msg)
      in str_join '' '' ([''tool_status='' @ status, ''tool_code='' @ code, ''tool_reason='' @ reason,
           ''retryable='' @ (if retryable then ''true'' else ''false''), ''message='' @ msg]
           @ formatToolDetails details))"

fun error_text :: "go_error \<Rightarrow> string" where
  "error_text (ErrText t) = t"
| "error_text (ErrWrap pre e post) = pre @ error_text e @ post"
| "error_text (ErrGateway status provider message) =
     ''model request failed status='' @ itoa status @ '': '' @ message"
| "error_text (ErrTool status code reason retryable message details None) =
     tool_error_text status code reason retryable message details None"
| "error_text (ErrTool status code reason retryable message details (Some cause)) =
     tool_error_text status code reason retryable message details (Some (error_text cause))"
| "error_text ErrApprovalSentinel = ''tool approval required''"
| "error_text (ErrApproval tool input reason) =
     ''tool approval required: tool='' @ tool @ '' reason='' @ reason"

definition copyToolDetailMap :: "(string \<times> string) list \<Rightarrow> (string \<times> string) list" where
  "copyToolDetailMap details =
     fold (\<lambda>(k, v) out. let k = trim_space k; v = trim_space v
             in if k = [] \<or> v = [] then out else AList.update k v out) details []"

definition NewToolError ::
  "string \<Rightarrow> string \<Rightarrow> string \<Rightarrow> bool \<Rightarrow> string \<Rightarrow> go_error option \<Rightarrow> (string \<times> string) list \<Rightarrow> go_error" where
  "NewToolError status code reason retryable message cause details =
     (let status = trim_space (to_lower status);
          status = (if status \<noteq> ''denied'' then ''error'' else status);
          code = trim_space (to_lower code);
          code = (if code = [] then ''execution_failed'' else code);
          reason = trim_space (to_lower reason);
          reason = (if reason = [] then ''tool_backend_failure'' else reason)
      in ErrTool status code reason retryable (trim_space message) (copyToolDetailMap details) cause)"

definition NewToolDeniedError :: "string \<Rightarrow> (string \<times> string) list \<Rightarrow> go_error option \<Rightarrow> go_error" where
  "NewToolDeniedError message details cause =
     NewToolError ''denied'' ''permission_denied'' ''tool_permission_denied'' False message cause details"

text \<open>errors.As along the chain of wrapped errors.\<close>

fun as_gateway :: "go_error \<Rightarrow> int option" where
  "as_gateway (ErrGateway status _ _) = Some status"
| "as_gateway (ErrWrap _ e _) = as_gateway e"
| "as_gateway (ErrTool _ _ _ _ _ _ (Some cause)) = as_gateway cause"
| "as_gateway _ = None"

definition IsModelGatewayError :: "go_error \<Rightarrow> (int \<times> bool) option" where
  "IsModelGatewayError err =
     (case as_gateway err of
        None \<Rightarrow> None
      | Some status \<Rightarrow>
          Some (status, if status = 429 then True else if 500 \<le> status then True
                        else if 400 \<le> status then False else True))"

fun ToolErrorMeta :: "go_error \<Rightarrow> (string \<times> string \<times> bool) option" where
  "ToolErrorMeta (ErrTool _ code reason retryable _ _ _) = Some (trim_space code, trim_space reason, retryable)"
| "ToolErrorMeta (ErrWrap _ e _) = ToolErrorMeta e"
| "ToolErrorMeta _ = None"

fun IsApprovalRequiredError :: "go_error \<Rightarrow> bool" where
  "IsApprovalRequiredError ErrApprovalSentinel = True"
| "IsApprovalRequiredError (ErrApproval _ _ _) = True"
| "IsApprovalRequiredError (ErrWrap _ e _) = IsApprovalRequiredError e"
| "IsApprovalRequiredError (ErrTool _ _ _ _ _ _ (Some cause)) = IsApprovalRequiredError cause"
| "IsApprovalRequiredError _ = False"

section \<open>Classification\<close>

record messageRetryClassification =
  rc_Retryable :: bool
  rc_Reason :: string

definition classifyMessageRetryability ::
  "TaskMessageRetryPolicy \<Rightarrow> go_error \<Rightarrow> messageRetryClassification" where
  "classifyMessageRetryability policy err =
     (case IsModelGatewayError err of
        Some (status, retryable) \<Rightarrow>
          \<lparr>rc_Retryable = retryable, rc_Reason = ''model_gateway_http_'' @ itoa status\<rparr>
      | None \<Rightarrow>
          (case ToolErrorMeta err of
             Some (code, reason, retryable) \<Rightarrow>
               (let r = trim_space reason;
                    r = (if r = [] then trim_space code else r);
                    r = (if r = [] then ''tool_error'' else r)
                in \<lparr>rc_Retryable = retryable, rc_Reason = r\<rparr>)
           | None \<Rightarrow>
               (let reason = to_lower (trim_space (error_text err));
                    has = str_contains reason
                in if reason = [] then \<lparr>rc_Retryable = True, rc_Reason = ''empty_error''\<rparr>
                   else if list_ex (\<lambda>marker. let token = to_lower (trim_space marker)
                                             in token \<noteq> [] \<and> has token) (mr_NonRetryable policy)
                     then \<lparr>rc_Retryable = False, rc_Reason = ''configured_non_retryable''\<rparr>
                   else if has ''policy '' \<or> has ''disallows model'' \<or> has ''blocks tool''
                        \<or> has ''permission denied'' \<or> has ''token budget exceeded''
                     then \<lparr>rc_Retryable = False, rc_Reason = ''policy_error''\<rparr>
                   else if has ''agentsystem '' \<and> has '' not found''
                     then \<lparr>rc_Retryable = False, rc_Reason = ''invalid_system_ref''\<rparr>
                   else if has ''agent '' \<and> has '' not found for message processing''
                     then \<lparr>rc_Retryable = False, rc_Reason = ''invalid_agent_ref''\<rparr>
                   else if has ''invalid graph'' \<or> has ''graph node '' \<and> has ''unsupported''
                     then \<lparr>rc_Retryable = False, rc_Reason = ''invalid_graph_ref''\<rparr>
                   else \<lparr>rc_Retryable = True, rc_Reason = ''retryable''\<rparr>)))"

definition effectiveMessageRetryPolicy :: "Task \<Rightarrow> TaskMessageRetryPolicy" where
  "effectiveMessageRetryPolicy t =
     (let p = sp_MessageRetry (t_Spec t); r = sp_Retry (t_Spec t);
          ma = (if mr_MaxAttempts p \<le> 0 then rp_MaxAttempts r else mr_MaxAttempts p);
          ma = (if ma \<le> 0 then 1 else ma);
          bk = (if trim_space (mr_Backoff p) = [] then rp_Backoff r else mr_Backoff p);
          bk = (if trim_space bk = [] then ''0s'' else bk);
          mb = (if trim_space (mr_MaxBackoff p) = [] then ''24h'' else mr_MaxBackoff p);
          jitter = to_lower (trim_space (mr_Jitter p))
      in p\<lparr>mr_MaxAttempts := ma, mr_Backoff := bk, mr_MaxBackoff := mb,
           mr_Jitter := (if List.member [''none'', ''full'', ''equal''] jitter then jitter else ''full'')\<rparr>)"

definition parseDurationOrDefault :: "string \<Rightarrow> duration \<Rightarrow> duration" where
  "parseDurationOrDefault raw fallback =
     (let value = trim_space raw
      in if value = [] then fallback
         else case parse_duration value of None \<Rightarrow> fallback | Some d \<Rightarrow> d)"

section \<open>Floating point\<close>

definition round_even :: "rat \<Rightarrow> int" where
  "round_even r =
     (let f = floor r; d = r - of_int f
      in if d < 1 / 2 then f else if 1 / 2 < d then f + 1 else if even f then f else f + 1)"

text \<open>The exponent that scales a positive rational into the range from \<open>2 ^ 52\<close> to \<open>2 ^ 53\<close>.\<close>

definition fl_exp :: "rat \<Rightarrow> int" where
  "fl_exp q =
     (let (a, b) = quotient_of q; e = bitlen a - bitlen b - 52
      in if q * 2 powi (- e) < 2 ^ 52 then e - 1 else e)"

definition fl :: "rat \<Rightarrow> rat" where
  "fl q = (if q \<le> 0 then 0 else of_int (round_even (q * 2 powi (- fl_exp q))) * 2 powi (fl_exp q))"

text \<open>Conversion of a float64 that is in range to an integer truncates.\<close>

definition fl_trunc :: "rat \<Rightarrow> int" where
  "fl_trunc q = floor q"

text \<open>FNV-1a with 64 bits.\<close>

definition fnv1a :: "nat \<Rightarrow> string \<Rightarrow> nat" where
  "fnv1a h s = foldl (\<lambda>h c. (Bit_Operations.xor h (of_char c) * 1099511628211) mod 2 ^ 64) h s"

definition fnv_offset :: nat where
  "fnv_offset = 14695981039346656037"

section \<open>The delay before the next attempt\<close>

definition messageIdempotencyKey :: "AgentMessage \<Rightarrow> string" where
  "messageIdempotencyKey m =
     (let key = trim_space (am_IdempotencyKey m); i = trim_space (am_MessageID m)
      in if key \<noteq> [] then key else if i \<noteq> [] then i
         else trim_space (am_TaskID m) @ ''|'' @ trim_space (am_FromAgent m) @ ''|''
              @ trim_space (am_ToAgent m) @ ''|'' @ itoa (am_Attempt m))"

definition messageRetryJitterUnit :: "AgentMessage \<Rightarrow> int \<Rightarrow> rat" where
  "messageRetryJitterUnit m attempts =
     (let seed = trim_space (messageIdempotencyKey m);
          seed = (if seed = [] then trim_space (am_MessageID m) else seed);
          seed = (if seed = [] then am_TaskID m @ ''|'' @ am_FromAgent m @ ''|'' @ am_ToAgent m else seed);
          h = fnv1a (fnv1a fnv_offset (to_lower seed)) (''|'' @ itoa attempts)
      in fl (fl (of_nat (h mod 1000000)) / 1000000))"

definition jittered :: "string \<Rightarrow> rat \<Rightarrow> duration \<Rightarrow> duration" where
  "jittered jitter unit delay =
     (if jitter = ''none'' then delay
      else
        let d = (if jitter = ''equal''
                 then let half = fl (fl (of_int delay) / 2) in fl_trunc (fl (half + fl (half * unit)))
                 else fl_trunc (fl (fl (of_int delay) * unit)))
        in if d \<le> 0 then Millisecond else d)"

definition computeMessageRetryDelay :: "TaskMessageRetryPolicy \<Rightarrow> AgentMessage \<Rightarrow> int \<Rightarrow> duration" where
  "computeMessageRetryDelay policy msg attempts =
     (let base = parseDurationOrDefault (mr_Backoff policy) 0
      in if base \<le> 0 then 0
         else
           let mb = parseDurationOrDefault (mr_MaxBackoff policy) (24 * Hour);
               maxBackoff = (if mb \<le> 0 then 24 * Hour else mb);
               attempts = (if attempts \<le> 0 then 1 else attempts);
               ex = (if attempts - 1 > 20 then 20 else attempts - 1);
               maxExp = (let e = bitlen (go_div maxBackoff base) - 1 in if e < 0 then 0 else e)
           in if ex > 0 \<and> ex > maxExp then maxBackoff
              else
                let delay = wrap64 (base * 2 ^ nat ex);
                    delay = (if delay > maxBackoff then maxBackoff else delay)
                in if delay \<le> 0 then 0
                   else jittered (to_lower (trim_space (mr_Jitter policy)))
                          (messageRetryJitterUnit msg attempts) delay)"

section \<open>Lemmas on rounding\<close>

lemma round_even_bounds: "of_int (round_even r) \<le> r + 1 / 2" "r - 1 / 2 \<le> of_int (round_even r)"
proof -
  have f: "of_int \<lfloor>r\<rfloor> \<le> r" "r < of_int \<lfloor>r\<rfloor> + 1" by linarith+
  show "of_int (round_even r) \<le> r + 1 / 2" "r - 1 / 2 \<le> of_int (round_even r)"
    unfolding round_even_def Let_def using f by (auto split: if_splits) linarith+
qed

lemma bitlen_pos: "0 < x \<Longrightarrow> 0 < bitlen x"
  using bitlen_bounds [of x] by (cases "bitlen x \<le> 0") auto

lemma bitlen_lower: "0 < x \<Longrightarrow> 2 powi (bitlen x - 1) \<le> (of_int x :: rat)"
proof -
  assume "0 < x"
  then have "2 ^ nat (bitlen x - 1) \<le> x" "0 < bitlen x" using bitlen_bounds [of x] bitlen_pos [of x] by auto
  then have "(of_int (2 ^ nat (bitlen x - 1)) :: rat) \<le> of_int x" by (simp only: of_int_le_iff)
  then show ?thesis using \<open>0 < bitlen x\<close> by (simp add: power_int_def)
qed

lemma bitlen_upper: "0 < x \<Longrightarrow> (of_int x :: rat) < 2 powi (bitlen x)"
proof -
  assume "0 < x"
  then have "x < 2 ^ nat (bitlen x)" "0 < bitlen x" using bitlen_bounds [of x] bitlen_pos [of x] by auto
  then have "(of_int x :: rat) < of_int (2 ^ nat (bitlen x))" by (simp only: of_int_less_iff)
  then show ?thesis using \<open>0 < bitlen x\<close> by (simp add: power_int_def)
qed

lemma fl_exp_scaled: "0 < q \<Longrightarrow> 2 ^ 52 \<le> q * 2 powi (- fl_exp q)"
proof -
  assume q: "0 < q"
  obtain a b where ab: "quotient_of q = (a, b)" by force
  have b: "0 < b" using quotient_of_denom_pos [OF ab] .
  have qab: "q = of_int a / of_int b" using quotient_of_div [OF ab] .
  have a: "0 < a" using q b by (simp add: qab zero_less_divide_iff)
  define e where "e = bitlen a - bitlen b - 52"
  have "2 powi (bitlen a - 1) / 2 powi (bitlen b) \<le> q"
    unfolding qab using bitlen_lower [OF a] bitlen_upper [OF b] a b
    by (intro frac_le) (auto intro: less_imp_le)
  then have "2 powi (bitlen a - 1 - bitlen b) \<le> q" by (simp add: power_int_diff)
  then have "2 powi (bitlen a - 1 - bitlen b) * 2 powi (- e) \<le> q * 2 powi (- e)"
    by (rule mult_right_mono) simp
  moreover have "2 powi (bitlen a - 1 - bitlen b) * 2 powi (- e) = (2 powi 51 :: rat)"
    unfolding e_def by (subst power_int_add [symmetric]) simp_all
  ultimately have lo: "2 ^ 51 \<le> q * 2 powi (- e)" by simp
  have "q * 2 powi (- (e - 1)) = q * 2 powi (- e) * 2" by (simp add: power_int_diff power_int_minus field_simps)
  with lo show ?thesis
    unfolding fl_exp_def ab Let_def prod.case e_def [symmetric] by auto
qed

lemma fl_rel:
  assumes "0 \<le> q"
  shows "fl q \<le> q * (1 + 1 / 2 ^ 53)" "q * (1 - 1 / 2 ^ 53) \<le> fl q"
proof -
  have "fl q \<le> q * (1 + 1 / 2 ^ 53) \<and> q * (1 - 1 / 2 ^ 53) \<le> fl q"
  proof (cases "q = 0")
    case False
    with assms have q: "0 < q" by simp
    define s where "s = (2 :: rat) powi (fl_exp q)"
    define m where "m = q * 2 powi (- fl_exp q)"
    have s: "0 < s" by (simp add: s_def)
    have ms: "m * s = q" by (simp add: m_def s_def power_int_minus)
    have "2 ^ 52 \<le> m" using fl_exp_scaled [OF q] by (simp add: m_def)
    then have "1 / 2 \<le> m * (1 / 2 ^ 53)" by simp
    then have "of_int (round_even m) \<le> m * (1 + 1 / 2 ^ 53)" "m * (1 - 1 / 2 ^ 53) \<le> of_int (round_even m)"
      using round_even_bounds [of m] by (auto simp: algebra_simps)
    then have "of_int (round_even m) * s \<le> m * (1 + 1 / 2 ^ 53) * s" "m * (1 - 1 / 2 ^ 53) * s \<le> of_int (round_even m) * s"
      using s by (auto intro: mult_right_mono)
    moreover have "fl q = of_int (round_even m) * s" using q by (simp add: fl_def m_def s_def)
    ultimately show ?thesis using ms by (simp add: mult.assoc mult.commute mult.left_commute)
  qed (simp add: fl_def)
  then show "fl q \<le> q * (1 + 1 / 2 ^ 53)" "q * (1 - 1 / 2 ^ 53) \<le> fl q" by auto
qed

lemma fl_nonneg: "0 \<le> fl q"
proof (cases "q \<le> 0")
  case False
  have "q * (1 - 1 / 2 ^ 53) \<le> fl q" by (rule fl_rel) (use False in simp)
  moreover have "0 \<le> q * (1 - 1 / 2 ^ 53 :: rat)" using False by (intro mult_nonneg_nonneg) auto
  ultimately show ?thesis by simp
qed (simp add: fl_def)

section \<open>Lemmas on the delay\<close>

definition max_backoff :: "TaskMessageRetryPolicy \<Rightarrow> duration" where
  "max_backoff p =
     (let mb = parseDurationOrDefault (mr_MaxBackoff p) (24 * Hour) in if mb \<le> 0 then 24 * Hour else mb)"

text \<open>The reference: the base doubled for each attempt after the first, cut at the maximum.\<close>

definition exp_backoff :: "duration \<Rightarrow> duration \<Rightarrow> int \<Rightarrow> duration" where
  "exp_backoff base maxb n = min (base * 2 ^ nat (min 20 (max 1 n - 1))) maxb"

lemma parseDurationOrDefault_range: "in_int64 d \<Longrightarrow> in_int64 (parseDurationOrDefault raw d)"
  by (auto simp: parseDurationOrDefault_def Let_def dest: parse_duration_range split: option.splits)

lemma max_backoff_range: "0 < max_backoff p \<and> in_int64 (max_backoff p)"
  using parseDurationOrDefault_range [of "24 * Hour" "mr_MaxBackoff p"]
  by (auto simp: max_backoff_def Let_def in_int64_bounds)

lemma guard_exact:
  fixes base maxb :: int and e :: nat
  assumes "0 < base" "0 < maxb" "0 < e"
  shows "bitlen (go_div maxb base) - 1 < int e \<longleftrightarrow> maxb < base * 2 ^ e"
proof -
  define q where "q = maxb div base"
  have g: "go_div maxb base = q" using assms by (simp add: go_div_def q_def)
  have q0: "0 \<le> q" unfolding q_def using assms by (simp add: pos_imp_zdiv_nonneg_iff)
  have qe: "maxb < base * 2 ^ e \<longleftrightarrow> q < 2 ^ e"
  proof
    assume "maxb < base * 2 ^ e"
    then show "q < 2 ^ e" using div_bounds(1) [OF assms(1), of maxb] assms(1)
      by (metis mult_less_cancel_left_pos order_le_less_trans q_def)
  next
    assume "q < 2 ^ e"
    then have "base * q + base \<le> base * 2 ^ e"
      using mult_left_mono [of "q + 1" "2 ^ e" base] assms(1) by (simp add: algebra_simps)
    then show "maxb < base * 2 ^ e" using div_bounds(2) [OF assms(1), of maxb] by (simp add: q_def)
  qed
  have "bitlen q \<le> int e \<longleftrightarrow> q < 2 ^ e"
    using q0 bitlen_le_iff_power [of q e] by simp
  then show ?thesis unfolding g qe by auto
qed

lemma fl_mult_le:
  assumes "0 \<le> a" "a \<le> b"
  shows "fl a \<le> b * (1 + 1 / 2 ^ 53)"
  using fl_rel(1) [OF assms(1)] assms(2) by (meson mult_right_mono order_trans zero_le_divide_1_iff add_nonneg_nonneg zero_le_one zero_le_power zero_le_numeral)

abbreviation unit_max :: rat where
  "unit_max \<equiv> 999999 / 1000000 * (1 + 1 / 2 ^ 53) * (1 + 1 / 2 ^ 53)"

lemma unit_bounds: "0 \<le> messageRetryJitterUnit m n \<and> messageRetryJitterUnit m n \<le> unit_max"
proof -
  have "fl (fl (of_nat (h mod 1000000)) / 1000000) \<le> unit_max" for h :: nat
  proof -
    have "of_nat (h mod 1000000) \<le> (999999 :: rat)"
    proof -
      have "h mod 1000000 \<le> 999999" using mod_less_divisor [of 1000000 h] by simp
      then have "(of_nat (h mod 1000000) :: rat) \<le> of_nat 999999" by (simp only: of_nat_le_iff)
      then show ?thesis by simp
    qed
    from fl_mult_le [OF _ this] have "fl (of_nat (h mod 1000000)) \<le> 999999 * (1 + 1 / 2 ^ 53)" by simp
    then have "fl (of_nat (h mod 1000000)) / 1000000 \<le> 999999 / 1000000 * (1 + 1 / 2 ^ 53)" by simp
    from fl_mult_le [OF _ this] show ?thesis using fl_nonneg by simp
  qed
  then show ?thesis using fl_nonneg by (simp add: messageRetryJitterUnit_def Let_def)
qed

lemma jittered_bounds:
  assumes d: "0 < d" and u: "0 \<le> u" "u \<le> unit_max"
  shows "0 < jittered j u d \<and> jittered j u d \<le> max d Millisecond"
proof -
  let ?d = "of_int d :: rat" and ?c = "1 + 1 / 2 ^ 53 :: rat"
  have d0: "0 \<le> ?d" using d by simp
  have fd: "fl ?d \<le> ?d * ?c" "0 \<le> fl ?d" using fl_rel(1) [OF d0] fl_nonneg by auto
  have "fl ?d * u \<le> ?d * ?c * unit_max" by (rule mult_mono) (use fd u d0 in auto)
  from fl_mult_le [OF mult_nonneg_nonneg [OF fd(2) u(1)] this]
  have full: "fl (fl ?d * u) \<le> ?d" using d0 by (simp add: field_simps)
  let ?h = "fl (fl ?d / 2)"
  have "fl ?d / 2 \<le> ?d * ?c / 2" using fd by simp
  from fl_mult_le [OF _ this] fd(2) have h: "?h \<le> ?d * ?c / 2 * ?c" "0 \<le> ?h" using fl_nonneg by auto
  have "?h * u \<le> ?d * ?c / 2 * ?c * unit_max" by (rule mult_mono) (use h u d0 in auto)
  from fl_mult_le [OF mult_nonneg_nonneg [OF h(2) u(1)] this]
  have "fl (?h * u) \<le> ?d * ?c / 2 * ?c * unit_max * ?c" .
  then have "?h + fl (?h * u) \<le> ?d * ?c / 2 * ?c + ?d * ?c / 2 * ?c * unit_max * ?c"
    using h by simp
  from fl_mult_le [OF _ this] have equal: "fl (?h + fl (?h * u)) \<le> ?d"
    using h fl_nonneg [of "?h * u"] d0 by (simp add: field_simps)
  have "fl_trunc (fl (fl ?d * u)) \<le> d" "fl_trunc (fl (?h + fl (?h * u))) \<le> d"
    using full equal unfolding fl_trunc_def by (metis floor_mono floor_of_int)+
  with d show ?thesis by (auto simp: jittered_def Let_def max_def)
qed

text \<open>
  The delay in terms of the reference: beyond the guard it is the maximum itself, otherwise the
  reference value with its jitter, and the multiplication does not overflow.
\<close>

lemma delay_cases:
  fixes n :: int
  assumes base: "parseDurationOrDefault (mr_Backoff p) 0 = base" "0 < base"
  defines "e \<equiv> nat (min 20 (max 1 n - 1))"
  shows "computeMessageRetryDelay p m n =
    (if 0 < e \<and> max_backoff p < base * 2 ^ e then max_backoff p
     else jittered (to_lower (trim_space (mr_Jitter p))) (messageRetryJitterUnit m (max 1 n))
            (exp_backoff base (max_backoff p) n))"
proof -
  let ?mb = "max_backoff p"
  have mb: "0 < ?mb" "in_int64 ?mb" using max_backoff_range by auto
  have ib: "in_int64 base" using parseDurationOrDefault_range [of 0 "mr_Backoff p"] base by (simp add: in_int64_def)
  define maxExp where "maxExp = (let x = bitlen (go_div ?mb base) - 1 in if x < 0 then 0 else x)"
  have g: "(0 < int e \<and> maxExp < int e) \<longleftrightarrow> (0 < e \<and> ?mb < base * 2 ^ e)"
  proof (cases "0 < e")
    case True
    then have "maxExp < int e \<longleftrightarrow> bitlen (go_div ?mb base) - 1 < int e" by (simp add: maxExp_def Let_def)
    with True guard_exact [OF base(2) mb(1) True] show ?thesis by simp
  qed simp
  have wrap: "wrap64 (base * 2 ^ e) = base * 2 ^ e" if "\<not> (0 < e \<and> ?mb < base * 2 ^ e)"
  proof (rule wrap64_id)
    show "in_int64 (base * 2 ^ e)"
    proof (cases "e = 0")
      case False
      with that have "base * 2 ^ e \<le> ?mb" by simp
      moreover have "0 < base * 2 ^ e" using base by simp
      ultimately show ?thesis using mb by (simp add: in_int64_def)
    qed (use ib in simp)
  qed
  have pos: "0 < base * 2 ^ e" using base by simp
  have n1: "(if n \<le> 0 then 1 else n) = max 1 n" by (simp add: max_def)
  have ex: "(if 20 < max 1 n - 1 then 20 else max 1 n - 1) = int e" by (auto simp: e_def min_def max_def)
  have "computeMessageRetryDelay p m n =
    (if 0 < int e \<and> maxExp < int e then ?mb
     else let delay = wrap64 (base * 2 ^ e); delay = (if delay > ?mb then ?mb else delay)
          in if delay \<le> 0 then 0 else jittered (to_lower (trim_space (mr_Jitter p)))
               (messageRetryJitterUnit m (max 1 n)) delay)"
    using base(2)
    unfolding computeMessageRetryDelay_def base(1) max_backoff_def [symmetric, unfolded Let_def] Let_def
      maxExp_def n1 ex by (cases "e = 0") simp_all
  also have "\<dots> = (if 0 < e \<and> ?mb < base * 2 ^ e then ?mb
     else jittered (to_lower (trim_space (mr_Jitter p))) (messageRetryJitterUnit m (max 1 n)) (min (base * 2 ^ e) ?mb))"
    unfolding g using wrap pos mb(1) by (auto simp: Let_def min_def)
  finally show ?thesis unfolding exp_backoff_def e_def .
qed

lemma exp_backoff_pos: "0 < base \<Longrightarrow> 0 < maxb \<Longrightarrow> 0 < exp_backoff base maxb n \<and> exp_backoff base maxb n \<le> maxb"
  by (simp add: exp_backoff_def)

section \<open>Properties\<close>

text \<open>
  C28: Without jitter the delay before attempt \<open>n + 1\<close> is the base delay doubled for each attempt
  after the first (at most twenty times) and cut at the maximum delay, computed over the integers:
  the guard before the 64-bit multiplication rules out every overflow.
\<close>

theorem retry_delay_exponential:
  assumes "parseDurationOrDefault (mr_Backoff p) 0 = base" "0 < base"
    "to_lower (trim_space (mr_Jitter p)) = ''none''"
  shows "computeMessageRetryDelay p m n = exp_backoff base (max_backoff p) n"
  using delay_cases [OF assms(1,2), of m n] assms(3)
  by (auto simp: jittered_def exp_backoff_def)

definition demo_policy :: "string \<Rightarrow> TaskMessageRetryPolicy" where
  "demo_policy j = \<lparr>mr_MaxAttempts = 3, mr_Backoff = ''1s'', mr_MaxBackoff = ''5s'', mr_Jitter = j,
     mr_NonRetryable = []\<rparr>"

theorem retry_delay_exponential_witness:
  "computeMessageRetryDelay (demo_policy ''none'') demo_msg 3 = 4 * Second
   \<and> computeMessageRetryDelay (demo_policy ''none'') demo_msg 4 = 5 * Second"
proof -
  have pre: "parseDurationOrDefault (mr_Backoff (demo_policy ''none'')) 0 = Second" "0 < Second"
    "to_lower (trim_space (mr_Jitter (demo_policy ''none''))) = ''none''"
    by code_simp+
  have "exp_backoff Second (max_backoff (demo_policy ''none'')) 3 = 4 * Second"
    "exp_backoff Second (max_backoff (demo_policy ''none'')) 4 = 5 * Second"
    by code_simp+
  then show ?thesis
    using retry_delay_exponential [OF pre, of demo_msg 3] retry_delay_exponential [OF pre, of demo_msg 4] by simp
qed

text \<open>
  With any jitter setting, in floating-point arithmetic with its rounding, the delay of a
  policy with a positive base is positive and at most the exponential delay, or one millisecond
  where that is more.
\<close>

theorem retry_delay_bounds:
  assumes "parseDurationOrDefault (mr_Backoff p) 0 = base" "0 < base"
  shows "0 < computeMessageRetryDelay p m n
    \<and> computeMessageRetryDelay p m n \<le> max (exp_backoff base (max_backoff p) n) Millisecond"
proof -
  have "0 < exp_backoff base (max_backoff p) n" using exp_backoff_pos [OF assms(2)] max_backoff_range by blast
  from jittered_bounds [OF this, of "messageRetryJitterUnit m (max 1 n)"] unit_bounds
  have "0 < jittered j (messageRetryJitterUnit m (max 1 n)) (exp_backoff base (max_backoff p) n)
    \<and> jittered j (messageRetryJitterUnit m (max 1 n)) (exp_backoff base (max_backoff p) n)
      \<le> max (exp_backoff base (max_backoff p) n) Millisecond" for j by blast
  with max_backoff_range [of p] show ?thesis
    unfolding delay_cases [OF assms] by (auto simp: exp_backoff_def)
qed

theorem retry_delay_bounds_witness:
  "0 < computeMessageRetryDelay (demo_policy ''full'') demo_msg 2
   \<and> computeMessageRetryDelay (demo_policy ''full'') demo_msg 2 \<le> 2 * Second"
proof -
  have pre: "parseDurationOrDefault (mr_Backoff (demo_policy ''full'')) 0 = Second" "0 < Second"
    by code_simp+
  have "max (exp_backoff Second (max_backoff (demo_policy ''full'')) 2) Millisecond = 2 * Second" by code_simp
  with retry_delay_bounds [OF pre, of demo_msg 2] show ?thesis by simp
qed

text \<open>
  Jitter stops at the maximum. Once the doubled delay is above the maximum delay, messages are
  retried after exactly the maximum, whatever the jitter setting: two messages that fail together
  are retried together.
\<close>

theorem capped_delay_has_no_jitter:
  assumes "parseDurationOrDefault (mr_Backoff p) 0 = base" "0 < base"
    "2 \<le> n" "max_backoff p < base * 2 ^ nat (min 20 (n - 1))"
  shows "computeMessageRetryDelay p m n = max_backoff p"
  using delay_cases [OF assms(1,2), of m n] assms(3,4) by (simp add: max_def)

theorem capped_delay_has_no_jitter_witness:
  "computeMessageRetryDelay (demo_policy ''full'') demo_msg 4 = 5 * Second
   \<and> computeMessageRetryDelay (demo_policy ''full'') (demo_msg\<lparr>am_MessageID := ''m2''\<rparr>) 4 = 5 * Second"
proof -
  have pre: "parseDurationOrDefault (mr_Backoff (demo_policy ''full'')) 0 = Second" "0 < Second" "2 \<le> (4 :: int)"
    "max_backoff (demo_policy ''full'') < Second * 2 ^ nat (min 20 (4 - 1))"
    by code_simp+
  have "max_backoff (demo_policy ''full'') = 5 * Second" by code_simp
  then show ?thesis using capped_delay_has_no_jitter [OF pre] by simp
qed

end
