(* ===== verification/Resource_Store.thy ===== *)
theory Resource_Store
  imports Object_Meta
begin

text \<open>
  The in-memory resource stores (store/resource_stores.go, db = nil). Every store keeps a Go map
  from scoped names to resources and has the same Upsert, Get, List, ListCursor and Delete; they
  are given here once, with the resource type's metadata accessors, spec comparison and Normalize
  as arguments, and each store of the model is an instance. A handler holds the store's mutex
  from its first read to its last write, so an operation is one state transformer.

  Resources are values, so DeepCopy is the identity; a nil and an empty slice or map are equal, so
  the comparison of specs does not tell them apart. A Go map has no order: the association list's
  order stands for the iteration order of one run, and the sort of a listing places resources of
  equal names in one of the orders the code can produce.

  The locale \<open>versioned_resource\<close> states what a store needs of its resource type; in it: every
  operation keeps the store well-formed, a read returns the last accepted write, and a write made
  with an outdated version is refused.
\<close>

section \<open>Operations\<close>

definition defaultListLimit :: nat where
  "defaultListLimit = 1000"

definition store_upsert ::
  "string \<Rightarrow> ('a \<Rightarrow> ObjectMeta) \<Rightarrow> (ObjectMeta \<Rightarrow> 'a \<Rightarrow> 'a) \<Rightarrow> ('a \<Rightarrow> 'a \<Rightarrow> bool) \<Rightarrow> ('a \<Rightarrow> api_error + 'a)
    \<Rightarrow> instant \<Rightarrow> 'a \<Rightarrow> (string \<times> 'a) list \<Rightarrow> (api_error + 'a) \<times> (string \<times> 'a) list" where
  "store_upsert resource meta set_meta spec_changed norm_item now item items =
     (case norm_item item of
        Inl e \<Rightarrow> (Inl e, items)
      | Inr it \<Rightarrow>
          let key = scopedNameFromMeta (meta it)
          in case (case map_of items key of
                     None \<Rightarrow> initializeCreateMetadata now resource (meta it)
                   | Some ex \<Rightarrow>
                       initializeUpdateMetadata now resource (meta it) (meta ex) (spec_changed ex it)) of
               Inl e \<Rightarrow> (Inl e, items)
             | Inr m \<Rightarrow> (Inr (set_meta m it), AList.update key (set_meta m it) items))"

definition store_get :: "string \<Rightarrow> (string \<times> 'a) list \<Rightarrow> 'a option" where
  "store_get name items = map_of items (normalizeLookupName name)"

definition store_delete ::
  "string \<Rightarrow> string \<Rightarrow> (string \<times> 'a) list \<Rightarrow> api_error option \<times> (string \<times> 'a) list" where
  "store_delete kind name items =
     (let key = normalizeLookupName name
      in if map_of items key = None then (Some (NotFound kind name), items)
         else (None, AList.delete key items))"

definition store_list :: "('a \<Rightarrow> ObjectMeta) \<Rightarrow> (string \<times> 'a) list \<Rightarrow> 'a list" where
  "store_list meta items = sort_key (\<lambda>x. m_Name (meta x)) (map snd items)"

text \<open>The loop of cursorFilter, with the slice built so far.\<close>

fun cursor_loop ::
  "('a \<Rightarrow> string) \<Rightarrow> ('a \<Rightarrow> string) \<Rightarrow> nat \<Rightarrow> string \<Rightarrow> string \<Rightarrow> 'a list \<Rightarrow> 'a list \<Rightarrow> 'a list" where
  "cursor_loop getName getNamespace limit after namespace result [] = result"
| "cursor_loop getName getNamespace limit after namespace result (item # items) =
     (if after \<noteq> [] \<and> scopedName (getNamespace item) (getName item) \<le> after
        then cursor_loop getName getNamespace limit after namespace result items
      else if namespace \<noteq> [] \<and> \<not> equal_fold (getNamespace item) namespace
        then cursor_loop getName getNamespace limit after namespace result items
      else if limit \<le> length (result @ [item]) then result @ [item]
      else cursor_loop getName getNamespace limit after namespace (result @ [item]) items)"

definition cursorFilter ::
  "'a list \<Rightarrow> ('a \<Rightarrow> string) \<Rightarrow> ('a \<Rightarrow> string) \<Rightarrow> int \<Rightarrow> string \<Rightarrow> string \<Rightarrow> 'a list" where
  "cursorFilter items getName getNamespace limit after namespace =
     cursor_loop getName getNamespace (if limit \<le> 0 then defaultListLimit else nat limit)
       after namespace [] items"

definition store_list_cursor ::
  "('a \<Rightarrow> ObjectMeta) \<Rightarrow> int \<Rightarrow> string \<Rightarrow> string \<Rightarrow> (string \<times> 'a) list \<Rightarrow> 'a list" where
  "store_list_cursor meta limit after namespace items =
     cursorFilter (store_list meta items) (\<lambda>x. m_Name (meta x))
       (\<lambda>x. NormalizeNamespace (m_Namespace (meta x))) limit after namespace"

section \<open>Well-formed stores\<close>

definition version_ok :: "ObjectMeta \<Rightarrow> bool" where
  "version_ok m \<longleftrightarrow> (\<exists>n. in_int64 n \<and> m_ResourceVersion m = itoa n)"

definition items_wf :: "('a \<Rightarrow> ObjectMeta) \<Rightarrow> ('a \<Rightarrow> bool) \<Rightarrow> (string \<times> 'a) list \<Rightarrow> bool" where
  "items_wf meta ok items \<longleftrightarrow>
     distinct (map fst items)
     \<and> (\<forall>(k, x) \<in> set items. k = scopedNameFromMeta (meta x) \<and> ok x \<and> version_ok (meta x))"

lemma items_wf_Nil [simp]: "items_wf meta ok []"
  by (simp add: items_wf_def)

lemma items_wf_lookup:
  "items_wf meta ok items \<Longrightarrow> map_of items k = Some x \<Longrightarrow>
   k = scopedNameFromMeta (meta x) \<and> ok x \<and> version_ok (meta x)"
  unfolding items_wf_def by (auto dest: map_of_SomeD)

lemma items_wf_member:
  "items_wf meta ok items \<Longrightarrow> (k, x) \<in> set items \<longleftrightarrow> map_of items k = Some x"
  unfolding items_wf_def by (simp add: map_of_eq_Some_iff)

text \<open>A well-formed list of items is a finite map that holds well-formed items only.\<close>

lemma items_wf_iff:
  "items_wf meta ok items \<longleftrightarrow> distinct (map fst items) \<and>
     (\<forall>k x. map_of items k = Some x \<longrightarrow> k = scopedNameFromMeta (meta x) \<and> ok x \<and> version_ok (meta x))"
  unfolding items_wf_def by (auto simp: map_of_eq_Some_iff)

lemma items_wf_update:
  assumes "items_wf meta ok items" "k = scopedNameFromMeta (meta x)" "ok x" "version_ok (meta x)"
  shows "items_wf meta ok (AList.update k x items)"
  using assms unfolding items_wf_iff by (auto simp: distinct_update update_conv' split: if_splits)

lemma items_wf_delete: "items_wf meta ok items \<Longrightarrow> items_wf meta ok (AList.delete k items)"
  unfolding items_wf_iff by (auto simp: distinct_delete delete_conv' split: if_splits)

lemma version_ok_create:
  "initializeCreateMetadata now r m = Inr m' \<Longrightarrow>
   version_ok m' \<and> m_Name m' = m_Name m \<and> m_Namespace m' = m_Namespace m
   \<and> m_ResourceVersion m' = itoa 1"
  unfolding initializeCreateMetadata_def version_ok_def
  by (auto simp: Let_def itoa_numerals in_int64_bounds intro: exI [of _ 1] split: if_splits)

lemma initializeUpdateMetadata_names:
  "initializeUpdateMetadata now r m cur ch = Inr m' \<Longrightarrow>
   m_Name m' = m_Name m \<and> m_Namespace m' = m_Namespace m"
  unfolding initializeUpdateMetadata_def by (auto simp: Let_def split: if_splits option.splits)

lemma one_version: "\<exists>n. in_int64 n \<and> ''1'' = itoa n"
  by (rule exI [of _ 1]) (simp add: itoa_numerals in_int64_bounds)

lemma nextResourceVersion_ok:
  "nextResourceVersion v = Some v' \<Longrightarrow> \<exists>n. in_int64 n \<and> v' = itoa n"
  unfolding nextResourceVersion_def Let_def
  by (cases "trim_space v = []")
    (auto intro: wrap64_in_range one_version split: if_splits option.splits)

lemma version_ok_update:
  "initializeUpdateMetadata now r m cur ch = Inr m' \<Longrightarrow> version_ok m'"
  unfolding initializeUpdateMetadata_def version_ok_def
  by (auto simp: Let_def split: if_splits option.splits dest!: nextResourceVersion_ok)

text \<open>An accepted update moves the version to one the resource never carried before it.\<close>

lemma itoa_nonempty [simp]: "itoa n \<noteq> []"
  by (simp add: itoa_def)

lemma initializeUpdateMetadata_version:
  assumes "initializeUpdateMetadata now r m cur ch = Inr m'"
    and "m_ResourceVersion cur = itoa n" "in_int64 n"
  shows "m_ResourceVersion m' = itoa (wrap64 (n + 1)) \<and> 0 \<le> n
         \<and> (trim_space (m_ResourceVersion m) = [] \<or> trim_space (m_ResourceVersion m) = itoa n)"
  using assms unfolding initializeUpdateMetadata_def nextResourceVersion_def
  by (auto simp: Let_def split: if_splits option.splits)

lemma wrap64_Suc_neq: "in_int64 n \<Longrightarrow> wrap64 (n + 1) \<noteq> n"
  by (cases "n = 2 ^ 63 - 1") (simp_all add: wrap64_id in_int64_bounds wrap64_def [of "9223372036854775808"])

section \<open>The contract of a resource type\<close>

locale versioned_resource =
  fixes resource :: string
    and meta :: "'a \<Rightarrow> ObjectMeta"
    and set_meta :: "ObjectMeta \<Rightarrow> 'a \<Rightarrow> 'a"
    and spec_changed :: "'a \<Rightarrow> 'a \<Rightarrow> bool"
    and norm_item :: "'a \<Rightarrow> api_error + 'a"
    and ok :: "'a \<Rightarrow> bool"
  assumes meta_set: "meta (set_meta m x) = m"
    and norm_item_ok: "norm_item x = Inr y \<Longrightarrow> ok y"
    and ok_names: "ok x \<Longrightarrow> ValidateMetadataName (m_Name (meta x)) = None"
    and ok_set: "ok x \<Longrightarrow> m_Name m = m_Name (meta x) \<Longrightarrow> m_Namespace m = m_Namespace (meta x)
      \<Longrightarrow> ok (set_meta m x)"
begin

lemma upsert_cases:
  assumes "store_upsert resource meta set_meta spec_changed norm_item now item items = (Inr x, items')"
    and "items_wf meta ok items"
  obtains it where "norm_item item = Inr it" "ok it" "ok x" "version_ok (meta x)"
    "items' = AList.update (scopedNameFromMeta (meta x)) x items"
    "m_Name (meta x) = m_Name (meta it)" "m_Namespace (meta x) = m_Namespace (meta it)"
proof -
  from assms(1) obtain it where it: "norm_item item = Inr it"
    by (auto simp: store_upsert_def split: sum.splits)
  then obtain m where m: "x = set_meta m it"
    "items' = AList.update (scopedNameFromMeta (meta it)) x items"
    and res: "initializeCreateMetadata now resource (meta it) = Inr m
      \<or> (\<exists>cur ch. initializeUpdateMetadata now resource (meta it) cur ch = Inr m)"
    using assms(1)
    by (auto simp: store_upsert_def Let_def split: sum.splits option.splits)
  have names: "m_Name m = m_Name (meta it)" "m_Namespace m = m_Namespace (meta it)" "version_ok m"
    using res version_ok_create initializeUpdateMetadata_names version_ok_update by blast+
  have okit: "ok it" using it norm_item_ok by blast
  then have "ok x" using m names ok_set by blast
  moreover have "scopedNameFromMeta (meta x) = scopedNameFromMeta (meta it)"
    using m names by (simp add: scopedNameFromMeta_def meta_set)
  ultimately show thesis using that it okit m names by (simp add: meta_set)
qed

lemma upsert_wf:
  assumes "items_wf meta ok items"
  shows "items_wf meta ok
    (snd (store_upsert resource meta set_meta spec_changed norm_item now item items))"
proof (cases "store_upsert resource meta set_meta spec_changed norm_item now item items")
  case (Pair r items')
  show ?thesis
  proof (cases r)
    case (Inl e)
    then have "items' = items" using Pair
      by (auto simp: store_upsert_def Let_def split: sum.splits)
    with assms Pair show ?thesis by simp
  next
    case (Inr x)
    with Pair assms show ?thesis
      by (auto elim!: upsert_cases intro!: items_wf_update)
  qed
qed

lemma delete_wf:
  "items_wf meta ok items \<Longrightarrow> items_wf meta ok (snd (store_delete kind name items))"
  by (simp add: store_delete_def Let_def items_wf_delete)

text \<open>Read your write, by the scoped name and, in the default namespace, by the bare name.\<close>

lemma upsert_get:
  assumes "store_upsert resource meta set_meta spec_changed norm_item now item items = (Inr x, items')"
    and "items_wf meta ok items" "CHR ''/'' \<notin> set (m_Namespace (meta x))"
    and "trim_space (m_Name (meta x)) \<noteq> []"
  shows "store_get (scopedNameFromMeta (meta x)) items' = Some x"
  using assms
  by (auto elim!: upsert_cases
      simp: store_get_def scopedNameFromMeta_def normalizeLookupName_scopedName update_conv')

lemma upsert_get_other:
  assumes "store_upsert resource meta set_meta spec_changed norm_item now item items = (Inr x, items')"
    and "items_wf meta ok items" "normalizeLookupName name \<noteq> scopedNameFromMeta (meta x)"
  shows "store_get name items' = store_get name items"
  using assms by (auto elim!: upsert_cases simp: store_get_def update_conv')

lemma upsert_version:
  assumes up: "store_upsert resource meta set_meta spec_changed norm_item now item items = (Inr x, items')"
    and wf: "items_wf meta ok items"
  shows "m_ResourceVersion (meta x) =
    (case map_of items (scopedNameFromMeta (meta x)) of
       None \<Rightarrow> itoa 1
     | Some old \<Rightarrow> itoa (wrap64 (the (atoi (m_ResourceVersion (meta old))) + 1)))"
proof -
  obtain it where it: "norm_item item = Inr it"
    "scopedNameFromMeta (meta x) = scopedNameFromMeta (meta it)"
    using up wf by (auto elim!: upsert_cases simp: scopedNameFromMeta_def)
  show ?thesis
  proof (cases "map_of items (scopedNameFromMeta (meta x))")
    case None
    then have "initializeCreateMetadata now resource (meta it) = Inr (meta x)"
      using up it by (auto simp: store_upsert_def Let_def meta_set split: sum.splits)
    with None show ?thesis using version_ok_create by simp
  next
    case (Some old)
    then have upd: "initializeUpdateMetadata now resource (meta it) (meta old) (spec_changed old it)
        = Inr (meta x)"
      using up it by (auto simp: store_upsert_def Let_def meta_set split: sum.splits)
    obtain n where n: "m_ResourceVersion (meta old) = itoa n" "in_int64 n"
      using items_wf_lookup [OF wf Some] by (auto simp: version_ok_def)
    show ?thesis using initializeUpdateMetadata_version [OF upd n] Some n by simp
  qed
qed

text \<open>
  Optimistic concurrency: once a write at version \<open>v\<close> was accepted, another write that still
  carries \<open>v\<close> is refused, and the store does not change.
\<close>

lemma upsert_conflict:
  assumes wf: "items_wf meta ok items"
    and up: "store_upsert resource meta set_meta spec_changed norm_item now item items = (Inr x, items')"
    and old: "map_of items (scopedNameFromMeta (meta x)) = Some old"
    and n2: "norm_item item2 = Inr it2"
    and key: "scopedNameFromMeta (meta it2) = scopedNameFromMeta (meta x)"
    and ver: "trim_space (m_ResourceVersion (meta it2)) = m_ResourceVersion (meta old)"
  shows "store_upsert resource meta set_meta spec_changed norm_item now2 item2 items'
    = (Inl (ConflictError resource (m_ResourceVersion (meta old)) (m_ResourceVersion (meta x))), items')"
proof -
  obtain n where n: "m_ResourceVersion (meta old) = itoa n" "in_int64 n"
    using items_wf_lookup [OF wf old] by (auto simp: version_ok_def)
  obtain it where it: "norm_item item = Inr it"
    "items' = AList.update (scopedNameFromMeta (meta x)) x items"
    "scopedNameFromMeta (meta x) = scopedNameFromMeta (meta it)"
    using up wf by (auto elim!: upsert_cases simp: scopedNameFromMeta_def)
  have upd: "initializeUpdateMetadata now resource (meta it) (meta old) (spec_changed old it)
      = Inr (meta x)"
    using up old it by (auto simp: store_upsert_def Let_def meta_set split: sum.splits)
  have "m_ResourceVersion (meta x) = itoa (wrap64 (n + 1))"
    using initializeUpdateMetadata_version [OF upd n] by simp
  then have "m_ResourceVersion (meta x) \<noteq> m_ResourceVersion (meta old)"
    using itoa_inj [of "wrap64 (n + 1)" n] n(2) wrap64_Suc_neq [of n] unfolding n(1) by auto
  then have "initializeUpdateMetadata now2 resource (meta it2) (meta x) (spec_changed x it2)
      = Inl (ConflictError resource (m_ResourceVersion (meta old)) (m_ResourceVersion (meta x)))"
    using initializeUpdateMetadata_stale [of "meta it2" "meta x"] ver n by simp
  then show ?thesis
    using n2 key it(2) by (simp add: store_upsert_def Let_def update_conv')
qed

end

section \<open>Pages\<close>

abbreviation page_match :: "('a \<Rightarrow> string) \<Rightarrow> ('a \<Rightarrow> string) \<Rightarrow> string \<Rightarrow> string \<Rightarrow> 'a \<Rightarrow> bool" where
  "page_match getName getNamespace after namespace x \<equiv>
     \<not> (after \<noteq> [] \<and> scopedName (getNamespace x) (getName x) \<le> after)
     \<and> \<not> (namespace \<noteq> [] \<and> \<not> equal_fold (getNamespace x) namespace)"

text \<open>The loop is a filter cut to the limit.\<close>

lemma cursor_loop_filter:
  "length result < limit \<Longrightarrow>
   cursor_loop getName getNamespace limit after namespace result items
     = result @ take (limit - length result) (filter (page_match getName getNamespace after namespace) items)"
proof (induction items arbitrary: result)
  case (Cons x items)
  show ?case
  proof (cases "page_match getName getNamespace after namespace x")
    case True
    have "limit - length result = Suc (limit - Suc (length result))" using Cons.prems by simp
    with True Cons show ?thesis by (cases "limit = Suc (length result)") auto
  next
    case False
    then show ?thesis using Cons by auto
  qed
qed simp

lemma cursorFilter_filter:
  "cursorFilter items getName getNamespace limit after namespace =
     take (if limit \<le> 0 then defaultListLimit else nat limit)
       (filter (page_match getName getNamespace after namespace) items)"
  unfolding cursorFilter_def
  by (subst cursor_loop_filter) (simp_all add: defaultListLimit_def)

text \<open>After the last element of a page, the next page continues where the first one stopped.\<close>

lemma filter_after_take:
  assumes "sorted_wrt (\<lambda>x y. f x < (f y :: 'b :: linorder)) F" "take l F \<noteq> []"
  shows "filter (\<lambda>x. f (last (take l F)) < f x) F = drop l F"
proof -
  let ?y = "last (take l F)"
  have split: "F = butlast (take l F) @ [?y] @ drop l F"
    by (metis append.assoc append_butlast_last_id append_take_drop_id assms(2))
  have "\<forall>x \<in> set (butlast (take l F)). f x < f ?y" "\<forall>x \<in> set (drop l F). f ?y < f x"
    using assms(1) by (subst (asm) split, auto simp: sorted_wrt_append)+
  then have "filter (\<lambda>x. f ?y < f x) (butlast (take l F) @ [?y] @ drop l F) = drop l F"
    by (auto simp: filter_empty_conv)
  with split show ?thesis by simp
qed

lemma pages_append:
  assumes "sorted_wrt (\<lambda>x y. f x < (f y :: 'b :: linorder)) F" "take l F \<noteq> []"
  shows "take l F @ take m (filter (\<lambda>x. f (last (take l F)) < f x) F) = take (l + m) F"
  using filter_after_take [OF assms] by (simp add: take_add)

lemma page_match_less:
  "page_match getName getNamespace after namespace x \<longleftrightarrow>
     after < scopedName (getNamespace x) (getName x)
     \<and> (namespace = [] \<or> equal_fold (getNamespace x) namespace)"
  by (cases "after = []") (auto simp: scopedName_def not_le order.strict_iff_order)

lemma cursorFilter_less:
  "cursorFilter items getName getNamespace limit after namespace =
     take (if limit \<le> 0 then defaultListLimit else nat limit)
       (filter (\<lambda>x. after < scopedName (getNamespace x) (getName x)
          \<and> (namespace = [] \<or> equal_fold (getNamespace x) namespace)) items)"
  unfolding cursorFilter_filter
  by (rule arg_cong [where f = "take _"], rule filter_cong [OF refl page_match_less])

text \<open>Within one namespace the order of names is the order of keys.\<close>

lemma scopedName_mono:
  "trim_space a = a \<Longrightarrow> trim_space b = b \<Longrightarrow> a < b \<Longrightarrow> scopedName ns a < scopedName ns b"
proof -
  have "xs @ a < xs @ b \<longleftrightarrow> a < b" for xs and a b :: string
    by (induction xs) auto
  then show "trim_space a = a \<Longrightarrow> trim_space b = b \<Longrightarrow> a < b \<Longrightarrow> scopedName ns a < scopedName ns b"
    by (simp add: scopedName_def)
qed

lemma store_list_keys_distinct:
  assumes "items_wf meta ok items"
  shows "distinct (map (\<lambda>x. scopedNameFromMeta (meta x)) (store_list meta items))"
proof -
  have "map (\<lambda>x. scopedNameFromMeta (meta x)) (map snd items) = map fst items"
    using assms by (auto simp: items_wf_def)
  then have "distinct (map (\<lambda>x. scopedNameFromMeta (meta x)) (map snd items))"
    using assms by (simp only: items_wf_def)
  then have "distinct (map snd items)" "inj_on (\<lambda>x. scopedNameFromMeta (meta x)) (set (map snd items))"
    unfolding distinct_map [of _ "map snd items"] by blast+
  then show ?thesis by (simp add: store_list_def distinct_map [of _ "sort_key _ _"])
qed

text \<open>Listings of one namespace come in strictly increasing key order.\<close>

lemma store_list_sorted:
  assumes "items_wf meta ok items"
    and "\<forall>x \<in> snd ` set items. P x \<longrightarrow>
      NormalizeNamespace (m_Namespace (meta x)) = ns \<and> trim_space (m_Name (meta x)) = m_Name (meta x)"
  shows "sorted_wrt (\<lambda>x y. scopedNameFromMeta (meta x) < scopedNameFromMeta (meta y))
    (filter P (store_list meta items))"
proof -
  let ?L = "store_list meta items" and ?key = "\<lambda>x. scopedNameFromMeta (meta x)"
  have "sorted (map (\<lambda>x. m_Name (meta x)) ?L)" by (simp add: store_list_def)
  then have "sorted_wrt (\<lambda>x y. m_Name (meta x) \<le> m_Name (meta y) \<and> ?key x \<noteq> ?key y) ?L"
    using store_list_keys_distinct [OF assms(1)]
    by (auto simp: sorted_wrt_iff_nth_less sorted_iff_nth_mono distinct_conv_nth)
  then have s: "sorted_wrt (\<lambda>x y. m_Name (meta x) \<le> m_Name (meta y) \<and> ?key x \<noteq> ?key y) (filter P ?L)"
    by (rule sorted_wrt_filter)
  have "?key x < ?key y" if "x \<in> set (filter P ?L)" "y \<in> set (filter P ?L)"
    "m_Name (meta x) \<le> m_Name (meta y) \<and> ?key x \<noteq> ?key y" for x y
  proof -
    have xy: "NormalizeNamespace (m_Namespace (meta x)) = ns" "NormalizeNamespace (m_Namespace (meta y)) = ns"
      "trim_space (m_Name (meta x)) = m_Name (meta x)" "trim_space (m_Name (meta y)) = m_Name (meta y)"
      using that assms(2) by (auto simp: store_list_def)
    then have "m_Name (meta x) < m_Name (meta y)"
      using that(3) by (auto simp: scopedNameFromMeta_def scopedName_def order.strict_iff_order)
    then have "scopedName (m_Namespace (meta x)) (m_Name (meta x))
        < scopedName (m_Namespace (meta x)) (m_Name (meta y))"
      using xy by (intro scopedName_mono)
    moreover have "scopedName (m_Namespace (meta x)) (m_Name (meta y)) = ?key y"
      unfolding scopedNameFromMeta_def scopedName_def xy(1,2) ..
    ultimately show ?thesis unfolding scopedNameFromMeta_def by simp
  qed
  then show ?thesis by (rule sorted_wrt_mono_rel [OF _ s])
qed

lemma store_pages:
  assumes "items_wf meta ok items" "ns \<noteq> []" "0 < l" "0 < m"
    and "\<forall>x \<in> snd ` set items. equal_fold (NormalizeNamespace (m_Namespace (meta x))) ns \<longrightarrow>
      NormalizeNamespace (m_Namespace (meta x)) = ns \<and> trim_space (m_Name (meta x)) = m_Name (meta x)"
    and p: "store_list_cursor meta l after ns items = p" "p \<noteq> []"
  shows "p @ store_list_cursor meta m (scopedNameFromMeta (meta (last p))) ns items
    = store_list_cursor meta (l + m) after ns items"
proof -
  let ?L = "store_list meta items" and ?key = "\<lambda>x. scopedNameFromMeta (meta x)"
  let ?Q = "\<lambda>a x. a < ?key x \<and> equal_fold (NormalizeNamespace (m_Namespace (meta x))) ns"
  have page: "store_list_cursor meta k a ns items = take (nat k) (filter (?Q a) ?L)" if "0 < k" for k a
    using that assms(2)
    by (simp add: store_list_cursor_def cursorFilter_less scopedNameFromMeta_def scopedName_def)
  let ?F = "filter (?Q after) ?L"
  have srt: "sorted_wrt (\<lambda>x y. ?key x < ?key y) ?F"
    using store_list_sorted [OF assms(1), of "?Q after" ns] assms(5) by blast
  have p1: "p = take (nat l) ?F" using p page assms(3) by simp
  then have "last p \<in> set ?F" using p(2) by (metis in_set_takeD last_in_set)
  then have "after < ?key (last p)" by simp
  then have "filter (?Q (?key (last p))) ?L = filter (\<lambda>x. ?key (last p) < ?key x) ?F"
    by (auto intro: filter_cong)
  then have "p @ store_list_cursor meta m (?key (last p)) ns items
      = take (nat l) ?F @ take (nat m) (filter (\<lambda>x. ?key (last (take (nat l) ?F)) < ?key x) ?F)"
    using page [OF assms(4)] p1 by simp
  also have "\<dots> = take (nat l + nat m) ?F" using pages_append [OF srt] p1 p(2) by simp
  finally show ?thesis using page [of "l + m" after] assms(3,4) by (simp add: nat_add_distrib)
qed

end
