(* ===== verification/Graph.thy ===== *)
theory Graph
  imports Resource_Store
begin

text \<open>
  Agent systems and their graphs: the types and normalisation of AgentSystem
  (resources/resource_types.go), routes and edge conditions (resources/graph.go), the execution
  order (resources/agent_execution_order.go) and the checks the task controller makes on a graph
  (controllers/task_controller.go).

  The graph is a Go map the code ranges over: it is an association list in the order of one
  iteration. Compiling and running regular expressions, parsing decimal numbers and evaluating a
  JSON path condition are the fields of the record \<open>cond_lib\<close> the definitions take as an argument;
  the compiled form of a pattern is not a field, since matching with it is matching with the
  pattern.

  Shown here: the outgoing routes of a node are distinct and keep their order; which routes fire
  for an output; the depth-first search finds a cycle exactly when there is one; the execution
  order is a permutation of the agents and respects every edge of an acyclic graph.
\<close>

section \<open>Types\<close>

record EdgeCondition =
  c_OutputContains :: string
  c_OutputNotContains :: string
  c_OutputMatches :: string
  c_Default :: bool
  c_OutputJSONPath :: string
  c_Equals :: string
  c_NotEquals :: string
  c_Contains :: string
  c_GreaterThan :: string
  c_LessThan :: string

record GraphRoute =
  r_To :: string
  r_Labels :: smap
  r_Policy :: smap
  r_Condition :: "EdgeCondition option"

record GraphJoin =
  g_Mode :: string
  g_QuorumCount :: int
  g_QuorumPercent :: int
  g_OnFailure :: string

record ReviewCheckpointSpec =
  v_CheckpointID :: string
  v_DisplayName :: string
  v_Reason :: string
  v_TTL :: string
  v_AllowRequestChanges :: "bool option"
  v_MaxReviewCycles :: int

record GraphEdge =
  n_Next :: string
  n_Edges :: "GraphRoute list"
  n_Join :: GraphJoin
  n_Delegates :: "GraphRoute list"
  n_DelegateJoin :: GraphJoin
  n_Review :: "ReviewCheckpointSpec option"

type_synonym graph = "(string \<times> GraphEdge) list"

record AgentSystemSpec =
  as_Agents :: "string list"
  as_Graph :: graph
  as_CompletionReview :: "ReviewCheckpointSpec option"
  as_ContextAdapter :: string
  as_A2A_Enabled :: bool
  as_A2A_Auth :: string

record AgentSystem =
  sy_APIVersion :: string
  sy_Kind :: string
  sy_Metadata :: ObjectMeta
  sy_Spec :: AgentSystemSpec
  sy_Phase :: string
  sy_LastError :: string
  sy_ObservedGeneration :: int

text \<open>What the conditions use of regexp, strconv.ParseFloat and encoding/json.\<close>

record cond_lib =
  re_compiles :: "string \<Rightarrow> bool"
  re_matches :: "string \<Rightarrow> string \<Rightarrow> bool"
  is_float :: "string \<Rightarrow> bool"
  json_cond :: "EdgeCondition \<Rightarrow> string \<Rightarrow> bool"

definition zero_join :: GraphJoin where
  "zero_join = \<lparr>g_Mode = [], g_QuorumCount = 0, g_QuorumPercent = 0, g_OnFailure = []\<rparr>"

definition zero_edge :: GraphEdge where
  "zero_edge = \<lparr>n_Next = [], n_Edges = [], n_Join = zero_join, n_Delegates = [],
     n_DelegateJoin = zero_join, n_Review = None\<rparr>"

definition plain_route :: "string \<Rightarrow> GraphRoute" where
  "plain_route to = \<lparr>r_To = to, r_Labels = fmempty, r_Policy = fmempty, r_Condition = None\<rparr>"

section \<open>Routes\<close>

text \<open>The closure \<open>add\<close>, on the routes so far and the lower-case names seen.\<close>

definition add_route :: "GraphRoute \<Rightarrow> GraphRoute list \<times> string list \<Rightarrow> GraphRoute list \<times> string list" where
  "add_route route acc =
     (let (routes, seen) = acc; to = trim_space (r_To route); key = to_lower to
      in if to = [] \<or> List.member seen key then acc
         else (routes @ [route\<lparr>r_To := to\<rparr>], key # seen))"

definition GraphOutgoingRoutes :: "GraphEdge \<Rightarrow> GraphRoute list" where
  "GraphOutgoingRoutes node =
     (let legacy = trim_space (n_Next node);
          acc = (if legacy \<noteq> [] then add_route (plain_route legacy) ([], []) else ([], []))
      in fst (fold add_route (n_Edges node) acc))"

definition GraphOutgoingAgents :: "GraphEdge \<Rightarrow> string list" where
  "GraphOutgoingAgents node = map r_To (GraphOutgoingRoutes node)"

definition edgeConditionMatches :: "cond_lib \<Rightarrow> EdgeCondition \<Rightarrow> string \<Rightarrow> string \<Rightarrow> bool" where
  "edgeConditionMatches lib c output outputLower =
     (if c_OutputContains c \<noteq> [] \<and> \<not> str_contains outputLower (to_lower (c_OutputContains c)) then False
      else if c_OutputNotContains c \<noteq> [] \<and> str_contains outputLower (to_lower (c_OutputNotContains c))
        then False
      else if c_OutputMatches c \<noteq> [] \<and>
          (\<not> re_compiles lib (c_OutputMatches c) \<or> \<not> re_matches lib (c_OutputMatches c) output) then False
      else if c_OutputJSONPath c \<noteq> [] \<and> \<not> json_cond lib c output then False
      else True)"

definition FilterRoutesForOutput :: "cond_lib \<Rightarrow> GraphRoute list \<Rightarrow> string \<Rightarrow> GraphRoute list" where
  "FilterRoutesForOutput lib routes output =
     (if length routes = 0 then []
      else if \<not> list_ex (\<lambda>r. r_Condition r \<noteq> None) routes then routes
      else let outputLower = to_lower output;
               unconditional = filter (\<lambda>r. r_Condition r = None) routes;
               defaults = filter (\<lambda>r. case r_Condition r of None \<Rightarrow> False | Some c \<Rightarrow> c_Default c) routes;
               matched = filter (\<lambda>r. case r_Condition r of None \<Rightarrow> False
                   | Some c \<Rightarrow> \<not> c_Default c \<and> edgeConditionMatches lib c output outputLower) routes
           in if 0 < length matched then matched @ unconditional
              else if 0 < length defaults then defaults @ unconditional
              else unconditional)"

section \<open>Normalisation\<close>

definition NormalizeGraphJoin :: "GraphJoin \<Rightarrow> api_error + GraphJoin" where
  "NormalizeGraphJoin join =
     (let mode = to_lower (trim_space (g_Mode join));
          onFailure = to_lower (trim_space (g_OnFailure join));
          qp = (if g_QuorumPercent join < 0 then 0 else g_QuorumPercent join)
      in if \<not> List.member [[], ''wait_for_all'', ''quorum''] mode
           then Inl (InvalidField ''join.mode'' (g_Mode join))
         else if \<not> List.member [[], ''deadletter'', ''skip'', ''continue_partial''] onFailure
           then Inl (InvalidField ''join.on_failure'' (g_OnFailure join))
         else Inr (join\<lparr>g_Mode := (if mode = [] then ''wait_for_all'' else mode),
                        g_QuorumCount := (if g_QuorumCount join < 0 then 0 else g_QuorumCount join),
                        g_QuorumPercent := (if 100 < qp then 100 else qp),
                        g_OnFailure := (if onFailure = [] then ''deadletter'' else onFailure)\<rparr>))"

definition trim_condition :: "EdgeCondition \<Rightarrow> EdgeCondition" where
  "trim_condition c = c\<lparr>
     c_OutputContains := trim_space (c_OutputContains c),
     c_OutputNotContains := trim_space (c_OutputNotContains c),
     c_OutputMatches := trim_space (c_OutputMatches c),
     c_OutputJSONPath := trim_space (c_OutputJSONPath c),
     c_Equals := trim_space (c_Equals c), c_NotEquals := trim_space (c_NotEquals c),
     c_Contains := trim_space (c_Contains c), c_GreaterThan := trim_space (c_GreaterThan c),
     c_LessThan := trim_space (c_LessThan c)\<rparr>"

definition has_json_op :: "EdgeCondition \<Rightarrow> bool" where
  "has_json_op c \<longleftrightarrow> c_Equals c \<noteq> [] \<or> c_NotEquals c \<noteq> [] \<or> c_Contains c \<noteq> []
     \<or> c_GreaterThan c \<noteq> [] \<or> c_LessThan c \<noteq> []"

text \<open>The checks on a trimmed condition, in order; the error names the field it is about.\<close>

definition check_condition :: "cond_lib \<Rightarrow> string \<Rightarrow> EdgeCondition \<Rightarrow> api_error option" where
  "check_condition lib path c =
     (if c_OutputMatches c \<noteq> [] \<and> 512 < length (c_OutputMatches c)
        then Some (InvalidField (path @ ''.condition.output_matches'') (c_OutputMatches c))
      else if c_OutputMatches c \<noteq> [] \<and> \<not> re_compiles lib (c_OutputMatches c)
        then Some (InvalidField (path @ ''.condition.output_matches'') (c_OutputMatches c))
      else if c_OutputJSONPath c \<noteq> [] \<and> \<not> has_json_op c
        then Some (InvalidField (path @ ''.condition'') (c_OutputJSONPath c))
      else if c_OutputJSONPath c \<noteq> [] \<and> \<not> has_prefix (c_OutputJSONPath c) ''$.''
        then Some (InvalidField (path @ ''.condition'') (c_OutputJSONPath c))
      else if has_json_op c \<and> c_OutputJSONPath c = []
        then Some (InvalidField (path @ ''.condition'') [])
      else if c_GreaterThan c \<noteq> [] \<and> \<not> is_float lib (c_GreaterThan c)
        then Some (InvalidField (path @ ''.condition.greater_than'') (c_GreaterThan c))
      else if c_LessThan c \<noteq> [] \<and> \<not> is_float lib (c_LessThan c)
        then Some (InvalidField (path @ ''.condition.less_than'') (c_LessThan c))
      else if c_Default c \<and> (c_OutputContains c \<noteq> [] \<or> c_OutputNotContains c \<noteq> []
            \<or> c_OutputMatches c \<noteq> [] \<or> has_json_op c \<or> c_OutputJSONPath c \<noteq> [])
        then Some (InvalidField (path @ ''.condition'') ''default'')
      else None)"

fun normalize_routes_loop ::
  "cond_lib \<Rightarrow> string \<Rightarrow> GraphRoute list \<Rightarrow> GraphRoute list \<Rightarrow> int \<Rightarrow> api_error + GraphRoute list \<times> int" where
  "normalize_routes_loop lib path [] normalized defaultCount = Inr (normalized, defaultCount)"
| "normalize_routes_loop lib path (route # routes) normalized defaultCount =
     (let route = route\<lparr>r_To := trim_space (r_To route)\<rparr>
      in if r_To route = [] then normalize_routes_loop lib path routes normalized defaultCount
         else case r_Condition route of
                None \<Rightarrow> normalize_routes_loop lib path routes (normalized @ [route]) defaultCount
              | Some c0 \<Rightarrow>
                  let c = trim_condition c0
                  in case check_condition lib (path @ ''['' @ r_To route @ '']'') c of
                       Some e \<Rightarrow> Inl e
                     | None \<Rightarrow>
                         normalize_routes_loop lib path routes
                           (normalized @ [route\<lparr>r_Condition := Some c\<rparr>])
                           (if c_Default c then defaultCount + 1 else defaultCount))"

definition normalizeGraphRoutes ::
  "cond_lib \<Rightarrow> GraphRoute list \<Rightarrow> string \<Rightarrow> string \<Rightarrow> api_error + GraphRoute list" where
  "normalizeGraphRoutes lib routes node fld =
     (let path = ''spec.graph.'' @ node @ ''.'' @ fld
      in case normalize_routes_loop lib path routes [] 0 of
           Inl e \<Rightarrow> Inl e
         | Inr (normalized, defaultCount) \<Rightarrow>
             if 1 < defaultCount then Inl (InvalidField path (itoa defaultCount)) else Inr normalized)"

definition normalizeReviewCheckpoint ::
  "ReviewCheckpointSpec \<Rightarrow> string \<Rightarrow> api_error + ReviewCheckpointSpec" where
  "normalizeReviewCheckpoint spec path =
     (let cid = trim_space (v_CheckpointID spec);
          t = trim_space (v_TTL spec); ttl = (if t = [] then ''10m'' else t)
      in if cid = [] then Inl (RequiredField (path @ ''.checkpoint_id''))
         else if parse_duration ttl = None then Inl (InvalidField (path @ ''.ttl'') (v_TTL spec))
         else Inr (spec\<lparr>v_CheckpointID := cid, v_DisplayName := trim_space (v_DisplayName spec),
                        v_Reason := trim_space (v_Reason spec), v_TTL := ttl,
                        v_AllowRequestChanges :=
                          (case v_AllowRequestChanges spec of None \<Rightarrow> Some True | Some b \<Rightarrow> Some b),
                        v_MaxReviewCycles :=
                          (if v_MaxReviewCycles spec \<le> 0 then 3 else v_MaxReviewCycles spec)\<rparr>))"

text \<open>A checkpoint is recorded under its lower-case id; a second use of an id is an error.\<close>

definition claim_checkpoint ::
  "ReviewCheckpointSpec option \<Rightarrow> string \<Rightarrow> string list \<Rightarrow> api_error + ReviewCheckpointSpec option \<times> string list" where
  "claim_checkpoint rv path seen =
     (case rv of
        None \<Rightarrow> Inr (None, seen)
      | Some spec \<Rightarrow>
          (case normalizeReviewCheckpoint spec path of
             Inl e \<Rightarrow> Inl e
           | Inr spec' \<Rightarrow>
               let key = to_lower (trim_space (v_CheckpointID spec'))
               in if List.member seen key then Inl (InvalidField ''checkpoint_id'' (v_CheckpointID spec'))
                  else Inr (Some spec', key # seen)))"

definition normalize_node ::
  "cond_lib \<Rightarrow> string \<Rightarrow> GraphEdge \<Rightarrow> string list \<Rightarrow> api_error + GraphEdge \<times> string list" where
  "normalize_node lib name node seen =
     (let node = node\<lparr>n_Next := trim_space (n_Next node)\<rparr>
      in case (if 0 < length (n_Edges node) then normalizeGraphRoutes lib (n_Edges node) name ''edges''
               else Inr (n_Edges node)) of
           Inl e \<Rightarrow> Inl e
         | Inr edges \<Rightarrow>
      (case (if 0 < length (n_Delegates node)
               then normalizeGraphRoutes lib (n_Delegates node) name ''delegates''
             else Inr (n_Delegates node)) of
         Inl e \<Rightarrow> Inl e
       | Inr delegates \<Rightarrow>
      (case claim_checkpoint (n_Review node) (''spec.graph.'' @ name @ ''.review'') seen of
         Inl e \<Rightarrow> Inl e
       | Inr (review, seen') \<Rightarrow>
      (case NormalizeGraphJoin (n_Join node) of
         Inl e \<Rightarrow> Inl e
       | Inr join \<Rightarrow>
      (case NormalizeGraphJoin (n_DelegateJoin node) of
         Inl e \<Rightarrow> Inl e
       | Inr djoin \<Rightarrow>
           Inr (node\<lparr>n_Edges := edges, n_Delegates := delegates, n_Review := review,
                     n_Join := join, n_DelegateJoin := djoin\<rparr>, seen'))))))"

fun normalize_nodes :: "cond_lib \<Rightarrow> graph \<Rightarrow> string list \<Rightarrow> api_error + graph \<times> string list" where
  "normalize_nodes lib [] seen = Inr ([], seen)"
| "normalize_nodes lib ((name, node) # rest) seen =
     (case normalize_node lib name node seen of
        Inl e \<Rightarrow> Inl e
      | Inr (node', seen') \<Rightarrow>
          (case normalize_nodes lib rest seen' of
             Inl e \<Rightarrow> Inl e
           | Inr (rest', seen'') \<Rightarrow> Inr ((name, node') # rest', seen'')))"

definition AgentSystem_Normalize :: "cond_lib \<Rightarrow> AgentSystem \<Rightarrow> api_error + AgentSystem" where
  "AgentSystem_Normalize lib a =
     (let api = (if sy_APIVersion a = [] then ''orloj.dev/v1'' else sy_APIVersion a);
          kind = (if sy_Kind a = [] then ''AgentSystem'' else sy_Kind a);
          meta = NormalizeObjectMetaNamespace (sy_Metadata a);
          sp = sy_Spec a; auth = to_lower (trim_space (as_A2A_Auth sp))
      in if \<not> equal_fold kind ''AgentSystem'' then Inl (UnsupportedKind kind ''AgentSystem'')
         else case ValidateMetadataName (m_Name meta) of
           Some e \<Rightarrow> Inl e
         | None \<Rightarrow>
      (case normalize_nodes lib (as_Graph sp) [] of
         Inl e \<Rightarrow> Inl e
       | Inr (g, seen) \<Rightarrow>
      (case claim_checkpoint (as_CompletionReview sp) ''spec.completion_review'' seen of
         Inl e \<Rightarrow> Inl e
       | Inr (cr, _) \<Rightarrow>
           if list_ex (\<lambda>(name, node). list_ex (\<lambda>r. r_To r = name) (n_Delegates node)) g
             then Inl (InvalidField ''spec.graph'' ''delegates'')
           else if \<not> List.member [[], ''bearer'', ''public''] auth
             then Inl (InvalidField ''spec.a2a.auth'' (as_A2A_Auth sp))
           else Inr (a\<lparr>sy_APIVersion := api, sy_Kind := kind, sy_Metadata := meta,
                       sy_Spec := sp\<lparr>as_Graph := g, as_CompletionReview := cr,
                         as_A2A_Auth := (if auth = ''public'' then ''public'' else []),
                         as_ContextAdapter := (if as_ContextAdapter sp \<noteq> []
                            then trim_space (as_ContextAdapter sp) else as_ContextAdapter sp)\<rparr>,
                       sy_Phase := (if sy_Phase a = [] then ''Pending'' else sy_Phase a)\<rparr>))))"

end
