(* ===== verification/Message_State.thy ===== *)
theory Message_State
  imports Message_Policy Graph
begin

text \<open>
  What agent messages leave in a task (runtime/agent_message_consumer.go): the record of each
  message, the idempotency records, the trace, the join and delegation states, and the messages an
  agent sends on. Each function is the Go function of its name on the task's value; an index the
  code returns beside the mutated task is a pair. The clock is the argument \<open>now\<close>.

  Shown here: the record of a message is found again by its id; marking and testing idempotency fit
  together; the hop number of a message id is read back; a quorum lies between one and the number
  of expected branches.
\<close>

section \<open>Execution results\<close>

record AgentStepEvent =
  ev_Timestamp :: string
  ev_Type :: string
  ev_Step :: int
  ev_Tool :: string
  ev_Message :: string
  ev_ErrorCode :: string
  ev_ErrorReason :: string
  ev_Retryable :: "bool option"
  ev_ToolContractVersion :: string
  ev_ToolRequestID :: string
  ev_ToolAttempt :: int
  ev_LatencyMS :: int
  ev_Tokens :: int
  ev_InputTokens :: int
  ev_OutputTokens :: int
  ev_UsageSource :: string
  ev_ToolAuthProfile :: string
  ev_ToolAuthSecretRef :: string

record AgentExecutionResult =
  xr_Agent :: string
  xr_Model :: string
  xr_Steps :: int
  xr_ToolCalls :: int
  xr_MemoryWrites :: int
  xr_EstimatedTokens :: int
  xr_TokensUsed :: int
  xr_TokenSource :: string
  xr_Duration :: duration
  xr_Output :: string
  xr_LastEvent :: string
  xr_Events :: "string list"
  xr_StepEvents :: "AgentStepEvent list"

section \<open>Records of messages\<close>

definition normalizeMessageTimestamp :: "instant \<Rightarrow> string \<Rightarrow> string" where
  "normalizeMessageTimestamp now ts = (let v = trim_space ts in if v = [] then format_nano now else v)"

definition defaultMessageMaxAttempts :: "Task \<Rightarrow> int" where
  "defaultMessageMaxAttempts t =
     (if 0 < mr_MaxAttempts (sp_MessageRetry (t_Spec t)) then mr_MaxAttempts (sp_MessageRetry (t_Spec t))
      else if 0 < rp_MaxAttempts (sp_Retry (t_Spec t)) then rp_MaxAttempts (sp_Retry (t_Spec t))
      else 1)"

definition isTerminalMessagePhase :: "string \<Rightarrow> bool" where
  "isTerminalMessagePhase phase \<longleftrightarrow>
     List.member [''succeeded'', ''deadletter''] (to_lower (trim_space phase))"

definition isTerminalTaskPhase :: "string \<Rightarrow> bool" where
  "isTerminalTaskPhase phase \<longleftrightarrow>
     List.member [''succeeded'', ''failed'', ''deadletter''] (to_lower (trim_space phase))"

definition allTaskMessagesTerminal :: "TaskMessage list \<Rightarrow> bool" where
  "allTaskMessagesTerminal messages \<longleftrightarrow> list_all (\<lambda>m. isTerminalMessagePhase (tm_Phase m)) messages"

abbreviation msgs_of :: "Task \<Rightarrow> TaskMessage list" where
  "msgs_of t \<equiv> ts_Messages (t_Status t)"

definition fill_record :: "instant \<Rightarrow> Task \<Rightarrow> AgentMessage \<Rightarrow> TaskMessage \<Rightarrow> TaskMessage" where
  "fill_record now t msg r =
     r\<lparr>tm_MaxAttempts := (if tm_MaxAttempts r \<le> 0 then defaultMessageMaxAttempts t else tm_MaxAttempts r),
       tm_Phase := (if trim_space (tm_Phase r) = [] then ''Queued'' else tm_Phase r),
       tm_Timestamp := (if trim_space (tm_Timestamp r) = [] then normalizeMessageTimestamp now (am_Timestamp msg)
                        else tm_Timestamp r),
       tm_TaskID := (if trim_space (tm_TaskID r) = [] then trim_space (am_TaskID msg) else tm_TaskID r),
       tm_IdempotencyKey := (if trim_space (tm_IdempotencyKey r) = [] then trim_space (am_IdempotencyKey msg)
                             else tm_IdempotencyKey r),
       tm_BranchID := (if trim_space (tm_BranchID r) = [] then trim_space (am_BranchID msg) else tm_BranchID r),
       tm_ParentBranchID := (if trim_space (tm_ParentBranchID r) = [] then trim_space (am_ParentBranchID msg)
                             else tm_ParentBranchID r)\<rparr>"

definition new_record :: "instant \<Rightarrow> Task \<Rightarrow> AgentMessage \<Rightarrow> TaskMessage" where
  "new_record now t msg = zero_TaskMessage\<lparr>
     tm_Timestamp := normalizeMessageTimestamp now (am_Timestamp msg),
     tm_MessageID := trim_space (am_MessageID msg),
     tm_IdempotencyKey := (if trim_space (am_IdempotencyKey msg) = [] then trim_space (am_MessageID msg)
                           else trim_space (am_IdempotencyKey msg)),
     tm_TaskID := trim_space (am_TaskID msg),
     tm_Attempt := am_Attempt msg,
     tm_System := trim_space (am_System msg),
     tm_FromAgent := trim_space (am_FromAgent msg),
     tm_ToAgent := trim_space (am_ToAgent msg),
     tm_BranchID := trim_space (am_BranchID msg),
     tm_ParentBranchID := trim_space (am_ParentBranchID msg),
     tm_Type := trim_space (am_Type msg),
     tm_Content := trim_space (am_Payload msg),
     tm_TraceID := trim_space (am_TraceID msg),
     tm_ParentID := trim_space (am_ParentID msg),
     tm_DelegateOf := trim_space (am_DelegateOf msg),
     tm_Phase := ''Queued'',
     tm_MaxAttempts := defaultMessageMaxAttempts t\<rparr>"

abbreviation same_id :: "AgentMessage \<Rightarrow> TaskMessage \<Rightarrow> bool" where
  "same_id msg r \<equiv> equal_fold (trim_space (tm_MessageID r)) (trim_space (am_MessageID msg))"

definition ensureTaskMessageRecord :: "instant \<Rightarrow> AgentMessage \<Rightarrow> Task \<Rightarrow> nat \<times> Task" where
  "ensureTaskMessageRecord now msg t =
     (case find_idx (same_id msg) (msgs_of t) of
        Some i \<Rightarrow> (i, on_status (\<lambda>s. s\<lparr>ts_Messages := (ts_Messages s)[i := fill_record now t msg (ts_Messages s ! i)]\<rparr>) t)
      | None \<Rightarrow> (length (msgs_of t), on_status (\<lambda>s. s\<lparr>ts_Messages := ts_Messages s @ [new_record now t msg]\<rparr>) t))"

definition set_message :: "nat \<Rightarrow> TaskMessage \<Rightarrow> Task \<Rightarrow> Task" where
  "set_message i r = on_status (\<lambda>s. s\<lparr>ts_Messages := (ts_Messages s)[i := r]\<rparr>)"

section \<open>Trimming\<close>

definition trimTaskMessages :: "Task \<Rightarrow> Task" where
  "trimTaskMessages = on_status (\<lambda>s. s\<lparr>ts_Messages := keep_last 500 (ts_Messages s)\<rparr>)"

definition trimTaskTrace :: "Task \<Rightarrow> Task" where
  "trimTaskTrace = on_status (\<lambda>s. s\<lparr>ts_Trace := keep_last 1000 (ts_Trace s)\<rparr>)"

definition trimTaskHistory :: "Task \<Rightarrow> Task" where
  "trimTaskHistory = on_status (\<lambda>s. s\<lparr>ts_History := keep_last 200 (ts_History s)\<rparr>)"

definition trimTaskIdempotency :: "Task \<Rightarrow> Task" where
  "trimTaskIdempotency = on_status (\<lambda>s. s\<lparr>ts_MessageIdempotency := keep_last 2000 (ts_MessageIdempotency s)\<rparr>)"

definition trimTaskJoinStates :: "Task \<Rightarrow> Task" where
  "trimTaskJoinStates = on_status (\<lambda>s. s\<lparr>ts_JoinStates := keep_last 200 (ts_JoinStates s)\<rparr>)"

definition trimTaskDelegationStates :: "Task \<Rightarrow> Task" where
  "trimTaskDelegationStates = on_status (\<lambda>s. s\<lparr>ts_DelegationStates := keep_last 200 (ts_DelegationStates s)\<rparr>)"

section \<open>Trace\<close>

definition hasTraceMarker :: "TaskTraceEvent list \<Rightarrow> string \<Rightarrow> string \<Rightarrow> bool" where
  "hasTraceMarker trace eventType messageID =
     (let i = trim_space messageID
      in i \<noteq> [] \<and> list_ex (\<lambda>e. equal_fold (trim_space (te_Type e)) (trim_space eventType)
                          \<and> str_contains (te_Message e) (''message_id='' @ i)) trace)"

definition isMessageProcessed :: "TaskTraceEvent list \<Rightarrow> string \<Rightarrow> bool" where
  "isMessageProcessed trace messageID = hasTraceMarker trace ''agent_message_processed'' messageID"

definition appendMessageTrace :: "instant \<Rightarrow> AgentMessage \<Rightarrow> string \<Rightarrow> string \<Rightarrow> Task \<Rightarrow> Task" where
  "appendMessageTrace now msg eventType message t =
     (if hasTraceMarker (ts_Trace (t_Status t)) eventType (am_MessageID msg) then t
      else trimTaskTrace (on_status (\<lambda>s. s\<lparr>ts_Trace := ts_Trace s @ [zero_TraceEvent\<lparr>
             te_Timestamp := normalizeMessageTimestamp now (am_Timestamp msg),
             te_Attempt := max (am_Attempt msg) (ts_Attempts s),
             te_BranchID := trim_space (am_BranchID msg),
             te_Type := trim_space eventType,
             te_Agent := trim_space (am_ToAgent msg),
             te_Message := trim_space message\<rparr>]\<rparr>) t))"

text \<open>One runtime event becomes a trace event; the usage of a model call is remembered by step.\<close>

type_synonym usage_map = "(int \<times> (int \<times> int \<times> string)) list"

definition step_trace :: "string \<Rightarrow> AgentStepEvent \<Rightarrow> usage_map \<Rightarrow> TaskTraceEvent \<times> usage_map" where
  "step_trace agentName e usage =
     (let tr = zero_TraceEvent\<lparr>
            te_Timestamp := ev_Timestamp e, te_Type := ev_Type e, te_Agent := trim_space agentName,
            te_Tool := trim_space (ev_Tool e),
            te_ToolContractVersion := trim_space (ev_ToolContractVersion e),
            te_ToolRequestID := trim_space (ev_ToolRequestID e), te_ToolAttempt := ev_ToolAttempt e,
            te_ErrorCode := trim_space (ev_ErrorCode e), te_ErrorReason := trim_space (ev_ErrorReason e),
            te_Retryable := ev_Retryable e, te_Message := trim_space (ev_Message e),
            te_Step := ev_Step e, te_LatencyMS := ev_LatencyMS e,
            te_ToolAuthProfile := trim_space (ev_ToolAuthProfile e),
            te_ToolAuthSecretRef := trim_space (ev_ToolAuthSecretRef e)\<rparr>;
          tr = (if equal_fold (ev_Type e) ''tool_call'' then tr\<lparr>te_ToolCalls := 1\<rparr> else tr);
          source = trim_space (ev_UsageSource e);
          usage = (if equal_fold (ev_Type e) ''model_call'' \<and> 0 < ev_Step e
                   then AList.update (ev_Step e) (ev_InputTokens e, ev_OutputTokens e, source) usage else usage);
          tr = (if equal_fold (ev_Type e) ''model_call''
                then tr\<lparr>te_Tokens := ev_Tokens e, te_InputTokens := ev_InputTokens e,
                        te_OutputTokens := ev_OutputTokens e, te_TokenUsageSource := source,
                        te_Message := (if source \<noteq> []
                          then trim_space (te_Message tr @ '' usage_source='' @ source) else te_Message tr)\<rparr>
                else tr);
          tr = (if equal_fold (ev_Type e) ''model_output'' \<and> 0 < ev_Step e
                then (case map_of usage (ev_Step e) of
                        Some (i, out, src) \<Rightarrow> tr\<lparr>te_InputTokens := i, te_OutputTokens := out,
                          te_TokenUsageSource := src, te_Tokens := out\<rparr>
                      | None \<Rightarrow> tr)
                else tr)
      in (tr, usage))"

fun step_traces :: "string \<Rightarrow> AgentStepEvent list \<Rightarrow> usage_map \<Rightarrow> TaskTraceEvent list" where
  "step_traces agentName [] usage = []"
| "step_traces agentName (e # es) usage =
     (let (tr, usage') = step_trace agentName e usage in tr # step_traces agentName es usage')"

definition appendRuntimeStepTrace :: "string \<Rightarrow> AgentStepEvent list \<Rightarrow> Task \<Rightarrow> Task" where
  "appendRuntimeStepTrace agentName events t =
     (if length events = 0 then t
      else trimTaskTrace (on_status (\<lambda>s. s\<lparr>ts_Trace := ts_Trace s @ step_traces agentName events []\<rparr>) t))"

section \<open>Output, budgets and turns\<close>

definition maxTaskOutputValueBytes :: nat where
  "maxTaskOutputValueBytes = 262144"

definition truncateOutputValue :: "string \<Rightarrow> string" where
  "truncateOutputValue v =
     (if length v \<le> maxTaskOutputValueBytes then v
      else take (maxTaskOutputValueBytes - length ''...[truncated]'') v @ ''...[truncated]'')"

text \<open>
  strconv.Atoi with its error ignored: 0 on a syntax error, the nearest 64-bit integer on a range
  error.
\<close>

definition atoi_lax :: "string \<Rightarrow> int" where
  "atoi_lax s =
     (let neg = (case s of c # _ \<Rightarrow> c = CHR ''-'' | [] \<Rightarrow> False);
          ds = (case s of c # r \<Rightarrow> if c = CHR ''-'' \<or> c = CHR ''+'' then r else s | [] \<Rightarrow> []);
          v = (if neg then - int (digits_val ds) else int (digits_val ds))
      in if ds = [] \<or> \<not> list_all is_digit ds then 0
         else if v < - (2 ^ 63) then - (2 ^ 63) else if 2 ^ 63 \<le> v then 2 ^ 63 - 1 else v)"

definition updateTaskOutput :: "AgentExecutionResult \<Rightarrow> string \<Rightarrow> Task \<Rightarrow> Task" where
  "updateTaskOutput r mode t =
     (let c = ts_Output (t_Status t);
          c = fmupd ''runtime.mode'' (trim_space mode) c;
          c = fmupd ''last_agent'' (trim_space (xr_Agent r)) c;
          c = fmupd ''last_event'' (trim_space (xr_LastEvent r)) c;
          c = fmupd ''last_output'' (truncateOutputValue (trim_space (xr_Output r))) c;
          c = fmupd ''last_duration_ms'' (itoa (go_div (xr_Duration r) Millisecond)) c;
          c = fmupd ''last_tool_calls'' (itoa (xr_ToolCalls r)) c;
          c = fmupd ''last_steps'' (itoa (xr_Steps r)) c;
          c = fmupd ''last_estimated_tokens'' (itoa (xr_EstimatedTokens r)) c;
          c = fmupd ''last_tokens_used'' (itoa (xr_TokensUsed r)) c;
          c = fmupd ''last_token_usage_source'' (trim_space (xr_TokenSource r)) c;
          prevTotal = atoi_lax (trim_space (smap_get c ''tokens_estimated_total''));
          c = fmupd ''tokens_estimated_total'' (itoa (wrap64 (prevTotal + xr_EstimatedTokens r))) c;
          prevUsed = atoi_lax (trim_space (smap_get c ''tokens_used_total''));
          c = fmupd ''tokens_used_total'' (itoa (wrap64 (prevUsed + xr_TokensUsed r))) c;
          c = fmupd ''result'' ''executed'' c;
          c = fmupd ''system'' (trim_space (sp_System (t_Spec t))) c
      in on_status (\<lambda>s. s\<lparr>ts_Output := c\<rparr>) t)"

definition parsePositiveInt :: "string \<Rightarrow> int" where
  "parsePositiveInt raw =
     (case atoi (trim_space raw) of None \<Rightarrow> 0 | Some v \<Rightarrow> if v < 0 then 0 else v)"

definition tokenBudget :: "Task \<Rightarrow> int" where
  "tokenBudget t = parsePositiveInt (smap_get (ts_Output (t_Status t)) ''token_budget'')"

definition tokenUsageTotal :: "Task \<Rightarrow> AgentExecutionResult \<Rightarrow> int" where
  "tokenUsageTotal t r =
     wrap64 (parsePositiveInt (smap_get (ts_Output (t_Status t)) ''tokens_used_total'') + max 0 (xr_TokensUsed r))"

definition tokenBudgetExceeded :: "Task \<Rightarrow> AgentExecutionResult \<Rightarrow> bool" where
  "tokenBudgetExceeded t r = (if tokenBudget t \<le> 0 then False else tokenUsageTotal t r > tokenBudget t)"

definition branch_or_root :: "string \<Rightarrow> string" where
  "branch_or_root b = (let b = trim_space b in if b = [] then ''b001'' else b)"

definition countBranchMessages :: "TaskMessage list \<Rightarrow> string \<Rightarrow> int" where
  "countBranchMessages messages branchID =
     int (length (filter (\<lambda>m. equal_fold (branch_or_root (tm_BranchID m)) (branch_or_root branchID)) messages))"

definition shouldStopForTurnLimit :: "Task \<Rightarrow> AgentMessage \<Rightarrow> bool \<times> int \<times> int" where
  "shouldStopForTurnLimit t msg =
     (let maxTurns = sp_MaxTurns (t_Spec t)
      in if maxTurns \<le> 0 then (False, 0, 0)
         else let turns = countBranchMessages (msgs_of t) (am_BranchID msg);
                  turns = (if turns \<le> 0 then 1 else turns)
              in (turns \<ge> maxTurns, turns, maxTurns))"

section \<open>Leases and ownership\<close>

text \<open>The fields of AgentMessageConsumerManager these functions read.\<close>

record consumer_config =
  cc_workerID :: string
  cc_retryDelay :: duration
  cc_leaseExtend :: duration

text \<open>The defaults of NewAgentMessageConsumerManager.\<close>

definition NewAgentMessageConsumerManager :: "string \<Rightarrow> duration \<Rightarrow> duration \<Rightarrow> consumer_config" where
  "NewAgentMessageConsumerManager workerID consumerDelay lease =
     \<lparr>cc_workerID = trim_space workerID,
      cc_retryDelay = (if consumerDelay \<le> 0 then Second else consumerDelay),
      cc_leaseExtend = (if lease \<le> 0 then 30 * Second else lease)\<rparr>"

definition lease_status :: "instant \<Rightarrow> duration \<Rightarrow> TaskStatus \<Rightarrow> TaskStatus" where
  "lease_status now lease s =
     s\<lparr>ts_LastHeartbeat := format_nano now, ts_LeaseUntil := format_nano (now + lease)\<rparr>"

definition extendWorkerLease :: "instant \<Rightarrow> string \<Rightarrow> duration \<Rightarrow> Task \<Rightarrow> Task" where
  "extendWorkerLease now workerID d t =
     (let d = (if d \<le> 0 then 30 * Second else d)
      in if trim_space workerID = [] then t
         else if \<not> equal_fold (trim_space (ts_ClaimedBy (t_Status t))) (trim_space workerID) then t
         else on_status (lease_status now d) t)"

definition parseTaskLeaseUntil :: "string \<Rightarrow> instant option" where
  "parseTaskLeaseUntil raw = (let v = trim_space raw in if v = [] then None else parse_rfc3339 v)"

text \<open>Time.Sub and time.Until: the difference, cut to the range of a duration.\<close>

definition time_sub :: "instant \<Rightarrow> instant \<Rightarrow> duration" where
  "time_sub a b = (let d = a - b in if d < - (2 ^ 63) then - (2 ^ 63) else if 2 ^ 63 \<le> d then 2 ^ 63 - 1 else d)"

definition retryWaitDuration :: "instant \<Rightarrow> string \<Rightarrow> duration" where
  "retryWaitDuration now nextAttemptAt =
     (let v = trim_space nextAttemptAt
      in if v = [] then 0
         else case parse_rfc3339 v of
                None \<Rightarrow> 0
              | Some nxt \<Rightarrow> let wait = time_sub nxt now in if wait < 0 then 0 else wait)"

record ownership =
  ow_owned :: bool
  ow_retryAfter :: duration
  ow_changed :: bool
  ow_takeover :: bool

definition acquireMessageOwnership ::
  "consumer_config \<Rightarrow> instant \<Rightarrow> AgentMessage \<Rightarrow> Task \<Rightarrow> ownership \<times> Task" where
  "acquireMessageOwnership c now msg t =
     (let worker = trim_space (cc_workerID c)
      in if worker = [] then (\<lparr>ow_owned = True, ow_retryAfter = 0, ow_changed = False, ow_takeover = False\<rparr>, t)
         else
           let claimedBy = trim_space (ts_ClaimedBy (t_Status t));
               lease = (if cc_leaseExtend c \<le> 0 then 30 * Second else cc_leaseExtend c);
               take = (\<lambda>s. (lease_status now lease s)\<lparr>ts_ClaimedBy := worker, ts_AssignedWorker := worker\<rparr>)
           in if claimedBy = [] \<or> equal_fold claimedBy worker then
                (\<lparr>ow_owned = True, ow_retryAfter = 0, ow_changed = True, ow_takeover = False\<rparr>,
                 on_status (\<lambda>s. (take s)\<lparr>ts_Phase :=
                   (if equal_fold (trim_space (ts_Phase s)) ''pending'' \<or> trim_space (ts_Phase s) = []
                    then ''Running'' else ts_Phase s)\<rparr>) t)
              else
                let expired = (\<lparr>ow_owned = True, ow_retryAfter = 0, ow_changed = True, ow_takeover = True\<rparr>,
                      trimTaskHistory (on_status (\<lambda>s. (take s)\<lparr>ts_History := ts_History s @
                        [\<lparr>he_Timestamp = format_nano now, he_Type = ''takeover'', he_Worker = worker,
                          he_Message = ''message lease expired; message_id='' @ trim_space (am_MessageID msg)
                            @ '' reassigned from '' @ claimedBy @ '' to '' @ worker\<rparr>]\<rparr>) t))
                in case parseTaskLeaseUntil (ts_LeaseUntil (t_Status t)) of
                     Some leaseUntil \<Rightarrow>
                       if now < leaseUntil then
                         let wait = time_sub leaseUntil now;
                             wait = (if wait \<le> 0 then cc_retryDelay c else wait);
                             wait = (if wait \<le> 0 then 100 * Millisecond else wait)
                         in (\<lparr>ow_owned = False, ow_retryAfter = wait, ow_changed = False, ow_takeover = False\<rparr>, t)
                       else expired
                   | None \<Rightarrow> expired)"

section \<open>Idempotency\<close>

definition record_counts :: "instant \<Rightarrow> string \<Rightarrow> TaskMessageIdempotency \<Rightarrow> bool" where
  "record_counts now key r \<longleftrightarrow>
     equal_fold (trim_space (mi_Key r)) key
     \<and> List.member [''completed'', ''deadletter''] (to_lower (trim_space (mi_State r)))
     \<and> (let expiry = trim_space (mi_ExpiresAt r)
        in \<not> (expiry \<noteq> [] \<and> (case parse_rfc3339 expiry of None \<Rightarrow> False | Some w \<Rightarrow> w < now)))"

definition isMessageIdempotent :: "instant \<Rightarrow> TaskMessageIdempotency list \<Rightarrow> string \<Rightarrow> bool" where
  "isMessageIdempotent now records key =
     (let key = trim_space key
      in if key = [] then False
         else list_ex (record_counts now key) records)"

definition markMessageIdempotency :: "instant \<Rightarrow> AgentMessage \<Rightarrow> string \<Rightarrow> string \<Rightarrow> Task \<Rightarrow> Task" where
  "markMessageIdempotency now msg state worker t =
     (let key = messageIdempotencyKey msg
      in if key = [] then t
         else
           let updated = \<lparr>mi_Key = key, mi_MessageID = trim_space (am_MessageID msg),
                 mi_State = to_lower (trim_space state), mi_UpdatedAt = format_nano now,
                 mi_ExpiresAt = format_nano (now + 30 * 24 * Hour), mi_Worker = trim_space worker\<rparr>;
               records = ts_MessageIdempotency (t_Status t)
           in on_status (\<lambda>s. s\<lparr>ts_MessageIdempotency :=
                (case find_idx (\<lambda>r. equal_fold (trim_space (mi_Key r)) key) records of
                   Some i \<Rightarrow> records[i := updated]
                 | None \<Rightarrow> records @ [updated])\<rparr>) t)"

section \<open>Joins and delegations\<close>

text \<open>
  Joins and delegations are recorded in states of the same shape; the two pairs of Go functions
  have the same text. The first function finds or creates the state in a list of states.
\<close>

definition ensure_state ::
  "int \<Rightarrow> string \<Rightarrow> string \<Rightarrow> int \<Rightarrow> int \<Rightarrow> TaskJoinState list \<Rightarrow> nat \<times> TaskJoinState list" where
  "ensure_state attempt node mode expected required states =
     (let attempt = (if attempt \<le> 0 then 1 else attempt); node = trim_space node
      in case find_idx (\<lambda>s. jn_Attempt s = attempt \<and> equal_fold (trim_space (jn_Node s)) node) states of
           Some i \<Rightarrow> (i, states[i := (states ! i)\<lparr>jn_Mode := trim_space mode, jn_Expected := expected,
                          jn_QuorumRequired := required\<rparr>])
         | None \<Rightarrow> (length states, states @ [zero_JoinState\<lparr>jn_Attempt := attempt, jn_Node := node,
                      jn_Mode := trim_space mode, jn_Expected := expected, jn_QuorumRequired := required\<rparr>]))"

definition ensureTaskJoinState ::
  "int \<Rightarrow> string \<Rightarrow> string \<Rightarrow> int \<Rightarrow> int \<Rightarrow> Task \<Rightarrow> nat \<times> Task" where
  "ensureTaskJoinState attempt node mode expected required t =
     (let (i, states) = ensure_state attempt node mode expected required (ts_JoinStates (t_Status t))
      in (i, on_status (\<lambda>s. s\<lparr>ts_JoinStates := states\<rparr>) t))"

definition ensureTaskDelegationState ::
  "int \<Rightarrow> string \<Rightarrow> string \<Rightarrow> int \<Rightarrow> int \<Rightarrow> Task \<Rightarrow> nat \<times> Task" where
  "ensureTaskDelegationState attempt node mode expected required t =
     (let (i, states) = ensure_state attempt node mode expected required (ts_DelegationStates (t_Status t))
      in (i, on_status (\<lambda>s. s\<lparr>ts_DelegationStates := states\<rparr>) t))"

definition appendJoinSource :: "TaskJoinSource \<Rightarrow> TaskJoinState \<Rightarrow> TaskJoinState" where
  "appendJoinSource source state =
     state\<lparr>jn_Sources :=
       (case find_idx (\<lambda>e. equal_fold (trim_space (js_MessageID e)) (trim_space (js_MessageID source)))
               (jn_Sources state) of
          Some i \<Rightarrow> (jn_Sources state)[i := source]
        | None \<Rightarrow> jn_Sources state @ [source])\<rparr>"

text \<open>The distinct agents and the payloads of the sources, as the agent's input shows them.\<close>

definition SourceAgents :: "TaskJoinSource list \<Rightarrow> string" where
  "SourceAgents sources =
     str_join '','' (fst (fold (\<lambda>s (out, seen). let agent = trim_space (js_FromAgent s); key = to_lower agent
       in if agent = [] \<or> List.member seen key then (out, seen) else (out @ [agent], key # seen)) sources ([], [])))"

definition SourcePayloads :: "TaskJoinSource list \<Rightarrow> string" where
  "SourcePayloads sources =
     str_join '' | '' (map (\<lambda>s. trim_space (js_FromAgent s) @ '':'' @ trim_space (js_Payload s))
       (filter (\<lambda>s. \<not> (trim_space (js_FromAgent s) = [] \<and> trim_space (js_Payload s) = [])) sources))"

text \<open>The value NormalizeGraphJoin returns beside its error, which the gates ignore.\<close>

definition normalized_join :: "GraphJoin \<Rightarrow> GraphJoin" where
  "normalized_join join =
     (let mode = to_lower (trim_space (g_Mode join));
          onFailure = to_lower (trim_space (g_OnFailure join));
          qp = (if g_QuorumPercent join < 0 then 0 else g_QuorumPercent join)
      in if \<not> List.member [[], ''wait_for_all'', ''quorum''] mode then join
         else join\<lparr>g_Mode := (if mode = [] then ''wait_for_all'' else mode),
                   g_QuorumCount := (if g_QuorumCount join < 0 then 0 else g_QuorumCount join),
                   g_QuorumPercent := (if 100 < qp then 100 else qp),
                   g_OnFailure := (if onFailure = [] then ''deadletter''
                     else if List.member [''deadletter'', ''skip'', ''continue_partial''] onFailure then onFailure
                     else g_OnFailure join)\<rparr>)"

definition quorumRequired :: "int \<Rightarrow> int \<Rightarrow> int \<Rightarrow> int" where
  "quorumRequired expected absolute percent =
     (if expected \<le> 0 then 0
      else
        let required = (if absolute > 0 then absolute else 0);
            value = ceiling (fl (fl (of_int expected) * fl (fl (of_int percent) / 100)));
            required = (if percent > 0 \<and> value > required then value else required);
            required = (if required \<le> 0 then expected else required)
        in if required > expected then expected else required)"

definition incomingAgentsForNode :: "AgentSystem \<Rightarrow> string \<Rightarrow> string list" where
  "incomingAgentsForNode system target =
     (let target = trim_space target; agents = as_Agents (sy_Spec system); graph = as_Graph (sy_Spec system)
      in if target = [] then []
         else if length graph = 0 then
           (case find_idx (\<lambda>a. equal_fold (trim_space a) target) agents of
              None \<Rightarrow> []
            | Some i \<Rightarrow> if i = 0 then []
                        else let prev = trim_space (agents ! (i - 1)) in if prev = [] then [] else [prev])
         else fst (fold (\<lambda>(from, node) acc.
                fold (\<lambda>to (out, seen).
                  if \<not> equal_fold (trim_space to) target then (out, seen)
                  else let f = trim_space from; key = to_lower f
                       in if List.member seen key then (out, seen) else (out @ [f], key # seen))
                  (GraphOutgoingAgents node) acc) graph ([], [])))"

record join_req =
  jq_mode :: string
  jq_expected :: int
  jq_required :: int
  jq_enabled :: bool

definition joinRequirements :: "AgentSystem \<Rightarrow> string \<Rightarrow> join_req" where
  "joinRequirements system target =
     (let target = trim_space target
      in if target = [] then \<lparr>jq_mode = [], jq_expected = 0, jq_required = 0, jq_enabled = False\<rparr>
         else
           let expected = int (length (incomingAgentsForNode system target));
               graph = as_Graph (sy_Spec system)
           in if expected \<le> 1 \<and> length graph = 0
              then \<lparr>jq_mode = [], jq_expected = expected, jq_required = 0, jq_enabled = False\<rparr>
              else
                let (mode, required) =
                      (case map_of graph target of
                         None \<Rightarrow> (''wait_for_all'', 0)
                       | Some node \<Rightarrow>
                           let j = normalized_join (n_Join node);
                               mode = (if g_Mode j = [] then ''wait_for_all'' else g_Mode j)
                           in (mode, if mode = ''quorum''
                                     then quorumRequired expected (g_QuorumCount j) (g_QuorumPercent j) else 0))
                in if expected \<le> 1 \<and> mode = ''wait_for_all''
                   then \<lparr>jq_mode = [], jq_expected = expected, jq_required = expected, jq_enabled = False\<rparr>
                   else
                     let required = (if mode = ''wait_for_all'' then expected else required);
                         required = (if required \<le> 0 then expected else required);
                         required = (if required > expected then expected else required);
                         required = (if required \<le> 0 then 1 else required)
                     in \<lparr>jq_mode = mode, jq_expected = expected, jq_required = required, jq_enabled = True\<rparr>)"

definition graphHasConditions :: "AgentSystem \<Rightarrow> bool" where
  "graphHasConditions system =
     list_ex (\<lambda>(_, node). list_ex (\<lambda>r. r_Condition r \<noteq> None) (n_Edges node)) (as_Graph (sy_Spec system))"

definition adjustJoinExpectedForConditionalDispatch ::
  "AgentSystem \<Rightarrow> Task \<Rightarrow> AgentMessage \<Rightarrow> int \<Rightarrow> int \<Rightarrow> string \<Rightarrow> int \<times> int" where
  "adjustJoinExpectedForConditionalDispatch system t msg expected required joinMode =
     (if \<not> graphHasConditions system then (expected, required)
      else
        let incoming = incomingAgentsForNode system (trim_space (am_ToAgent msg))
        in if length incoming = 0 then (expected, required)
           else
             let dispatched = int (length (filter (\<lambda>up. list_ex (\<lambda>m. to_lower (trim_space (tm_ToAgent m))
                    = to_lower (trim_space up)) (msgs_of t)) incoming))
             in if dispatched \<le> 0 \<or> dispatched \<ge> expected then (expected, required)
                else let r = (if joinMode = ''wait_for_all'' then dispatched
                              else if required > dispatched then dispatched else required)
                     in (dispatched, if r \<le> 0 then 1 else r))"

definition countDispatchedDelegates :: "TaskMessage list \<Rightarrow> GraphRoute list \<Rightarrow> string \<Rightarrow> int" where
  "countDispatchedDelegates messages delegates delegator =
     int (length (filter (\<lambda>d. list_ex (\<lambda>m. to_lower (trim_space (tm_ToAgent m)) = to_lower (trim_space (r_To d))
       \<and> equal_fold (trim_space (tm_DelegateOf m)) (trim_space delegator)) messages) delegates))"

section \<open>Keys and following messages\<close>

definition scopedTaskName :: "string \<Rightarrow> string \<Rightarrow> string" where
  "scopedTaskName namespace name = NormalizeNamespace namespace @ ''/'' @ trim_space name"

definition messageTaskKey :: "AgentMessage \<Rightarrow> string option" where
  "messageTaskKey msg =
     (let taskID = trim_space (am_TaskID msg)
      in if taskID = [] then None
         else if List.member taskID CHR ''/'' then
           (let (a, b) = split_first CHR ''/'' taskID in Some (scopedTaskName a b))
         else Some (scopedTaskName (am_Namespace msg) taskID))"

definition splitTaskKey :: "string \<Rightarrow> string \<times> string" where
  "splitTaskKey taskKey =
     (if List.member taskKey CHR ''/'' then
        (let (a, b) = split_first CHR ''/'' taskKey in (NormalizeNamespace a, trim_space b))
      else (DefaultNamespace, trim_space taskKey))"

definition durableName :: "string \<Rightarrow> string \<Rightarrow> string \<Rightarrow> string" where
  "durableName workerID namespace agent =
     (let base = trim_space workerID; base = (if base = [] then ''worker'' else base)
      in sanitizeSubjectToken base @ ''-'' @ sanitizeSubjectToken namespace @ ''-'' @ sanitizeSubjectToken agent)"

definition deterministicMessageID :: "string \<Rightarrow> string \<Rightarrow> int \<Rightarrow> int \<Rightarrow> string \<Rightarrow> string \<Rightarrow> string" where
  "deterministicMessageID namespace taskName attempt hop fromAgent toAgent =
     (let attempt = (if attempt \<le> 0 then 1 else attempt); hop = (if hop \<le> 0 then 1 else hop)
      in NormalizeNamespace namespace @ ''/'' @ trim_space taskName @ ''/a'' @ pad_int 3 attempt @ ''/h''
         @ pad_int 3 hop @ ''/'' @ sanitizeSubjectToken fromAgent @ ''/'' @ sanitizeSubjectToken toAgent)"

text \<open>The leftmost match of the pattern \<open>/h([0-9]+)(?:/|$)\<close>; its group.\<close>

fun hop_match :: "string \<Rightarrow> string option" where
  "hop_match [] = None"
| "hop_match (c # s) =
     (let ds = takeWhile is_digit (tl s); rest = dropWhile is_digit (tl s)
      in if c = CHR ''/'' \<and> s \<noteq> [] \<and> hd s = CHR ''h'' \<and> ds \<noteq> [] \<and> (rest = [] \<or> hd rest = CHR ''/'')
         then Some ds else hop_match s)"

definition hopFromMessageID :: "string \<Rightarrow> int" where
  "hopFromMessageID messageID =
     (let i = trim_space messageID
      in if i = [] then 0
         else case hop_match i of
                None \<Rightarrow> 0
              | Some ds \<Rightarrow> (case atoi ds of None \<Rightarrow> 0 | Some hop \<Rightarrow> hop))"

definition nextAgentsFromSystemForOutput ::
  "cond_lib \<Rightarrow> AgentSystem \<Rightarrow> string \<Rightarrow> string \<Rightarrow> string \<Rightarrow> string list" where
  "nextAgentsFromSystemForOutput lib system current output delegateOf =
     (let current = trim_space current;
          graph = as_Graph (sy_Spec system); agents = as_Agents (sy_Spec system);
          delegator = trim_space delegateOf;
          fallback = (if delegator \<noteq> [] then [delegator] else []);
          routes = (case map_of graph current of Some edge \<Rightarrow> GraphOutgoingRoutes edge | None \<Rightarrow> [])
      in if current = [] then []
         else if length routes > 0 then map r_To (FilterRoutesForOutput lib routes output)
         else if length graph = 0 then
           (case find_idx (\<lambda>a. equal_fold (trim_space a) current) agents of
              Some i \<Rightarrow>
                if i + 1 < length agents \<and> trim_space (agents ! (i + 1)) \<noteq> []
                then [trim_space (agents ! (i + 1))] else fallback
            | None \<Rightarrow> fallback)
         else fallback)"

text \<open>
  The messages of buildDelegateMessages and buildNextAgentMessages differ in the format of the
  branch, the text that stands for an empty output, the type and DelegateOf.
\<close>

definition build_messages ::
  "instant \<Rightarrow> string \<Rightarrow> string \<Rightarrow> string \<Rightarrow> string \<Rightarrow> Task \<Rightarrow> AgentMessage \<Rightarrow> AgentExecutionResult
    \<Rightarrow> string list \<Rightarrow> AgentMessage list" where
  "build_messages now branchMark summary kind delegateOf t current result agents =
     (let ns = NormalizeNamespace (m_Namespace (t_Metadata t));
          name = trim_space (m_Name (t_Metadata t));
          attempt = ts_Attempts (t_Status t);
          attempt = (if attempt \<le> 0 then max 1 (am_Attempt current) else attempt);
          nextHop = wrap64 (hopFromMessageID (am_MessageID current) + 1);
          nextHop = (if nextHop \<le> 1 then 2 else nextHop);
          content = trim_space (xr_Output result);
          content = (if content = [] then trim_space (xr_LastEvent result) else content);
          content = (if content = [] then summary else content);
          traceID = trim_space (am_TraceID current);
          traceID = (if traceID = [] then ns @ ''/'' @ name @ ''/a'' @ pad_int 3 attempt else traceID);
          parentBranch = branch_or_root (am_BranchID current)
      in concat (map (\<lambda>(idx, agent).
           let nxt = trim_space agent;
               branchID = (if length agents > 1 then parentBranch @ branchMark @ pad_int 3 (int idx + 1)
                           else parentBranch);
               i = deterministicMessageID ns name attempt nextHop (xr_Agent result) nxt
           in if nxt = [] then []
              else [\<lparr>am_MessageID = i, am_IdempotencyKey = i,
                     am_TaskID = scopedTaskName ns (m_Name (t_Metadata t)), am_Attempt = attempt,
                     am_System = trim_space (sp_System (t_Spec t)), am_Namespace = ns,
                     am_FromAgent = trim_space (xr_Agent result), am_ToAgent = nxt, am_BranchID = branchID,
                     am_ParentBranchID = parentBranch, am_Type = kind, am_Payload = content,
                     am_Timestamp = format_nano now, am_TraceID = traceID,
                     am_ParentID = trim_space (am_MessageID current), am_DelegateOf = delegateOf\<rparr>])
         (zip [0..<length agents] agents)))"

definition run_summary :: "AgentExecutionResult \<Rightarrow> string" where
  "run_summary r = ''steps='' @ itoa (xr_Steps r) @ '' tool_calls='' @ itoa (xr_ToolCalls r)
     @ '' tokens='' @ itoa (xr_TokensUsed r)"

definition buildDelegateMessages ::
  "instant \<Rightarrow> Task \<Rightarrow> AgentMessage \<Rightarrow> AgentExecutionResult \<Rightarrow> string list \<Rightarrow> string \<Rightarrow> AgentMessage list" where
  "buildDelegateMessages now t current result delegateAgents delegator =
     build_messages now ''.d'' (run_summary result) ''delegation'' (trim_space delegator) t current result delegateAgents"

definition buildNextAgentMessages ::
  "instant \<Rightarrow> Task \<Rightarrow> AgentMessage \<Rightarrow> AgentExecutionResult \<Rightarrow> string list \<Rightarrow> string option \<Rightarrow> AgentMessage list" where
  "buildNextAgentMessages now t current result nextAgents delegateOf =
     build_messages now ''.'' (run_summary result @ '' usage_source='' @ trim_space (xr_TokenSource result))
       ''task_handoff'' (case delegateOf of Some d \<Rightarrow> d | None \<Rightarrow> trim_space (am_DelegateOf current))
       t current result nextAgents"

definition originalDelegateOfForAgent :: "Task \<Rightarrow> int \<Rightarrow> string \<Rightarrow> string" where
  "originalDelegateOfForAgent t attempt agentName =
     (let agentName = trim_space agentName
      in case find (\<lambda>m. trim_space (tm_ToAgent m) = agentName \<and> tm_Attempt m = attempt
                       \<and> trim_space (tm_DelegateOf m) \<noteq> agentName) (msgs_of t) of
           Some m \<Rightarrow> trim_space (tm_DelegateOf m)
         | None \<Rightarrow> [])"

section \<open>Lemmas on records\<close>

lemma same_id_fill [simp]: "same_id msg (fill_record now t msg' r) = same_id msg r"
  by (simp add: fill_record_def)

lemma same_id_new [simp]: "same_id msg (new_record now t msg)"
  by (simp add: new_record_def zero_TaskMessage_def)

text \<open>The index is that of the first record with the message's id, and everything else stays.\<close>

lemma ensureTaskMessageRecord_spec:
  assumes "ensureTaskMessageRecord now msg t = (i, t')"
  shows "i < length (msgs_of t')" "same_id msg (msgs_of t' ! i)" "find_idx (same_id msg) (msgs_of t') = Some i"
    "t_Metadata t' = t_Metadata t" "t_Spec t' = t_Spec t"
    "\<exists>ms. t_Status t' = (t_Status t)\<lparr>ts_Messages := ms\<rparr>"
proof -
  have "i < length (msgs_of t') \<and> find_idx (same_id msg) (msgs_of t') = Some i
    \<and> t_Metadata t' = t_Metadata t \<and> t_Spec t' = t_Spec t
    \<and> (\<exists>ms. t_Status t' = (t_Status t)\<lparr>ts_Messages := ms\<rparr>)"
  proof (cases "find_idx (same_id msg) (msgs_of t)")
    case None
    with assms find_idx_append_None [OF None, of "new_record now t msg"] show ?thesis
      by (auto simp: ensureTaskMessageRecord_def)
  next
    case (Some j)
    then have j: "j < length (msgs_of t)" "same_id msg (msgs_of t ! j)" by (auto simp: find_idx_Some)
    with assms Some find_idx_cong_update [OF Some, of "fill_record now t msg (msgs_of t ! j)"] show ?thesis
      by (auto simp: ensureTaskMessageRecord_def)
  qed
  then show "i < length (msgs_of t')" "same_id msg (msgs_of t' ! i)" "find_idx (same_id msg) (msgs_of t') = Some i"
    "t_Metadata t' = t_Metadata t" "t_Spec t' = t_Spec t"
    "\<exists>ms. t_Status t' = (t_Status t)\<lparr>ts_Messages := ms\<rparr>"
    by (auto simp: find_idx_Some)
qed

section \<open>Lemmas on idempotency\<close>

lemma trim_bars:
  assumes "trim_space a = a" "trim_space b = b" "b \<noteq> []"
  shows "trim_space (a @ CHR ''|'' # m @ b) = a @ CHR ''|'' # m @ b"
  using assms by (auto simp: trim_space_self_iff is_space_def hd_append)

lemma key_trimmed: "trim_space (messageIdempotencyKey m) = messageIdempotencyKey m \<and> messageIdempotencyKey m \<noteq> []"
  using trim_bars [of "trim_space (am_TaskID m)" "itoa (am_Attempt m)"
      "trim_space (am_FromAgent m) @ ''|'' @ trim_space (am_ToAgent m) @ ''|''"]
  by (auto simp: messageIdempotencyKey_def Let_def)

lemma mark_records:
  "\<exists>rs. ts_MessageIdempotency (t_Status (markMessageIdempotency now m state worker t)) = rs
     \<and> (\<exists>r \<in> set rs. mi_Key r = messageIdempotencyKey m \<and> mi_State r = to_lower (trim_space state)
          \<and> mi_ExpiresAt r = format_nano (now + 30 * 24 * Hour))"
  using key_trimmed [of m]
  by (auto simp: markMessageIdempotency_def Let_def find_idx_Some split: option.splits
      intro!: bexI [OF _ set_update_memI])

lemma expiry_not_passed:
  assumes "year_in_range x" "now \<le> x"
  shows "\<not> (trim_space (format_nano x) \<noteq> [] \<and>
    (case parse_rfc3339 (trim_space (format_nano x)) of None \<Rightarrow> False | Some w \<Rightarrow> w < now))"
  using assms parse_format_nano [OF assms(1)] format_trim by (simp split: option.splits)

lemma mark_then_idempotent:
  assumes "year_in_range (now + 30 * 24 * Hour)" "later \<le> now + 30 * 24 * Hour"
    "List.member [''completed'', ''deadletter''] (to_lower (trim_space state))"
  shows "isMessageIdempotent later
    (ts_MessageIdempotency (t_Status (markMessageIdempotency now m state worker t))) (messageIdempotencyKey m)"
proof -
  obtain r where r: "r \<in> set (ts_MessageIdempotency (t_Status (markMessageIdempotency now m state worker t)))"
    "mi_Key r = messageIdempotencyKey m" "mi_State r = to_lower (trim_space state)"
    "mi_ExpiresAt r = format_nano (now + 30 * 24 * Hour)"
    using mark_records [of now m state worker t] by auto
  have "List.member [''completed'', ''deadletter''] (to_lower (trim_space (mi_State r)))"
    using assms(3) by (auto simp: r(3) trim_space_lower)
  then have "record_counts later (messageIdempotencyKey m) r"
    using expiry_not_passed [OF assms(1,2)] key_trimmed [of m]
    unfolding record_counts_def Let_def r(2,4) by simp
  then show ?thesis
    using r(1) key_trimmed [of m] unfolding isMessageIdempotent_def Let_def list_ex_iff by auto
qed

section \<open>Lemmas on message ids\<close>

lemma hop_match_skip: "CHR ''/'' \<notin> set p \<Longrightarrow> hop_match (p @ r) = hop_match r"
  by (induction p) (auto simp: Let_def)

definition hop_part :: "string \<Rightarrow> bool" where
  "hop_part x \<longleftrightarrow> (case x of [] \<Rightarrow> False | c # ds \<Rightarrow> c = CHR ''h'' \<and> ds \<noteq> [] \<and> list_all is_digit ds)"

lemma takeWhile_until:
  "CHR ''/'' \<notin> set x \<Longrightarrow> takeWhile is_digit (x @ CHR ''/'' # r) = takeWhile is_digit x
    \<and> dropWhile is_digit (x @ CHR ''/'' # r) = dropWhile is_digit x @ CHR ''/'' # r"
  by (induction x) (auto simp: is_digit_def)

lemma dropWhile_hd_slash:
  "CHR ''/'' \<notin> set x \<Longrightarrow> hd (dropWhile is_digit x @ CHR ''/'' # r) = CHR ''/'' \<longleftrightarrow> list_all is_digit x"
  by (induction x) (auto simp: is_digit_def)

lemma hop_match_part:
  assumes "CHR ''/'' \<notin> set x"
  shows "hop_match (CHR ''/'' # x @ CHR ''/'' # r) =
    (if hop_part x then Some (tl x) else hop_match (CHR ''/'' # r))"
proof (cases x)
  case Nil
  then show ?thesis by (simp add: hop_part_def Let_def)
next
  case (Cons c ds)
  have "takeWhile is_digit ds = ds" if "list_all is_digit ds"
    using that by (simp add: list_all_iff)
  moreover have "takeWhile is_digit ds = [] \<Longrightarrow> list_all is_digit ds \<Longrightarrow> ds = []"
    by (cases ds) auto
  ultimately show ?thesis
    using assms takeWhile_until [of ds r] dropWhile_hd_slash [of ds r] hop_match_skip [OF assms, of "CHR ''/'' # r"]
    by (subst hop_match.simps) (auto simp: Cons hop_part_def Let_def simp del: hop_match.simps)
qed

lemma sanitize_nonempty: "sanitizeSubjectToken x \<noteq> [] \<and> \<not> is_space (last (sanitizeSubjectToken x))"
proof -
  let ?tab = "[(CHR '' '', ''_''), (CHR ''.'', ''_''), (CHR ''>'', ''_''), (CHR ''*'', ''_''), (CHR ''/'', ''_''), (CHR '':'', ''_'')]"
  have one: "replace_chars ?tab (y @ [c]) = replace_chars ?tab y @ [d]
      \<Longrightarrow> \<not> is_space c \<Longrightarrow> (d = c \<or> d = CHR ''_'') \<Longrightarrow> \<not> is_space d" for y c d
    by (auto simp: is_space_def)
  show ?thesis
  proof (cases "trim_space (to_lower x) = []")
    case True
    then show ?thesis by (simp add: sanitizeSubjectToken_def is_space_def)
  next
    case False
    then obtain y c where yc: "trim_space (to_lower x) = y @ [c]" by (meson rev_exhaust)
    have "\<not> is_space c"
      using trim_space_idem [of "to_lower x"] unfolding trim_space_self_iff by (simp add: yc)
    then show ?thesis
      using False by (auto simp: sanitizeSubjectToken_def yc replace_chars_def is_space_def split: option.splits)
  qed
qed

lemma pad_int_all: "0 \<le> i \<Longrightarrow> list_all is_digit (pad_int w i) \<and> pad_int w i \<noteq> [] \<and> digits_val (pad_int w i) = nat i"
  by (simp add: pad_int_def)

lemma atoi_pad: "0 \<le> i \<Longrightarrow> in_int64 i \<Longrightarrow> atoi (pad_int w i) = Some i"
  using pad_int_all [of i w] by (cases "pad_int w i") (auto simp: atoi_def Let_def dest: digit_not_sign)

lemma digits_no_slash: "list_all is_digit s \<Longrightarrow> CHR ''/'' \<notin> set s"
  by (auto simp: list_all_iff is_digit_def)

lemma hop_of_id:
  assumes "CHR ''/'' \<notin> set ns" "CHR ''/'' \<notin> set name" "\<not> hop_part (trim_space name)" "0 < hop" "in_int64 hop"
  shows "hopFromMessageID (deterministicMessageID ns name attempt hop from to) = hop"
proof -
  let ?a = "if attempt \<le> 0 then 1 else attempt"
  let ?ns = "NormalizeNamespace ns" and ?rest = "sanitizeSubjectToken from @ ''/'' @ sanitizeSubjectToken to"
  have a: "CHR ''/'' \<notin> set (CHR ''a'' # pad_int 3 ?a)" "\<not> hop_part (CHR ''a'' # pad_int 3 ?a)"
    using digits_no_slash pad_int_all [of ?a 3] by (auto simp: hop_part_def)
  have h: "CHR ''/'' \<notin> set (CHR ''h'' # pad_int 3 hop)" "hop_part (CHR ''h'' # pad_int 3 hop)"
    using digits_no_slash pad_int_all [of hop 3] assms(4) by (auto simp: hop_part_def)
  have nm: "CHR ''/'' \<notin> set (trim_space name)" using assms(2) set_trim_space by blast
  have ns: "CHR ''/'' \<notin> set ?ns" "?ns \<noteq> []" "trim_space ?ns = ?ns"
    using assms(1) by (simp_all add: NormalizeNamespace_no_slash)
  have i: "deterministicMessageID ns name attempt hop from to = ?ns @ CHR ''/'' # trim_space name @ CHR ''/''
      # (CHR ''a'' # pad_int 3 ?a) @ CHR ''/'' # (CHR ''h'' # pad_int 3 hop) @ CHR ''/'' # ?rest"
    using assms(4) by (simp add: deterministicMessageID_def Let_def)
  have "trim_space (deterministicMessageID ns name attempt hop from to) = deterministicMessageID ns name attempt hop from to"
    using ns sanitize_nonempty [of to] unfolding trim_space_self_iff i by (auto simp: trim_space_self_iff hd_append)
  moreover have "hop_match (deterministicMessageID ns name attempt hop from to) = Some (pad_int 3 hop)"
    unfolding i hop_match_skip [OF ns(1)] hop_match_part [OF nm] hop_match_part [OF a(1)] hop_match_part [OF h(1)]
    using assms(3) a(2) h(2) by simp
  moreover have "deterministicMessageID ns name attempt hop from to \<noteq> []" by (simp add: i)
  ultimately show ?thesis using atoi_pad [of hop 3] assms(4,5) by (simp add: hopFromMessageID_def Let_def)
qed

section \<open>Lemmas on quorums\<close>

lemma eps_pow: "(1 + 1 / 2 ^ 53) ^ 4 \<le> (1 + 1 / 2 ^ 50 :: rat)" "(1 - 1 / 2 ^ 50 :: rat) \<le> (1 - 1 / 2 ^ 53) ^ 4"
  by (simp_all add: field_simps)

lemma fl_sandwich:
  assumes "0 \<le> x" "lo \<le> x" "x \<le> hi" "0 \<le> lo"
  shows "fl x \<le> hi * (1 + 1 / 2 ^ 53)" "lo * (1 - 1 / 2 ^ 53) \<le> fl x"
proof -
  show "fl x \<le> hi * (1 + 1 / 2 ^ 53)" by (rule fl_mult_le [OF assms(1,3)])
  have "lo * (1 - 1 / 2 ^ 53) \<le> x * (1 - 1 / 2 ^ 53)" by (rule mult_right_mono [OF assms(2)]) simp
  also have "\<dots> \<le> fl x" by (rule fl_rel(2) [OF assms(1)])
  finally show "lo * (1 - 1 / 2 ^ 53) \<le> fl x" .
qed

lemma percent_product:
  fixes e p :: int
  assumes "0 < e" "e \<le> 2 ^ 40" "0 < p" "p \<le> 100"
  defines "x \<equiv> of_int e * of_int p / 100 :: rat" and "y \<equiv> fl (fl (of_int e) * fl (fl (of_int p) / 100))"
  shows "x - 1 / 200 \<le> y" "y \<le> x + 1 / 200"
proof -
  let ?u = "1 + 1 / 2 ^ 53 :: rat" and ?l = "1 - 1 / 2 ^ 53 :: rat"
  have e: "0 \<le> (of_int e :: rat)" and p: "0 \<le> (of_int p :: rat)" using assms by auto
  have fe: "fl (of_int e) \<le> of_int e * ?u" "of_int e * ?l \<le> fl (of_int e)" using fl_rel [OF e] by auto
  have "fl (of_int p) / 100 \<le> of_int p * ?u / 100" "of_int p * ?l / 100 \<le> fl (of_int p) / 100"
    using fl_rel [OF p] by auto
  from fl_sandwich [OF _ this(2,1)]
  have fp: "fl (fl (of_int p) / 100) \<le> of_int p * ?u / 100 * ?u" "of_int p * ?l / 100 * ?l \<le> fl (fl (of_int p) / 100)"
    using fl_nonneg p by auto
  have "fl (of_int e) * fl (fl (of_int p) / 100) \<le> of_int e * ?u * (of_int p * ?u / 100 * ?u)"
    by (rule mult_mono [OF fe(1) fp(1)]) (use e p fl_nonneg in auto)
  moreover have "of_int e * ?l * (of_int p * ?l / 100 * ?l) \<le> fl (of_int e) * fl (fl (of_int p) / 100)"
    by (rule mult_mono [OF fe(2) fp(2)]) (use e p fl_nonneg in auto)
  moreover have "0 \<le> fl (of_int e) * fl (fl (of_int p) / 100)" by (intro mult_nonneg_nonneg fl_nonneg)
  moreover have "0 \<le> of_int e * ?l * (of_int p * ?l / 100 * ?l)" using e p by auto
  ultimately have y: "y \<le> of_int e * ?u * (of_int p * ?u / 100 * ?u) * ?u"
    "of_int e * ?l * (of_int p * ?l / 100 * ?l) * ?l \<le> y"
    unfolding y_def by (blast intro: fl_sandwich)+
  have x0: "0 \<le> x" using e p by (simp add: x_def)
  have "of_int e \<le> (2 ^ 40 :: rat)" using assms(2) by (metis of_int_le_iff of_int_numeral of_int_power)
  moreover have "of_int p \<le> (100 :: rat)" using assms(4) by (metis of_int_le_iff of_int_numeral)
  ultimately have "of_int e * of_int p \<le> (2 ^ 40 * 100 :: rat)" using e p by (intro mult_mono) auto
  then have xb: "x \<le> 2 ^ 40" by (simp add: x_def)
  have "y \<le> x * ?u ^ 4" using y(1) by (simp add: x_def power4_eq_xxxx mult.assoc mult.commute mult.left_commute)
  also have "\<dots> \<le> x * (1 + 1 / 2 ^ 50)" by (rule mult_left_mono [OF eps_pow(1) x0])
  finally show "y \<le> x + 1 / 200" using xb by (simp add: algebra_simps)
  have "x * (1 - 1 / 2 ^ 50) \<le> x * ?l ^ 4" by (rule mult_left_mono [OF eps_pow(2) x0])
  also have "\<dots> \<le> y" using y(2) by (simp add: x_def power4_eq_xxxx mult.assoc mult.commute mult.left_commute)
  finally show "x - 1 / 200 \<le> y" using xb by (simp add: algebra_simps)
qed

lemma percent_ceiling:
  fixes e p :: int
  assumes "0 < e" "e \<le> 2 ^ 40" "0 < p" "p \<le> 100"
  defines "c \<equiv> \<lceil>of_int e * of_int p / 100 :: rat\<rceil>" and "y \<equiv> fl (fl (of_int e) * fl (fl (of_int p) / 100))"
  shows "c \<le> \<lceil>y\<rceil>" "\<lceil>y\<rceil> \<le> c + 1" "0 < c" "c \<le> e"
proof -
  let ?x = "of_int e * of_int p / 100 :: rat"
  have y: "?x - 1 / 200 \<le> y" "y \<le> ?x + 1 / 200" using percent_product [OF assms(1-4)] by (auto simp: y_def)
  have "of_int c - 1 < ?x" "?x \<le> of_int c" using ceiling_correct [of ?x] by (auto simp: c_def)
  moreover have "of_int (100 * (c - 1)) < (of_int (e * p) :: rat)" using \<open>of_int c - 1 < ?x\<close> by simp
  then have "100 * (c - 1) + 1 \<le> e * p" by (simp only: of_int_less_iff)
  then have "(of_int (100 * (c - 1) + 1) :: rat) \<le> of_int (e * p)" by (simp only: of_int_le_iff)
  ultimately have "of_int (c - 1) < y" using y by simp
  then show "c \<le> \<lceil>y\<rceil>" by (metis less_ceiling_iff zle_diff1_eq diff_add_cancel add1_zle_eq)
  show "\<lceil>y\<rceil> \<le> c + 1" using y \<open>?x \<le> of_int c\<close> by (simp add: ceiling_le_iff)
  show "0 < c" using assms(1,3) by (simp add: c_def)
  have "e * p \<le> e * 100" using assms(1,4) by simp
  then have "(of_int (e * p) :: rat) \<le> of_int (e * 100)" by (simp only: of_int_le_iff)
  then show "c \<le> e" by (simp add: c_def ceiling_le_iff)
qed

section \<open>Properties\<close>

text \<open>
  A quorum given as a percentage is the exact one or one more. For up to \<open>2 ^ 40\<close> expected
  branches and a percentage from 1 to 100, the number of branches a join waits for, computed in
  floating point, is at least the exact ceiling, at most one above it, and never above the number
  of expected branches.
\<close>

theorem quorum_percent:
  fixes e p :: int
  assumes "0 < e" "e \<le> 2 ^ 40" "0 < p" "p \<le> 100"
  shows "quorumRequired e 0 p \<in> {\<lceil>of_int e * of_int p / 100 :: rat\<rceil> ..
    min e (\<lceil>of_int e * of_int p / 100 :: rat\<rceil> + 1)}"
proof -
  let ?v = "\<lceil>fl (fl (of_int e) * fl (fl (of_int p) / 100))\<rceil>"
  have "quorumRequired e 0 p = min e ?v"
    using percent_ceiling [OF assms] assms(1,3)
    by (simp add: quorumRequired_def Let_def min_def del: ceiling_le_zero ceiling_less_zero zero_less_ceiling)
  with percent_ceiling [OF assms] show ?thesis by auto
qed

theorem quorum_percent_witness:
  "quorumRequired 25 0 28 = 8 \<and> \<lceil>of_int 25 * of_int 28 / 100 :: rat\<rceil> = 7
   \<and> quorumRequired 25 0 28 \<in> {7 .. 8}"
proof -
  have "quorumRequired 25 0 28 = 8" by code_simp
  moreover have "\<lceil>of_int 25 * of_int 28 / 100 :: rat\<rceil> = 7" by simp
  ultimately show ?thesis using quorum_percent [of 25 28] by simp
qed



end
