(* ===== verification/Task_Store.thy ===== *)
theory Task_Store
  imports Task_Types Resource_Store
begin

text \<open>
  The task store (store/resource_stores.go, TaskStore) with its claims and leases: a worker claims
  a due task, holds it under a lease it renews, and another worker takes it over once the lease
  has expired.

  The clock is the argument \<open>now\<close>; an operation reads it once before it takes the mutex, so over
  concurrent callers the values of \<open>now\<close> need not be monotone, and no lemma assumes it.

  Shown here: the operations keep the store well-formed; no sequence of operations of other
  workers takes a task away before its lease ends, and one that claims it after that gets it;
  what a claim records, for a new attempt and for a takeover; which task ClaimNextDue picks.
\<close>

section \<open>State\<close>

record TaskStore =
  st_items :: "(string \<times> Task) list"
  st_logs :: "(string \<times> string list) list"

definition NewTaskStore :: TaskStore where
  "NewTaskStore = \<lparr>st_items = [], st_logs = []\<rparr>"

abbreviation set_task_meta :: "ObjectMeta \<Rightarrow> Task \<Rightarrow> Task" where
  "set_task_meta m t \<equiv> t\<lparr>t_Metadata := m\<rparr>"

abbreviation task_spec_changed :: "Task \<Rightarrow> Task \<Rightarrow> bool" where
  "task_spec_changed a b \<equiv> t_Spec a \<noteq> t_Spec b"

section \<open>Resource operations\<close>

definition TaskStore_Upsert :: "instant \<Rightarrow> Task \<Rightarrow> TaskStore \<Rightarrow> (api_error + Task) \<times> TaskStore" where
  "TaskStore_Upsert now item s =
     (let (r, items) = store_upsert ''Task'' t_Metadata set_task_meta task_spec_changed Task_Normalize
                         now item (st_items s)
      in (r, s\<lparr>st_items := items\<rparr>))"

definition TaskStore_Get :: "string \<Rightarrow> TaskStore \<Rightarrow> Task option" where
  "TaskStore_Get name s = store_get name (st_items s)"

definition TaskStore_ListPaged :: "int \<Rightarrow> int \<Rightarrow> string \<Rightarrow> TaskStore \<Rightarrow> Task list" where
  "TaskStore_ListPaged limit offset namespace s =
     (let out = filter (\<lambda>t. \<not> (namespace \<noteq> []
                  \<and> \<not> equal_fold (NormalizeNamespace (m_Namespace (t_Metadata t))) namespace))
                (map snd (st_items s));
          out = sort_key (\<lambda>t. m_Name (t_Metadata t)) out
      in if 0 < offset \<and> int (length out) \<le> offset then []
         else let out = (if 0 < offset then drop (nat offset) out else out)
              in if 0 < limit \<and> limit < int (length out) then take (nat limit) out else out)"

definition TaskStore_List :: "TaskStore \<Rightarrow> Task list" where
  "TaskStore_List s = TaskStore_ListPaged 0 0 [] s"

definition TaskStore_ListCursor :: "int \<Rightarrow> string \<Rightarrow> string \<Rightarrow> TaskStore \<Rightarrow> Task list" where
  "TaskStore_ListCursor limit after namespace s =
     store_list_cursor t_Metadata limit after namespace (st_items s)"

definition TaskStore_Delete :: "string \<Rightarrow> TaskStore \<Rightarrow> api_error option \<times> TaskStore" where
  "TaskStore_Delete name s =
     (let key = normalizeLookupName name
      in if map_of (st_items s) key = None then (Some (NotFound ''task'' name), s)
         else (None, s\<lparr>st_items := AList.delete key (st_items s),
                       st_logs := AList.delete key (st_logs s)\<rparr>))"

abbreviation logs_of :: "string \<Rightarrow> TaskStore \<Rightarrow> string list" where
  "logs_of key s \<equiv> (case map_of (st_logs s) key of None \<Rightarrow> [] | Some l \<Rightarrow> l)"

definition TaskStore_AppendLog ::
  "instant \<Rightarrow> string \<Rightarrow> string \<Rightarrow> TaskStore \<Rightarrow> api_error option \<times> TaskStore" where
  "TaskStore_AppendLog now name message s =
     (let key = normalizeLookupName name
      in if map_of (st_items s) key = None then (Some (NotFound ''task'' name), s)
         else let entry = format_sec now @ '' '' @ message;
                  l = keep_last 500 (logs_of key s @ [entry])
              in (None, s\<lparr>st_logs := AList.update key l (st_logs s)\<rparr>))"

definition TaskStore_GetLogs :: "string \<Rightarrow> TaskStore \<Rightarrow> api_error + string list" where
  "TaskStore_GetLogs name s =
     (let key = normalizeLookupName name
      in if map_of (st_items s) key = None then Inl (NotFound ''task'' name)
         else Inr (logs_of key s))"

section \<open>Claims and leases\<close>

definition parseTimestamp :: "string \<Rightarrow> instant option" where
  "parseTimestamp value =
     (let v = trim_space value in if v = [] then None else parse_rfc3339 v)"

definition taskAttemptDue :: "Task \<Rightarrow> instant \<Rightarrow> bool" where
  "taskAttemptDue t now =
     (let nxt = trim_space (ts_NextAttemptAt (t_Status t))
      in if nxt = [] then True
         else case parseTimestamp nxt of None \<Rightarrow> True | Some w \<Rightarrow> \<not> now < w)"

definition isTaskClaimable :: "Task \<Rightarrow> string \<Rightarrow> instant \<Rightarrow> bool" where
  "isTaskClaimable t workerID now =
     (if equal_fold (trim_space (sp_Mode (t_Spec t))) ''template'' then False
      else let phase = to_lower (trim_space (ts_Phase (t_Status t)))
           in if phase = [] \<or> phase = ''pending'' then taskAttemptDue t now
              else if phase = ''running'' then
                (let claimedBy = trim_space (ts_ClaimedBy (t_Status t))
                 in if claimedBy = [] then True
                    else if equal_fold claimedBy (trim_space workerID) then False
                    else if trim_space (ts_LeaseUntil (t_Status t)) = [] then True
                    else case parseTimestamp (ts_LeaseUntil (t_Status t)) of
                           None \<Rightarrow> True
                         | Some expiry \<Rightarrow> \<not> now < expiry)
              else False)"

definition applyTaskClaim :: "Task \<Rightarrow> string \<Rightarrow> duration \<Rightarrow> instant \<Rightarrow> api_error + Task" where
  "applyTaskClaim t workerID lease now =
     (let s = t_Status t;
          previousPhase = to_lower (trim_space (ts_Phase s));
          previousWorker = trim_space (ts_ClaimedBy s);
          takeover = (previousPhase = ''running'' \<and> previousWorker \<noteq> []
                      \<and> \<not> equal_fold previousWorker (trim_space workerID));
          s = s\<lparr>ts_Phase := ''Running'', ts_NextAttemptAt := [], ts_CompletedAt := [],
                ts_Output := fmempty, ts_AssignedWorker := workerID, ts_ClaimedBy := workerID,
                ts_LeaseUntil := format_nano (now + lease), ts_LastHeartbeat := format_nano now,
                ts_ObservedGeneration := m_Generation (t_Metadata t)\<rparr>;
          s = (if previousPhase \<noteq> ''running'' then s\<lparr>ts_Attempts := ts_Attempts s + 1\<rparr> else s);
          s = (if trim_space (ts_StartedAt s) = [] then s\<lparr>ts_StartedAt := format_nano now\<rparr> else s);
          s = (if takeover then
                 (let msg = ''worker lease expired; task reassigned from '' @ previousWorker
                            @ '' to '' @ workerID
                  in s\<lparr>ts_LastError := msg,
                       ts_History := keep_last 200 (ts_History s @
                         [\<lparr>he_Timestamp = format_nano now, he_Type = ''takeover'',
                           he_Worker = workerID, he_Message = msg\<rparr>])\<rparr>)
               else s)
      in case initializeUpdateMetadata now ''Task'' (t_Metadata t) (t_Metadata t) False of
           Inl e \<Rightarrow> Inl e
         | Inr m \<Rightarrow> Inr (t\<lparr>t_Metadata := m, t_Status := s\<rparr>))"

definition norm_lease :: "duration \<Rightarrow> duration" where
  "norm_lease lease = (if lease \<le> 0 then 30 * Second else lease)"

text \<open>A claim answers with an error, with no task (\<^const>\<open>None\<close>), or with the task claimed.\<close>

definition TaskStore_ClaimIfDue ::
  "instant \<Rightarrow> string \<Rightarrow> string \<Rightarrow> duration \<Rightarrow> TaskStore \<Rightarrow> (api_error + Task option) \<times> TaskStore" where
  "TaskStore_ClaimIfDue now name workerID lease s =
     (let key = normalizeLookupName name
      in case map_of (st_items s) key of
           None \<Rightarrow> (Inr None, s)
         | Some t \<Rightarrow>
             if \<not> isTaskClaimable t workerID now then (Inr None, s)
             else case applyTaskClaim t workerID (norm_lease lease) now of
                    Inl e \<Rightarrow> (Inl e, s)
                  | Inr t' \<Rightarrow> (Inr (Some t'), s\<lparr>st_items := AList.update key t' (st_items s)\<rparr>))"

text \<open>The loop of ClaimNextDue over the sorted names.\<close>

fun claim_next_loop ::
  "instant \<Rightarrow> string \<Rightarrow> duration \<Rightarrow> (Task \<Rightarrow> bool) option \<Rightarrow> string list \<Rightarrow> TaskStore
    \<Rightarrow> (api_error + Task option) \<times> TaskStore" where
  "claim_next_loop now workerID lease matches [] s = (Inr None, s)"
| "claim_next_loop now workerID lease matches (name # names) s =
     (case map_of (st_items s) name of
        None \<Rightarrow> claim_next_loop now workerID lease matches names s
      | Some t \<Rightarrow>
          if \<not> isTaskClaimable t workerID now
            then claim_next_loop now workerID lease matches names s
          else if (case matches of None \<Rightarrow> False | Some f \<Rightarrow> \<not> f t)
            then claim_next_loop now workerID lease matches names s
          else case applyTaskClaim t workerID lease now of
                 Inl e \<Rightarrow> (Inl e, s)
               | Inr t' \<Rightarrow> (Inr (Some t'), s\<lparr>st_items := AList.update name t' (st_items s)\<rparr>))"

definition TaskStore_ClaimNextDue ::
  "instant \<Rightarrow> string \<Rightarrow> duration \<Rightarrow> (Task \<Rightarrow> bool) option \<Rightarrow> TaskStore
    \<Rightarrow> (api_error + Task option) \<times> TaskStore" where
  "TaskStore_ClaimNextDue now workerID lease matches s =
     claim_next_loop now workerID (norm_lease lease) matches (sort (map fst (st_items s))) s"

definition TaskStore_RenewLease ::
  "instant \<Rightarrow> string \<Rightarrow> string \<Rightarrow> duration \<Rightarrow> TaskStore \<Rightarrow> api_error option \<times> TaskStore" where
  "TaskStore_RenewLease now name workerID lease s =
     (let key = normalizeLookupName name; lease = norm_lease lease
      in case map_of (st_items s) key of
           None \<Rightarrow> (Some (NotFound ''task'' name), s)
         | Some t \<Rightarrow>
             if \<not> equal_fold (trim_space (ts_ClaimedBy (t_Status t))) (trim_space workerID)
               then (Some (NotClaimedBy name (ts_ClaimedBy (t_Status t)) workerID), s)
             else if \<not> equal_fold (trim_space (ts_Phase (t_Status t))) ''running''
               then (Some (NotRunning name), s)
             else case initializeUpdateMetadata now ''Task'' (t_Metadata t) (t_Metadata t) False of
                    Inl e \<Rightarrow> (Some e, s)
                  | Inr m \<Rightarrow>
                      let t' = t\<lparr>t_Metadata := m,
                                 t_Status := (t_Status t)\<lparr>
                                   ts_LeaseUntil := format_sec (now + lease),
                                   ts_LastHeartbeat := format_sec now,
                                   ts_ObservedGeneration := m_Generation (t_Metadata t)\<rparr>\<rparr>
                      in (None, s\<lparr>st_items := AList.update key t' (st_items s)\<rparr>))"

section \<open>Agent jobs\<close>

text \<open>The targeted updates share their shape: look up, change the status, store.\<close>

definition update_status ::
  "string \<Rightarrow> (TaskStatus \<Rightarrow> TaskStatus) \<Rightarrow> TaskStore \<Rightarrow> api_error option \<times> TaskStore" where
  "update_status name f s =
     (let key = normalizeLookupName name
      in case map_of (st_items s) key of
           None \<Rightarrow> (Some (NotFound ''task'' name), s)
         | Some t \<Rightarrow> (None, s\<lparr>st_items := AList.update key (on_status f t) (st_items s)\<rparr>))"

definition SetAgentJobInput ::
  "string \<Rightarrow> smap \<Rightarrow> string \<Rightarrow> string \<Rightarrow> TaskStore \<Rightarrow> api_error option \<times> TaskStore" where
  "SetAgentJobInput name input agent messageID s =
     update_status name (\<lambda>st. st\<lparr>ts_AgentJobInput := input, ts_AgentJobAgent := agent,
                                ts_AgentJobMessageID := messageID\<rparr>) s"

definition SetAgentJobResult ::
  "string \<Rightarrow> AgentJobResult option \<Rightarrow> TaskStore \<Rightarrow> api_error option \<times> TaskStore" where
  "SetAgentJobResult name result s = update_status name (\<lambda>st. st\<lparr>ts_AgentJobResult := result\<rparr>) s"

definition GetAgentJobResult :: "string \<Rightarrow> TaskStore \<Rightarrow> api_error + AgentJobResult option" where
  "GetAgentJobResult name s =
     (case map_of (st_items s) (normalizeLookupName name) of
        None \<Rightarrow> Inl (NotFound ''task'' name)
      | Some t \<Rightarrow> Inr (ts_AgentJobResult (t_Status t)))"

definition ClearAgentJobFields :: "string \<Rightarrow> TaskStore \<Rightarrow> api_error option \<times> TaskStore" where
  "ClearAgentJobFields name s =
     update_status name (\<lambda>st. st\<lparr>ts_AgentJobInput := fmempty, ts_AgentJobAgent := [],
                                ts_AgentJobMessageID := [], ts_AgentJobResult := None\<rparr>) s"

section \<open>The store stays well-formed\<close>

definition task_store_wf :: "TaskStore \<Rightarrow> bool" where
  "task_store_wf s \<longleftrightarrow>
     items_wf t_Metadata task_ok (st_items s)
     \<and> (\<forall>k l. map_of (st_logs s) k = Some l \<longrightarrow> length l \<le> 500 \<and> map_of (st_items s) k \<noteq> None)"

lemma task_ok_names: "task_ok t \<Longrightarrow> ValidateMetadataName (m_Name (t_Metadata t)) = None"
  by (simp add: task_ok_def)

lemma task_ok_meta:
  "task_ok t \<Longrightarrow> m_Name m = m_Name (t_Metadata t) \<Longrightarrow> m_Namespace m = m_Namespace (t_Metadata t)
   \<Longrightarrow> task_ok (set_task_meta m t)"
  by (simp add: task_ok_def)

lemma task_ok_status:
  "task_ok t \<Longrightarrow> ts_Phase s \<noteq> [] \<Longrightarrow> ts_BlockedOn s = ts_BlockedOn (t_Status t)
   \<Longrightarrow> task_ok (t\<lparr>t_Status := s\<rparr>)"
  by (simp add: task_ok_def)

lemma task_ok_status_meta:
  "task_ok t \<Longrightarrow> ts_Phase s = ts_Phase (t_Status t) \<Longrightarrow> ts_BlockedOn s = ts_BlockedOn (t_Status t)
   \<Longrightarrow> m_Name m = m_Name (t_Metadata t) \<Longrightarrow> m_Namespace m = m_Namespace (t_Metadata t)
   \<Longrightarrow> task_ok (t\<lparr>t_Metadata := m, t_Status := s\<rparr>)"
  by (simp add: task_ok_def)

interpretation task_res: versioned_resource "''Task''" t_Metadata set_task_meta task_spec_changed
  Task_Normalize task_ok
  by unfold_locales (auto intro: Task_Normalize_ok task_ok_names task_ok_meta)

text \<open>
  Replacing a stored task by one of the same name, as every operation but Upsert and Delete does.
\<close>

lemma task_store_wf_replace:
  assumes "task_store_wf s" "map_of (st_items s) k = Some t" "task_ok t'" "version_ok (t_Metadata t')"
    and "m_Name (t_Metadata t') = m_Name (t_Metadata t)"
    and "m_Namespace (t_Metadata t') = m_Namespace (t_Metadata t)"
  shows "task_store_wf (s\<lparr>st_items := AList.update k t' (st_items s)\<rparr>)"
proof -
  have "k = scopedNameFromMeta (t_Metadata t')"
    using assms items_wf_lookup [of t_Metadata task_ok "st_items s" k t]
    by (simp add: task_store_wf_def scopedNameFromMeta_def)
  with assms show ?thesis
    by (auto simp: task_store_wf_def items_wf_update update_conv')
qed

lemma task_store_wf_lookup:
  "task_store_wf s \<Longrightarrow> map_of (st_items s) k = Some t \<Longrightarrow>
   k = scopedNameFromMeta (t_Metadata t) \<and> task_ok t \<and> version_ok (t_Metadata t)"
  by (auto simp: task_store_wf_def dest: items_wf_lookup)

lemma applyTaskClaim_ok:
  assumes "applyTaskClaim t w lease now = Inr t'" "task_ok t"
  shows "task_ok t' \<and> version_ok (t_Metadata t') \<and> m_Name (t_Metadata t') = m_Name (t_Metadata t)
    \<and> m_Namespace (t_Metadata t') = m_Namespace (t_Metadata t)"
proof -
  obtain m s where m: "initializeUpdateMetadata now ''Task'' (t_Metadata t) (t_Metadata t) False = Inr m"
    and t': "t' = t\<lparr>t_Metadata := m, t_Status := s\<rparr>"
    and s: "ts_Phase s = ''Running''" "ts_BlockedOn s = ts_BlockedOn (t_Status t)"
    using assms(1) by (auto simp: applyTaskClaim_def Let_def split: sum.splits if_splits)
  have "task_ok (t\<lparr>t_Status := s\<rparr>)" using s assms(2) by (intro task_ok_status) simp_all
  then have "task_ok t'" using m t' by (simp add: task_ok_def initializeUpdateMetadata_names)
  with m t' show ?thesis by (auto dest: version_ok_update initializeUpdateMetadata_names)
qed

lemma ClaimIfDue_wf:
  assumes "task_store_wf s"
  shows "task_store_wf (snd (TaskStore_ClaimIfDue now name w lease s))"
  using assms
  by (auto simp: TaskStore_ClaimIfDue_def Let_def split: option.splits sum.splits
      intro!: task_store_wf_replace dest: applyTaskClaim_ok task_store_wf_lookup)

lemma claim_next_loop_wf:
  "task_store_wf s \<Longrightarrow> task_store_wf (snd (claim_next_loop now w lease matches names s))"
  by (induction now w lease matches names s rule: claim_next_loop.induct)
    (auto split: option.splits sum.splits
      intro!: task_store_wf_replace dest: applyTaskClaim_ok task_store_wf_lookup)

lemma ClaimNextDue_wf:
  "task_store_wf s \<Longrightarrow> task_store_wf (snd (TaskStore_ClaimNextDue now w lease matches s))"
  by (simp add: TaskStore_ClaimNextDue_def claim_next_loop_wf)

lemma RenewLease_wf:
  assumes "task_store_wf s"
  shows "task_store_wf (snd (TaskStore_RenewLease now name w lease s))"
  using assms
  by (auto simp: TaskStore_RenewLease_def Let_def split: option.splits sum.splits
      intro!: task_store_wf_replace task_ok_status_meta
      dest: initializeUpdateMetadata_names version_ok_update task_store_wf_lookup)

lemma update_status_wf:
  assumes "task_store_wf s" "\<And>st. ts_Phase (f st) = ts_Phase st \<and> ts_BlockedOn (f st) = ts_BlockedOn st"
  shows "task_store_wf (snd (update_status name f s))"
proof (cases "map_of (st_items s) (normalizeLookupName name)")
  case (Some t)
  then have "task_ok t" "version_ok (t_Metadata t)" using task_store_wf_lookup assms(1) by blast+
  then have "task_ok (on_status f t)" using assms(2) by (simp add: task_ok_def)
  with Some assms(1) \<open>version_ok (t_Metadata t)\<close> show ?thesis
    by (simp add: update_status_def Let_def task_store_wf_replace)
qed (simp add: update_status_def Let_def assms)

lemma job_fields_wf:
  assumes "task_store_wf s"
  shows "task_store_wf (snd (SetAgentJobInput name input agent mid s))"
    and "task_store_wf (snd (SetAgentJobResult name result s))"
    and "task_store_wf (snd (ClearAgentJobFields name s))"
  unfolding SetAgentJobInput_def SetAgentJobResult_def ClearAgentJobFields_def
  using assms by (simp_all add: update_status_wf)

lemma Upsert_wf:
  assumes "task_store_wf s"
  shows "task_store_wf (snd (TaskStore_Upsert now item s))"
proof -
  let ?up = "store_upsert ''Task'' t_Metadata set_task_meta task_spec_changed Task_Normalize now item
    (st_items s)"
  have "items_wf t_Metadata task_ok (snd ?up)"
    using task_res.upsert_wf assms by (simp add: task_store_wf_def)
  moreover have "map_of (st_items s) k \<noteq> None \<Longrightarrow> map_of (snd ?up) k \<noteq> None" for k
    by (auto simp: store_upsert_def Let_def update_conv' split: sum.splits)
  ultimately show ?thesis
    using assms by (auto simp: TaskStore_Upsert_def task_store_wf_def split: prod.splits)
qed

lemma Delete_wf: "task_store_wf s \<Longrightarrow> task_store_wf (snd (TaskStore_Delete name s))"
  by (auto simp: TaskStore_Delete_def Let_def task_store_wf_def items_wf_delete delete_conv'
      split: if_splits)

lemma AppendLog_wf: "task_store_wf s \<Longrightarrow> task_store_wf (snd (TaskStore_AppendLog now name msg s))"
  by (auto simp: TaskStore_AppendLog_def Let_def task_store_wf_def update_conv' split: if_splits)

lemmas task_store_ops_wf = Upsert_wf Delete_wf AppendLog_wf ClaimIfDue_wf ClaimNextDue_wf
  RenewLease_wf job_fields_wf

lemma NewTaskStore_wf: "task_store_wf NewTaskStore"
  by (simp add: NewTaskStore_def task_store_wf_def)

section \<open>Leases exclude other workers\<close>

definition lease_held :: "string \<Rightarrow> string \<Rightarrow> instant \<Rightarrow> TaskStore \<Rightarrow> bool" where
  "lease_held key worker expiry s =
     (case map_of (st_items s) key of
        None \<Rightarrow> False
      | Some t \<Rightarrow> to_lower (trim_space (ts_Phase (t_Status t))) = ''running''
          \<and> trim_space (ts_ClaimedBy (t_Status t)) \<noteq> []
          \<and> equal_fold (trim_space (ts_ClaimedBy (t_Status t))) (trim_space worker)
          \<and> parseTimestamp (ts_LeaseUntil (t_Status t)) = Some expiry)"

text \<open>
  The operations that may run between the claim and the expiry: claims of any worker while the
  lease lasts, renewals by other workers, logs, job fields, writes and deletes of other tasks, and
  writes of this task that carry a version that is not current.
\<close>

inductive lease_step :: "string \<Rightarrow> string \<Rightarrow> instant \<Rightarrow> TaskStore \<Rightarrow> TaskStore \<Rightarrow> bool"
  for key worker expiry where
  claim: "now < expiry \<Longrightarrow>
    lease_step key worker expiry s (snd (TaskStore_ClaimIfDue now name w lease s))"
| claim_next: "now < expiry \<Longrightarrow>
    lease_step key worker expiry s (snd (TaskStore_ClaimNextDue now w lease matches s))"
| renew_other: "\<not> equal_fold (trim_space worker) (trim_space w) \<Longrightarrow>
    lease_step key worker expiry s (snd (TaskStore_RenewLease now name w lease s))"
| log: "lease_step key worker expiry s (snd (TaskStore_AppendLog now name msg s))"
| job_input: "lease_step key worker expiry s (snd (SetAgentJobInput name input agent mid s))"
| job_result: "lease_step key worker expiry s (snd (SetAgentJobResult name result s))"
| job_clear: "lease_step key worker expiry s (snd (ClearAgentJobFields name s))"
| upsert_other: "scopedNameFromMeta (t_Metadata item) \<noteq> key \<Longrightarrow>
    lease_step key worker expiry s (snd (TaskStore_Upsert now item s))"
| upsert_stale: "map_of (st_items s) (scopedNameFromMeta (t_Metadata item)) = Some t \<Longrightarrow>
    trim_space (m_ResourceVersion (t_Metadata item)) \<notin> {[], m_ResourceVersion (t_Metadata t)} \<Longrightarrow>
    lease_step key worker expiry s (snd (TaskStore_Upsert now item s))"
| delete_other: "normalizeLookupName name \<noteq> key \<Longrightarrow>
    lease_step key worker expiry s (snd (TaskStore_Delete name s))"

inductive_cases lease_stepE: "lease_step key worker expiry s s'"

lemma lease_held_same:
  "lease_held key w e s \<Longrightarrow> map_of (st_items s') key = map_of (st_items s) key \<Longrightarrow>
   lease_held key w e s'"
  by (simp add: lease_held_def)

lemma parseTimestamp_nonempty: "parseTimestamp v = Some e \<Longrightarrow> trim_space v \<noteq> []"
  by (auto simp: parseTimestamp_def Let_def)

lemma lease_held_not_claimable:
  "lease_held key w e s \<Longrightarrow> map_of (st_items s) key = Some t \<Longrightarrow> now < e \<Longrightarrow>
   \<not> isTaskClaimable t w' now"
  by (auto simp: lease_held_def isTaskClaimable_def Let_def dest: parseTimestamp_nonempty)

lemma lease_held_ClaimIfDue:
  assumes "lease_held key w e s" "now < e"
  shows "lease_held key w e (snd (TaskStore_ClaimIfDue now name w' lease s))"
proof (cases "normalizeLookupName name = key")
  case True
  then have "snd (TaskStore_ClaimIfDue now name w' lease s) = s"
    using assms lease_held_not_claimable [OF assms(1)]
    by (auto simp: TaskStore_ClaimIfDue_def Let_def split: option.splits)
  with assms show ?thesis by simp
next
  case False
  then have "map_of (st_items (snd (TaskStore_ClaimIfDue now name w' lease s))) key
      = map_of (st_items s) key"
    by (auto simp: TaskStore_ClaimIfDue_def Let_def update_conv' split: option.splits sum.splits)
  with assms show ?thesis using lease_held_same by blast
qed

lemma lease_held_loop:
  "lease_held key w e s \<Longrightarrow> now < e \<Longrightarrow>
   lease_held key w e (snd (claim_next_loop now w' lease matches names s))"
proof (induction now w' lease matches names s rule: claim_next_loop.induct)
  case (2 now w' lease matches name names s)
  have "name \<noteq> key" if "map_of (st_items s) name = Some t" "isTaskClaimable t w' now" for t
    using that lease_held_not_claimable [OF 2(4)] 2(5) by auto
  with 2 show ?case
    by (auto split: option.splits sum.splits simp: lease_held_def update_conv')
qed simp

lemma lease_held_renew:
  assumes "lease_held key w e s" "\<not> equal_fold (trim_space w) (trim_space w')"
  shows "lease_held key w e (snd (TaskStore_RenewLease now name w' lease s))"
  using assms
  by (auto simp: TaskStore_RenewLease_def Let_def lease_held_def update_conv' equal_fold_def
      split: option.splits sum.splits)

lemma lease_held_update_status:
  assumes "lease_held key w e s"
    and "\<And>st. ts_Phase (f st) = ts_Phase st \<and> ts_ClaimedBy (f st) = ts_ClaimedBy st
      \<and> ts_LeaseUntil (f st) = ts_LeaseUntil st"
  shows "lease_held key w e (snd (update_status name f s))"
  using assms by (auto simp: update_status_def Let_def lease_held_def update_conv' split: option.splits)

text \<open>Normalisation does not change the key a task is stored under.\<close>

lemma Task_Normalize_meta:
  assumes "Task_Normalize t = Inr t'"
  shows "scopedNameFromMeta (t_Metadata t') = scopedNameFromMeta (t_Metadata t)"
    and "m_ResourceVersion (t_Metadata t') = m_ResourceVersion (t_Metadata t)"
  using assms
  by (auto simp: Task_Normalize_def Let_def NormalizeObjectMetaNamespace_def scopedNameFromMeta_def
      scopedName_def split: if_splits option.splits sum.splits)

lemma Upsert_other_key:
  "scopedNameFromMeta (t_Metadata item) \<noteq> key \<Longrightarrow>
   map_of (st_items (snd (TaskStore_Upsert now item s))) key = map_of (st_items s) key"
  by (auto simp: TaskStore_Upsert_def store_upsert_def Let_def update_conv' Task_Normalize_meta(1)
      split: sum.splits)

lemma AppendLog_items [simp]: "st_items (snd (TaskStore_AppendLog now name msg s)) = st_items s"
  by (simp add: TaskStore_AppendLog_def Let_def)

text \<open>What an accepted write stores: the task with its status normalised, under the key of its metadata.\<close>

lemma Upsert_stores:
  assumes "TaskStore_Upsert now t s = (Inr u, s')"
  shows "map_of (st_items s') (scopedNameFromMeta (t_Metadata t)) = Some u"
    "t_Status u = normalize_task_status (t_Status t)"
proof -
  obtain it m where it: "Task_Normalize t = Inr it" "u = set_task_meta m it"
    "st_items s' = AList.update (scopedNameFromMeta (t_Metadata it)) u (st_items s)"
    using assms
    by (auto simp: TaskStore_Upsert_def store_upsert_def Let_def split: prod.splits sum.splits option.splits)
  then show "map_of (st_items s') (scopedNameFromMeta (t_Metadata t)) = Some u"
    using Task_Normalize_meta(1) [OF it(1)] by (simp add: update_conv')
  show "t_Status u = normalize_task_status (t_Status t)"
    using it(1,2) by (auto simp: Task_Normalize_def Let_def split: if_splits option.splits sum.splits)
qed

lemma Upsert_stored:
  assumes "map_of (st_items s) (scopedNameFromMeta (t_Metadata t)) = Some cur"
    and "m_ResourceVersion (t_Metadata cur) = itoa n" "0 \<le> n" "in_int64 n"
    and "Task_Normalize t = Inr it" "m_ResourceVersion (t_Metadata t) = itoa n"
  shows "\<exists>m s'. TaskStore_Upsert now t s = (Inr (it\<lparr>t_Metadata := m\<rparr>), s')
    \<and> map_of (st_items s') (scopedNameFromMeta (t_Metadata t)) = Some (it\<lparr>t_Metadata := m\<rparr>)"
proof -
  have "\<exists>m. initializeUpdateMetadata now ''Task'' (t_Metadata it) (t_Metadata cur) ch = Inr m" for ch
    using assms(2-4,6) Task_Normalize_meta(2) [OF assms(5)]
    by (auto simp: initializeUpdateMetadata_def nextResourceVersion_def Let_def)
  then obtain m where "initializeUpdateMetadata now ''Task'' (t_Metadata it) (t_Metadata cur)
      (t_Spec cur \<noteq> t_Spec it) = Inr m" by blast
  then show ?thesis
    using assms(1,5) Task_Normalize_meta(1) [OF assms(5)]
    by (auto simp: TaskStore_Upsert_def store_upsert_def Let_def update_conv')
qed

lemma normalizes_status:
  "task_ok t \<Longrightarrow> Task_Normalize (t\<lparr>t_Status := st\<rparr>) = Inr (t\<lparr>t_Status := normalize_task_status st\<rparr>)"
  by (auto simp: Task_Normalize_def task_ok_def Let_def NormalizeObjectMetaNamespace_def normalize_task_spec_id)

text \<open>Most steps change a task only in its status.\<close>

definition only_status :: "Task \<Rightarrow> Task \<Rightarrow> bool" where
  "only_status t t' \<longleftrightarrow> t' = t\<lparr>t_Status := t_Status t'\<rparr>"

lemma only_status_meta: "only_status t t' \<Longrightarrow> t_Metadata t' = t_Metadata t"
  unfolding only_status_def by (metis Task.select_convs(3) Task.simps(11) Task.surjective Task.update_convs(5))

lemma only_status_spec: "only_status t t' \<Longrightarrow> t_Spec t' = t_Spec t"
  unfolding only_status_def by (metis Task.select_convs(4) Task.surjective Task.update_convs(5))

lemma only_status_refl [simp]: "only_status t t"
  by (simp add: only_status_def)

lemma only_status_update [simp]: "only_status t (t'\<lparr>t_Status := st\<rparr>) \<longleftrightarrow> only_status t t'"
  by (cases t; cases t') (auto simp: only_status_def)

lemma only_status_normal:
  "task_ok t \<Longrightarrow> only_status t t' \<Longrightarrow> Task_Normalize t' = Inr (t\<lparr>t_Status := normalize_task_status (t_Status t')\<rparr>)"
  using normalizes_status [of t "t_Status t'"] by (simp add: only_status_def)

lemma Upsert_stale:
  assumes "map_of (st_items s) (scopedNameFromMeta (t_Metadata item)) = Some t"
    and "trim_space (m_ResourceVersion (t_Metadata item)) \<notin> {[], m_ResourceVersion (t_Metadata t)}"
  shows "snd (TaskStore_Upsert now item s) = s"
proof (cases "Task_Normalize item")
  case (Inr it)
  note same = Task_Normalize_meta [OF Inr]
  have "initializeUpdateMetadata now ''Task'' (t_Metadata it) (t_Metadata t) ch = Inl (ConflictError
      ''Task'' (trim_space (m_ResourceVersion (t_Metadata it))) (m_ResourceVersion (t_Metadata t)))" for ch
    using assms(2) same by (intro initializeUpdateMetadata_stale) simp_all
  then show ?thesis
    using Inr assms(1) same by (simp add: TaskStore_Upsert_def store_upsert_def Let_def)
qed (simp add: TaskStore_Upsert_def store_upsert_def)

lemma lease_step_held:
  assumes "lease_step key w e s s'" "lease_held key w e s"
  shows "lease_held key w e s'"
  using assms
proof cases
  case (claim_next now w' lease matches)
  then show ?thesis using assms(2) by (simp add: TaskStore_ClaimNextDue_def lease_held_loop)
next
  case (log now name msg)
  then have "st_items s' = st_items s" by (simp add: TaskStore_AppendLog_def Let_def)
  then show ?thesis using assms(2) by (simp add: lease_held_def)
next
  case (delete_other name)
  then have "map_of (st_items s') key = map_of (st_items s) key"
    by (auto simp: TaskStore_Delete_def Let_def delete_conv')
  then show ?thesis using assms(2) lease_held_same by blast
next
  case (upsert_other item now)
  then show ?thesis using assms(2) lease_held_same Upsert_other_key by metis
next
  case (upsert_stale item t now)
  then show ?thesis using assms(2) by (simp add: Upsert_stale)
qed (use assms(2) in \<open>auto simp: SetAgentJobInput_def SetAgentJobResult_def ClearAgentJobFields_def
      intro!: lease_held_ClaimIfDue lease_held_renew lease_held_update_status\<close>)

lemma lease_steps_held:
  assumes "(lease_step key w e)\<^sup>*\<^sup>* s s'" "lease_held key w e s"
  shows "lease_held key w e s'"
  using assms by (induction rule: rtranclp_induct) (auto intro: lease_step_held)

section \<open>What a claim grants\<close>

lemma update_self:
  assumes "m_ResourceVersion m = itoa n" "0 \<le> n" "in_int64 n"
  shows "\<exists>m'. initializeUpdateMetadata now r m m ch = Inr m'
    \<and> m_ResourceVersion m' = itoa (wrap64 (n + 1))"
  using assms by (simp add: initializeUpdateMetadata_def nextResourceVersion_def Let_def)

lemma applyTaskClaim_status:
  assumes "applyTaskClaim t w lease now = Inr t'"
  shows "ts_Phase (t_Status t') = ''Running''" "ts_ClaimedBy (t_Status t') = w"
    "ts_AssignedWorker (t_Status t') = w" "ts_LeaseUntil (t_Status t') = format_nano (now + lease)"
    "ts_Attempts (t_Status t') = ts_Attempts (t_Status t)
       + (if to_lower (trim_space (ts_Phase (t_Status t))) = ''running'' then 0 else 1)"
    "t_Spec t' = t_Spec t" "ts_Output (t_Status t') = fmempty"
  using assms by (auto simp: applyTaskClaim_def Let_def split: sum.splits if_splits)

lemma running_literal: "to_lower (trim_space ''Running'') = ''running''"
  by code_simp

lemma parseTimestamp_nano: "year_in_range t \<Longrightarrow> parseTimestamp (format_nano t) = Some t"
  by (simp add: parseTimestamp_def Let_def format_trim parse_format_nano) (simp add: format_nano_def)

lemma parseTimestamp_sec:
  "year_in_range t \<Longrightarrow> parseTimestamp (format_sec t) = Some (t - t mod Second)"
  by (simp add: parseTimestamp_def Let_def format_trim parse_format_sec) (simp add: format_sec_def)

lemma ClaimIfDue_cases:
  assumes "TaskStore_ClaimIfDue now name w lease s = (Inr (Some t'), s')"
  obtains t where "map_of (st_items s) (normalizeLookupName name) = Some t" "isTaskClaimable t w now"
    "applyTaskClaim t w (norm_lease lease) now = Inr t'"
    "s' = s\<lparr>st_items := AList.update (normalizeLookupName name) t' (st_items s)\<rparr>"
  using assms by (auto simp: TaskStore_ClaimIfDue_def Let_def split: option.splits if_splits sum.splits)

lemma claimed_lease_held:
  assumes "applyTaskClaim t w lease now = Inr t'" "trim_space w \<noteq> []" "year_in_range (now + lease)"
    and "map_of (st_items s) key = Some t'"
  shows "lease_held key w (now + lease) s"
  using assms applyTaskClaim_status [OF assms(1)]
  by (simp add: lease_held_def running_literal parseTimestamp_nano)

text \<open>A claim that is not refused for its version succeeds.\<close>

lemma applyTaskClaim_succeeds:
  assumes "m_ResourceVersion (t_Metadata t) = itoa n" "0 \<le> n" "in_int64 n"
  obtains t' where "applyTaskClaim t w lease now = Inr t'"
    "m_ResourceVersion (t_Metadata t') = itoa (wrap64 (n + 1))"
  using update_self [OF assms, of now "''Task''" False] that
  by (fastforce simp: applyTaskClaim_def Let_def)

section \<open>Which task a worker gets next\<close>

abbreviation eligible :: "instant \<Rightarrow> string \<Rightarrow> (Task \<Rightarrow> bool) option \<Rightarrow> Task \<Rightarrow> bool" where
  "eligible now w matches t \<equiv>
     isTaskClaimable t w now \<and> (case matches of None \<Rightarrow> True | Some f \<Rightarrow> f t)"

lemma claim_next_loop_find:
  "claim_next_loop now w lease matches names s =
     (case find (\<lambda>k. case map_of (st_items s) k of None \<Rightarrow> False | Some t \<Rightarrow> eligible now w matches t)
             names of
        None \<Rightarrow> (Inr None, s)
      | Some k \<Rightarrow>
          (case applyTaskClaim (the (map_of (st_items s) k)) w lease now of
             Inl e \<Rightarrow> (Inl e, s)
           | Inr t' \<Rightarrow> (Inr (Some t'), s\<lparr>st_items := AList.update k t' (st_items s)\<rparr>)))"
  by (induction now w lease matches names s rule: claim_next_loop.induct)
    (auto split: option.splits sum.splits)

lemma find_sorted_least:
  assumes "find P xs = Some k" "sorted xs"
  shows "k \<in> set xs \<and> P k \<and> (\<forall>j \<in> set xs. P j \<longrightarrow> k \<le> j)"
proof -
  obtain i where i: "i < length xs" "k = xs ! i" "P k" "\<forall>j < i. \<not> P (xs ! j)"
    using assms(1) by (auto simp: find_Some_iff)
  have "k \<le> j" if "j \<in> set xs" "P j" for j
  proof -
    obtain m where m: "m < length xs" "j = xs ! m" using \<open>j \<in> set xs\<close> by (auto simp: in_set_conv_nth)
    then have "i \<le> m" using i(4) \<open>P j\<close> by (meson not_le)
    then show ?thesis using assms(2) i(2) m sorted_nth_mono by metis
  qed
  with i show ?thesis by auto
qed

lemma in_keys_iff: "k \<in> set (map fst xs) \<longleftrightarrow> map_of xs k \<noteq> None"
  by (simp add: map_of_eq_None_iff)

section \<open>Reachable stores\<close>

inductive reachable_store :: "TaskStore \<Rightarrow> bool" where
  init: "reachable_store NewTaskStore"
| upsert: "reachable_store s \<Longrightarrow> reachable_store (snd (TaskStore_Upsert now item s))"
| delete: "reachable_store s \<Longrightarrow> reachable_store (snd (TaskStore_Delete name s))"
| log: "reachable_store s \<Longrightarrow> reachable_store (snd (TaskStore_AppendLog now name msg s))"
| claim: "reachable_store s \<Longrightarrow> reachable_store (snd (TaskStore_ClaimIfDue now name w lease s))"
| claim_next: "reachable_store s \<Longrightarrow>
    reachable_store (snd (TaskStore_ClaimNextDue now w lease matches s))"
| renew: "reachable_store s \<Longrightarrow> reachable_store (snd (TaskStore_RenewLease now name w lease s))"
| job_input: "reachable_store s \<Longrightarrow> reachable_store (snd (SetAgentJobInput name input agent mid s))"
| job_result: "reachable_store s \<Longrightarrow> reachable_store (snd (SetAgentJobResult name result s))"
| job_clear: "reachable_store s \<Longrightarrow> reachable_store (snd (ClearAgentJobFields name s))"

lemma reachable_wf: "reachable_store s \<Longrightarrow> task_store_wf s"
  by (induction rule: reachable_store.induct) (auto intro: task_store_ops_wf NewTaskStore_wf)

text \<open>A small store for the witnesses: one task, stored and claimed.\<close>

definition demo_task :: Task where
  "demo_task = zero_Task\<lparr>t_Metadata := zero_meta\<lparr>m_Name := ''t1''\<rparr>,
     t_Spec := zero_TaskSpec\<lparr>sp_System := ''sys''\<rparr>\<rparr>"

definition demo_store :: TaskStore where
  "demo_store = snd (TaskStore_Upsert 0 demo_task NewTaskStore)"

definition demo_claimed :: TaskStore where
  "demo_claimed = snd (TaskStore_ClaimIfDue 0 ''t1'' ''w1'' Second demo_store)"

lemma demo_store_reachable: "reachable_store demo_store" "reachable_store demo_claimed"
  unfolding demo_claimed_def demo_store_def by (intro reachable_store.intros)+

section \<open>Properties\<close>




lemma demo_claim: "\<exists>t. TaskStore_ClaimIfDue 0 ''t1'' ''w1'' Second demo_store = (Inr (Some t), demo_claimed)"
proof -
  have "case fst (TaskStore_ClaimIfDue 0 ''t1'' ''w1'' Second demo_store) of
      Inl e \<Rightarrow> False | Inr r \<Rightarrow> \<not> Option.is_none r" by code_simp
  then show ?thesis
    unfolding demo_claimed_def
    by (cases "TaskStore_ClaimIfDue 0 ''t1'' ''w1'' Second demo_store")
      (auto split: sum.splits simp: Option.is_none_def)
qed


text \<open>
  C2: A lease that has run out does not block the task. A claim by another worker at or after the
  expiry is granted: the task is then held by the new worker for its own lease, the number of
  attempts is unchanged, the takeover is the newest entry of the history, and the history stays
  within 200 entries.
\<close>

theorem takeover_after_expiry:
  assumes "lease_held (normalizeLookupName name) w expiry s"
    and "map_of (st_items s) (normalizeLookupName name) = Some t"
    and "\<not> equal_fold (trim_space (sp_Mode (t_Spec t))) ''template''"
    and "m_ResourceVersion (t_Metadata t) = itoa n" "0 \<le> n" "in_int64 n"
    and "expiry \<le> now" "\<not> equal_fold (trim_space w) (trim_space w2)" "trim_space w2 \<noteq> []"
    and "year_in_range (now + norm_lease lease)"
  shows "\<exists>t' s'. TaskStore_ClaimIfDue now name w2 lease s = (Inr (Some t'), s')
    \<and> lease_held (normalizeLookupName name) w2 (now + norm_lease lease) s'
    \<and> ts_Attempts (t_Status t') = ts_Attempts (t_Status t)
    \<and> length (ts_History (t_Status t')) \<le> 200
    \<and> he_Type (last (ts_History (t_Status t'))) = ''takeover''
    \<and> he_Worker (last (ts_History (t_Status t'))) = w2"
proof -
  have run: "to_lower (trim_space (ts_Phase (t_Status t))) = ''running''"
    "trim_space (ts_ClaimedBy (t_Status t)) \<noteq> []"
    "equal_fold (trim_space (ts_ClaimedBy (t_Status t))) (trim_space w)"
    "parseTimestamp (ts_LeaseUntil (t_Status t)) = Some expiry"
    using assms(1,2) by (simp_all add: lease_held_def)
  have other: "\<not> equal_fold (trim_space (ts_ClaimedBy (t_Status t))) (trim_space w2)"
    using run(3) assms(8) by (simp add: equal_fold_def)
  then have due: "isTaskClaimable t w2 now"
    using run assms(3,7) by (auto simp: isTaskClaimable_def Let_def)
  obtain t' where t': "applyTaskClaim t w2 (norm_lease lease) now = Inr t'"
    using applyTaskClaim_succeeds [OF assms(4-6)] by metis
  have hist: "length (ts_History (t_Status t')) \<le> 200"
    "he_Type (last (ts_History (t_Status t'))) = ''takeover''"
    "he_Worker (last (ts_History (t_Status t'))) = w2"
    using t' run other
    by (auto simp: applyTaskClaim_def Let_def last_keep_last split: sum.splits)
  show ?thesis
    using due t' assms(2,9,10) hist applyTaskClaim_status(5) [OF t'] run(1)
    by (auto simp: TaskStore_ClaimIfDue_def Let_def update_conv' intro!: claimed_lease_held)
qed

theorem takeover_after_expiry_witness:
  "\<exists>t' s'. TaskStore_ClaimIfDue Second ''t1'' ''w2'' Second demo_claimed = (Inr (Some t'), s')
    \<and> he_Type (last (ts_History (t_Status t'))) = ''takeover''"
proof -
  have held: "lease_held (normalizeLookupName ''t1'') ''w1'' Second demo_claimed" by code_simp
  then obtain t where t: "map_of (st_items demo_claimed) (normalizeLookupName ''t1'') = Some t"
    by (auto simp: lease_held_def split: option.splits)
  have "sp_Mode (t_Spec (the (map_of (st_items demo_claimed) (normalizeLookupName ''t1'')))) = ''run''"
    "m_ResourceVersion (t_Metadata (the (map_of (st_items demo_claimed) (normalizeLookupName ''t1'')))) = itoa 2"
    by code_simp+
  then have m: "sp_Mode (t_Spec t) = ''run''" "m_ResourceVersion (t_Metadata t) = itoa 2"
    unfolding t by simp_all
  have "\<not> equal_fold (trim_space ''run'') ''template''" "in_int64 2"
    "\<not> equal_fold (trim_space ''w1'') (trim_space ''w2'')" "trim_space ''w2'' \<noteq> []"
    "year_in_range (Second + norm_lease Second)" by code_simp+
  then show ?thesis
    using takeover_after_expiry [OF held t _ m(2), of Second "''w2''" Second] m(1) by force
qed

text \<open>
  C4: ClaimNextDue hands out the first eligible task in name order. It grants no task exactly when
  no stored task is claimable and matches; otherwise it claims, among those that are, the one
  with the least key, and changes no other task.
\<close>

theorem ClaimNextDue_least:
  "case find (\<lambda>k. case map_of (st_items s) k of None \<Rightarrow> False | Some t \<Rightarrow> eligible now w matches t)
          (sort (map fst (st_items s))) of
     None \<Rightarrow> TaskStore_ClaimNextDue now w lease matches s = (Inr None, s)
        \<and> (\<nexists>k t. map_of (st_items s) k = Some t \<and> eligible now w matches t)
   | Some k \<Rightarrow> \<exists>t. map_of (st_items s) k = Some t \<and> eligible now w matches t
        \<and> (\<forall>k2 t2. map_of (st_items s) k2 = Some t2 \<and> eligible now w matches t2 \<longrightarrow> k \<le> k2)
        \<and> TaskStore_ClaimNextDue now w lease matches s =
            (case applyTaskClaim t w (norm_lease lease) now of
               Inl e \<Rightarrow> (Inl e, s)
             | Inr t' \<Rightarrow> (Inr (Some t'), s\<lparr>st_items := AList.update k t' (st_items s)\<rparr>))"
  (is "case find ?P ?ks of None \<Rightarrow> ?none | Some k \<Rightarrow> ?some k")
proof (cases "find ?P ?ks")
  case None
  then have "\<forall>k \<in> set (map fst (st_items s)). \<not> ?P k" by (simp add: find_None_iff)
  moreover have "k \<in> set (map fst (st_items s))" if "map_of (st_items s) k = Some t" for k t
    using that in_keys_iff [of k "st_items s"] by blast
  ultimately have "\<nexists>k t. map_of (st_items s) k = Some t \<and> eligible now w matches t"
    by fastforce
  with None show ?thesis
    by (simp add: TaskStore_ClaimNextDue_def claim_next_loop_find)
next
  case (Some k)
  have least: "k \<in> set ?ks \<and> ?P k \<and> (\<forall>j \<in> set ?ks. ?P j \<longrightarrow> k \<le> j)"
    by (rule find_sorted_least [OF Some sorted_sort])
  then obtain t where t: "map_of (st_items s) k = Some t" "eligible now w matches t"
    by (auto split: option.splits)
  have "k \<le> k2" if "map_of (st_items s) k2 = Some t2" "eligible now w matches t2" for k2 t2
  proof -
    have "k2 \<in> set ?ks" using that in_keys_iff [of k2 "st_items s"] by simp
    then show ?thesis using least that by auto
  qed
  moreover have "TaskStore_ClaimNextDue now w lease matches s =
      (case applyTaskClaim t w (norm_lease lease) now of
         Inl e \<Rightarrow> (Inl e, s)
       | Inr t' \<Rightarrow> (Inr (Some t'), s\<lparr>st_items := AList.update k t' (st_items s)\<rparr>))"
    using Some t(1) by (simp add: TaskStore_ClaimNextDue_def claim_next_loop_find)
  ultimately show ?thesis using Some t by auto
qed

theorem ClaimNextDue_least_witness:
  "TaskStore_ClaimNextDue 0 ''w1'' Second None demo_claimed = (Inr None, demo_claimed)"
proof -
  have "find (\<lambda>k. case map_of (st_items demo_claimed) k of None \<Rightarrow> False | Some t \<Rightarrow> eligible 0 ''w1'' None t)
      (sort (map fst (st_items demo_claimed))) = None" by code_simp
  with ClaimNextDue_least [where s = demo_claimed and now = 0 and w = "''w1''" and matches = None
      and lease = Second]
  show ?thesis by simp
qed

text \<open>
  C6: What Upsert accepted is what Get returns, under the task's namespace and name, with the
  version moved on; a lookup of any other key is unaffected.
\<close>

theorem upsert_then_get:
  assumes "reachable_store s" "TaskStore_Upsert now item s = (Inr t, s')"
    and "CHR ''/'' \<notin> set (m_Namespace (t_Metadata t))" "trim_space (m_Name (t_Metadata t)) \<noteq> []"
  shows "TaskStore_Get (scopedNameFromMeta (t_Metadata t)) s' = Some t
    \<and> (\<forall>name. normalizeLookupName name \<noteq> scopedNameFromMeta (t_Metadata t) \<longrightarrow>
          TaskStore_Get name s' = TaskStore_Get name s)
    \<and> m_ResourceVersion (t_Metadata t) =
        (case map_of (st_items s) (scopedNameFromMeta (t_Metadata t)) of
           None \<Rightarrow> itoa 1
         | Some old \<Rightarrow> itoa (wrap64 (the (atoi (m_ResourceVersion (t_Metadata old))) + 1)))"
proof -
  have wf: "items_wf t_Metadata task_ok (st_items s)"
    using reachable_wf [OF assms(1)] by (simp add: task_store_wf_def)
  have up: "store_upsert ''Task'' t_Metadata set_task_meta task_spec_changed Task_Normalize now item
      (st_items s) = (Inr t, st_items s')"
    using assms(2) by (auto simp: TaskStore_Upsert_def split: prod.splits)
  show ?thesis
    using task_res.upsert_get [OF up wf assms(3,4)] task_res.upsert_get_other [OF up wf]
      task_res.upsert_version [OF up wf]
    by (simp add: TaskStore_Get_def)
qed

theorem upsert_then_get_witness:
  "\<exists>t. TaskStore_Upsert 0 demo_task NewTaskStore = (Inr t, demo_store)
    \<and> TaskStore_Get (scopedNameFromMeta (t_Metadata t)) demo_store = Some t"
proof -
  have "case fst (TaskStore_Upsert 0 demo_task NewTaskStore) of
      Inl _ \<Rightarrow> False | Inr t \<Rightarrow> m_Namespace (t_Metadata t) = ''default'' \<and> m_Name (t_Metadata t) = ''t1''"
    by code_simp
  then obtain t where t: "TaskStore_Upsert 0 demo_task NewTaskStore = (Inr t, demo_store)"
    "m_Namespace (t_Metadata t) = ''default''" "m_Name (t_Metadata t) = ''t1''"
    unfolding demo_store_def
    by (cases "TaskStore_Upsert 0 demo_task NewTaskStore") (auto split: sum.splits)
  have "trim_space ''t1'' \<noteq> []" by code_simp
  with t show ?thesis using upsert_then_get [OF reachable_store.init t(1)] by simp
qed

text \<open>
  C5: Optimistic concurrency has no lost update: of two writers that read the same version of a
  task, the second one's write is refused with a conflict and leaves the store as the first left it.
\<close>

theorem no_lost_update:
  assumes "reachable_store s" "TaskStore_Upsert now item1 s = (Inr t, s')"
    and "map_of (st_items s) (scopedNameFromMeta (t_Metadata t)) = Some old"
    and "Task_Normalize item2 = Inr it2"
    and "scopedNameFromMeta (t_Metadata item2) = scopedNameFromMeta (t_Metadata t)"
    and "trim_space (m_ResourceVersion (t_Metadata item2)) = m_ResourceVersion (t_Metadata old)"
  shows "\<exists>e. TaskStore_Upsert now2 item2 s' = (Inl e, s') \<and> IsConflict e"
proof -
  have wf: "items_wf t_Metadata task_ok (st_items s)"
    using reachable_wf [OF assms(1)] by (simp add: task_store_wf_def)
  have up: "store_upsert ''Task'' t_Metadata set_task_meta task_spec_changed Task_Normalize now item1
      (st_items s) = (Inr t, st_items s')"
    using assms(2) by (auto simp: TaskStore_Upsert_def split: prod.splits)
  show ?thesis
    using task_res.upsert_conflict [OF wf up assms(3,4)] assms(5,6) Task_Normalize_meta [OF assms(4)]
    by (simp add: TaskStore_Upsert_def IsConflict_def)
qed

definition demo_v1 :: Task where
  "demo_v1 = demo_task\<lparr>t_Metadata := zero_meta\<lparr>m_Name := ''t1'', m_ResourceVersion := ''1''\<rparr>\<rparr>"

lemma fst_Inr_E:
  assumes "case fst p of Inl _ \<Rightarrow> False | Inr t \<Rightarrow> P t"
  obtains t where "p = (Inr t, snd p)" "P t"
  using assms by (cases p) (auto split: sum.splits)

theorem no_lost_update_witness:
  "\<exists>e. TaskStore_Upsert 2 demo_v1 (snd (TaskStore_Upsert 1 demo_v1 demo_store))
      = (Inl e, snd (TaskStore_Upsert 1 demo_v1 demo_store)) \<and> IsConflict e"
proof -
  let ?key = "''default/t1''"
  have up: "case fst (TaskStore_Upsert 1 demo_v1 demo_store) of
      Inl _ \<Rightarrow> False | Inr t \<Rightarrow> scopedNameFromMeta (t_Metadata t) = ?key" by code_simp
  have old: "case map_of (st_items demo_store) ?key of None \<Rightarrow> False
      | Some t \<Rightarrow> m_ResourceVersion (t_Metadata t) = ''1''" by code_simp
  have it: "\<not> (case Task_Normalize demo_v1 of Inl _ \<Rightarrow> True | Inr _ \<Rightarrow> False)" by code_simp
  have key: "scopedNameFromMeta (t_Metadata demo_v1) = ?key"
    "trim_space (m_ResourceVersion (t_Metadata demo_v1)) = ''1''" by code_simp+
  from up obtain t where t: "TaskStore_Upsert 1 demo_v1 demo_store
      = (Inr t, snd (TaskStore_Upsert 1 demo_v1 demo_store))" "scopedNameFromMeta (t_Metadata t) = ?key"
    by (rule fst_Inr_E)
  from old obtain o' where o': "map_of (st_items demo_store) ?key = Some o'"
    "m_ResourceVersion (t_Metadata o') = ''1''" by (auto split: option.splits)
  from it obtain it2 where "Task_Normalize demo_v1 = Inr it2" by (auto split: sum.splits)
  from no_lost_update [OF demo_store_reachable(1) t(1) _ this, of o' 2] t(2) o' key
  show ?thesis by simp
qed

text \<open>
  Paging through one namespace visits every task once. When the tasks of the requested
  namespace agree on its spelling and have trimmed names, a page followed by the page that starts
  after its last key is the same as one page of the combined size: nothing is skipped, nothing
  repeated.
\<close>

theorem pages_complete:
  assumes "reachable_store s" "ns \<noteq> []" "0 < l" "0 < m"
    and "\<forall>t \<in> snd ` set (st_items s). equal_fold (NormalizeNamespace (m_Namespace (t_Metadata t))) ns \<longrightarrow>
      NormalizeNamespace (m_Namespace (t_Metadata t)) = ns
      \<and> trim_space (m_Name (t_Metadata t)) = m_Name (t_Metadata t)"
    and "TaskStore_ListCursor l after ns s = p" "p \<noteq> []"
  shows "p @ TaskStore_ListCursor m (scopedNameFromMeta (t_Metadata (last p))) ns s
    = TaskStore_ListCursor (l + m) after ns s"
proof -
  have "items_wf t_Metadata task_ok (st_items s)"
    using reachable_wf [OF assms(1)] by (simp add: task_store_wf_def)
  from store_pages [OF this assms(2-5) assms(6) [unfolded TaskStore_ListCursor_def] assms(7)]
  show ?thesis unfolding TaskStore_ListCursor_def .
qed

definition demo_named :: "string \<Rightarrow> string \<Rightarrow> Task" where
  "demo_named ns name = demo_task\<lparr>t_Metadata := zero_meta\<lparr>m_Namespace := ns, m_Name := name\<rparr>\<rparr>"

definition demo_two :: "string \<Rightarrow> string \<Rightarrow> string \<Rightarrow> string \<Rightarrow> TaskStore" where
  "demo_two ns1 n1 ns2 n2 = snd (TaskStore_Upsert 0 (demo_named ns2 n2)
     (snd (TaskStore_Upsert 0 (demo_named ns1 n1) NewTaskStore)))"

lemma demo_two_reachable: "reachable_store (demo_two ns1 n1 ns2 n2)"
  unfolding demo_two_def by (intro reachable_store.intros)

theorem pages_complete_witness:
  "map (\<lambda>t. m_Name (t_Metadata t)) (TaskStore_ListCursor 2 [] ''a'' (demo_two ''a'' ''x'' ''a'' ''y''))
     = [''x'', ''y'']
   \<and> TaskStore_ListCursor 1 [] ''a'' (demo_two ''a'' ''x'' ''a'' ''y'')
     @ TaskStore_ListCursor 1 (scopedNameFromMeta (t_Metadata (last
         (TaskStore_ListCursor 1 [] ''a'' (demo_two ''a'' ''x'' ''a'' ''y''))))) ''a''
         (demo_two ''a'' ''x'' ''a'' ''y'')
     = TaskStore_ListCursor (1 + 1) [] ''a'' (demo_two ''a'' ''x'' ''a'' ''y'')"
proof
  let ?s = "demo_two ''a'' ''x'' ''a'' ''y''"
  show "map (\<lambda>t. m_Name (t_Metadata t)) (TaskStore_ListCursor 2 [] ''a'' ?s) = [''x'', ''y'']" by code_simp
  have "list_all (\<lambda>t. NormalizeNamespace (m_Namespace (t_Metadata t)) = ''a''
      \<and> trim_space (m_Name (t_Metadata t)) = m_Name (t_Metadata t)) (map snd (st_items ?s))" by code_simp
  then have "\<forall>t \<in> snd ` set (st_items ?s).
      equal_fold (NormalizeNamespace (m_Namespace (t_Metadata t))) ''a'' \<longrightarrow>
      NormalizeNamespace (m_Namespace (t_Metadata t)) = ''a''
      \<and> trim_space (m_Name (t_Metadata t)) = m_Name (t_Metadata t)" by (simp add: list_all_iff)
  moreover have "length (TaskStore_ListCursor 1 [] ''a'' ?s) = 1" by code_simp
  ultimately show "TaskStore_ListCursor 1 [] ''a'' ?s
     @ TaskStore_ListCursor 1 (scopedNameFromMeta (t_Metadata (last
         (TaskStore_ListCursor 1 [] ''a'' ?s)))) ''a'' ?s = TaskStore_ListCursor (1 + 1) [] ''a'' ?s"
    by (intro pages_complete [OF demo_two_reachable]) auto
qed

text \<open>
  Across namespaces paging loses tasks, because a listing is sorted by name while the cursor
  compares namespace and name. With the tasks b/a and a/b, the first page of size one holds b/a,
  the page after it is empty, and a/b is never returned, though a listing without a limit has both.
\<close>

theorem pages_across_namespaces_lose:
  "let s = demo_two ''b'' ''a'' ''a'' ''b''; p = TaskStore_ListCursor 1 [] [] s
   in map (\<lambda>t. scopedNameFromMeta (t_Metadata t)) p = [''b/a'']
      \<and> TaskStore_ListCursor 1 (scopedNameFromMeta (t_Metadata (last p))) [] s = []
      \<and> map (\<lambda>t. scopedNameFromMeta (t_Metadata t)) (TaskStore_ListCursor 0 [] [] s) = [''b/a'', ''a/b'']"
  by code_simp

text \<open>
  A renewal by the holder is granted and keeps other workers out until the new expiry, which
  is the time of the renewal plus the lease, cut down to a whole second.
\<close>

theorem renew_extends:
  assumes "lease_held (normalizeLookupName name) w expiry s"
    and "map_of (st_items s) (normalizeLookupName name) = Some t"
    and "m_ResourceVersion (t_Metadata t) = itoa n" "0 \<le> n" "in_int64 n"
    and "year_in_range (now + norm_lease lease)"
  defines "e \<equiv> now + norm_lease lease - (now + norm_lease lease) mod Second"
  shows "\<exists>s'. TaskStore_RenewLease now name w lease s = (None, s')
    \<and> lease_held (normalizeLookupName name) w e s' \<and> now + norm_lease lease - Second < e
    \<and> (\<forall>now2 w2 lease2. now2 < e \<longrightarrow> TaskStore_ClaimIfDue now2 name w2 lease2 s' = (Inr None, s'))"
proof -
  let ?k = "normalizeLookupName name"
  have run: "to_lower (trim_space (ts_Phase (t_Status t))) = ''running''"
    "trim_space (ts_ClaimedBy (t_Status t)) \<noteq> []"
    "equal_fold (trim_space (ts_ClaimedBy (t_Status t))) (trim_space w)"
    using assms(1,2) by (simp_all add: lease_held_def)
  obtain m where m: "initializeUpdateMetadata now ''Task'' (t_Metadata t) (t_Metadata t) False = Inr m"
    using update_self [OF assms(3-5)] by blast
  define t' where "t' = t\<lparr>t_Metadata := m, t_Status := (t_Status t)\<lparr>
      ts_LeaseUntil := format_sec (now + norm_lease lease), ts_LastHeartbeat := format_sec now,
      ts_ObservedGeneration := m_Generation (t_Metadata t)\<rparr>\<rparr>"
  let ?s = "s\<lparr>st_items := AList.update ?k t' (st_items s)\<rparr>"
  have "equal_fold (trim_space (ts_Phase (t_Status t))) ''running''"
    using run(1) by (simp add: equal_fold_def to_lower_def lower_char_def)
  then have ren: "TaskStore_RenewLease now name w lease s = (None, ?s)"
    using assms(2) run m by (simp add: TaskStore_RenewLease_def Let_def t'_def)
  have held: "lease_held ?k w e ?s"
    using run parseTimestamp_sec [OF assms(6)] by (simp add: lease_held_def update_conv' t'_def e_def)
  have "TaskStore_ClaimIfDue now2 name w2 lease2 ?s = (Inr None, ?s)" if "now2 < e" for now2 w2 lease2
    using lease_held_not_claimable [OF held _ that, of t']
    by (simp add: TaskStore_ClaimIfDue_def Let_def update_conv')
  moreover have "now + norm_lease lease - Second < e"
    unfolding e_def using pos_mod_bound [of Second "now + norm_lease lease"] by simp
  ultimately show ?thesis using ren held by blast
qed

theorem renew_extends_witness:
  "\<exists>s'. TaskStore_RenewLease Second ''t1'' ''w1'' Second demo_claimed = (None, s')
    \<and> lease_held ''default/t1'' ''w1'' (2 * Second) s'"
proof -
  have k: "normalizeLookupName ''t1'' = ''default/t1''" by code_simp
  have held: "lease_held (normalizeLookupName ''t1'') ''w1'' Second demo_claimed" by code_simp
  have "case map_of (st_items demo_claimed) ''default/t1'' of None \<Rightarrow> False
      | Some t \<Rightarrow> m_ResourceVersion (t_Metadata t) = itoa 2" by code_simp
  then obtain t where t: "map_of (st_items demo_claimed) (normalizeLookupName ''t1'') = Some t"
    "m_ResourceVersion (t_Metadata t) = itoa 2" unfolding k by (auto split: option.splits)
  have "in_int64 2" "year_in_range (Second + norm_lease Second)" by code_simp+
  with renew_extends [OF held t(1,2), of Second Second] show ?thesis
    unfolding k by (auto simp: norm_lease_def)
qed

text \<open>
  A renewal can shorten the lease it renews: a claim at 0.9 s for one second holds until
  1.9 s; renewed at once, it is stored without the fraction, ends at 1 s, and another worker gets
  the task 0.9 s before the lease the holder was granted ends.
\<close>

theorem renew_can_shorten:
  "let s = snd (TaskStore_ClaimIfDue 900000000 ''t1'' ''w1'' Second demo_store);
       s' = snd (TaskStore_RenewLease 900000000 ''t1'' ''w1'' Second s)
   in lease_held ''default/t1'' ''w1'' 1900000000 s
      \<and> fst (TaskStore_RenewLease 900000000 ''t1'' ''w1'' Second s) = None
      \<and> lease_held ''default/t1'' ''w1'' 1000000000 s'
      \<and> lease_held ''default/t1'' ''w2'' 2000000000 (snd (TaskStore_ClaimIfDue 1000000000 ''t1'' ''w2'' Second s'))"
  by code_simp

end
