(* ===== verification/Message_Consumer.thy ===== *)
theory Message_Consumer
  imports Message_State Task_Store
begin

text \<open>
  The worker's side of agent messages (AgentMessageConsumerManager in
  runtime/agent_message_consumer.go): what one delivery does to the task in the store.

  Every handler is the same loop: read the task, compute from it, write it back under its version,
  and start again after a failure, five times at most. \<open>cas_loop\<close> is that loop and each handler is
  the step it runs; a step either returns or says what to write, which log lines follow a
  successful write, whether the task's shared memory is dropped, and the result; it may carry a
  value from one attempt to the next, whose last one the loop returns too. The world around
  a loop is an argument: what other callers do to the store before each access, which accesses
  fail, whether the wait between two attempts is cut short by the context, and the clock. Metering,
  audit, telemetry and debug output are write-only and are left out.
\<close>

section \<open>The loop\<close>

datatype store_failure = StoreError api_error | BackendError string | ContextDone

record world =
  w_env :: "nat \<Rightarrow> TaskStore \<Rightarrow> TaskStore"
  w_get_err :: "nat \<Rightarrow> store_failure option"
  w_put_err :: "nat \<Rightarrow> store_failure option"
  w_slept :: "nat \<Rightarrow> bool"
  w_now :: "nat \<Rightarrow> instant"

record consumer_state =
  cs_tasks :: TaskStore
  cs_memory :: "(string, smap) fmap"

datatype 'r verdict = Return 'r | Write Task "string list" bool 'r

definition put_task ::
  "world \<Rightarrow> nat \<Rightarrow> Task \<Rightarrow> TaskStore \<Rightarrow> (store_failure + Task) \<times> TaskStore" where
  "put_task w k t s =
     (case w_put_err w k of
        Some e \<Rightarrow> (Inl e, s)
      | None \<Rightarrow> (case TaskStore_Upsert (w_now w k) t s of
                   (Inl e, s1) \<Rightarrow> (Inl (StoreError e), s1)
                 | (Inr u, s1) \<Rightarrow> (Inr u, s1)))"

definition append_logs :: "instant \<Rightarrow> string \<Rightarrow> string list \<Rightarrow> TaskStore \<Rightarrow> TaskStore" where
  "append_logs now key logs s = fold (\<lambda>l s. snd (TaskStore_AppendLog now key l s)) logs s"

fun cas_loop ::
  "world \<Rightarrow> string \<Rightarrow> 'r \<Rightarrow> 'r \<Rightarrow> ('a \<Rightarrow> instant \<Rightarrow> Task \<Rightarrow> 'a \<times> 'r verdict) \<Rightarrow> nat \<Rightarrow> nat
    \<Rightarrow> store_failure option \<Rightarrow> 'a \<Rightarrow> consumer_state \<Rightarrow> ((store_failure + 'r) \<times> consumer_state) \<times> 'a" where
  "cas_loop w key missing dflt step k 0 lastErr a s =
     ((case lastErr of Some e \<Rightarrow> (Inl e, s) | None \<Rightarrow> (Inr dflt, s)), a)"
| "cas_loop w key missing dflt step k (Suc n) lastErr a s =
     (let s0 = w_env w (2 * k) (cs_tasks s)
      in case w_get_err w k of
           Some e \<Rightarrow>
             if \<not> w_slept w k then ((Inl e, s\<lparr>cs_tasks := s0\<rparr>), a)
             else cas_loop w key missing dflt step (Suc k) n (Some e) a (s\<lparr>cs_tasks := s0\<rparr>)
         | None \<Rightarrow>
             (case TaskStore_Get key s0 of
                None \<Rightarrow> ((Inr missing, s\<lparr>cs_tasks := s0\<rparr>), a)
              | Some t \<Rightarrow>
                  (case step a (w_now w k) t of
                     (a', Return r) \<Rightarrow> ((Inr r, s\<lparr>cs_tasks := s0\<rparr>), a')
                   | (a', Write t' logs dropMem r) \<Rightarrow>
                       (case put_task w k t' (w_env w (2 * k + 1) s0) of
                          (Inl e, s1) \<Rightarrow>
                            if \<not> w_slept w k then ((Inl ContextDone, s\<lparr>cs_tasks := s1\<rparr>), a')
                            else cas_loop w key missing dflt step (Suc k) n (Some e) a' (s\<lparr>cs_tasks := s1\<rparr>)
                        | (Inr _, s1) \<Rightarrow>
                            ((Inr r, s\<lparr>cs_tasks := append_logs (w_now w k) key logs s1,
                                       cs_memory := (if dropMem then fmdrop key (cs_memory s) else cs_memory s)\<rparr>),
                             a')))))"

definition with_retries ::
  "world \<Rightarrow> string \<Rightarrow> 'r \<Rightarrow> 'r \<Rightarrow> ('a \<Rightarrow> instant \<Rightarrow> Task \<Rightarrow> 'a \<times> 'r verdict) \<Rightarrow> 'a
    \<Rightarrow> consumer_state \<Rightarrow> (store_failure + 'r) \<times> consumer_state" where
  "with_retries w key missing dflt step a s = fst (cas_loop w key missing dflt step 0 5 None a s)"

text \<open>A step that carries nothing from one attempt to the next.\<close>

abbreviation stateless :: "(instant \<Rightarrow> Task \<Rightarrow> 'r verdict) \<Rightarrow> unit \<Rightarrow> instant \<Rightarrow> Task \<Rightarrow> unit \<times> 'r verdict" where
  "stateless f \<equiv> (\<lambda>u now t. (u, f now t))"

section \<open>Join and delegation gates\<close>

record gate_decision =
  gd_SkipExecution :: bool
  gd_Mode :: string
  gd_Required :: int
  gd_Sources :: "TaskJoinSource list"

definition open_gate :: gate_decision where
  "open_gate = \<lparr>gd_SkipExecution = False, gd_Mode = [], gd_Required = 0, gd_Sources = []\<rparr>"

definition skip_gate :: gate_decision where
  "skip_gate = open_gate\<lparr>gd_SkipExecution := True\<rparr>"

definition observe :: "Task \<Rightarrow> Task" where
  "observe t = on_status (\<lambda>s. s\<lparr>ts_ObservedGeneration := m_Generation (t_Metadata t)\<rparr>) t"

definition succeed_record :: "consumer_config \<Rightarrow> instant \<Rightarrow> TaskMessage \<Rightarrow> TaskMessage" where
  "succeed_record c now r =
     r\<lparr>tm_Phase := ''Succeeded'', tm_Worker := trim_space (cc_workerID c), tm_ProcessedAt := format_nano now,
       tm_NextAttemptAt := [], tm_LastError := []\<rparr>"

text \<open>
  The gates for joins and for returning delegates have the same text but for the list of states
  they keep, the word in the trace and the name of the waiting event.
\<close>

record gate_kind =
  gk_word :: string
  gk_waitEvent :: string
  gk_states :: "Task \<Rightarrow> TaskJoinState list"
  gk_put :: "TaskJoinState list \<Rightarrow> Task \<Rightarrow> Task"
  gk_trim :: "Task \<Rightarrow> Task"

definition join_kind :: gate_kind where
  "join_kind = \<lparr>gk_word = ''join'', gk_waitEvent = ''agent_message_join_wait'',
     gk_states = (\<lambda>t. ts_JoinStates (t_Status t)),
     gk_put = (\<lambda>js. on_status (\<lambda>s. s\<lparr>ts_JoinStates := js\<rparr>)), gk_trim = trimTaskJoinStates\<rparr>"

definition delegation_kind :: gate_kind where
  "delegation_kind = \<lparr>gk_word = ''delegation'', gk_waitEvent = ''agent_delegation_wait'',
     gk_states = (\<lambda>t. ts_DelegationStates (t_Status t)),
     gk_put = (\<lambda>js. on_status (\<lambda>s. s\<lparr>ts_DelegationStates := js\<rparr>)), gk_trim = trimTaskDelegationStates\<rparr>"

definition join_source :: "instant \<Rightarrow> AgentMessage \<Rightarrow> TaskJoinSource" where
  "join_source now msg =
     \<lparr>js_MessageID = trim_space (am_MessageID msg), js_FromAgent = trim_space (am_FromAgent msg),
      js_BranchID = trim_space (am_BranchID msg),
      js_Timestamp = normalizeMessageTimestamp now (am_Timestamp msg),
      js_Payload = trim_space (am_Payload msg)\<rparr>"

definition gate_step ::
  "gate_kind \<Rightarrow> consumer_config \<Rightarrow> AgentMessage \<Rightarrow> string \<Rightarrow> string \<Rightarrow> int \<Rightarrow> int \<Rightarrow> instant \<Rightarrow> Task
    \<Rightarrow> gate_decision verdict" where
  "gate_step kind c msg node mode expected required now t0 =
     (let (index, t) = ensureTaskMessageRecord now msg t0;
          current = msgs_of t ! index
      in if isTerminalMessagePhase (tm_Phase current) then Return skip_gate
         else
           let (si, states) = ensure_state (am_Attempt msg) node mode expected required (gk_states kind t);
               state = (appendJoinSource (join_source now msg) (states ! si))
                         \<lparr>jn_Expected := expected, jn_QuorumRequired := required, jn_Mode := mode\<rparr>;
               decision = (\<lambda>skip. \<lparr>gd_SkipExecution = skip, gd_Mode = mode, gd_Required = required,
                                  gd_Sources = jn_Sources state\<rparr>);
               consumed = gk_put kind (states[si := state])
                 (markMessageIdempotency now msg ''completed'' (cc_workerID c)
                   (set_message index (succeed_record c now current) t));
               finish = (\<lambda>t. observe (trimTaskIdempotency (gk_trim kind (trimTaskMessages t))))
           in if jn_Activated state then
                Write (finish (appendMessageTrace now msg ''agent_message_processed''
                  (''message_id='' @ am_MessageID msg @ '' status='' @ gk_word kind @ ''_already_activated branch_id=''
                   @ am_BranchID msg) consumed)) [] False (decision True)
              else if int (length (jn_Sources state)) < required then
                Write (finish (appendMessageTrace now msg ''agent_message_processed''
                  (''message_id='' @ am_MessageID msg @ '' status='' @ gk_word kind @ ''_wait'')
                  (appendMessageTrace now msg (gk_waitEvent kind)
                    (''message_id='' @ am_MessageID msg @ '' received='' @ itoa (int (length (jn_Sources state)))
                     @ '' required='' @ itoa required) consumed))) [] False (decision True)
              else
                Write (observe (gk_trim kind (gk_put kind (states[si := state\<lparr>jn_Activated := True,
                  jn_ActivatedAt := format_nano now, jn_ActivatedBy := trim_space (am_MessageID msg)\<rparr>]) t)))
                  [] False (decision False))"

definition join_step ::
  "consumer_config \<Rightarrow> AgentMessage \<Rightarrow> AgentSystem \<Rightarrow> string \<Rightarrow> int \<times> int \<Rightarrow> instant \<Rightarrow> Task
    \<Rightarrow> (int \<times> int) \<times> gate_decision verdict" where
  "join_step c msg system mode er now t =
     (if isTerminalTaskPhase (ts_Phase (t_Status t)) then (er, Return skip_gate)
      else let er' = adjustJoinExpectedForConditionalDispatch system t msg (fst er) (snd er) mode
           in (er', gate_step join_kind c msg (am_ToAgent msg) mode (fst er') (snd er') now t))"

definition applyJoinGate ::
  "consumer_config \<Rightarrow> world \<Rightarrow> string \<Rightarrow> AgentMessage \<Rightarrow> AgentSystem \<Rightarrow> consumer_state
    \<Rightarrow> (store_failure + gate_decision) \<times> consumer_state" where
  "applyJoinGate c w taskKey msg system s =
     (let q = joinRequirements system (trim_space (am_ToAgent msg))
      in if \<not> jq_enabled q then (Inr open_gate, s)
         else with_retries w taskKey skip_gate open_gate (join_step c msg system (jq_mode q))
                (jq_expected q, jq_required q) s)"

definition delegation_step ::
  "consumer_config \<Rightarrow> AgentMessage \<Rightarrow> GraphRoute list \<Rightarrow> string \<Rightarrow> int \<times> int \<Rightarrow> instant \<Rightarrow> Task
    \<Rightarrow> (int \<times> int) \<times> gate_decision verdict" where
  "delegation_step c msg delegates mode er now t =
     (if isTerminalTaskPhase (ts_Phase (t_Status t)) then (er, Return skip_gate)
      else
        let (expected, required) = er; target = trim_space (am_ToAgent msg);
            dispatched = countDispatchedDelegates (msgs_of t) delegates target;
            er' = (if dispatched > 0 \<and> dispatched < expected
                   then (dispatched, if mode = ''wait_for_all'' then dispatched
                                     else if required > dispatched then dispatched else required)
                   else (expected, required))
        in (er', gate_step delegation_kind c msg target mode (fst er') (snd er') now t))"

definition applyDelegationGate ::
  "consumer_config \<Rightarrow> world \<Rightarrow> string \<Rightarrow> AgentMessage \<Rightarrow> AgentSystem \<Rightarrow> consumer_state
    \<Rightarrow> (store_failure + gate_decision) \<times> consumer_state" where
  "applyDelegationGate c w taskKey msg system s =
     (let target = trim_space (am_ToAgent msg)
      in case map_of (as_Graph (sy_Spec system)) target of
           None \<Rightarrow> (Inr open_gate, s)
         | Some node \<Rightarrow>
             if length (n_Delegates node) = 0
                \<or> \<not> list_ex (\<lambda>d. equal_fold (trim_space (am_FromAgent msg)) (trim_space (r_To d))) (n_Delegates node)
             then (Inr open_gate, s)
             else
               let j = normalized_join (n_DelegateJoin node);
                   expected = int (length (n_Delegates node));
                   required = (if g_Mode j = ''quorum''
                               then quorumRequired expected (g_QuorumCount j) (g_QuorumPercent j) else expected)
               in with_retries w taskKey skip_gate open_gate (delegation_step c msg (n_Delegates node) (g_Mode j))
                    (expected, required) s)"

section \<open>Starting an attempt\<close>

record begin_result =
  br_task :: Task
  br_record :: TaskMessage
  br_skip :: bool
  br_retryAfter :: duration

definition received_text :: "AgentMessage \<Rightarrow> string" where
  "received_text msg = ''message_id='' @ am_MessageID msg @ '' from='' @ am_FromAgent msg @ '' type=''
     @ am_Type msg @ '' branch_id='' @ am_BranchID msg"

definition begin_step :: "consumer_config \<Rightarrow> AgentMessage \<Rightarrow> instant \<Rightarrow> Task \<Rightarrow> begin_result verdict" where
  "begin_step c msg now t0 =
     (if isTerminalTaskPhase (ts_Phase (t_Status t0))
      then Return \<lparr>br_task = t0, br_record = zero_TaskMessage, br_skip = True, br_retryAfter = 0\<rparr>
      else
        let (index, t) = ensureTaskMessageRecord now msg t0;
            record = msgs_of t ! index
        in if isMessageIdempotent now (ts_MessageIdempotency (t_Status t)) (messageIdempotencyKey msg)
              \<or> isTerminalMessagePhase (tm_Phase record)
              \<or> isMessageProcessed (ts_Trace (t_Status t)) (am_MessageID msg)
           then Return \<lparr>br_task = t, br_record = record, br_skip = True, br_retryAfter = 0\<rparr>
           else
             let (own, t) = acquireMessageOwnership c now msg t;
                 takeoverLog = (if ow_takeover own then [''agent message lease takeover: message_id='' @ am_MessageID msg
                    @ '' worker='' @ cc_workerID c] else []);
                 wait = retryWaitDuration now (tm_NextAttemptAt record)
             in if \<not> ow_owned own
                then Return \<lparr>br_task = t, br_record = record, br_skip = False, br_retryAfter = ow_retryAfter own\<rparr>
                else if equal_fold (trim_space (tm_Phase record)) ''retrypending'' \<and> wait > 0 then
                  (if ow_changed own
                   then Write (observe t) takeoverLog False
                          \<lparr>br_task = observe t, br_record = record, br_skip = False, br_retryAfter = wait\<rparr>
                   else Return \<lparr>br_task = t, br_record = record, br_skip = False, br_retryAfter = wait\<rparr>)
                else
                  let r = record\<lparr>tm_Attempts := tm_Attempts record + 1,
                            tm_MaxAttempts := (if tm_MaxAttempts record \<le> 0 then defaultMessageMaxAttempts t
                                               else tm_MaxAttempts record),
                            tm_Phase := ''Running'', tm_Worker := trim_space (cc_workerID c),
                            tm_LastError := [], tm_NextAttemptAt := []\<rparr>;
                      t = observe (extendWorkerLease now (cc_workerID c) (cc_leaseExtend c)
                            (appendMessageTrace now msg ''agent_message_received'' (received_text msg)
                              (set_message index r t)))
                  in Write t (takeoverLog @ [''agent message attempt started: id='' @ am_MessageID msg @ '' attempt=''
                       @ itoa (tm_Attempts r) @ ''/'' @ itoa (tm_MaxAttempts r)]) False
                       \<lparr>br_task = t, br_record = r, br_skip = False, br_retryAfter = 0\<rparr>)"

definition begin_missing :: begin_result where
  "begin_missing = \<lparr>br_task = zero_Task, br_record = zero_TaskMessage, br_skip = True, br_retryAfter = 0\<rparr>"

definition beginMessageAttempt ::
  "consumer_config \<Rightarrow> world \<Rightarrow> string \<Rightarrow> AgentMessage \<Rightarrow> consumer_state
    \<Rightarrow> (store_failure + begin_result) \<times> consumer_state" where
  "beginMessageAttempt c w taskKey msg s =
     with_retries w taskKey begin_missing (begin_missing\<lparr>br_skip := False\<rparr>) (stateless (begin_step c msg)) () s"

section \<open>Ending an attempt\<close>

definition carry_attempts :: "Task \<Rightarrow> TaskMessage \<Rightarrow> TaskMessage \<Rightarrow> TaskMessage" where
  "carry_attempts t record r =
     r\<lparr>tm_Attempts := max (tm_Attempts r) (tm_Attempts record),
       tm_MaxAttempts := (if tm_MaxAttempts r \<le> 0 then defaultMessageMaxAttempts t else tm_MaxAttempts r)\<rparr>"

text \<open>Leaving the worker: the fields both ways of ending a task clear.\<close>

definition release :: "instant \<Rightarrow> TaskStatus \<Rightarrow> TaskStatus" where
  "release now s =
     s\<lparr>ts_StartedAt := (if trim_space (ts_StartedAt s) = [] then format_nano now else ts_StartedAt s),
       ts_CompletedAt := format_nano now, ts_AssignedWorker := [], ts_ClaimedBy := [], ts_LeaseUntil := [],
       ts_LastHeartbeat := []\<rparr>"

definition complete_step ::
  "consumer_config \<Rightarrow> AgentMessage \<Rightarrow> TaskMessage \<Rightarrow> AgentExecutionResult \<Rightarrow> instant \<Rightarrow> Task \<Rightarrow> unit verdict" where
  "complete_step c msg record result now t0 =
     (if isTerminalTaskPhase (ts_Phase (t_Status t0)) then Return ()
      else
        let (index, t) = ensureTaskMessageRecord now msg t0;
            m = succeed_record c now (carry_attempts t record (msgs_of t ! index));
            t = trimTaskIdempotency (trimTaskMessages (markMessageIdempotency now msg ''completed'' (cc_workerID c)
                  (set_message index m t)));
            t = appendMessageTrace now msg ''agent_message_received'' (received_text msg) t;
            t = appendRuntimeStepTrace (xr_Agent result) (xr_StepEvents result) t;
            t = appendMessageTrace now msg ''agent_message_processed''
                  (''message_id='' @ am_MessageID msg @ '' status=succeeded branch_id='' @ am_BranchID msg) t;
            t = updateTaskOutput result ''message-driven'' t;
            t = (if allTaskMessagesTerminal (msgs_of t) then
                   trimTaskHistory (on_status (\<lambda>s. (release now s)\<lparr>ts_Phase := ''Succeeded'', ts_LastError := [],
                     ts_History := ts_History s @ [\<lparr>he_Timestamp = format_nano now, he_Type = ''succeeded'',
                       he_Worker = cc_workerID c,
                       he_Message = ''all terminal branches complete; last agent '' @ xr_Agent result\<rparr>]\<rparr>) t)
                 else t)
        in Write (observe t) [''agent message processed: id='' @ am_MessageID msg @ '' terminal_agent='' @ xr_Agent result
             @ '' task_phase='' @ ts_Phase (t_Status t)] True ())"

definition completeTaskSuccess ::
  "consumer_config \<Rightarrow> world \<Rightarrow> string \<Rightarrow> AgentMessage \<Rightarrow> TaskMessage \<Rightarrow> AgentExecutionResult \<Rightarrow> consumer_state
    \<Rightarrow> (store_failure + unit) \<times> consumer_state" where
  "completeTaskSuccess c w taskKey msg record result s =
     with_retries w taskKey () () (stateless (complete_step c msg record result)) () s"

definition queue_next :: "instant \<Rightarrow> AgentMessage \<Rightarrow> Task \<Rightarrow> Task" where
  "queue_next now nxt t0 =
     (let (index, t) = ensureTaskMessageRecord now nxt t0; r = msgs_of t ! index
      in set_message index (r\<lparr>
           tm_MaxAttempts := (if tm_MaxAttempts r \<le> 0 then defaultMessageMaxAttempts t else tm_MaxAttempts r),
           tm_Phase := (if trim_space (tm_Phase r) = [] \<or> equal_fold (tm_Phase r) ''RetryPending'' then ''Queued''
                        else tm_Phase r),
           tm_Worker := [], tm_LastError := [], tm_NextAttemptAt := []\<rparr>) t)"

definition forward_step ::
  "consumer_config \<Rightarrow> AgentMessage \<Rightarrow> TaskMessage \<Rightarrow> AgentExecutionResult \<Rightarrow> AgentMessage list
    \<Rightarrow> instant \<Rightarrow> Task \<Rightarrow> unit verdict" where
  "forward_step c msg record result nextMessages now t0 =
     (if isTerminalTaskPhase (ts_Phase (t_Status t0)) then Return ()
      else
        let (index, t) = ensureTaskMessageRecord now msg t0;
            m = succeed_record c now (carry_attempts t record (msgs_of t ! index));
            t = markMessageIdempotency now msg ''completed'' (cc_workerID c) (set_message index m t);
            t = fold (queue_next now) nextMessages t;
            t = trimTaskIdempotency (trimTaskMessages t);
            t = appendMessageTrace now msg ''agent_message_received'' (received_text msg) t;
            t = appendRuntimeStepTrace (xr_Agent result) (xr_StepEvents result) t;
            t = fold (\<lambda>n. appendMessageTrace now n ''agent_message'' (''message_id='' @ am_MessageID n @ '' to=''
                  @ am_ToAgent n @ '' branch_id='' @ am_BranchID n @ '' parent_branch_id='' @ am_ParentBranchID n))
                  nextMessages t;
            targets = str_join '','' (map am_ToAgent nextMessages);
            t = appendMessageTrace now msg ''agent_message_processed'' (''message_id='' @ am_MessageID msg
                  @ '' status=forwarded to='' @ targets @ '' branch_id='' @ am_BranchID msg) t;
            t = observe (extendWorkerLease now (cc_workerID c) (cc_leaseExtend c)
                  (updateTaskOutput result ''message-driven'' t))
        in Write t [''agent message processed: id='' @ am_MessageID msg @ '' forwarded_to='' @ targets
             @ '' next_messages='' @ str_join '','' (map am_MessageID nextMessages)] False ())"

definition recordForward ::
  "consumer_config \<Rightarrow> world \<Rightarrow> string \<Rightarrow> AgentMessage \<Rightarrow> TaskMessage \<Rightarrow> AgentExecutionResult
    \<Rightarrow> AgentMessage list \<Rightarrow> consumer_state \<Rightarrow> (store_failure + unit) \<times> consumer_state" where
  "recordForward c w taskKey msg record result nextMessages s =
     with_retries w taskKey () () (stateless (forward_step c msg record result nextMessages)) () s"

definition failed_trace_step ::
  "consumer_config \<Rightarrow> AgentMessage \<Rightarrow> TaskMessage \<Rightarrow> AgentExecutionResult \<Rightarrow> instant \<Rightarrow> Task \<Rightarrow> unit verdict" where
  "failed_trace_step c msg record result now t0 =
     (if isTerminalTaskPhase (ts_Phase (t_Status t0)) then Return ()
      else
        let (index, t) = ensureTaskMessageRecord now msg t0;
            m = (carry_attempts t record (msgs_of t ! index))\<lparr>tm_Worker := trim_space (cc_workerID c)\<rparr>;
            t = appendMessageTrace now msg ''agent_message_received'' (received_text msg) (set_message index m t);
            t = updateTaskOutput result ''message-driven''
                  (appendRuntimeStepTrace (xr_Agent result) (xr_StepEvents result) t)
        in Write (observe t) [] False ())"

definition recordFailedExecutionTrace ::
  "consumer_config \<Rightarrow> world \<Rightarrow> string \<Rightarrow> AgentMessage \<Rightarrow> TaskMessage \<Rightarrow> AgentExecutionResult \<Rightarrow> consumer_state
    \<Rightarrow> (store_failure + unit) \<times> consumer_state" where
  "recordFailedExecutionTrace c w taskKey msg record result s =
     (if length (xr_StepEvents result) = 0 then (Inr (), s)
      else with_retries w taskKey () () (stateless (failed_trace_step c msg record result)) () s)"

definition dead_letter ::
  "consumer_config \<Rightarrow> AgentMessage \<Rightarrow> messageRetryClassification \<Rightarrow> instant \<Rightarrow> nat \<Rightarrow> TaskMessage \<Rightarrow> Task \<Rightarrow> Task" where
  "dead_letter c msg cls now index current t =
     (let t = (if \<not> rc_Retryable cls then
                 appendMessageTrace now msg ''agent_message_non_retryable'' (''message_id='' @ am_MessageID msg
                   @ '' reason='' @ rc_Reason cls @ '' error='' @ tm_LastError current) t
               else t);
          t = set_message index (current\<lparr>tm_Phase := ''DeadLetter'', tm_ProcessedAt := format_nano now,
                tm_NextAttemptAt := []\<rparr>) t;
          t = markMessageIdempotency now msg ''deadletter'' (cc_workerID c) t;
          t = appendMessageTrace now msg ''agent_message_deadletter'' (''message_id='' @ am_MessageID msg
                @ '' attempts='' @ itoa (tm_Attempts current) @ '' error='' @ tm_LastError current
                @ '' branch_id='' @ am_BranchID msg) t;
          t = trimTaskIdempotency t;
          lastError = ''message '' @ am_MessageID msg @ '' dead-lettered after '' @ itoa (tm_Attempts current)
            @ '' attempts: '' @ tm_LastError current;
          t = observe (on_status (\<lambda>s. (release now s)\<lparr>ts_Phase := ''DeadLetter'', ts_LastError := lastError,
                ts_History := ts_History s @ [\<lparr>he_Timestamp = format_nano now, he_Type = ''deadletter'',
                  he_Worker = cc_workerID c, he_Message = lastError\<rparr>]\<rparr>) t)
      in trimTaskHistory t)"

definition retry_step ::
  "consumer_config \<Rightarrow> AgentMessage \<Rightarrow> TaskMessage \<Rightarrow> go_error \<Rightarrow> instant \<Rightarrow> Task \<Rightarrow> (bool \<times> duration) verdict" where
  "retry_step c msg record err now t0 =
     (if isTerminalTaskPhase (ts_Phase (t_Status t0)) then Return (False, 0)
      else
        let (index, t) = ensureTaskMessageRecord now msg t0;
            current = (carry_attempts t record (msgs_of t ! index))\<lparr>tm_Worker := trim_space (cc_workerID c),
                        tm_LastError := trim_space (error_text err), tm_ProcessedAt := []\<rparr>;
            t = extendWorkerLease now (cc_workerID c) (cc_leaseExtend c) t;
            policy = effectiveMessageRetryPolicy t;
            cls = classifyMessageRetryability policy err
        in if rc_Retryable cls \<and> tm_Attempts current < tm_MaxAttempts current then
             let delay = computeMessageRetryDelay policy msg (tm_Attempts current);
                 about = '' attempt='' @ itoa (tm_Attempts current) @ ''/'' @ itoa (tm_MaxAttempts current)
                   @ '' delay='' @ dur_string delay @ '' error='' @ tm_LastError current;
                 t = set_message index (current\<lparr>tm_Phase := ''RetryPending'',
                       tm_NextAttemptAt := format_nano (now + delay)\<rparr>) t;
                 t = appendMessageTrace now msg ''agent_message_retry_scheduled'' (''message_id='' @ am_MessageID msg @ about) t
             in Write (observe t) [''agent message retry scheduled: id='' @ am_MessageID msg @ about] False (True, delay)
           else Write (dead_letter c msg cls now index current t) [''agent message dead-lettered: id='' @ am_MessageID msg
                  @ '' attempts='' @ itoa (tm_Attempts current) @ '' error='' @ tm_LastError current] True (False, 0))"

definition recordRetryOrDeadLetter ::
  "consumer_config \<Rightarrow> world \<Rightarrow> string \<Rightarrow> AgentMessage \<Rightarrow> TaskMessage \<Rightarrow> go_error \<Rightarrow> consumer_state
    \<Rightarrow> (store_failure + bool \<times> duration) \<times> consumer_state" where
  "recordRetryOrDeadLetter c w taskKey msg record err s =
     with_retries w taskKey (False, 0) (False, 0) (stateless (retry_step c msg record err)) () s"

section \<open>Deliveries\<close>

definition failure_answer :: "store_failure \<Rightarrow> delivery_error" where
  "failure_answer e = OtherError (case e of BackendError b \<Rightarrow> b | _ \<Rightarrow> [])"

text \<open>
  The checks before a delivery is processed: \<open>Inl\<close> is the handler's answer to the bus, where
  \<^const>\<open>None\<close> acknowledges the message, \<open>Inr\<close> the key and the task that processMessage gets.
\<close>

definition handleDelivery ::
  "world \<Rightarrow> AgentMessage \<Rightarrow> TaskStore \<Rightarrow> delivery_error option + string \<times> Task" where
  "handleDelivery w msg s =
     (case messageTaskKey msg of
        None \<Rightarrow> Inl None
      | Some taskKey \<Rightarrow>
          (case w_get_err w 0 of
             Some e \<Rightarrow> Inl (Some (failure_answer e))
           | None \<Rightarrow>
               (case TaskStore_Get taskKey s of
                  None \<Rightarrow> Inl None
                | Some t \<Rightarrow>
                    if isTerminalTaskPhase (ts_Phase (t_Status t)) then Inl None
                    else if equal_fold (trim_space (ts_Phase (t_Status t))) ''waitingapproval''
                      then Inl (Some (RetryAfter (2 * Second) []))
                    else if isMessageProcessed (ts_Trace (t_Status t)) (am_MessageID msg) then Inl None
                    else Inr (taskKey, t))))"

section \<open>What the helpers leave alone\<close>

text \<open>The join and delegation states of a task, which most helpers keep.\<close>

abbreviation gates_of :: "Task \<Rightarrow> TaskJoinState list \<times> TaskDelegationState list" where
  "gates_of t \<equiv> (ts_JoinStates (t_Status t), ts_DelegationStates (t_Status t))"

lemma gates_ensure: "ensureTaskMessageRecord now msg t = (i, t') \<Longrightarrow> gates_of t' = gates_of t"
  using ensureTaskMessageRecord_spec(6) [of now msg t i t'] by auto

lemma gates_keep [simp]:
  "gates_of (set_message i r t) = gates_of t"
  "gates_of (markMessageIdempotency now msg st worker t) = gates_of t"
  "gates_of (appendMessageTrace now msg ev txt t) = gates_of t"
  "gates_of (trimTaskMessages t) = gates_of t"
  "gates_of (trimTaskIdempotency t) = gates_of t"
  "gates_of (trimTaskTrace t) = gates_of t"
  "gates_of (observe t) = gates_of t"
  by (simp_all add: set_message_def markMessageIdempotency_def appendMessageTrace_def trimTaskMessages_def
      trimTaskIdempotency_def trimTaskTrace_def observe_def Let_def)

lemma msgs_keep [simp]:
  "msgs_of (markMessageIdempotency now msg st worker t) = msgs_of t"
  "msgs_of (appendMessageTrace now msg ev txt t) = msgs_of t"
  "msgs_of (trimTaskIdempotency t) = msgs_of t"
  "msgs_of (observe t) = msgs_of t"
  "msgs_of (set_message i r t) = (msgs_of t)[i := r]"
  "msgs_of (trimTaskMessages t) = keep_last 500 (msgs_of t)"
  by (simp_all add: set_message_def markMessageIdempotency_def appendMessageTrace_def trimTaskMessages_def
      trimTaskIdempotency_def trimTaskTrace_def observe_def Let_def)

section \<open>A gate refines a counter of arrivals\<close>

text \<open>
  The specification of a gate: the ids that have arrived and whether the gate has fired. An
  arrival waits, fires the gate (its message goes on), or comes late.
\<close>

datatype gate_outcome = Wait | Fire | Late

definition arrive :: "int \<Rightarrow> string \<Rightarrow> string set \<times> bool \<Rightarrow> gate_outcome \<times> string set \<times> bool" where
  "arrive required i st =
     (let (got, fired) = st; got' = insert i got
      in if fired then (Late, got', True)
         else if int (card got') < required then (Wait, got', False)
         else (Fire, got', True))"

lemma arrive_fired:
  "arrive r i v = (out, v') \<Longrightarrow> snd v' = (snd v \<or> out = Fire) \<and> (snd v \<longleftrightarrow> out = Late)"
  by (auto simp: arrive_def Let_def split: prod.splits if_splits)

definition norm_id :: "string \<Rightarrow> string" where
  "norm_id i = to_lower (trim_space i)"

definition norm_attempt :: "AgentMessage \<Rightarrow> int" where
  "norm_attempt msg = (if am_Attempt msg \<le> 0 then 1 else am_Attempt msg)"

definition gate_pos :: "int \<Rightarrow> string \<Rightarrow> TaskJoinState list \<Rightarrow> nat option" where
  "gate_pos attempt node states =
     find_idx (\<lambda>s. jn_Attempt s = attempt \<and> equal_fold (trim_space (jn_Node s)) (trim_space node)) states"

definition source_ids :: "TaskJoinState \<Rightarrow> string list" where
  "source_ids s = map (\<lambda>e. norm_id (js_MessageID e)) (jn_Sources s)"

text \<open>The abstraction: the state of the gate of a node in an attempt.\<close>

definition gate_view :: "int \<Rightarrow> string \<Rightarrow> TaskJoinState list \<Rightarrow> string set \<times> bool" where
  "gate_view attempt node states =
     (case gate_pos attempt node states of
        None \<Rightarrow> ({}, False)
      | Some i \<Rightarrow> (set (source_ids (states ! i)), jn_Activated (states ! i)))"

text \<open>
  Its invariant: there is room for the state (the list is cut to 200), and each message is counted
  once.
\<close>

definition gate_ok :: "int \<Rightarrow> string \<Rightarrow> TaskJoinState list \<Rightarrow> bool" where
  "gate_ok attempt node states \<longleftrightarrow>
     (case gate_pos attempt node states of
        None \<Rightarrow> length states < 200
      | Some i \<Rightarrow> length states \<le> 200 \<and> distinct (source_ids (states ! i)))"

lemma source_ids_fired: "source_ids (s\<lparr>jn_Activated := b, jn_ActivatedAt := x, jn_ActivatedBy := y\<rparr>) = source_ids s"
  by (simp add: source_ids_def)

lemma source_ids_append:
  assumes "distinct (source_ids s)"
  shows "distinct (source_ids (appendJoinSource src s))"
    "set (source_ids (appendJoinSource src s)) = insert (norm_id (js_MessageID src)) (set (source_ids s))"
proof -
  let ?P = "\<lambda>e. equal_fold (trim_space (js_MessageID e)) (trim_space (js_MessageID src))"
  have P: "?P e \<longleftrightarrow> norm_id (js_MessageID e) = norm_id (js_MessageID src)" for e
    by (simp add: equal_fold_def norm_id_def)
  have "distinct (source_ids (appendJoinSource src s)) \<and>
    set (source_ids (appendJoinSource src s)) = insert (norm_id (js_MessageID src)) (set (source_ids s))"
  proof (cases "find_idx ?P (jn_Sources s)")
    case None
    then have "norm_id (js_MessageID src) \<notin> set (source_ids s)"
      by (auto simp: find_idx_None P source_ids_def)
    with None assms show ?thesis by (auto simp: appendJoinSource_def source_ids_def)
  next
    case (Some i)
    then have i: "i < length (jn_Sources s)" "norm_id (js_MessageID (jn_Sources s ! i)) = norm_id (js_MessageID src)"
      by (auto simp: find_idx_Some P)
    then have "source_ids (appendJoinSource src s) = source_ids s"
      using Some by (auto simp: appendJoinSource_def source_ids_def map_update intro: list_update_same_conv [THEN iffD2])
    moreover have "norm_id (js_MessageID src) \<in> set (source_ids s)"
      unfolding source_ids_def using i by (metis in_set_conv_nth length_map nth_map)
    ultimately show ?thesis using assms by auto
  qed
  then show "distinct (source_ids (appendJoinSource src s))"
    "set (source_ids (appendJoinSource src s)) = insert (norm_id (js_MessageID src)) (set (source_ids s))"
    by auto
qed

text \<open>Finding or creating the state keeps the view.\<close>

lemma ensure_state_view:
  assumes "ensure_state attempt node mode e r states = (i, states')"
    "attempt' = (if attempt \<le> 0 then 1 else attempt)" "gate_ok attempt' node states"
  shows "i < length states'" "length states' \<le> 200" "gate_pos attempt' node states' = Some i"
    "distinct (source_ids (states' ! i))"
    "gate_view attempt' node states = (set (source_ids (states' ! i)), jn_Activated (states' ! i))"
    "jn_Attempt (states' ! i) = attempt'" "equal_fold (trim_space (jn_Node (states' ! i))) (trim_space node)"
proof -
  have "i < length states' \<and> length states' \<le> 200 \<and> gate_pos attempt' node states' = Some i
    \<and> distinct (source_ids (states' ! i))
    \<and> gate_view attempt' node states = (set (source_ids (states' ! i)), jn_Activated (states' ! i))"
  proof (cases "gate_pos attempt' node states")
    case None
    let ?new = "zero_JoinState\<lparr>jn_Attempt := attempt', jn_Node := trim_space node, jn_Mode := trim_space mode,
      jn_Expected := e, jn_QuorumRequired := r\<rparr>"
    have "i = length states" "states' = states @ [?new]"
      using assms(1,2) None by (auto simp: ensure_state_def gate_pos_def Let_def)
    moreover have "gate_pos attempt' node (states @ [?new]) = Some (length states)"
      using None unfolding gate_pos_def by (rule find_idx_append_None) simp
    ultimately show ?thesis
      using assms(3) None by (auto simp: gate_ok_def gate_view_def zero_JoinState_def source_ids_def)
  next
    case (Some j)
    let ?upd = "(states ! j)\<lparr>jn_Mode := trim_space mode, jn_Expected := e, jn_QuorumRequired := r\<rparr>"
    have ij: "i = j" "states' = states[j := ?upd]"
      using assms(1,2) Some by (auto simp: ensure_state_def gate_pos_def Let_def)
    have j: "j < length states" using Some by (simp add: gate_pos_def find_idx_Some)
    have "gate_pos attempt' node states' = Some j"
      unfolding ij gate_pos_def
      by (rule find_idx_cong_update) (use Some in \<open>auto simp: gate_pos_def find_idx_Some\<close>)
    with ij j Some assms(3) show ?thesis
      by (auto simp: gate_ok_def gate_view_def source_ids_def)
  qed
  then show "i < length states'" "length states' \<le> 200" "gate_pos attempt' node states' = Some i"
    "distinct (source_ids (states' ! i))"
    "gate_view attempt' node states = (set (source_ids (states' ! i)), jn_Activated (states' ! i))"
    "jn_Attempt (states' ! i) = attempt'" "equal_fold (trim_space (jn_Node (states' ! i))) (trim_space node)"
    by (auto simp: gate_pos_def find_idx_Some)
qed

lemma gate_pos_update:
  assumes "gate_pos a node states = Some i" "jn_Attempt s = jn_Attempt (states ! i)" "jn_Node s = jn_Node (states ! i)"
  shows "gate_pos a node (states[i := s]) = Some i"
  using assms unfolding gate_pos_def
  by (intro find_idx_cong_update) (auto simp: find_idx_Some)

text \<open>Writing the state of the gate, and cutting the list to 200, which drops nothing.\<close>

lemma gate_write:
  assumes "gate_pos a node states = Some i" "length states \<le> 200" "i < length states"
    "jn_Attempt s = jn_Attempt (states ! i)" "jn_Node s = jn_Node (states ! i)" "distinct (source_ids s)"
  shows "gate_ok a node (keep_last 200 (states[i := s]))"
    "gate_view a node (keep_last 200 (states[i := s])) = (set (source_ids s), jn_Activated s)"
proof -
  have k: "keep_last 200 (states[i := s]) = states[i := s]" using assms(2) by (simp add: keep_last_short)
  have p: "gate_pos a node (states[i := s]) = Some i" by (rule gate_pos_update [OF assms(1,4,5)])
  show "gate_ok a node (keep_last 200 (states[i := s]))"
    unfolding k gate_ok_def p using assms by simp
  show "gate_view a node (keep_last 200 (states[i := s])) = (set (source_ids s), jn_Activated s)"
    unfolding k gate_view_def p using assms(3) by simp
qed

definition open_record :: "instant \<Rightarrow> AgentMessage \<Rightarrow> Task \<Rightarrow> bool" where
  "open_record now msg t =
     (let (i, t1) = ensureTaskMessageRecord now msg t in \<not> isTerminalMessagePhase (tm_Phase (msgs_of t1 ! i)))"

lemma literal_phases:
  "isTerminalMessagePhase ''Succeeded''" "isTerminalMessagePhase ''DeadLetter''" "\<not> isTerminalMessagePhase ''Queued''"
  "trim_space ''Succeeded'' = ''Succeeded''" "trim_space ''DeadLetter'' = ''DeadLetter''"
  by code_simp+

lemma succeeded_closed:
  assumes "find_idx (same_id msg) (msgs_of t) = Some i" "tm_Phase (msgs_of t ! i) = ''Succeeded''" "i < length (msgs_of t)"
  shows "\<not> open_record now msg t"
  using assms by (simp add: open_record_def ensureTaskMessageRecord_def fill_record_def literal_phases)

text \<open>
  The life of a gate: arrivals at its node in one attempt, and anything else that happens to the
  task and leaves the gates alone. The list says of each arrival whether it fired the gate.
\<close>

inductive gate_run :: "gate_kind \<Rightarrow> int \<Rightarrow> string \<Rightarrow> Task \<Rightarrow> bool list \<Rightarrow> Task \<Rightarrow> bool" for kind a node where
  gate_start: "gate_run kind a node t [] t"
| gate_arrival: "gate_run kind a node t ds t1 \<Longrightarrow> norm_attempt msg = a
    \<Longrightarrow> gate_step kind c msg node mode e r now t1 = Write t2 logs b d
    \<Longrightarrow> gate_run kind a node t (ds @ [\<not> gd_SkipExecution d]) t2"
| gate_other: "gate_run kind a node t ds t1 \<Longrightarrow> gates_of t2 = gates_of t1 \<Longrightarrow> gate_run kind a node t ds t2"

text \<open>
  The interface of a kind of gate: its states can be read back, are cut to 200, depend on nothing
  else of the task, and the messages are not touched.
\<close>

locale gate_states =
  fixes kind :: gate_kind
  assumes states_put: "gk_states kind (gk_put kind js t) = js"
    and states_trim: "gk_states kind (gk_trim kind t) = keep_last 200 (gk_states kind t)"
    and states_frame: "gates_of t' = gates_of t \<Longrightarrow> gk_states kind t' = gk_states kind t"
    and msgs_put: "msgs_of (gk_put kind js t) = msgs_of t"
    and msgs_trim: "msgs_of (gk_trim kind t) = msgs_of t"
begin

lemma states_keep:
  "gk_states kind (markMessageIdempotency now msg st worker t) = gk_states kind t"
  "gk_states kind (appendMessageTrace now msg ev txt t) = gk_states kind t"
  "gk_states kind (trimTaskMessages t) = gk_states kind t"
  "gk_states kind (trimTaskIdempotency t) = gk_states kind t"
  "gk_states kind (observe t) = gk_states kind t"
  by (rule states_frame, simp)+

lemmas states_simps = states_keep states_put states_trim

lemma gate_step_refines:
  assumes ok: "gate_ok (norm_attempt msg) node (gk_states kind t)" and op: "open_record now msg t"
  shows "\<exists>t' d. gate_step kind c msg node mode e r now t = Write t' [] False d
    \<and> gate_ok (norm_attempt msg) node (gk_states kind t')
    \<and> arrive r (norm_id (am_MessageID msg)) (gate_view (norm_attempt msg) node (gk_states kind t))
        = (if gd_SkipExecution d then (if snd (gate_view (norm_attempt msg) node (gk_states kind t)) then Late else Wait) else Fire,
           gate_view (norm_attempt msg) node (gk_states kind t'))"
proof -
  let ?a = "norm_attempt msg"
  obtain i t1 where i: "ensureTaskMessageRecord now msg t = (i, t1)" by force
  obtain si states where si: "ensure_state (am_Attempt msg) node mode e r (gk_states kind t) = (si, states)" by force
  have t1: "gk_states kind t1 = gk_states kind t" by (rule states_frame [OF gates_ensure [OF i]])
  note ev = ensure_state_view [OF si _ ok, unfolded norm_attempt_def [symmetric], OF refl]
  define st where "st = (appendJoinSource (join_source now msg) (states ! si))
    \<lparr>jn_Expected := e, jn_QuorumRequired := r, jn_Mode := mode\<rparr>"
  have sids: "source_ids st = source_ids (appendJoinSource (join_source now msg) (states ! si))"
    by (simp add: st_def source_ids_def)
  have sf: "jn_Activated st = jn_Activated (states ! si)" "jn_Attempt st = jn_Attempt (states ! si)"
    "jn_Node st = jn_Node (states ! si)"
    by (simp_all add: st_def appendJoinSource_def)
  have ids: "distinct (source_ids st)"
    "set (source_ids st) = insert (norm_id (am_MessageID msg)) (set (source_ids (states ! si)))"
    using source_ids_append [OF ev(4), of "join_source now msg"]
    unfolding sids by (auto simp: join_source_def norm_id_def)
  have len: "length (jn_Sources st) = card (insert (norm_id (am_MessageID msg)) (set (source_ids (states ! si))))"
    using ids distinct_card [OF ids(1)] by (simp add: source_ids_def)
  have w: "gate_ok ?a node (keep_last 200 (states[si := s]))
      \<and> gate_view ?a node (keep_last 200 (states[si := s])) = (set (source_ids s), jn_Activated s)"
    if "source_ids s = source_ids st" "jn_Attempt s = jn_Attempt st" "jn_Node s = jn_Node st" for s
    using gate_write [OF ev(3,2,1), of s] that ids sf by simp
  from op i have nt: "\<not> isTerminalMessagePhase (tm_Phase (msgs_of t1 ! i))"
    by (simp add: open_record_def)
  show ?thesis
    unfolding gate_step_def i prod.case Let_def t1 si st_def [symmetric] if_not_P [OF nt]
    using w [of st] w [of "st\<lparr>jn_Activated := True, jn_ActivatedAt := format_nano now, jn_ActivatedBy := trim_space (am_MessageID msg)\<rparr>"]
    by (cases "jn_Activated st"; cases "int (length (jn_Sources st)) < r")
      (simp_all add: states_simps ev(5) arrive_def sf ids len source_ids_fired)
qed

lemma gate_step_open: "gate_step kind c msg node mode e r now t = Write t' l b d \<Longrightarrow> open_record now msg t"
  by (auto simp: gate_step_def open_record_def Let_def split: prod.splits if_splits)

lemma gate_step_writes:
  assumes "gate_ok (norm_attempt msg) node (gk_states kind t)"
    "gate_step kind c msg node mode e r now t = Write t' l b d"
  shows "gate_ok (norm_attempt msg) node (gk_states kind t')"
    "arrive r (norm_id (am_MessageID msg)) (gate_view (norm_attempt msg) node (gk_states kind t))
       = (if gd_SkipExecution d then (if snd (gate_view (norm_attempt msg) node (gk_states kind t)) then Late else Wait) else Fire,
          gate_view (norm_attempt msg) node (gk_states kind t'))"
  using gate_step_refines [OF assms(1) gate_step_open [OF assms(2)], of c mode e r] assms(2) by auto

lemma gate_run_fires:
  assumes "gate_run kind a node t ds t'" "gate_ok a node (gk_states kind t)"
  shows "gate_ok a node (gk_states kind t')
    \<and> length (filter (\<lambda>b. b) ds) \<le> (if snd (gate_view a node (gk_states kind t')) then 1 else 0)"
  using assms
proof (induction rule: gate_run.induct)
  case (gate_arrival t ds t1 msg c mode e r now t2 logs b d)
  let ?v = "gate_view a node (gk_states kind t1)"
  from gate_arrival have ok: "gate_ok (norm_attempt msg) node (gk_states kind t1)" by simp
  note w = gate_step_writes [OF ok gate_arrival.hyps(3)]
  have "snd (gate_view a node (gk_states kind t2)) = (snd ?v \<or> \<not> gd_SkipExecution d)"
    "snd ?v \<longrightarrow> gd_SkipExecution d"
    using arrive_fired [OF w(2)] unfolding gate_arrival.hyps(2) by (cases "gd_SkipExecution d"; simp)+
  moreover have "gate_ok a node (gk_states kind t2)" using w(1) by (simp add: gate_arrival.hyps(2))
  moreover have "length (filter (\<lambda>b. b) ds) \<le> (if snd ?v then 1 else 0)" using gate_arrival.IH gate_arrival.prems by simp
  ultimately show ?case by (cases "gd_SkipExecution d"; cases "snd ?v") simp_all
next
  case (gate_other t ds t1 t2)
  then show ?case using states_frame [of t2 t1] by simp
qed simp

text \<open>A message that has fired the gate and comes back is taken for a latecomer and ends there.\<close>

lemma gate_refire:
  assumes ok: "gate_ok (norm_attempt msg) node (gk_states kind t)"
    and fire: "gate_step kind c msg node mode e r now t = Write t1 l b d" "\<not> gd_SkipExecution d"
    and t2: "gates_of t2 = gates_of t1" "open_record now2 msg t2" "length (msgs_of t2) < 500"
  shows "\<exists>t3 d2. gate_step kind c msg node mode e r now2 t2 = Write t3 [] False d2
    \<and> gd_SkipExecution d2 \<and> \<not> open_record now3 msg t3"
proof -
  note w = gate_step_writes [OF ok fire(1)]
  have s2: "gk_states kind t2 = gk_states kind t1" by (rule states_frame [OF t2(1)])
  have ok2: "gate_ok (norm_attempt msg) node (gk_states kind t2)" using w(1) by (simp add: s2)
  have fired: "snd (gate_view (norm_attempt msg) node (gk_states kind t2))"
    using arrive_fired [OF w(2)] fire(2) by (simp add: s2)
  obtain t3 d2 where g: "gate_step kind c msg node mode e r now2 t2 = Write t3 [] False d2"
    using gate_step_refines [OF ok2 t2(2), of c mode e r] by auto
  have skip: "gd_SkipExecution d2"
    using arrive_fired [OF gate_step_writes(2) [OF ok2 g]] fired by (auto split: if_splits)
  obtain i t' where i: "ensureTaskMessageRecord now2 msg t2 = (i, t')" by force
  note es = ensureTaskMessageRecord_spec [OF i]
  have len: "length (msgs_of t') \<le> 500"
    using i t2(3) by (auto simp: ensureTaskMessageRecord_def split: option.splits)
  have "msgs_of t3 = (msgs_of t')[i := succeed_record c now2 (msgs_of t' ! i)]"
    using g skip len
    by (auto simp: gate_step_def i Let_def msgs_put msgs_trim keep_last_short split: prod.splits if_splits)
  then have "find_idx (same_id msg) (msgs_of t3) = Some i" "tm_Phase (msgs_of t3 ! i) = ''Succeeded''" "i < length (msgs_of t3)"
    using es find_idx_cong_update [OF es(3), of "succeed_record c now2 (msgs_of t' ! i)"]
    by (auto simp: succeed_record_def)
  then have "\<not> open_record now3 msg t3" by (rule succeeded_closed)
  with g skip show ?thesis by blast
qed

end

interpretation jg: gate_states join_kind
  by unfold_locales (simp_all add: join_kind_def trimTaskJoinStates_def)

interpretation dg: gate_states delegation_kind
  by unfold_locales (simp_all add: delegation_kind_def trimTaskDelegationStates_def)

section \<open>The effect of a loop\<close>

text \<open>The stores that other callers' steps lead to.\<close>

definition others :: "world \<Rightarrow> TaskStore \<Rightarrow> TaskStore \<Rightarrow> bool" where
  "others w s s' \<longleftrightarrow> (s, s') \<in> {(x, w_env w k x) | x k. True}\<^sup>*"

lemma others_refl [simp]: "others w s s"
  by (simp add: others_def)

lemma others_step: "others w s s' \<Longrightarrow> others w s (w_env w k s')"
  unfolding others_def by (erule rtrancl_into_rtrancl) auto

lemma others_trans: "others w a b \<Longrightarrow> others w b c \<Longrightarrow> others w a c"
  by (simp add: others_def)

lemma put_task_failed: "put_task w k t s = (Inl e, s') \<Longrightarrow> s' = s"
  by (auto simp: put_task_def TaskStore_Upsert_def store_upsert_def Let_def
      split: option.splits prod.splits sum.splits if_splits)

definition one_write ::
  "world \<Rightarrow> string \<Rightarrow> ('a \<Rightarrow> instant \<Rightarrow> Task \<Rightarrow> 'a \<times> 'r verdict) \<Rightarrow> consumer_state \<Rightarrow> 'r \<Rightarrow> consumer_state \<Rightarrow> bool" where
  "one_write w key step s r s' \<longleftrightarrow>
     (\<exists>k st t a1 a2 t' logs m u s1.
        others w (cs_tasks s) st \<and> TaskStore_Get key st = Some t
        \<and> step a1 (w_now w k) t = (a2, Write t' logs m r)
        \<and> TaskStore_Upsert (w_now w k) t' (w_env w (2 * k + 1) st) = (Inr u, s1)
        \<and> cs_tasks s' = append_logs (w_now w k) key logs s1
        \<and> cs_memory s' = (if m then fmdrop key (cs_memory s) else cs_memory s))"

lemma one_write_after:
  "one_write w key step (s\<lparr>cs_tasks := st\<rparr>) r s' \<Longrightarrow> others w (cs_tasks s) st \<Longrightarrow> one_write w key step s r s'"
  unfolding one_write_def
  apply (elim exE conjE)
  apply (intro exI conjI)
       apply (rule others_trans, assumption, simp)
      apply assumption+
  apply simp
  done

text \<open>The loop ends without a write: the task is missing, or the step on the stored task returned.\<close>

definition returned ::
  "world \<Rightarrow> string \<Rightarrow> 'r \<Rightarrow> ('a \<Rightarrow> instant \<Rightarrow> Task \<Rightarrow> 'a \<times> 'r verdict) \<Rightarrow> consumer_state \<Rightarrow> 'r \<Rightarrow> consumer_state \<Rightarrow> bool" where
  "returned w key missing step s r s' \<longleftrightarrow>
     others w (cs_tasks s) (cs_tasks s') \<and> cs_memory s' = cs_memory s
     \<and> (case TaskStore_Get key (cs_tasks s') of
          None \<Rightarrow> r = missing
        | Some t \<Rightarrow> \<exists>k a a'. step a (w_now w k) t = (a', Return r))"

lemma returned_after:
  "returned w key missing step (s\<lparr>cs_tasks := st\<rparr>) r s' \<Longrightarrow> others w (cs_tasks s) st
    \<Longrightarrow> returned w key missing step s r s'"
  unfolding returned_def by (auto intro: others_trans)

definition outcome ::
  "world \<Rightarrow> string \<Rightarrow> 'r \<Rightarrow> ('a \<Rightarrow> instant \<Rightarrow> Task \<Rightarrow> 'a \<times> 'r verdict) \<Rightarrow> consumer_state
    \<Rightarrow> (store_failure + 'r) \<times> consumer_state \<Rightarrow> bool" where
  "outcome w key missing step s res \<longleftrightarrow>
     (case fst res of
        Inl e \<Rightarrow> others w (cs_tasks s) (cs_tasks (snd res)) \<and> cs_memory (snd res) = cs_memory s
      | Inr r \<Rightarrow> returned w key missing step s r (snd res) \<or> one_write w key step s r (snd res))"

lemma outcome_after:
  "outcome w key missing step (s\<lparr>cs_tasks := st\<rparr>) res \<Longrightarrow> others w (cs_tasks s) st \<Longrightarrow> outcome w key missing step s res"
  unfolding outcome_def by (auto split: sum.splits intro: others_trans returned_after one_write_after)

lemma cas_loop_outcome:
  assumes "0 < n \<or> lastErr \<noteq> None"
  shows "outcome w key missing step s (fst (cas_loop w key missing dflt step k n lastErr a s))"
  using assms
proof (induction w key missing dflt step k n lastErr a s rule: cas_loop.induct)
  case (1 w key missing dflt step k lastErr a s)
  then show ?case by (auto simp: outcome_def)
next
  case (2 w key missing dflt step k n lastErr a s)
  define s0 where "s0 = w_env w (2 * k) (cs_tasks s)"
  have o0: "others w (cs_tasks s) s0" unfolding s0_def by (rule others_step) simp
  show ?case
  proof (cases "w_get_err w k")
    case (Some e)
    show ?thesis
    proof (cases "w_slept w k")
      case True
      from 2(2) [OF s0_def Some] True
      have "outcome w key missing step (s\<lparr>cs_tasks := s0\<rparr>)
        (fst (cas_loop w key missing dflt step (Suc k) n (Some e) a (s\<lparr>cs_tasks := s0\<rparr>)))" by simp
      from outcome_after [OF this o0] True Some show ?thesis by (simp add: s0_def [symmetric] Let_def)
    qed (use Some o0 in \<open>simp add: outcome_def s0_def [symmetric] Let_def\<close>)
  next
    case None
    show ?thesis
    proof (cases "TaskStore_Get key s0")
      case None': None
      with None o0 show ?thesis by (simp add: outcome_def returned_def s0_def [symmetric] Let_def)
    next
      case (Some t)
      obtain a' v where v: "step a (w_now w k) t = (a', v)" by force
      show ?thesis
      proof (cases v)
        case (Return r)
        with None Some v o0 show ?thesis
          by (auto simp: outcome_def returned_def s0_def [symmetric] Let_def)
      next
        case (Write t' logs m r)
        obtain p s1 where p: "put_task w k t' (w_env w (2 * k + 1) s0) = (p, s1)" by force
        show ?thesis
        proof (cases p)
          case (Inl e)
          with p have s1: "others w (cs_tasks s) s1"
            using put_task_failed others_step [OF o0, of "2 * k + 1"] by metis
          show ?thesis
          proof (cases "w_slept w k")
            case True
            from 2(1) [OF s0_def None Some v [symmetric, unfolded Write] refl p [symmetric, unfolded Inl] refl] True
            have "outcome w key missing step (s\<lparr>cs_tasks := s1\<rparr>)
              (fst (cas_loop w key missing dflt step (Suc k) n (Some e) a' (s\<lparr>cs_tasks := s1\<rparr>)))" by simp
            from outcome_after [OF this s1] True None Some v Write p Inl show ?thesis
              by (simp add: s0_def [symmetric] Let_def)
          qed (use None Some v Write p Inl s1 in \<open>simp add: outcome_def s0_def [symmetric] Let_def\<close>)
        next
          case (Inr u)
          with p have u: "TaskStore_Upsert (w_now w k) t' (w_env w (2 * k + 1) s0) = (Inr u, s1)"
            by (auto simp: put_task_def split: option.splits prod.splits sum.splits)
          let ?s' = "s\<lparr>cs_tasks := append_logs (w_now w k) key logs s1,
              cs_memory := (if m then fmdrop key (cs_memory s) else cs_memory s)\<rparr>"
          have "one_write w key step s r ?s'"
            using u o0 Some v Write unfolding one_write_def
            by (intro exI [of _ k] exI [of _ s0] exI [of _ t] exI [of _ a] exI [of _ a'] exI [of _ t'] exI [of _ logs]
                exI [of _ m] exI [of _ u] exI [of _ s1]) simp
          moreover have "fst (cas_loop w key missing dflt step k (Suc n) lastErr a s) = (Inr r, ?s')"
            using None Some v Write p Inr by (simp add: s0_def [symmetric] Let_def)
          ultimately show ?thesis by (simp only: outcome_def fst_conv snd_conv sum.case) simp
        qed
      qed
    qed
  qed
qed

lemma with_retries_outcome: "outcome w key missing step s (with_retries w key missing dflt step a s)"
  unfolding with_retries_def by (rule cas_loop_outcome) simp

lemma with_retries_effect:
  assumes "with_retries w key missing dflt step a s = (res, s')"
  shows "(others w (cs_tasks s) (cs_tasks s') \<and> cs_memory s' = cs_memory s)
    \<or> (\<exists>r. res = Inr r \<and> one_write w key step s r s')"
  using with_retries_outcome [of w key missing step s dflt a] unfolding assms outcome_def returned_def
  by (auto split: sum.splits)

section \<open>Handled messages\<close>

abbreviation idem_of :: "Task \<Rightarrow> TaskMessageIdempotency list" where
  "idem_of t \<equiv> ts_MessageIdempotency (t_Status t)"

lemma idem_ensure: "ensureTaskMessageRecord now msg t = (i, t') \<Longrightarrow> idem_of t' = idem_of t"
  using ensureTaskMessageRecord_spec(6) [of now msg t i t'] by auto

lemma idem_keep [simp]:
  "idem_of (set_message i r t) = idem_of t"
  "idem_of (trimTaskMessages t) = idem_of t"
  "idem_of (trimTaskTrace t) = idem_of t"
  "idem_of (trimTaskHistory t) = idem_of t"
  "idem_of (observe t) = idem_of t"
  "idem_of (appendMessageTrace now msg ev txt t) = idem_of t"
  "idem_of (appendRuntimeStepTrace a es t) = idem_of t"
  "idem_of (updateTaskOutput res mode t) = idem_of t"
  "idem_of (extendWorkerLease now wk d t) = idem_of t"
  "idem_of (trimTaskIdempotency t) = keep_last 2000 (idem_of t)"
  by (simp_all add: set_message_def trimTaskMessages_def trimTaskTrace_def trimTaskHistory_def observe_def
      appendMessageTrace_def appendRuntimeStepTrace_def updateTaskOutput_def extendWorkerLease_def lease_status_def
      trimTaskIdempotency_def Let_def)

lemma idem_queue [simp]: "idem_of (queue_next now n t) = idem_of t"
  by (auto simp: queue_next_def Let_def idem_ensure split: prod.splits)

lemma idem_fold_queue [simp]: "idem_of (fold (queue_next now) ns t) = idem_of t"
  by (induction ns arbitrary: t) auto

lemma idem_fold_trace [simp]: "idem_of (fold (\<lambda>n. appendMessageTrace now n ev (f n)) ns t) = idem_of t"
  by (induction ns arbitrary: t) auto

text \<open>The mark survives the cut of the list when the list was within its bound.\<close>

definition marked :: "instant \<Rightarrow> AgentMessage \<Rightarrow> TaskMessageIdempotency list \<Rightarrow> bool" where
  "marked later m rs \<longleftrightarrow> isMessageIdempotent later rs (messageIdempotencyKey m)"

lemma marked_keep_last:
  assumes len: "length (idem_of t) \<le> 2000"
    and "year_in_range (now + 30 * 24 * Hour)" "later \<le> now + 30 * 24 * Hour"
    and "List.member [''completed'', ''deadletter''] (to_lower (trim_space st))"
  shows "marked later m (keep_last 2000 (idem_of (markMessageIdempotency now m st wk t)))"
proof (cases "find_idx (\<lambda>r. equal_fold (trim_space (mi_Key r)) (messageIdempotencyKey m)) (idem_of t)")
  case (Some i)
  then have "length (idem_of (markMessageIdempotency now m st wk t)) \<le> 2000"
    using len key_trimmed [of m] by (simp add: markMessageIdempotency_def Let_def)
  then show ?thesis
    using mark_then_idempotent [OF assms(2-4), of m wk t] by (simp add: marked_def keep_last_short)
next
  case None
  let ?m = "\<lambda>t. markMessageIdempotency now m st wk t"
  define u where "u = last (idem_of (?m t))"
  have app: "idem_of (?m t) = idem_of t @ [u]"
    using None key_trimmed [of m] by (simp add: u_def markMessageIdempotency_def Let_def)
  have "idem_of (?m (on_status (\<lambda>s. s\<lparr>ts_MessageIdempotency := []\<rparr>) t)) = [u]"
    using None key_trimmed [of m] by (simp add: u_def markMessageIdempotency_def Let_def)
  with mark_then_idempotent [OF assms(2-4), of m wk "on_status (\<lambda>s. s\<lparr>ts_MessageIdempotency := []\<rparr>) t"]
  have "marked later m [u]" by (simp add: marked_def)
  moreover obtain ys where "keep_last 2000 (idem_of t @ [u]) = ys @ [u]"
    using keep_last_snoc [of 2000 "idem_of t" u] by auto
  ultimately show ?thesis unfolding app by (auto simp: marked_def isMessageIdempotent_def Let_def split: if_splits)
qed

lemma begin_skips_marked:
  assumes "marked later m (idem_of t)" "messageIdempotencyKey m2 = messageIdempotencyKey m"
  shows "\<exists>b. begin_step c m2 later t = Return b \<and> br_skip b"
proof -
  obtain i t1 where i: "ensureTaskMessageRecord later m2 t = (i, t1)" by force
  have "isMessageIdempotent later (idem_of t1) (messageIdempotencyKey m2)"
    using assms by (simp add: marked_def idem_ensure [OF i])
  then show ?thesis by (simp add: begin_step_def i Let_def)
qed

lemma complete_step_idem:
  assumes "complete_step c msg rec res now t = Write t' l b u"
  shows "\<exists>t1. idem_of t1 = idem_of t
    \<and> idem_of t' = keep_last 2000 (idem_of (markMessageIdempotency now msg ''completed'' (cc_workerID c) t1))"
proof -
  obtain i t1 where i: "ensureTaskMessageRecord now msg t = (i, t1)" by force
  let ?t1 = "set_message i (succeed_record c now (carry_attempts t1 rec (msgs_of t1 ! i))) t1"
  have "idem_of t' = keep_last 2000 (idem_of (markMessageIdempotency now msg ''completed'' (cc_workerID c) ?t1))"
    using assms by (auto simp: complete_step_def i Let_def release_def split: if_splits)
  moreover have "idem_of ?t1 = idem_of t" by (simp add: idem_ensure [OF i])
  ultimately show ?thesis by blast
qed

lemma forward_step_idem:
  assumes "forward_step c msg rec res ns now t = Write t' l b u"
  shows "\<exists>t1. idem_of t1 = idem_of t
    \<and> idem_of t' = keep_last 2000 (idem_of (markMessageIdempotency now msg ''completed'' (cc_workerID c) t1))"
proof -
  obtain i t1 where i: "ensureTaskMessageRecord now msg t = (i, t1)" by force
  let ?t1 = "set_message i (succeed_record c now (carry_attempts t1 rec (msgs_of t1 ! i))) t1"
  have "idem_of t' = keep_last 2000 (idem_of (markMessageIdempotency now msg ''completed'' (cc_workerID c) ?t1))"
    using assms by (auto simp: forward_step_def i Let_def split: if_splits)
  moreover have "idem_of ?t1 = idem_of t" by (simp add: idem_ensure [OF i])
  ultimately show ?thesis by blast
qed

text \<open>The two outcomes of a failed attempt, with the record the decision is made on.\<close>

definition failed_record ::
  "consumer_config \<Rightarrow> AgentMessage \<Rightarrow> TaskMessage \<Rightarrow> go_error \<Rightarrow> instant \<Rightarrow> Task \<Rightarrow> TaskMessage" where
  "failed_record c msg rec err now t =
     (let (i, t1) = ensureTaskMessageRecord now msg t
      in (carry_attempts t1 rec (msgs_of t1 ! i))\<lparr>tm_Worker := trim_space (cc_workerID c),
           tm_LastError := trim_space (error_text err), tm_ProcessedAt := []\<rparr>)"

definition may_retry ::
  "consumer_config \<Rightarrow> AgentMessage \<Rightarrow> TaskMessage \<Rightarrow> go_error \<Rightarrow> instant \<Rightarrow> Task \<Rightarrow> bool" where
  "may_retry c msg rec err now t \<longleftrightarrow>
     rc_Retryable (classifyMessageRetryability (effectiveMessageRetryPolicy t) err)
     \<and> tm_Attempts (failed_record c msg rec err now t) < tm_MaxAttempts (failed_record c msg rec err now t)"

lemma policy_cong: "t_Spec t' = t_Spec t \<Longrightarrow> effectiveMessageRetryPolicy t' = effectiveMessageRetryPolicy t"
  by (simp add: effectiveMessageRetryPolicy_def)

lemma spec_extend [simp]: "t_Spec (extendWorkerLease now wk d t) = t_Spec t"
  by (simp add: extendWorkerLease_def Let_def)

lemma msgs_extend [simp]: "msgs_of (extendWorkerLease now wk d t) = msgs_of t"
  by (simp add: extendWorkerLease_def lease_status_def Let_def)

lemma phase_keep [simp]:
  "ts_Phase (t_Status (set_message i r t)) = ts_Phase (t_Status t)"
  "ts_Phase (t_Status (appendMessageTrace now msg ev txt t)) = ts_Phase (t_Status t)"
  "ts_Phase (t_Status (observe t)) = ts_Phase (t_Status t)"
  "ts_Phase (t_Status (extendWorkerLease now wk d t)) = ts_Phase (t_Status t)"
  by (simp_all add: set_message_def appendMessageTrace_def trimTaskTrace_def observe_def extendWorkerLease_def
      lease_status_def Let_def)

lemma retry_step_retry:
  assumes open_task: "\<not> isTerminalTaskPhase (ts_Phase (t_Status t))" and may: "may_retry c msg rec err now t"
  defines "d \<equiv> computeMessageRetryDelay (effectiveMessageRetryPolicy t) msg
    (tm_Attempts (failed_record c msg rec err now t))"
  shows "\<exists>t' l. retry_step c msg rec err now t = Write t' l False (True, d)
    \<and> ts_Phase (t_Status t') = ts_Phase (t_Status t)
    \<and> (\<exists>i. find_idx (same_id msg) (msgs_of t') = Some i \<and> msgs_of t' ! i = (failed_record c msg rec err now t)
          \<lparr>tm_Phase := ''RetryPending'', tm_NextAttemptAt := format_nano (now + d)\<rparr>)"
proof -
  obtain i t1 where i: "ensureTaskMessageRecord now msg t = (i, t1)" by force
  note es = ensureTaskMessageRecord_spec [OF i]
  have ph: "ts_Phase (t_Status t1) = ts_Phase (t_Status t)" using es(6) by auto
  have pol: "effectiveMessageRetryPolicy (extendWorkerLease now wk x t1) = effectiveMessageRetryPolicy t" for wk x
    by (rule policy_cong) (simp add: es(5))
  let ?r = "failed_record c msg rec err now t"
  have r: "?r = (carry_attempts t1 rec (msgs_of t1 ! i))\<lparr>tm_Worker := trim_space (cc_workerID c),
      tm_LastError := trim_space (error_text err), tm_ProcessedAt := []\<rparr>"
    by (simp add: failed_record_def i)
  have "find_idx (same_id msg) ((msgs_of t1)[i := ?r\<lparr>tm_Phase := p, tm_NextAttemptAt := q\<rparr>]) = Some i" for p q
    by (rule find_idx_cong_update [OF es(3)]) (use es(2) in \<open>simp add: r carry_attempts_def\<close>)
  with may open_task show ?thesis
    unfolding retry_step_def i prod.case Let_def pol r [symmetric] d_def may_retry_def
    by (simp add: es(1) ph)
qed

lemma retry_step_dead:
  assumes open_task: "\<not> isTerminalTaskPhase (ts_Phase (t_Status t))" and may: "\<not> may_retry c msg rec err now t"
  shows "\<exists>t' l. retry_step c msg rec err now t = Write t' l True (False, 0)
    \<and> ts_Phase (t_Status t') = ''DeadLetter'' \<and> ts_ClaimedBy (t_Status t') = []
    \<and> (\<exists>i. find_idx (same_id msg) (msgs_of t') = Some i \<and> msgs_of t' ! i = (failed_record c msg rec err now t)
          \<lparr>tm_Phase := ''DeadLetter'', tm_ProcessedAt := format_nano now, tm_NextAttemptAt := []\<rparr>)
    \<and> (\<exists>t1. idem_of t1 = idem_of t
          \<and> idem_of t' = keep_last 2000 (idem_of (markMessageIdempotency now msg ''deadletter'' (cc_workerID c) t1)))"
proof -
  obtain i t1 where i: "ensureTaskMessageRecord now msg t = (i, t1)" by force
  note es = ensureTaskMessageRecord_spec [OF i]
  have pol: "effectiveMessageRetryPolicy (extendWorkerLease now wk x t1) = effectiveMessageRetryPolicy t" for wk x
    by (rule policy_cong) (simp add: es(5))
  let ?r = "failed_record c msg rec err now t"
  have r: "?r = (carry_attempts t1 rec (msgs_of t1 ! i))\<lparr>tm_Worker := trim_space (cc_workerID c),
      tm_LastError := trim_space (error_text err), tm_ProcessedAt := []\<rparr>"
    by (simp add: failed_record_def i)
  have f: "find_idx (same_id msg) ((msgs_of t1)[i := ?r\<lparr>tm_Phase := p, tm_ProcessedAt := q, tm_NextAttemptAt := []\<rparr>]) = Some i" for q p
    by (rule find_idx_cong_update [OF es(3)]) (use es(2) in \<open>simp add: r carry_attempts_def\<close>)
  define cls where "cls = classifyMessageRetryability (effectiveMessageRetryPolicy t) err"
  define t2 where "t2 = (let t = extendWorkerLease now (cc_workerID c) (cc_leaseExtend c) t1 in
     if \<not> rc_Retryable cls then
       appendMessageTrace now msg ''agent_message_non_retryable'' (''message_id='' @ am_MessageID msg
         @ '' reason='' @ rc_Reason cls @ '' error='' @ tm_LastError ?r) t else t)"
  have t2: "msgs_of t2 = msgs_of t1" "idem_of t2 = idem_of t"
    by (simp_all add: t2_def Let_def idem_ensure [OF i])
  let ?s = "set_message i (?r\<lparr>tm_Phase := ''DeadLetter'', tm_ProcessedAt := format_nano now, tm_NextAttemptAt := []\<rparr>) t2"
  have idem: "idem_of ?s = idem_of t" by (simp add: t2)
  show ?thesis
    using may open_task f [where p = "''DeadLetter''" and q = "format_nano now"]
    unfolding retry_step_def dead_letter_def i prod.case Let_def pol r [symmetric] may_retry_def cls_def [symmetric]
      t2_def [unfolded Let_def, symmetric]
    by (auto simp: es(1) t2 trimTaskHistory_def observe_def release_def trimTaskIdempotency_def
        intro!: exI [of _ ?s] idem)
qed

end
