(* ===== verification/Consumer_Props.thy ===== *)
theory Consumer_Props
  imports Message_Consumer
begin

text \<open>
  The properties of message consumption: what a handler call may do to the store, that a handled
  message is not run again, when a failed message is retried or dead-lettered, who may work on a
  task, and that a join or delegation gate behaves as a counter of arrivals that fires once.
\<close>

section \<open>A handler call\<close>

definition calm :: "instant \<Rightarrow> world" where
  "calm now = \<lparr>w_env = (\<lambda>_ s. s), w_get_err = (\<lambda>_. None), w_put_err = (\<lambda>_. None), w_slept = (\<lambda>_. True),
     w_now = (\<lambda>_. now)\<rparr>"

text \<open>
  C26: Whatever fails and whatever others do meanwhile, a handler call has at most one effect. If
  it fails, or returns without writing, the store is one that the other callers' steps alone
  lead to and the shared memory is untouched; otherwise it has made exactly one accepted write, of what
  its step computed from a task that was in the store, followed by its log lines.
\<close>

theorem handler_single_effect:
  assumes "with_retries w key missing dflt step a s = (res, s')"
  shows "(others w (cs_tasks s) (cs_tasks s') \<and> cs_memory s' = cs_memory s)
    \<or> (\<exists>r. res = Inr r \<and> one_write w key step s r s')"
  using assms by (rule with_retries_effect)

definition demo_cfg :: consumer_config where
  "demo_cfg = NewAgentMessageConsumerManager ''w1'' 0 0"

definition demo_state :: consumer_state where
  "demo_state = \<lparr>cs_tasks = demo_store, cs_memory = fmempty\<rparr>"

theorem handler_single_effect_witness:
  "\<exists>r s'. with_retries (calm 0) ''default/t1'' begin_missing begin_missing (stateless (begin_step demo_cfg demo_msg)) () demo_state
       = (Inr r, s')
     \<and> cs_tasks s' \<noteq> demo_store
     \<and> one_write (calm 0) ''default/t1'' (stateless (begin_step demo_cfg demo_msg)) demo_state r s'"
proof -
  let ?x = "with_retries (calm 0) ''default/t1'' begin_missing begin_missing (stateless (begin_step demo_cfg demo_msg)) () demo_state"
  have o: "others (calm 0) s s' \<longleftrightarrow> s' = s" for s s'
  proof
    have "{(x, w_env (calm 0) k x) | x k. True} = Id" by (auto simp: calm_def)
    then show "others (calm 0) s s' \<Longrightarrow> s' = s" by (simp add: others_def)
  qed simp
  have ch: "\<not> isl (fst ?x)" "cs_tasks (snd ?x) \<noteq> demo_store" by code_simp+
  obtain r s' where x: "?x = (Inr r, s')" using ch(1) by (metis prod.collapse isl_def obj_sumE)
  with ch(2) handler_single_effect [OF x] show ?thesis by (auto simp: o demo_state_def)
qed

section \<open>Handled messages\<close>


lemma complete_step_writes:
  "\<not> isTerminalTaskPhase (ts_Phase (t_Status t)) \<Longrightarrow> \<exists>t' l b u. complete_step c msg rec res now t = Write t' l b u"
  by (auto simp: complete_step_def Let_def split_def)

definition demo_result :: AgentExecutionResult where
  "demo_result = \<lparr>xr_Agent = ''b'', xr_Model = [], xr_Steps = 1, xr_ToolCalls = 0, xr_MemoryWrites = 0,
     xr_EstimatedTokens = 0, xr_TokensUsed = 0, xr_TokenSource = [], xr_Duration = 0, xr_Output = ''ok'',
     xr_LastEvent = [], xr_Events = [], xr_StepEvents = []\<rparr>"


section \<open>Failed messages\<close>

text \<open>
  C27: A failed message is retried or dead-lettered, by its error and its attempts. On a task that
  is not finished: when the error is transient and attempts are left, the message becomes pending
  with its next attempt after the policy's delay and the task goes on; otherwise the message and
  the task are dead-lettered and the worker's claim ends. No other outcome is possible.
\<close>

theorem retry_or_dead_letter:
  assumes "\<not> isTerminalTaskPhase (ts_Phase (t_Status t))"
    "retry_step c msg rec err now t = Write t' l b (retry, d)"
  shows "\<exists>i r. find_idx (same_id msg) (msgs_of t') = Some i \<and> r = msgs_of t' ! i
    \<and> tm_Attempts r = tm_Attempts (failed_record c msg rec err now t)
    \<and> retry = (rc_Retryable (classifyMessageRetryability (effectiveMessageRetryPolicy t) err)
                \<and> tm_Attempts r < tm_MaxAttempts r)
    \<and> (if retry then tm_Phase r = ''RetryPending'' \<and> ts_Phase (t_Status t') = ts_Phase (t_Status t)
          \<and> d = computeMessageRetryDelay (effectiveMessageRetryPolicy t) msg (tm_Attempts r)
          \<and> tm_NextAttemptAt r = format_nano (now + d)
        else tm_Phase r = ''DeadLetter'' \<and> ts_Phase (t_Status t') = ''DeadLetter''
          \<and> ts_ClaimedBy (t_Status t') = [])"
proof (cases "may_retry c msg rec err now t")
  case True
  with retry_step_retry [OF assms(1) True] assms(2) show ?thesis by (auto simp: may_retry_def)
next
  case False
  with retry_step_dead [OF assms(1) False] assms(2) show ?thesis by (auto simp: may_retry_def)
qed

theorem retry_or_dead_letter_witness:
  "(\<exists>t' l b d. retry_step demo_cfg demo_msg zero_TaskMessage (ErrGateway 400 [] ''bad request'') 0 demo_task
      = Write t' l b (False, d) \<and> ts_Phase (t_Status t') = ''DeadLetter'')
   \<and> (\<exists>t' l b d. retry_step demo_cfg demo_msg zero_TaskMessage (ErrGateway 503 [] ''overloaded'') 0
         (demo_task\<lparr>t_Spec := (t_Spec demo_task)\<lparr>sp_MessageRetry := demo_policy ''none''\<rparr>\<rparr>)
      = Write t' l b (True, d) \<and> ts_Phase (t_Status t') = [])"
proof -
  let ?t2 = "demo_task\<lparr>t_Spec := (t_Spec demo_task)\<lparr>sp_MessageRetry := demo_policy ''none''\<rparr>\<rparr>"
  have op: "\<not> isTerminalTaskPhase (ts_Phase (t_Status demo_task))" "\<not> isTerminalTaskPhase (ts_Phase (t_Status ?t2))"
    by code_simp+
  have "\<not> may_retry demo_cfg demo_msg zero_TaskMessage (ErrGateway 400 [] ''bad request'') 0 demo_task"
    "may_retry demo_cfg demo_msg zero_TaskMessage (ErrGateway 503 [] ''overloaded'') 0 ?t2"
    by code_simp+
  from retry_step_dead [OF op(1) this(1)] retry_step_retry [OF op(2) this(2)]
  obtain ta la ba da tb lb bb db where
    a: "retry_step demo_cfg demo_msg zero_TaskMessage (ErrGateway 400 [] ''bad request'') 0 demo_task = Write ta la ba (False, da)"
    and b: "retry_step demo_cfg demo_msg zero_TaskMessage (ErrGateway 503 [] ''overloaded'') 0 ?t2 = Write tb lb bb (True, db)"
    by blast
  have ph: "ts_Phase (t_Status ?t2) = []" by code_simp
  have "ts_Phase (t_Status ta) = ''DeadLetter''" using retry_or_dead_letter [OF op(1) a] by auto
  moreover have "ts_Phase (t_Status tb) = []" using retry_or_dead_letter [OF op(2) b] unfolding ph by auto
  ultimately show ?thesis using a b by blast
qed

section \<open>Ownership\<close>

text \<open>
  While a worker's lease on a task runs, no other worker gets to handle its messages: it is
  told to come back when the lease ends, and the task is left as it is.
\<close>

theorem ownership_exclusive:
  assumes "acquireMessageOwnership c1 now msg1 t = (o1, t1)" "ow_owned o1" "trim_space (cc_workerID c1) \<noteq> []"
    "\<not> equal_fold (trim_space (cc_workerID c1)) (trim_space (cc_workerID c2))" "trim_space (cc_workerID c2) \<noteq> []"
    "lease = (if cc_leaseExtend c1 \<le> 0 then 30 * Second else cc_leaseExtend c1)" "in_int64 lease"
    "now \<le> later" "later < now + lease" "year_in_range (now + lease)"
  shows "acquireMessageOwnership c2 later msg2 t1
    = (\<lparr>ow_owned = False, ow_retryAfter = now + lease - later, ow_changed = False, ow_takeover = False\<rparr>, t1)"
proof -
  let ?w1 = "trim_space (cc_workerID c1)"
  have t1: "trim_space (ts_ClaimedBy (t_Status t1)) = ?w1" "ts_LeaseUntil (t_Status t1) = format_nano (now + lease)"
    using assms(1,2,3,6)
    by (auto simp: acquireMessageOwnership_def Let_def lease_status_def trimTaskHistory_def split: if_splits option.splits)
  have p: "parseTaskLeaseUntil (format_nano (now + lease)) = Some (now + lease)"
    using parse_format_nano [OF assms(10)] format_trim(1) [of "now + lease"]
    by (auto simp: parseTaskLeaseUntil_def Let_def format_nano_def)
  have sub: "time_sub (now + lease) later = now + lease - later" "0 < now + lease - later"
    using assms(7,8,9) by (auto simp: time_sub_def Let_def in_int64_def)
  show ?thesis
    using assms(3,4,5,9) t1 p sub unfolding acquireMessageOwnership_def Let_def by simp
qed

theorem ownership_exclusive_witness:
  "\<exists>o1 t1. acquireMessageOwnership demo_cfg 0 demo_msg demo_task = (o1, t1) \<and> ow_owned o1
     \<and> acquireMessageOwnership (demo_cfg\<lparr>cc_workerID := ''w2''\<rparr>) (5 * Second) demo_msg t1
        = (\<lparr>ow_owned = False, ow_retryAfter = 25 * Second, ow_changed = False, ow_takeover = False\<rparr>, t1)"
proof -
  obtain o1 t1 where a: "acquireMessageOwnership demo_cfg 0 demo_msg demo_task = (o1, t1)" by force
  have "ow_owned (fst (acquireMessageOwnership demo_cfg 0 demo_msg demo_task))" by code_simp
  with a have o: "ow_owned o1" by simp
  have pre: "trim_space (cc_workerID demo_cfg) \<noteq> []"
    "\<not> equal_fold (trim_space (cc_workerID demo_cfg)) (trim_space (cc_workerID (demo_cfg\<lparr>cc_workerID := ''w2''\<rparr>)))"
    "trim_space (cc_workerID (demo_cfg\<lparr>cc_workerID := ''w2''\<rparr>)) \<noteq> []"
    "30 * Second = (if cc_leaseExtend demo_cfg \<le> 0 then 30 * Second else cc_leaseExtend demo_cfg)"
    "in_int64 (30 * Second)" "0 \<le> 5 * Second" "5 * Second < 0 + 30 * Second" "year_in_range (0 + 30 * Second)"
    by code_simp+
  from ownership_exclusive [OF a o pre, of demo_msg] a o show ?thesis by simp
qed

section \<open>Gates\<close>

lemma gk_states_join: "gk_states join_kind t = ts_JoinStates (t_Status t)"
  by (simp add: join_kind_def)

lemma gk_states_delegation: "gk_states delegation_kind t = ts_DelegationStates (t_Status t)"
  by (simp add: delegation_kind_def)

text \<open>
  C23: The join gate implements a counter of arrivals. Seen through the ids that have arrived at a
  node and whether it has fired, a message at the gate does what the specification \<open>arrive\<close> says:
  it waits while fewer than the required number of different messages have come, fires the gate
  and goes on to the agent when it completes that number, and ends there when the gate has fired.
\<close>

theorem join_gate_refines:
  assumes "gate_ok (norm_attempt msg) node (ts_JoinStates (t_Status t))" "open_record now msg t"
  shows "\<exists>t' d. gate_step join_kind c msg node mode e r now t = Write t' [] False d
    \<and> gate_ok (norm_attempt msg) node (ts_JoinStates (t_Status t'))
    \<and> arrive r (norm_id (am_MessageID msg)) (gate_view (norm_attempt msg) node (ts_JoinStates (t_Status t)))
        = (if gd_SkipExecution d
           then (if snd (gate_view (norm_attempt msg) node (ts_JoinStates (t_Status t))) then Late else Wait)
           else Fire,
           gate_view (norm_attempt msg) node (ts_JoinStates (t_Status t')))"
  using jg.gate_step_refines [of msg node t now c mode e r] assms by (simp only: gk_states_join)

lemma demo_gate_ok: "gate_ok (norm_attempt demo_msg) ''b'' (ts_JoinStates (t_Status demo_task))" "open_record 0 demo_msg demo_task"
  by code_simp+

theorem join_gate_refines_witness:
  "(\<exists>t' d. gate_step join_kind demo_cfg demo_msg ''b'' ''quorum'' 2 1 0 demo_task = Write t' [] False d
      \<and> \<not> gd_SkipExecution d)
   \<and> (\<exists>t' d. gate_step join_kind demo_cfg demo_msg ''b'' ''wait_for_all'' 2 2 0 demo_task = Write t' [] False d
      \<and> gd_SkipExecution d)"
proof -
  let ?v = "gate_view (norm_attempt demo_msg) ''b'' (ts_JoinStates (t_Status demo_task))"
  have "?v = ({}, False)" by code_simp
  then have v: "fst (arrive 1 (norm_id (am_MessageID demo_msg)) ?v) = Fire"
    "fst (arrive 2 (norm_id (am_MessageID demo_msg)) ?v) = Wait" by (simp_all add: arrive_def)
  obtain t1 d1 where 1: "gate_step join_kind demo_cfg demo_msg ''b'' ''quorum'' 2 1 0 demo_task = Write t1 [] False d1"
    "arrive 1 (norm_id (am_MessageID demo_msg)) ?v = (if gd_SkipExecution d1 then (if snd ?v then Late else Wait) else Fire,
       gate_view (norm_attempt demo_msg) ''b'' (ts_JoinStates (t_Status t1)))"
    by (rule exE [OF join_gate_refines [OF demo_gate_ok, of demo_cfg "''quorum''" 2 1]]) (elim exE conjE, rule that)
  obtain t2 d2 where 2: "gate_step join_kind demo_cfg demo_msg ''b'' ''wait_for_all'' 2 2 0 demo_task = Write t2 [] False d2"
    "arrive 2 (norm_id (am_MessageID demo_msg)) ?v = (if gd_SkipExecution d2 then (if snd ?v then Late else Wait) else Fire,
       gate_view (norm_attempt demo_msg) ''b'' (ts_JoinStates (t_Status t2)))"
    by (rule exE [OF join_gate_refines [OF demo_gate_ok, of demo_cfg "''wait_for_all''" 2 2]]) (elim exE conjE, rule that)
  have "\<not> gd_SkipExecution d1" "gd_SkipExecution d2"
    using v unfolding 1(2) 2(2) by (auto split: if_splits)
  with 1(1) 2(1) show ?thesis by blast
qed


lemma demo_arrival:
  "\<exists>t' d. gate_step join_kind demo_cfg demo_msg ''b'' ''quorum'' 2 1 0 demo_task = Write t' [] False d
     \<and> \<not> gd_SkipExecution d \<and> open_record 5 demo_msg t' \<and> length (msgs_of t') < 500"
proof -
  have "case gate_step join_kind demo_cfg demo_msg ''b'' ''quorum'' 2 1 0 demo_task of
      Write t' l b d \<Rightarrow> l = [] \<and> \<not> b \<and> \<not> gd_SkipExecution d \<and> open_record 5 demo_msg t' \<and> length (msgs_of t') < 500
    | Return _ \<Rightarrow> False" by code_simp
  then show ?thesis by (cases "gate_step join_kind demo_cfg demo_msg ''b'' ''quorum'' 2 1 0 demo_task") auto
qed


text \<open>
  A gate swallows the retry of the message that fired it. When the message that completed the
  join comes back, because the agent's execution failed and was scheduled for another attempt,
  and nothing has touched the gate since, it is recorded as succeeded and not executed: no message is
  left to run the node, although its agent never succeeded.
\<close>

theorem gate_swallows_retry:
  assumes "kind = join_kind \<or> kind = delegation_kind" "gate_ok (norm_attempt msg) node (gk_states kind t)"
    "gate_step kind c msg node mode e r now t = Write t1 l b d" "\<not> gd_SkipExecution d"
    "gates_of t2 = gates_of t1" "open_record now2 msg t2" "length (msgs_of t2) < 500"
  shows "\<exists>t3 d2. gate_step kind c msg node mode e r now2 t2 = Write t3 [] False d2
    \<and> gd_SkipExecution d2 \<and> \<not> open_record now3 msg t3"
  using assms(1)
proof
  assume k: "kind = join_kind"
  from jg.gate_refire [OF assms(2-7) [unfolded k]] show ?thesis unfolding k .
next
  assume k: "kind = delegation_kind"
  from dg.gate_refire [OF assms(2-7) [unfolded k]] show ?thesis unfolding k .
qed

theorem gate_swallows_retry_witness:
  "\<exists>t1 t3 d d2. gate_step join_kind demo_cfg demo_msg ''b'' ''quorum'' 2 1 0 demo_task = Write t1 [] False d
     \<and> \<not> gd_SkipExecution d
     \<and> gate_step join_kind demo_cfg demo_msg ''b'' ''quorum'' 2 1 5 t1 = Write t3 [] False d2 \<and> gd_SkipExecution d2"
proof -
  obtain t1 d where g: "gate_step join_kind demo_cfg demo_msg ''b'' ''quorum'' 2 1 0 demo_task = Write t1 [] False d"
    "\<not> gd_SkipExecution d" "open_record 5 demo_msg t1" "length (msgs_of t1) < 500" using demo_arrival by auto
  have ok: "gate_ok (norm_attempt demo_msg) ''b'' (gk_states join_kind demo_task)"
    using demo_gate_ok(1) by (simp add: gk_states_join)
  from gate_swallows_retry [OF disjI1 [OF refl] ok g(1,2) refl g(3,4)] g(1,2) show ?thesis by blast
qed

section \<open>Trace markers\<close>

text \<open>
  The check for processed messages confuses ids. A delivery is acknowledged without being
  processed when the trace says that some other message was processed whose id merely begins
  with this message's id, as that of an agent \<open>writer2\<close> begins with that of \<open>writer\<close>.
\<close>

theorem processed_prefix_confusion:
  assumes "messageTaskKey msg = Some key" "w_get_err w 0 = None" "TaskStore_Get key s = Some t"
    "\<not> isTerminalTaskPhase (ts_Phase (t_Status t))"
    "\<not> equal_fold (trim_space (ts_Phase (t_Status t))) ''waitingapproval''"
    "trim_space (am_MessageID msg) \<noteq> []" "other = trim_space (am_MessageID msg) @ tail"
    "e \<in> set (ts_Trace (t_Status t))" "equal_fold (trim_space (te_Type e)) ''agent_message_processed''"
    "te_Message e = ''message_id='' @ other @ rest"
  shows "handleDelivery w msg s = Inl None"
proof -
  have lit: "trim_space ''agent_message_processed'' = ''agent_message_processed''" by code_simp
  have "te_Message e = [] @ (''message_id='' @ trim_space (am_MessageID msg)) @ (tail @ rest)"
    using assms(7,10) by simp
  then have "str_contains (te_Message e) (''message_id='' @ trim_space (am_MessageID msg))"
    unfolding str_contains_iff by (metis sublist_appendI)
  then have "isMessageProcessed (ts_Trace (t_Status t)) (am_MessageID msg)"
    using assms(6,8,9) unfolding isMessageProcessed_def hasTraceMarker_def Let_def list_ex_iff lit by blast
  then show ?thesis using assms(1-5) by (simp add: handleDelivery_def)
qed

definition demo_traced :: TaskStore where
  "demo_traced = snd (TaskStore_Upsert 0 (on_status (\<lambda>s. s\<lparr>ts_Phase := ''Running'', ts_Trace := [zero_TraceEvent\<lparr>
     te_Type := ''agent_message_processed'', te_Message := ''message_id=m12 status=succeeded''\<rparr>]\<rparr>) demo_task) NewTaskStore)"

theorem processed_prefix_confusion_witness:
  "handleDelivery (calm 0) demo_msg demo_traced = Inl None"
proof -
  let ?e = "zero_TraceEvent\<lparr>te_Type := ''agent_message_processed'', te_Message := ''message_id=m12 status=succeeded''\<rparr>"
  let ?t = "the (TaskStore_Get ''default/t1'' demo_traced)"
  have "TaskStore_Get ''default/t1'' demo_traced \<noteq> None" by code_simp
  then have g: "TaskStore_Get ''default/t1'' demo_traced = Some ?t" by simp
  have pre: "messageTaskKey demo_msg = Some ''default/t1''" "\<not> isTerminalTaskPhase (ts_Phase (t_Status ?t))"
    "\<not> equal_fold (trim_space (ts_Phase (t_Status ?t))) ''waitingapproval''"
    "trim_space (am_MessageID demo_msg) \<noteq> []" "''m12'' = trim_space (am_MessageID demo_msg) @ ''2''"
    "ts_Trace (t_Status ?t) = [?e]" "equal_fold (trim_space (te_Type ?e)) ''agent_message_processed''"
    "te_Message ?e = ''message_id='' @ ''m12'' @ '' status=succeeded''"
    by code_simp+
  have e: "?e \<in> set (ts_Trace (t_Status ?t))" unfolding pre(6) by simp
  show ?thesis
    by (rule processed_prefix_confusion [OF pre(1) _ g pre(2-5) e pre(7,8)]) (simp add: calm_def)
qed

end
