(* ===== verification/Redaction.thy ===== *)
theory Redaction
  imports Go_Prelude
begin

text \<open>
  Redaction of secrets in error texts and the framing of tool output (runtime/redact.go).

  The regular expressions are sequences of classes in which each class is disjoint from what may
  follow it, so greedy matching without backtracking finds what Go's leftmost-first matching finds
  (\<open>match_items\<close>); \<open>replace_all\<close> is ReplaceAllString: leftmost matches that do not overlap. As
  everywhere, case folding is that of ASCII.
\<close>

section \<open>Patterns\<close>

datatype pattern_item =
    Literal string
  | Maybe "char list"
  | OneOf "char list"
  | Spaces bool

text \<open>\<open>Spaces True\<close> is \<open>\s+\<close>, \<open>Spaces False\<close> is \<open>\s*\<close>; the class \<open>\s\<close> has five characters.\<close>

definition re_space :: "char \<Rightarrow> bool" where
  "re_space c \<longleftrightarrow> List.member [CHR 0x20, CHR 0x09, CHR 0x0A, CHR 0x0C, CHR 0x0D] c"

text \<open>The text an initial match of the items takes, and the rest.\<close>

fun match_items :: "pattern_item list \<Rightarrow> string \<Rightarrow> (string \<times> string) option" where
  "match_items [] s = Some ([], s)"
| "match_items (Literal l # items) s =
     (if equal_fold (take (length l) s) l
      then map_option (\<lambda>(m, r). (take (length l) s @ m, r)) (match_items items (drop (length l) s))
      else None)"
| "match_items (Maybe cs # items) s =
     (case s of
        c # s' \<Rightarrow> if List.member cs c then map_option (\<lambda>(m, r). (c # m, r)) (match_items items s')
                  else match_items items s
      | [] \<Rightarrow> match_items items s)"
| "match_items (OneOf cs # items) s =
     (case s of
        c # s' \<Rightarrow> if List.member cs c then map_option (\<lambda>(m, r). (c # m, r)) (match_items items s')
                  else None
      | [] \<Rightarrow> None)"
| "match_items (Spaces needed # items) s =
     (if needed \<and> takeWhile re_space s = [] then None
      else map_option (\<lambda>(m, r). (takeWhile re_space s @ m, r)) (match_items items (dropWhile re_space s)))"

text \<open>A match of the group followed by \<open>\S+\<close>: the group and what comes after the secret.\<close>

definition match_secret :: "pattern_item list \<Rightarrow> string \<Rightarrow> (string \<times> string) option" where
  "match_secret items s =
     (case match_items items s of
        None \<Rightarrow> None
      | Some (g, r) \<Rightarrow>
          if takeWhile (\<lambda>c. \<not> re_space c) r = [] then None
          else Some (g, dropWhile (\<lambda>c. \<not> re_space c) r))"

definition key_char :: "char \<Rightarrow> bool" where
  "key_char c \<longleftrightarrow> (let n = (of_char c :: nat) in
     65 \<le> n \<and> n \<le> 90 \<or> 97 \<le> n \<and> n \<le> 122 \<or> is_digit c \<or> n = 95 \<or> n = 45)"

text \<open>The pattern of keys that begin with \<open>sk-\<close> has no group; it is sensitive to case.\<close>

definition match_key :: "string \<Rightarrow> (string \<times> string) option" where
  "match_key s =
     (if has_prefix s ''sk-'' \<and> 10 \<le> length (takeWhile key_char (drop 3 s))
      then Some ([], dropWhile key_char (drop 3 s)) else None)"

definition redactedPlaceholder :: string where
  "redactedPlaceholder = ''[REDACTED]''"

text \<open>A match is never empty, so what is left to search gets shorter.\<close>

function replace_all :: "(string \<Rightarrow> (string \<times> string) option) \<Rightarrow> string \<Rightarrow> string" where
  "replace_all pat [] = []"
| "replace_all pat (c # s) =
     (case pat (c # s) of
        Some (g, r) \<Rightarrow>
          if length r < length (c # s) then g @ redactedPlaceholder @ replace_all pat r
          else c # replace_all pat s
      | None \<Rightarrow> c # replace_all pat s)"
  by pat_completeness auto
termination by (relation "measure (length \<circ> snd)") auto

definition assignment :: "pattern_item list \<Rightarrow> pattern_item list" where
  "assignment name = name @ [Spaces False, OneOf ''=:'', Spaces False]"

definition sensitivePatterns :: "(string \<Rightarrow> (string \<times> string) option) list" where
  "sensitivePatterns =
     [match_secret [Literal ''Bearer'', Spaces True],
      match_secret [Literal ''Authorization:'', Spaces False],
      match_secret [Literal ''X-Api-Key:'', Spaces False],
      match_secret (assignment [Literal ''api'', Maybe ''_-'', Literal ''key'']),
      match_secret (assignment [Literal ''secret'']),
      match_secret (assignment [Literal ''password'']),
      match_secret (assignment [Literal ''token'']),
      match_key]"

definition RedactSensitive :: "string \<Rightarrow> string" where
  "RedactSensitive s = (if s = [] then s else trim_space (fold replace_all sensitivePatterns s))"

lemma replace_all_match:
  "pat (c # s) = Some (g, r) \<Longrightarrow> length r \<le> length s \<Longrightarrow>
     replace_all pat (c # s) = g @ redactedPlaceholder @ replace_all pat r"
  by simp

lemma replace_all_none: "\<forall>k < length s. pat (drop k s) = None \<Longrightarrow> replace_all pat s = s"
proof (induction s)
  case (Cons c s)
  from Cons.prems have "pat (c # s) = None" by (metis drop0 length_greater_0_conv list.distinct(1))
  moreover have "\<forall>k < length s. pat (drop k s) = None"
    using Cons.prems by (metis Suc_less_eq drop_Suc_Cons length_Cons)
  ultimately show ?case using Cons.IH by simp
qed simp

text \<open>The credentials of HTTP basic authentication stay in the text: only the scheme's name is replaced.\<close>

theorem redaction_leaks_basic:
  "RedactSensitive ''Authorization: Basic dXNlcg=='' = ''Authorization: [REDACTED] dXNlcg==''"
  by code_simp

section \<open>Tool output\<close>

definition maxToolOutputBytes :: nat where
  "maxToolOutputBytes = 64 * 1024"

definition sanitizeToolOutput :: "string \<Rightarrow> string" where
  "sanitizeToolOutput result =
     (let result = (if maxToolOutputBytes < length result
                    then take maxToolOutputBytes result @ [CHR 0x0A] @ ''[output truncated]''
                    else result)
      in ''<tool_result>'' @ [CHR 0x0A] @ result @ [CHR 0x0A] @ ''</tool_result>'')"

end
