(* ===== verification/Tool_Approval.thy ===== *)
theory Tool_Approval
  imports Redaction Agent_Message Message_Policy Resource_Store
begin

text \<open>
  Approvals (resources/resource_types.go, store/resource_stores.go): a tool call or an output that a
  human must decide on, the two stores, the deterministic names under which the components find the
  approval of a call (runtime/tool_approval_message_key.go), and the decision requests of the API
  (api/server.go).

  The resume context of a task approval is a generic JSON map in the code, written by encoding a
  struct and read by decoding it; here it is what decoding gives, or the error decoding fails with.
  An output is nil, a text, a map of texts, or another JSON value, which is its text.
\<close>

section \<open>Resources\<close>

record ToolApprovalSpec =
  ap_TaskRef :: string
  ap_Tool :: string
  ap_OperationClass :: string
  ap_Agent :: string
  ap_Input :: string
  ap_Reason :: string
  ap_TTL :: string

text \<open>The Go structs ToolApprovalStatus and TaskApprovalStatus have the same fields.\<close>

record ApprovalStatus =
  av_Phase :: string
  av_Decision :: string
  av_DecidedBy :: string
  av_DecidedAt :: string
  av_Comment :: string
  av_ExpiresAt :: string

record ToolApproval =
  ta_APIVersion :: string
  ta_Kind :: string
  ta_Metadata :: ObjectMeta
  ta_Spec :: ToolApprovalSpec
  ta_Status :: ApprovalStatus

text \<open>The Go struct TaskApprovalResumeMessage has the fields of AgentMessage.\<close>

type_synonym TaskApprovalResumeMessage = AgentMessage

record TaskApprovalResumeContext =
  rs_Mode :: string
  rs_Action :: string
  rs_System :: string
  rs_ProducingAgent :: string
  rs_CurrentMessage :: "TaskApprovalResumeMessage option"
  rs_NextMessages :: "TaskApprovalResumeMessage list"
  rs_RerunMessage :: "TaskApprovalResumeMessage option"
  rs_RuntimeInput :: smap
  rs_NextRuntimeInput :: smap
  rs_Output :: smap
  rs_CurrentAgentIndex :: int
  rs_NextAgentIndex :: int

definition zero_resume :: TaskApprovalResumeContext where
  "zero_resume = \<lparr>rs_Mode = [], rs_Action = [], rs_System = [], rs_ProducingAgent = [],
     rs_CurrentMessage = None, rs_NextMessages = [], rs_RerunMessage = None, rs_RuntimeInput = fmempty,
     rs_NextRuntimeInput = fmempty, rs_Output = fmempty, rs_CurrentAgentIndex = 0, rs_NextAgentIndex = 0\<rparr>"

datatype approval_output = NoOutput | OutText string | OutMap smap | OutJSON string

record TaskApprovalSpec =
  tv_TaskRef :: string
  tv_CheckpointID :: string
  tv_CheckpointType :: string
  tv_Agent :: string
  tv_Reason :: string
  tv_TTL :: string
  tv_AllowRequestChanges :: "bool option"
  tv_MaxReviewCycles :: int
  tv_ReviewCycle :: int
  tv_Supersedes :: string
  tv_Output :: approval_output
  tv_OutputFormat :: string
  tv_ResumeContext :: "string + TaskApprovalResumeContext"

record TaskApproval =
  tr_APIVersion :: string
  tr_Kind :: string
  tr_Metadata :: ObjectMeta
  tr_Spec :: TaskApprovalSpec
  tr_Status :: ApprovalStatus

section \<open>Normalisation\<close>

text \<open>A pending approval without an expiry gets the one its time to live gives.\<close>

definition with_expiry :: "instant \<Rightarrow> string \<Rightarrow> ApprovalStatus \<Rightarrow> ApprovalStatus" where
  "with_expiry now ttl st =
     (if av_Phase st = ''Pending'' \<and> av_ExpiresAt st = []
      then st\<lparr>av_ExpiresAt := format_sec (now + (case parse_duration ttl of None \<Rightarrow> 0 | Some d \<Rightarrow> d))\<rparr>
      else st)"

text \<open>The defaults for empty texts, for numbers that are not positive, and for a nil flag.\<close>

definition or_default :: "string \<Rightarrow> string \<Rightarrow> string" where
  "or_default d s = (if s = [] then d else s)"

definition or_positive :: "int \<Rightarrow> int \<Rightarrow> int" where
  "or_positive d n = (if n \<le> 0 then d else n)"

definition allowed_by_default :: "bool option \<Rightarrow> bool option" where
  "allowed_by_default b = (case b of None \<Rightarrow> Some True | Some x \<Rightarrow> Some x)"

lemma or_positive_ge [simp]: "1 \<le> d \<Longrightarrow> 1 \<le> or_positive d n"
  by (simp add: or_positive_def)

definition tool_approval_phases :: "string list" where
  "tool_approval_phases = [''Pending'', ''Approved'', ''Denied'', ''Expired'']"

definition task_approval_phases :: "string list" where
  "task_approval_phases = [''Pending'', ''Approved'', ''Denied'', ''ChangesRequested'', ''Expired'']"

definition task_approval_decisions :: "string list" where
  "task_approval_decisions = [[], ''approved'', ''denied'', ''request_changes'']"

definition checkpoint_types :: "string list" where
  "checkpoint_types = [''agent_output'', ''task_output'']"

definition ToolApproval_Normalize :: "instant \<Rightarrow> ToolApproval \<Rightarrow> api_error + ToolApproval" where
  "ToolApproval_Normalize now a =
     (let api = or_default ''orloj.dev/v1'' (ta_APIVersion a);
          kind = or_default ''ToolApproval'' (ta_Kind a);
          meta = NormalizeObjectMetaNamespace (ta_Metadata a);
          sp = ta_Spec a; st = ta_Status a;
          ttl = or_default ''10m'' (trim_space (ap_TTL sp));
          phase = or_default ''Pending'' (trim_space (av_Phase st))
      in if \<not> equal_fold kind ''ToolApproval'' then Inl (UnsupportedKind kind ''ToolApproval'')
         else case ValidateMetadataName (m_Name meta) of
                Some e \<Rightarrow> Inl e
              | None \<Rightarrow>
                  if trim_space (ap_TaskRef sp) = [] then Inl (RequiredField ''spec.task_ref'')
                  else if trim_space (ap_Tool sp) = [] then Inl (RequiredField ''spec.tool'')
                  else if parse_duration ttl = None then Inl (InvalidField ''spec.ttl'' (ap_TTL sp))
                  else if \<not> List.member tool_approval_phases phase
                    then Inl (InvalidField ''status.phase'' (av_Phase st))
                  else Inr \<lparr>ta_APIVersion = api, ta_Kind = kind, ta_Metadata = meta,
                    ta_Spec = sp\<lparr>ap_TaskRef := trim_space (ap_TaskRef sp), ap_Tool := trim_space (ap_Tool sp),
                      ap_OperationClass := to_lower (trim_space (ap_OperationClass sp)),
                      ap_Agent := trim_space (ap_Agent sp), ap_Reason := trim_space (ap_Reason sp),
                      ap_TTL := ttl\<rparr>,
                    ta_Status = with_expiry now ttl \<lparr>av_Phase = phase, av_Decision = trim_space (av_Decision st),
                      av_DecidedBy = trim_space (av_DecidedBy st), av_DecidedAt = trim_space (av_DecidedAt st),
                      av_Comment = trim_space (av_Comment st), av_ExpiresAt = trim_space (av_ExpiresAt st)\<rparr>\<rparr>)"

definition output_format :: "TaskApprovalSpec \<Rightarrow> string" where
  "output_format sp =
     (let f = to_lower (trim_space (tv_OutputFormat sp))
      in if f = [] then (case tv_Output sp of NoOutput \<Rightarrow> ''text'' | OutText _ \<Rightarrow> ''text'' | _ \<Rightarrow> ''json'') else f)"

definition TaskApproval_Normalize :: "instant \<Rightarrow> TaskApproval \<Rightarrow> api_error + TaskApproval" where
  "TaskApproval_Normalize now a =
     (let api = or_default ''orloj.dev/v1'' (tr_APIVersion a);
          kind = or_default ''TaskApproval'' (tr_Kind a);
          meta = NormalizeObjectMetaNamespace (tr_Metadata a);
          sp = tr_Spec a; st = tr_Status a;
          checkpointType = to_lower (trim_space (tv_CheckpointType sp));
          checkpointType = or_default ''agent_output'' checkpointType;
          ttl = or_default ''10m'' (trim_space (tv_TTL sp));
          phase = or_default ''Pending'' (trim_space (av_Phase st));
          decision = to_lower (trim_space (av_Decision st))
      in if \<not> equal_fold kind ''TaskApproval'' then Inl (UnsupportedKind kind ''TaskApproval'')
         else case ValidateMetadataName (m_Name meta) of
                Some e \<Rightarrow> Inl e
              | None \<Rightarrow>
                  if trim_space (tv_TaskRef sp) = [] then Inl (RequiredField ''spec.task_ref'')
                  else if trim_space (tv_CheckpointID sp) = [] then Inl (RequiredField ''spec.checkpoint_id'')
                  else if \<not> List.member checkpoint_types checkpointType
                    then Inl (InvalidField ''spec.checkpoint_type'' (tv_CheckpointType sp))
                  else if parse_duration ttl = None then Inl (InvalidField ''spec.ttl'' (tv_TTL sp))
                  else if \<not> List.member [''text'', ''json''] (output_format sp)
                    then Inl (InvalidField ''spec.output_format'' (tv_OutputFormat sp))
                  else if \<not> List.member task_approval_phases phase
                    then Inl (InvalidField ''status.phase'' (av_Phase st))
                  else if \<not> List.member task_approval_decisions decision
                    then Inl (InvalidField ''status.decision'' (av_Decision st))
                  else Inr \<lparr>tr_APIVersion = api, tr_Kind = kind, tr_Metadata = meta,
                    tr_Spec = sp\<lparr>tv_TaskRef := trim_space (tv_TaskRef sp),
                      tv_CheckpointID := trim_space (tv_CheckpointID sp), tv_CheckpointType := checkpointType,
                      tv_Agent := trim_space (tv_Agent sp), tv_Reason := trim_space (tv_Reason sp),
                      tv_Supersedes := trim_space (tv_Supersedes sp), tv_TTL := ttl,
                      tv_AllowRequestChanges := allowed_by_default (tv_AllowRequestChanges sp),
                      tv_MaxReviewCycles := or_positive 3 (tv_MaxReviewCycles sp),
                      tv_ReviewCycle := or_positive 1 (tv_ReviewCycle sp),
                      tv_OutputFormat := output_format sp\<rparr>,
                    tr_Status = with_expiry now ttl \<lparr>av_Phase = phase, av_Decision = decision,
                      av_DecidedBy = trim_space (av_DecidedBy st), av_DecidedAt = trim_space (av_DecidedAt st),
                      av_Comment = trim_space (av_Comment st), av_ExpiresAt = trim_space (av_ExpiresAt st)\<rparr>\<rparr>)"

definition TaskApprovalAllowsRequestChanges :: "TaskApproval \<Rightarrow> bool" where
  "TaskApprovalAllowsRequestChanges a =
     (case tv_AllowRequestChanges (tr_Spec a) of None \<Rightarrow> True | Some b \<Rightarrow> b)"

definition TaskApprovalMaxReviewCycles :: "TaskApproval \<Rightarrow> int" where
  "TaskApprovalMaxReviewCycles a =
     (if tv_MaxReviewCycles (tr_Spec a) \<le> 0 then 3 else tv_MaxReviewCycles (tr_Spec a))"

section \<open>The stores\<close>

type_synonym ToolApprovalStore = "(string \<times> ToolApproval) list"
type_synonym TaskApprovalStore = "(string \<times> TaskApproval) list"

abbreviation set_tool_approval_meta :: "ObjectMeta \<Rightarrow> ToolApproval \<Rightarrow> ToolApproval" where
  "set_tool_approval_meta m a \<equiv> a\<lparr>ta_Metadata := m\<rparr>"

abbreviation set_task_approval_meta :: "ObjectMeta \<Rightarrow> TaskApproval \<Rightarrow> TaskApproval" where
  "set_task_approval_meta m a \<equiv> a\<lparr>tr_Metadata := m\<rparr>"

definition ToolApprovalStore_Upsert ::
  "instant \<Rightarrow> ToolApproval \<Rightarrow> ToolApprovalStore \<Rightarrow> (api_error + ToolApproval) \<times> ToolApprovalStore" where
  "ToolApprovalStore_Upsert now item s =
     store_upsert ''ToolApproval'' ta_Metadata set_tool_approval_meta (\<lambda>a b. ta_Spec a \<noteq> ta_Spec b)
       (ToolApproval_Normalize now) now item s"

definition ToolApprovalStore_Get :: "string \<Rightarrow> ToolApprovalStore \<Rightarrow> ToolApproval option" where
  "ToolApprovalStore_Get name s = store_get name s"

definition ToolApprovalStore_List :: "ToolApprovalStore \<Rightarrow> ToolApproval list" where
  "ToolApprovalStore_List s = store_list ta_Metadata s"

definition ToolApprovalStore_ListCursor :: "int \<Rightarrow> string \<Rightarrow> string \<Rightarrow> ToolApprovalStore \<Rightarrow> ToolApproval list" where
  "ToolApprovalStore_ListCursor limit after namespace s = store_list_cursor ta_Metadata limit after namespace s"

definition ToolApprovalStore_Delete :: "string \<Rightarrow> ToolApprovalStore \<Rightarrow> api_error option \<times> ToolApprovalStore" where
  "ToolApprovalStore_Delete name s = store_delete ''toolapproval'' name s"

definition TaskApprovalStore_Upsert ::
  "instant \<Rightarrow> TaskApproval \<Rightarrow> TaskApprovalStore \<Rightarrow> (api_error + TaskApproval) \<times> TaskApprovalStore" where
  "TaskApprovalStore_Upsert now item s =
     store_upsert ''TaskApproval'' tr_Metadata set_task_approval_meta (\<lambda>a b. tr_Spec a \<noteq> tr_Spec b)
       (TaskApproval_Normalize now) now item s"

definition TaskApprovalStore_Get :: "string \<Rightarrow> TaskApprovalStore \<Rightarrow> TaskApproval option" where
  "TaskApprovalStore_Get name s = store_get name s"

definition TaskApprovalStore_List :: "TaskApprovalStore \<Rightarrow> TaskApproval list" where
  "TaskApprovalStore_List s = store_list tr_Metadata s"

definition TaskApprovalStore_ListCursor :: "int \<Rightarrow> string \<Rightarrow> string \<Rightarrow> TaskApprovalStore \<Rightarrow> TaskApproval list" where
  "TaskApprovalStore_ListCursor limit after namespace s = store_list_cursor tr_Metadata limit after namespace s"

definition TaskApprovalStore_Delete :: "string \<Rightarrow> TaskApprovalStore \<Rightarrow> api_error option \<times> TaskApprovalStore" where
  "TaskApprovalStore_Delete name s = store_delete ''taskapproval'' name s"

section \<open>The stores keep their approvals well-formed\<close>

definition status_ok :: "string list \<Rightarrow> ApprovalStatus \<Rightarrow> bool" where
  "status_ok phases st \<longleftrightarrow> List.member phases (av_Phase st) \<and> (av_Phase st = ''Pending'' \<longrightarrow> av_ExpiresAt st \<noteq> [])"

definition tool_approval_ok :: "ToolApproval \<Rightarrow> bool" where
  "tool_approval_ok a \<longleftrightarrow> equal_fold (ta_Kind a) ''ToolApproval''
     \<and> ValidateMetadataName (m_Name (ta_Metadata a)) = None
     \<and> NormalizeNamespace (m_Namespace (ta_Metadata a)) = m_Namespace (ta_Metadata a)
     \<and> ap_TaskRef (ta_Spec a) \<noteq> [] \<and> ap_Tool (ta_Spec a) \<noteq> [] \<and> parse_duration (ap_TTL (ta_Spec a)) \<noteq> None
     \<and> status_ok tool_approval_phases (ta_Status a)"

definition task_approval_ok :: "TaskApproval \<Rightarrow> bool" where
  "task_approval_ok a \<longleftrightarrow> equal_fold (tr_Kind a) ''TaskApproval''
     \<and> ValidateMetadataName (m_Name (tr_Metadata a)) = None
     \<and> NormalizeNamespace (m_Namespace (tr_Metadata a)) = m_Namespace (tr_Metadata a)
     \<and> tv_TaskRef (tr_Spec a) \<noteq> [] \<and> tv_CheckpointID (tr_Spec a) \<noteq> [] \<and> parse_duration (tv_TTL (tr_Spec a)) \<noteq> None
     \<and> 1 \<le> tv_ReviewCycle (tr_Spec a) \<and> 1 \<le> tv_MaxReviewCycles (tr_Spec a)
     \<and> status_ok task_approval_phases (tr_Status a)"

lemma format_sec_nonempty [simp]: "format_sec t \<noteq> []"
  by (simp add: format_sec_def)

lemma with_expiry_ok: "List.member phases (av_Phase st) \<Longrightarrow> status_ok phases (with_expiry now ttl st)"
  by (auto simp: status_ok_def with_expiry_def)

lemma with_expiry_phase [simp]: "av_Phase (with_expiry now ttl st) = av_Phase st"
  by (simp add: with_expiry_def)

lemma ToolApproval_Normalize_ok: "ToolApproval_Normalize now a = Inr b \<Longrightarrow> tool_approval_ok b"
  by (auto simp: ToolApproval_Normalize_def tool_approval_ok_def Let_def NormalizeObjectMetaNamespace_def
      intro!: with_expiry_ok split: if_splits option.splits)

lemma TaskApproval_Normalize_ok: "TaskApproval_Normalize now a = Inr b \<Longrightarrow> task_approval_ok b"
  by (auto simp: TaskApproval_Normalize_def task_approval_ok_def Let_def NormalizeObjectMetaNamespace_def
      intro!: with_expiry_ok split: if_splits option.splits)

interpretation tool_approvals: versioned_resource "''ToolApproval''" ta_Metadata set_tool_approval_meta
  "\<lambda>a b. ta_Spec a \<noteq> ta_Spec b" "ToolApproval_Normalize now" tool_approval_ok
  by unfold_locales (auto intro: ToolApproval_Normalize_ok, simp_all add: tool_approval_ok_def)

interpretation task_approvals: versioned_resource "''TaskApproval''" tr_Metadata set_task_approval_meta
  "\<lambda>a b. tr_Spec a \<noteq> tr_Spec b" "TaskApproval_Normalize now" task_approval_ok
  by unfold_locales (auto intro: TaskApproval_Normalize_ok, simp_all add: task_approval_ok_def)

abbreviation tool_approvals_wf :: "ToolApprovalStore \<Rightarrow> bool" where
  "tool_approvals_wf s \<equiv> items_wf ta_Metadata tool_approval_ok s"

abbreviation task_approvals_wf :: "TaskApprovalStore \<Rightarrow> bool" where
  "task_approvals_wf s \<equiv> items_wf tr_Metadata task_approval_ok s"

lemma approval_store_ops_wf:
  "tool_approvals_wf s \<Longrightarrow> tool_approvals_wf (snd (ToolApprovalStore_Upsert now a s))"
  "tool_approvals_wf s \<Longrightarrow> tool_approvals_wf (snd (ToolApprovalStore_Delete name s))"
  "task_approvals_wf r \<Longrightarrow> task_approvals_wf (snd (TaskApprovalStore_Upsert now b r))"
  "task_approvals_wf r \<Longrightarrow> task_approvals_wf (snd (TaskApprovalStore_Delete name r))"
  unfolding ToolApprovalStore_Upsert_def ToolApprovalStore_Delete_def TaskApprovalStore_Upsert_def
    TaskApprovalStore_Delete_def
  by (rule tool_approvals.upsert_wf tool_approvals.delete_wf task_approvals.upsert_wf
      task_approvals.delete_wf; assumption)+

section \<open>Names\<close>

text \<open>The 32-bit FNV-1a hash and the verb %08x.\<close>

definition fnv32a :: "nat \<Rightarrow> string \<Rightarrow> nat" where
  "fnv32a h s = foldl (\<lambda>h c. (Bit_Operations.xor h (of_char c) * 16777619) mod 2 ^ 32) h s"

definition fnv32_offset :: nat where
  "fnv32_offset = 2166136261"

definition hex_digit :: "nat \<Rightarrow> char" where
  "hex_digit d = (if d < 10 then char_of (48 + d) else char_of (87 + d))"

definition hex8 :: "nat \<Rightarrow> string" where
  "hex8 n = map (\<lambda>k. hex_digit (n div 16 ^ k mod 16)) (rev [0..<8])"

definition ToolApprovalResourceName :: "string \<Rightarrow> string \<Rightarrow> string" where
  "ToolApprovalResourceName taskKey messageID =
     ''ta-'' @ hex8 (fnv32a fnv32_offset (trim_space taskKey @ [CHR 0x00] @ trim_space messageID))"

definition TaskApprovalResourceName :: "string \<Rightarrow> string \<Rightarrow> int \<Rightarrow> string" where
  "TaskApprovalResourceName taskKey checkpointID cycle =
     ''tra-'' @ hex8 (fnv32a fnv32_offset (trim_space taskKey @ [CHR 0x00] @ trim_space checkpointID
        @ [CHR 0x00] @ itoa (if cycle \<le> 0 then 1 else cycle)))"

definition splitTaskKeyForToolApproval :: "string \<Rightarrow> string \<times> string" where
  "splitTaskKeyForToolApproval taskKey =
     (let taskKey = trim_space taskKey
      in if taskKey = [] then (DefaultNamespace, [])
         else if List.member taskKey CHR ''/'' then
           (let (a, b) = split_first CHR ''/'' taskKey in (NormalizeNamespace a, trim_space b))
         else (DefaultNamespace, taskKey))"

definition ToolApprovalScopedStoreKey :: "string \<Rightarrow> string \<Rightarrow> string" where
  "ToolApprovalScopedStoreKey taskKey messageID =
     NormalizeNamespace (fst (splitTaskKeyForToolApproval taskKey)) @ ''/''
     @ trim_space (''ta-'' @ hex8 (fnv32a fnv32_offset (taskKey @ [CHR 0x00] @ trim_space messageID)))"

section \<open>Approval errors\<close>

text \<open>strings.Index: the text after the first occurrence, and what stands before it.\<close>

fun cut_at :: "string \<Rightarrow> string \<Rightarrow> (string \<times> string) option" where
  "cut_at sub [] = (if sub = [] then Some ([], []) else None)"
| "cut_at sub (c # s) =
     (if has_prefix (c # s) sub then Some ([], drop (length sub) (c # s))
      else map_option (\<lambda>(a, b). (c # a, b)) (cut_at sub s))"

definition tool_of_text :: "string \<Rightarrow> string option" where
  "tool_of_text msg =
     (case cut_at ''tool='' msg of
        None \<Rightarrow> None
      | Some (_, r) \<Rightarrow>
          let rest = trim_space r
          in Some (case cut_at '' reason='' rest of
                     Some (before, _) \<Rightarrow> trim_space before
                   | None \<Rightarrow> trim_space (takeWhile (\<lambda>c. \<not> List.member [CHR 0x20, CHR 0x0A, CHR 0x09] c) rest)))"

text \<open>The errors of a chain, outermost first (errors.Unwrap).\<close>

fun error_chain :: "go_error \<Rightarrow> go_error list" where
  "error_chain (ErrWrap pre e post) = ErrWrap pre e post # error_chain e"
| "error_chain (ErrTool a b c d m ds (Some e)) = ErrTool a b c d m ds (Some e) # error_chain e"
| "error_chain (ErrApproval t i r) = [ErrApproval t i r, ErrApprovalSentinel]"
| "error_chain e = [e]"

definition ParseToolFromApprovalError :: "go_error \<Rightarrow> string" where
  "ParseToolFromApprovalError err =
     (case List.map_filter (tool_of_text \<circ> error_text) (error_chain err) of [] \<Rightarrow> [] | t # _ \<Rightarrow> t)"

fun ParseInputFromApprovalError :: "go_error \<Rightarrow> string" where
  "ParseInputFromApprovalError (ErrApproval tool input reason) = input"
| "ParseInputFromApprovalError (ErrWrap _ e _) = ParseInputFromApprovalError e"
| "ParseInputFromApprovalError (ErrTool _ _ _ _ _ _ (Some cause)) = ParseInputFromApprovalError cause"
| "ParseInputFromApprovalError _ = []"

section \<open>Resume messages\<close>

text \<open>Both conversions trim every text and keep the attempt.\<close>

definition trim_message :: "AgentMessage \<Rightarrow> AgentMessage" where
  "trim_message m = m\<lparr>am_MessageID := trim_space (am_MessageID m),
     am_IdempotencyKey := trim_space (am_IdempotencyKey m), am_TaskID := trim_space (am_TaskID m),
     am_System := trim_space (am_System m), am_Namespace := trim_space (am_Namespace m),
     am_FromAgent := trim_space (am_FromAgent m), am_ToAgent := trim_space (am_ToAgent m),
     am_BranchID := trim_space (am_BranchID m), am_ParentBranchID := trim_space (am_ParentBranchID m),
     am_Type := trim_space (am_Type m), am_Payload := trim_space (am_Payload m),
     am_Timestamp := trim_space (am_Timestamp m), am_TraceID := trim_space (am_TraceID m),
     am_ParentID := trim_space (am_ParentID m), am_DelegateOf := trim_space (am_DelegateOf m)\<rparr>"

definition ResumeMessageFromAgentMessage :: "AgentMessage \<Rightarrow> TaskApprovalResumeMessage" where
  "ResumeMessageFromAgentMessage m = trim_message m"

definition AgentMessageFromResumeMessage :: "TaskApprovalResumeMessage \<Rightarrow> AgentMessage" where
  "AgentMessageFromResumeMessage m = trim_message m"

text \<open>
  encoding/json for the values the code encodes: an object with the keys in the given order, its
  strings escaped as Marshal does for ASCII texts.
\<close>

definition json_char :: "char \<Rightarrow> string" where
  "json_char c =
     (let n = (of_char c :: nat); u = (\<lambda>k. CHR 0x5C # ''u'' @ drop 4 (hex8 k))
      in if c = CHR 0x22 then [CHR 0x5C, CHR 0x22]
         else if c = CHR 0x5C then [CHR 0x5C, CHR 0x5C]
         else if n = 8 then CHR 0x5C # ''b'' else if n = 12 then CHR 0x5C # ''f''
         else if n = 10 then CHR 0x5C # ''n'' else if n = 13 then CHR 0x5C # ''r''
         else if n = 9 then CHR 0x5C # ''t''
         else if n < 32 \<or> List.member [CHR ''<'', CHR ''>'', CHR ''&''] c then u n else [c])"

definition json_string :: "string \<Rightarrow> string" where
  "json_string s = [CHR 0x22] @ concat (map json_char s) @ [CHR 0x22]"

definition json_object :: "(string \<times> string) list \<Rightarrow> string" where
  "json_object fs = ''{'' @ str_join '','' (map (\<lambda>(k, v). json_string k @ '':'' @ v) fs) @ ''}''"

definition json_map :: "smap \<Rightarrow> string" where
  "json_map m = json_object (map (\<lambda>k. (k, json_string (smap_get m k))) (sorted_list_of_fset (fmdom m)))"

record ReviewRequestPayload =
  rq_Content :: string
  rq_Feedback :: string
  rq_PreviousOutput :: string
  rq_CheckpointID :: string
  rq_Cycle :: int
  rq_RequestedBy :: string
  rq_Supersedes :: string

text \<open>Every field is omitted when it is empty.\<close>

definition EncodeReviewRequestPayload :: "ReviewRequestPayload \<Rightarrow> string" where
  "EncodeReviewRequestPayload p =
     (let f = (\<lambda>k v. if v = [] then [] else [(k, json_string v)])
      in json_object (f ''content'' (rq_Content p) @ f ''feedback'' (rq_Feedback p)
           @ f ''previous_output'' (rq_PreviousOutput p) @ f ''checkpoint_id'' (rq_CheckpointID p)
           @ (if rq_Cycle p = 0 then [] else [(''cycle'', itoa (rq_Cycle p))])
           @ f ''requested_by'' (rq_RequestedBy p) @ f ''supersedes'' (rq_Supersedes p)))"

definition stringifyTaskApprovalOutput :: "approval_output \<Rightarrow> string" where
  "stringifyTaskApprovalOutput out =
     (case out of OutText v \<Rightarrow> trim_space v | OutMap m \<Rightarrow> json_map m | NoOutput \<Rightarrow> ''null'' | OutJSON raw \<Rightarrow> raw)"

end
