(* ===== verification/Governance.thy ===== *)
theory Governance
  imports Graph Task_Types Resource_Store
begin

text \<open>
  Roles, tool permissions and agent policies (resources/resource_types.go) and the enforcement of
  policies (runtime/policy_enforcement.go). Of an agent (resources/agent.go) the record has what the
  modelled code reads.

  Shown here: normalising a list of names is idempotent and keeps one spelling of each name; the
  token budget is the least positive limit of the policies that apply.
\<close>

section \<open>Resources\<close>

record AgentSpec =
  ag_Model :: string
  ag_ModelRef :: string
  ag_Tools :: "string list"
  ag_AllowedTools :: "string list"
  ag_Roles :: "string list"
  ag_MemoryRef :: string
  ag_MemoryAllow :: "string list"

record Agent =
  ag_Metadata :: ObjectMeta
  ag_Spec :: AgentSpec

record GovernanceStatus =
  gs_Phase :: string
  gs_LastError :: string
  gs_ObservedGeneration :: int

record AgentRole =
  ro_APIVersion :: string
  ro_Kind :: string
  ro_Metadata :: ObjectMeta
  ro_Description :: string
  ro_Permissions :: "string list"
  ro_Status :: GovernanceStatus

record OperationRule =
  or_OperationClass :: string
  or_Verdict :: string

record ToolPermissionSpec =
  pm_ToolRef :: string
  pm_Action :: string
  pm_RequiredPermissions :: "string list"
  pm_MatchMode :: string
  pm_ApplyMode :: string
  pm_TargetAgents :: "string list"
  pm_OperationRules :: "OperationRule list"

record ToolPermission =
  pm_APIVersion :: string
  pm_Kind :: string
  pm_Metadata :: ObjectMeta
  pm_Spec :: ToolPermissionSpec
  pm_Status :: GovernanceStatus

record AgentPolicySpec =
  po_MaxTokensPerRun :: int
  po_AllowedModels :: "string list"
  po_BlockedTools :: "string list"
  po_ApplyMode :: string
  po_TargetSystems :: "string list"
  po_TargetTasks :: "string list"
  po_TargetAgents :: "string list"
  po_MaxChildDepth :: int
  po_MaxChildTasks :: int

record AgentPolicy =
  po_APIVersion :: string
  po_Kind :: string
  po_Metadata :: ObjectMeta
  po_Spec :: AgentPolicySpec
  po_Status :: GovernanceStatus

section \<open>Normalisation\<close>

definition normalizeGovernanceConfigPhase :: "GovernanceStatus \<Rightarrow> GovernanceStatus" where
  "normalizeGovernanceConfigPhase st =
     (let p = trim_space (gs_Phase st)
      in if p = [] \<or> equal_fold p ''Pending'' then st\<lparr>gs_Phase := ''Ready''\<rparr> else st)"

text \<open>
  The loop of the Normalize functions over a list of names: trimmed, without the empty ones, each
  name in the spelling of its first occurrence.
\<close>

fun normalize_names :: "string list \<Rightarrow> string list \<Rightarrow> string list" where
  "normalize_names seen [] = []"
| "normalize_names seen (n # ns) =
     (let n = trim_space n
      in if n = [] \<or> List.member seen (to_lower n) then normalize_names seen ns
         else n # normalize_names (to_lower n # seen) ns)"

definition AgentRole_Normalize :: "AgentRole \<Rightarrow> api_error + AgentRole" where
  "AgentRole_Normalize r =
     (let kind = (if ro_Kind r = [] then ''AgentRole'' else ro_Kind r);
          meta = NormalizeObjectMetaNamespace (ro_Metadata r)
      in if \<not> equal_fold kind ''AgentRole'' then Inl (UnsupportedKind kind ''AgentRole'')
         else case ValidateMetadataName (m_Name meta) of
                Some e \<Rightarrow> Inl e
              | None \<Rightarrow> Inr (r\<lparr>ro_APIVersion := (if ro_APIVersion r = [] then ''orloj.dev/v1'' else ro_APIVersion r),
                  ro_Kind := kind, ro_Metadata := meta, ro_Permissions := normalize_names [] (ro_Permissions r),
                  ro_Status := normalizeGovernanceConfigPhase (ro_Status r)\<rparr>))"

fun normalize_operation_rules :: "OperationRule list \<Rightarrow> api_error + OperationRule list" where
  "normalize_operation_rules [] = Inr []"
| "normalize_operation_rules (r # rs) =
     (let opClass = to_lower (trim_space (or_OperationClass r));
          opClass = (if opClass = [] then ''*'' else opClass);
          verdict = to_lower (trim_space (or_Verdict r));
          verdict = (if verdict = [] then ''allow'' else verdict)
      in if \<not> List.member [''read'', ''write'', ''delete'', ''admin'', ''*''] opClass
           then Inl (InvalidField ''operation_rules.operation_class'' (or_OperationClass r))
         else if \<not> List.member [''allow'', ''deny'', ''approval_required''] verdict
           then Inl (InvalidField ''operation_rules.verdict'' (or_Verdict r))
         else case normalize_operation_rules rs of
                Inl e \<Rightarrow> Inl e
              | Inr rs' \<Rightarrow> Inr (\<lparr>or_OperationClass = opClass, or_Verdict = verdict\<rparr> # rs'))"

definition ToolPermission_Normalize :: "ToolPermission \<Rightarrow> api_error + ToolPermission" where
  "ToolPermission_Normalize p =
     (let kind = (if pm_Kind p = [] then ''ToolPermission'' else pm_Kind p);
          meta = NormalizeObjectMetaNamespace (pm_Metadata p); sp = pm_Spec p;
          ref = trim_space (pm_ToolRef sp);
          ref = (if ref = [] then m_Name meta else ref);
          action = to_lower (trim_space (pm_Action sp));
          action = (if action = [] then ''invoke'' else action);
          matchMode = to_lower (trim_space (pm_MatchMode sp));
          matchMode = (if matchMode = [] then ''all'' else matchMode);
          applyMode = to_lower (trim_space (pm_ApplyMode sp));
          applyMode = (if applyMode = [] then ''global'' else applyMode);
          targets = normalize_names [] (pm_TargetAgents sp)
      in if \<not> equal_fold kind ''ToolPermission'' then Inl (UnsupportedKind kind ''ToolPermission'')
         else case ValidateMetadataName (m_Name meta) of
                Some e \<Rightarrow> Inl e
              | None \<Rightarrow>
                  if ref = [] then Inl (RequiredField ''spec.tool_ref'')
                  else if \<not> List.member [''all'', ''any''] matchMode
                    then Inl (InvalidField ''spec.match_mode'' (pm_MatchMode sp))
                  else if \<not> List.member [''global'', ''scoped''] applyMode
                    then Inl (InvalidField ''spec.apply_mode'' (pm_ApplyMode sp))
                  else if applyMode = ''scoped'' \<and> targets = [] then Inl (RequiredField ''spec.target_agents'')
                  else case normalize_operation_rules (pm_OperationRules sp) of
                         Inl e \<Rightarrow> Inl e
                       | Inr rules \<Rightarrow>
                           Inr (p\<lparr>pm_APIVersion := (if pm_APIVersion p = [] then ''orloj.dev/v1'' else pm_APIVersion p),
                             pm_Kind := kind, pm_Metadata := meta,
                             pm_Spec := sp\<lparr>pm_ToolRef := ref, pm_Action := action,
                               pm_RequiredPermissions := normalize_names [] (pm_RequiredPermissions sp),
                               pm_MatchMode := matchMode, pm_ApplyMode := applyMode,
                               pm_TargetAgents := targets, pm_OperationRules := rules\<rparr>,
                             pm_Status := normalizeGovernanceConfigPhase (pm_Status p)\<rparr>))"

definition AgentPolicy_Normalize :: "AgentPolicy \<Rightarrow> api_error + AgentPolicy" where
  "AgentPolicy_Normalize p =
     (let kind = (if po_Kind p = [] then ''AgentPolicy'' else po_Kind p);
          meta = NormalizeObjectMetaNamespace (po_Metadata p);
          raw = (if po_ApplyMode (po_Spec p) = [] then ''scoped'' else po_ApplyMode (po_Spec p));
          mode = to_lower (trim_space raw)
      in if \<not> equal_fold kind ''AgentPolicy'' then Inl (UnsupportedKind kind ''AgentPolicy'')
         else case ValidateMetadataName (m_Name meta) of
                Some e \<Rightarrow> Inl e
              | None \<Rightarrow>
                  if \<not> List.member [''scoped'', ''global''] mode then Inl (InvalidField ''spec.apply_mode'' raw)
                  else Inr (p\<lparr>po_APIVersion := (if po_APIVersion p = [] then ''orloj.dev/v1'' else po_APIVersion p),
                    po_Kind := kind, po_Metadata := meta, po_Spec := (po_Spec p)\<lparr>po_ApplyMode := mode\<rparr>,
                    po_Status := normalizeGovernanceConfigPhase (po_Status p)\<rparr>))"

section \<open>Policies\<close>

definition policyAppliesToAgent :: "AgentPolicy \<Rightarrow> string \<Rightarrow> bool" where
  "policyAppliesToAgent p agentName \<longleftrightarrow>
     po_TargetAgents (po_Spec p) = [] \<or> contains_fold (po_TargetAgents (po_Spec p)) agentName"

text \<open>The first violation, as the name of the policy with the model or the tool it forbids.\<close>

datatype policy_violation = DisallowsModel string string | BlocksTool string string

fun EnforcePoliciesForAgent :: "Agent \<Rightarrow> string \<Rightarrow> AgentPolicy list \<Rightarrow> policy_violation option" where
  "EnforcePoliciesForAgent agent model [] = None"
| "EnforcePoliciesForAgent agent model (p # ps) =
     (if \<not> policyAppliesToAgent p (m_Name (ag_Metadata agent)) then EnforcePoliciesForAgent agent model ps
      else if po_AllowedModels (po_Spec p) \<noteq> [] \<and> \<not> contains_fold (po_AllowedModels (po_Spec p)) model
        then Some (DisallowsModel (m_Name (po_Metadata p)) model)
      else case find (contains_fold (po_BlockedTools (po_Spec p))) (ag_Tools (ag_Spec agent)) of
             Some tool \<Rightarrow> Some (BlocksTool (m_Name (po_Metadata p)) tool)
           | None \<Rightarrow> EnforcePoliciesForAgent agent model ps)"

definition policyAppliesTo :: "AgentPolicy \<Rightarrow> Task \<Rightarrow> AgentSystem \<Rightarrow> bool" where
  "policyAppliesTo p t system =
     (let mode = to_lower (trim_space (po_ApplyMode (po_Spec p)));
          mode = (if mode = [] then ''scoped'' else mode)
      in mode = ''global'' \<or> contains_fold (po_TargetTasks (po_Spec p)) (m_Name (t_Metadata t))
         \<or> contains_fold (po_TargetSystems (po_Spec p)) (m_Name (sy_Metadata system)))"

definition MatchedPolicies :: "Task \<Rightarrow> AgentSystem \<Rightarrow> AgentPolicy list \<Rightarrow> AgentPolicy list" where
  "MatchedPolicies t system ps = filter (\<lambda>p. policyAppliesTo p t system) ps"

text \<open>The loop the minima share: the least positive value of the policies not skipped, else 0.\<close>

fun min_loop :: "(AgentPolicy \<Rightarrow> int) \<Rightarrow> (AgentPolicy \<Rightarrow> bool) \<Rightarrow> int \<Rightarrow> AgentPolicy list \<Rightarrow> int" where
  "min_loop f keep m [] = m"
| "min_loop f keep m (p # ps) =
     (if f p \<le> 0 \<or> \<not> keep p then min_loop f keep m ps
      else min_loop f keep (if m = 0 \<or> f p < m then f p else m) ps)"

definition MinimumTokenBudget :: "AgentPolicy list \<Rightarrow> int" where
  "MinimumTokenBudget ps = min_loop (po_MaxTokensPerRun \<circ> po_Spec) (\<lambda>p. po_TargetAgents (po_Spec p) = []) 0 ps"

definition AgentTokenBudget :: "AgentPolicy list \<Rightarrow> string \<Rightarrow> int" where
  "AgentTokenBudget ps agentName =
     min_loop (po_MaxTokensPerRun \<circ> po_Spec) (\<lambda>p. policyAppliesToAgent p agentName) 0 ps"

definition MinimumChildDepth :: "AgentPolicy list \<Rightarrow> int" where
  "MinimumChildDepth ps = min_loop (po_MaxChildDepth \<circ> po_Spec) (\<lambda>_. True) 0 ps"

definition MinimumChildTasks :: "AgentPolicy list \<Rightarrow> int" where
  "MinimumChildTasks ps = min_loop (po_MaxChildTasks \<circ> po_Spec) (\<lambda>_. True) 0 ps"

section \<open>Lemmas\<close>

lemma normalize_names_Cons:
  "trim_space n = [] \<or> List.member seen (to_lower (trim_space n)) \<Longrightarrow>
     normalize_names seen (n # ns) = normalize_names seen ns"
  "\<not> (trim_space n = [] \<or> List.member seen (to_lower (trim_space n))) \<Longrightarrow>
     normalize_names seen (n # ns) = trim_space n # normalize_names (to_lower (trim_space n) # seen) ns"
  by (simp_all add: Let_def)

declare normalize_names.simps(2) [simp del]

lemma normalize_names_spec:
  "distinct (map to_lower (normalize_names seen ns))
   \<and> (\<forall>n \<in> set (normalize_names seen ns). n \<noteq> [] \<and> trim_space n = n \<and> to_lower n \<notin> set seen)"
proof (induction ns arbitrary: seen)
  case (Cons n ns)
  show ?case
  proof (cases "trim_space n = [] \<or> List.member seen (to_lower (trim_space n))")
    case True
    then show ?thesis using Cons [of seen] by (simp add: normalize_names_Cons(1))
  next
    case False
    then show ?thesis
      using Cons [of "to_lower (trim_space n) # seen"] by (auto simp: normalize_names_Cons(2))
  qed
qed simp

lemma normalize_names_id:
  "distinct (map to_lower ns) \<Longrightarrow> \<forall>n \<in> set ns. n \<noteq> [] \<and> trim_space n = n \<and> to_lower n \<notin> set seen \<Longrightarrow>
     normalize_names seen ns = ns"
proof (induction ns arbitrary: seen)
  case (Cons n ns)
  then have "to_lower n \<notin> to_lower ` set ns" by simp
  then have "\<forall>m \<in> set ns. to_lower m \<noteq> to_lower n" by (metis imageI)
  with Cons.prems have "normalize_names (to_lower n # seen) ns = ns"
    by (intro Cons.IH) simp_all
  then show ?case using Cons.prems normalize_names_Cons(2) [of n seen ns] by simp
qed simp

lemma normalize_names_idem: "normalize_names [] (normalize_names [] ns) = normalize_names [] ns"
  using normalize_names_spec [of "[]" ns] by (intro normalize_names_id) auto

lemma min_loop_spec:
  assumes "0 \<le> m"
  shows "let r = min_loop f keep m ps; vs = {v. 0 < v \<and> (v = m \<or> (\<exists>p \<in> set ps. keep p \<and> v = f p))}
    in if vs = {} then r = 0 else r \<in> vs \<and> (\<forall>v \<in> vs. r \<le> v)"
  using assms
proof (induction ps arbitrary: m)
  case Nil
  then show ?case by (cases "m = 0") (auto simp: Let_def)
next
  case (Cons p ps)
  define m' where "m' = (if f p \<le> 0 \<or> \<not> keep p then m else if m = 0 \<or> f p < m then f p else m)"
  have m': "0 \<le> m'" "min_loop f keep m (p # ps) = min_loop f keep m' ps"
    using Cons.prems by (auto simp: m'_def)
  note ih = Cons.IH [OF m'(1), unfolded Let_def]
  let ?vs = "{v. 0 < v \<and> (v = m \<or> (\<exists>q \<in> set (p # ps). keep q \<and> v = f q))}"
  let ?vs' = "{v. 0 < v \<and> (v = m' \<or> (\<exists>q \<in> set ps. keep q \<and> v = f q))}"
  have sub: "?vs' \<subseteq> ?vs" using Cons.prems by (auto simp: m'_def split: if_splits)
  have low: "\<exists>w \<in> ?vs'. w \<le> v" if "v \<in> ?vs" for v
  proof (cases "\<exists>q \<in> set ps. keep q \<and> v = f q")
    case True
    then show ?thesis using that by auto
  next
    case False
    then have "0 < m' \<and> m' \<le> v" using that Cons.prems by (auto simp: m'_def)
    then show ?thesis by auto
  qed
  show ?case
  proof (cases "?vs' = {}")
    case True
    then have "?vs = {}" using low by blast
    then show ?thesis using ih True m'(2) by simp
  next
    case False
    then have r: "min_loop f keep m' ps \<in> ?vs'" "\<forall>v \<in> ?vs'. min_loop f keep m' ps \<le> v"
      using ih by (simp_all only: if_False) blast+
    have "min_loop f keep m' ps \<le> v" if v: "v \<in> ?vs" for v
      using low [OF v] r(2) order_trans by blast
    moreover have "min_loop f keep m' ps \<in> ?vs" using r(1) sub by (rule rev_subsetD)
    ultimately show ?thesis unfolding m'(2) Let_def by (subst if_not_P) blast+
  qed
qed

end
