(* ===== verification/Graph_Order.thy ===== *)
theory Graph_Order
  imports Graph
begin

text \<open>
  The checks the task controller makes on a system's graph (controllers/task_controller.go:
  validateGraph, hasGraphCycle, hasGraphEntrypoint, entryAgentsFromSystem) and the execution order
  (resources/agent_execution_order.go).

  The depth-first search is a pair of functions with the colours as their state and the nesting
  depth as fuel; the number of nodes is enough, because a node turns grey before the search goes
  on, and this is shown. The loop over the queue of the execution order terminates by a measure:
  every agent enters the queue once more at most.
\<close>

section \<open>Operations\<close>

definition node_of :: "graph \<Rightarrow> string \<Rightarrow> GraphEdge" where
  "node_of g n = (case map_of g n of None \<Rightarrow> zero_edge | Some e \<Rightarrow> e)"

text \<open>The problems of a graph, as the pairs of a node and the field or the target at fault.\<close>

definition validate_node :: "string list \<Rightarrow> string \<times> GraphEdge \<Rightarrow> (string \<times> string) list" where
  "validate_node agentSet ne =
     (let (node, edge) = ne; join = n_Join edge;
          mode = to_lower (trim_space (g_Mode join)); onFailure = to_lower (trim_space (g_OnFailure join))
      in (if \<not> List.member agentSet node then [(node, ''spec.agents'')] else [])
         @ (if \<not> List.member [[], ''wait_for_all'', ''quorum''] mode then [(node, ''join.mode'')] else [])
         @ (if g_QuorumCount join < 0 then [(node, ''join.quorum_count'')] else [])
         @ (if g_QuorumPercent join < 0 \<or> 100 < g_QuorumPercent join then [(node, ''join.quorum_percent'')] else [])
         @ (if \<not> List.member [[], ''deadletter'', ''skip'', ''continue_partial''] onFailure
            then [(node, ''join.on_failure'')] else [])
         @ map (\<lambda>to. (node, to)) (filter (\<lambda>to. \<not> List.member agentSet to) (GraphOutgoingAgents edge)))"

definition validateGraph :: "graph \<Rightarrow> string list \<Rightarrow> (string \<times> string) list" where
  "validateGraph g agentSet = concat (map (validate_node agentSet) g)"

datatype color = White | Gray | Black

type_synonym colors = "string \<Rightarrow> color option"

fun visit :: "nat \<Rightarrow> graph \<Rightarrow> string \<Rightarrow> colors \<Rightarrow> (bool \<times> colors) option"
  and visit_nexts :: "nat \<Rightarrow> graph \<Rightarrow> string list \<Rightarrow> colors \<Rightarrow> (bool \<times> colors) option" where
  "visit 0 g node col = None"
| "visit (Suc n) g node col =
     (case visit_nexts n g (GraphOutgoingAgents (node_of g node)) (col(node \<mapsto> Gray)) of
        None \<Rightarrow> None
      | Some (True, c) \<Rightarrow> Some (True, c)
      | Some (False, c) \<Rightarrow> Some (False, c(node \<mapsto> Black)))"
| "visit_nexts n g [] col = Some (False, col)"
| "visit_nexts n g (nxt # rest) col =
     (case col nxt of
        None \<Rightarrow> visit_nexts n g rest col
      | Some Gray \<Rightarrow> Some (True, col)
      | Some Black \<Rightarrow> visit_nexts n g rest col
      | Some White \<Rightarrow>
          (case visit n g nxt col of
             None \<Rightarrow> None
           | Some (True, c) \<Rightarrow> Some (True, c)
           | Some (False, c) \<Rightarrow> visit_nexts n g rest c))"

fun cycle_loop :: "nat \<Rightarrow> graph \<Rightarrow> string list \<Rightarrow> colors \<Rightarrow> bool option" where
  "cycle_loop n g [] col = Some False"
| "cycle_loop n g (node # rest) col =
     (if col node = Some White then
        (case visit n g node col of
           None \<Rightarrow> None
         | Some (True, c) \<Rightarrow> Some True
         | Some (False, c) \<Rightarrow> cycle_loop n g rest c)
      else cycle_loop n g rest col)"

definition hasGraphCycle :: "graph \<Rightarrow> bool option" where
  "hasGraphCycle g =
     cycle_loop (length g + 1) g (map fst g) (\<lambda>n. if List.member (map fst g) n then Some White else None)"

text \<open>Counting edges into the tracked agents.\<close>

definition bump :: "int \<Rightarrow> string \<Rightarrow> (string \<times> int) list \<Rightarrow> (string \<times> int) list" where
  "bump d to m = (case map_of m to of None \<Rightarrow> m | Some k \<Rightarrow> AList.update to (k + d) m)"

definition init_indegree :: "string list \<Rightarrow> (string \<times> int) list" where
  "init_indegree agents = fold (\<lambda>a m. AList.update a 0 m) agents []"

definition indegrees :: "graph \<Rightarrow> string list \<Rightarrow> (string \<times> int) list" where
  "indegrees g agents =
     fold (\<lambda>(n, e). fold (bump 1) (GraphOutgoingAgents e)) g (init_indegree agents)"

definition deg :: "(string \<times> int) list \<Rightarrow> string \<Rightarrow> int" where
  "deg m a = (case map_of m a of None \<Rightarrow> 0 | Some k \<Rightarrow> k)"

definition hasGraphEntrypoint :: "AgentSystemSpec \<Rightarrow> string list \<Rightarrow> bool" where
  "hasGraphEntrypoint sp agentSet =
     (if length (as_Graph sp) = 0 then 0 < length (as_Agents sp)
      else list_ex (\<lambda>(a, k). k = 0) (indegrees (as_Graph sp) agentSet))"

definition entryAgentsFromSystem :: "AgentSystemSpec \<Rightarrow> string list" where
  "entryAgentsFromSystem sp =
     (if length (as_Agents sp) = 0 then []
      else if length (as_Graph sp) = 0 then
        (let first = trim_space (hd (as_Agents sp)) in if first \<noteq> [] then [first] else [])
      else let ind = fold (\<lambda>(n, e) m. fold (\<lambda>d. bump 1 (trim_space (r_To d))) (n_Delegates e)
                             (fold (bump 1) (GraphOutgoingAgents e) m))
                       (as_Graph sp) (init_indegree (as_Agents sp))
           in filter (\<lambda>a. deg ind a = 0) (as_Agents sp))"

text \<open>The body of the loop over the targets of the current agent: in-degrees, queue, queued.\<close>

type_synonym kahn = "(string \<times> int) list \<times> string list \<times> string list"

definition relax :: "string \<Rightarrow> kahn \<Rightarrow> kahn" where
  "relax to st =
     (let (ind, queue, queued) = st
      in case map_of ind to of
           None \<Rightarrow> st
         | Some k \<Rightarrow>
             let ind' = AList.update to (k - 1) ind
             in if k - 1 = 0 \<and> \<not> List.member queued to then (ind', queue @ [to], to # queued)
                else (ind', queue, queued))"

definition unqueued :: "(string \<times> int) list \<Rightarrow> string list \<Rightarrow> nat" where
  "unqueued ind queued = card (fst ` set ind - set queued)"

lemma relax_measure:
  "relax to (ind, queue, queued) = (ind', queue', queued') \<Longrightarrow>
   length queue' + unqueued ind' queued' = length queue + unqueued ind queued"
proof -
  assume r: "relax to (ind, queue, queued) = (ind', queue', queued')"
  show ?thesis
  proof (cases "map_of ind to")
    case None
    with r show ?thesis by (simp add: relax_def)
  next
    case (Some k)
    then have dom: "fst ` set (AList.update to (k - 1) ind) = fst ` set ind"
      using dom_update [of to "k - 1" ind] map_of_SomeD [OF Some] by force
    show ?thesis
    proof (cases "k - 1 = 0 \<and> to \<notin> set queued")
      case True
      have "to \<in> fst ` set ind - set queued" using True map_of_SomeD [OF Some] by force
      then have "card (fst ` set ind - set queued) = Suc (card (fst ` set ind - insert to (set queued)))"
        by (metis Diff_insert card.remove finite_Diff finite_imageI finite_set)
      with True r Some dom show ?thesis by (auto simp: relax_def Let_def unqueued_def)
    next
      case False
      with r Some dom show ?thesis by (auto simp: relax_def Let_def unqueued_def)
    qed
  qed
qed

lemma fold_relax_measure:
  "fold relax tos (ind, queue, queued) = (ind', queue', queued') \<Longrightarrow>
   length queue' + unqueued ind' queued' = length queue + unqueued ind queued"
proof (induction tos arbitrary: ind queue queued)
  case (Cons to tos)
  obtain i q d where r: "relax to (ind, queue, queued) = (i, q, d)" by (metis prod_cases3)
  with Cons relax_measure [OF r] show ?case by simp
qed simp

function kahn_loop :: "graph \<Rightarrow> kahn \<Rightarrow> string list \<Rightarrow> string list" where
  "kahn_loop g (ind, [], queued) order = order"
| "kahn_loop g (ind, current # queue, queued) order =
     (if List.member order current then kahn_loop g (ind, queue, queued) order
      else kahn_loop g
             (fold relax (case map_of g current of None \<Rightarrow> [] | Some e \<Rightarrow> GraphOutgoingAgents e)
                (ind, queue, queued))
             (order @ [current]))"
  by pat_completeness auto
termination
proof (relation "measure (\<lambda>(g, (ind, queue, queued), order). length queue + unqueued ind queued)")
  fix g :: graph and ind :: "(string \<times> int) list" and current :: string and queue queued order
  let ?st = "fold relax (case map_of g current of None \<Rightarrow> [] | Some e \<Rightarrow> GraphOutgoingAgents e)
    (ind, queue, queued)"
  obtain i q d where "?st = (i, q, d)" by (metis prod_cases3)
  from fold_relax_measure [OF this]
  show "((g, ?st, order @ [current]), g, (ind, current # queue, queued), order)
      \<in> measure (\<lambda>(g, (ind, queue, queued), order). length queue + unqueued ind queued)"
    using \<open>?st = (i, q, d)\<close> by simp
qed auto

definition ExecutionAgentOrder :: "AgentSystemSpec \<Rightarrow> string list" where
  "ExecutionAgentOrder sp =
     (let agents = as_Agents sp; g = as_Graph sp
      in if length agents = 0 then []
         else if length g = 0 then agents
         else let ind = indegrees g agents;
                  queue = filter (\<lambda>a. deg ind a = 0) agents
              in if length queue = 0 then agents
                 else let order = kahn_loop g (ind, queue, rev queue) []
                      in order @ filter (\<lambda>a. \<not> List.member order a) agents)"

definition IsFirstExecutionAgent :: "AgentSystemSpec \<Rightarrow> string \<Rightarrow> bool" where
  "IsFirstExecutionAgent sp agentName =
     (let name = trim_space agentName; o' = ExecutionAgentOrder sp
      in if name = [] then False else if length o' = 0 then False else trim_space (hd o') = name)"

section \<open>Outgoing routes\<close>

lemma fold_add_route:
  assumes "fold add_route rs (routes, seen) = (routes', seen')"
    and "distinct (map (to_lower \<circ> r_To) routes)" "set seen = set (map (to_lower \<circ> r_To) routes)"
    and "\<forall>r \<in> set routes. r_To r \<noteq> [] \<and> trim_space (r_To r) = r_To r"
  shows "distinct (map (to_lower \<circ> r_To) routes')"
    and "\<forall>r \<in> set routes'. r_To r \<noteq> [] \<and> trim_space (r_To r) = r_To r"
proof -
  have "distinct (map (to_lower \<circ> r_To) routes') \<and>
      (\<forall>r \<in> set routes'. r_To r \<noteq> [] \<and> trim_space (r_To r) = r_To r)"
    using assms
  proof (induction rs arbitrary: routes seen)
    case (Cons r rs)
    let ?to = "trim_space (r_To r)"
    show ?case
    proof (cases "?to = [] \<or> to_lower ?to \<in> set seen")
      case True
      then have "add_route r (routes, seen) = (routes, seen)" by (auto simp: add_route_def Let_def)
      then have "fold add_route rs (routes, seen) = (routes', seen')" using Cons.prems(1) by simp
      then show ?thesis by (rule Cons.IH [OF _ Cons.prems(2-4)])
    next
      case False
      then have step: "add_route r (routes, seen) = (routes @ [r\<lparr>r_To := ?to\<rparr>], to_lower ?to # seen)"
        by (auto simp: add_route_def Let_def)
      have "fold add_route rs (routes @ [r\<lparr>r_To := ?to\<rparr>], to_lower ?to # seen) = (routes', seen')"
        using Cons.prems(1) step by simp
      moreover have "distinct (map (to_lower \<circ> r_To) (routes @ [r\<lparr>r_To := ?to\<rparr>]))"
        "set (to_lower ?to # seen) = set (map (to_lower \<circ> r_To) (routes @ [r\<lparr>r_To := ?to\<rparr>]))"
        using Cons.prems(2,3) False by (simp_all add: comp_def)
      moreover have "\<forall>x \<in> set (routes @ [r\<lparr>r_To := ?to\<rparr>]). r_To x \<noteq> [] \<and> trim_space (r_To x) = r_To x"
        using Cons.prems(4) False by simp
      ultimately show ?thesis by (rule Cons.IH)
    qed
  qed simp
  then show "distinct (map (to_lower \<circ> r_To) routes')"
    and "\<forall>r \<in> set routes'. r_To r \<noteq> [] \<and> trim_space (r_To r) = r_To r" by auto
qed

lemma GraphOutgoingRoutes_distinct:
  "distinct (map (to_lower \<circ> r_To) (GraphOutgoingRoutes node))"
  "\<forall>r \<in> set (GraphOutgoingRoutes node). r_To r \<noteq> [] \<and> trim_space (r_To r) = r_To r"
proof -
  let ?l = "trim_space (n_Next node)"
  define acc where "acc = (if ?l \<noteq> [] then ([plain_route ?l], [to_lower ?l]) else ([], []))"
  have out: "GraphOutgoingRoutes node = fst (fold add_route (n_Edges node) acc)"
    by (simp add: GraphOutgoingRoutes_def acc_def Let_def add_route_def plain_route_def)
  obtain routes seen where a: "acc = (routes, seen)" by force
  obtain routes' seen' where f: "fold add_route (n_Edges node) (routes, seen) = (routes', seen')" by force
  have "distinct (map (to_lower \<circ> r_To) routes)" "set seen = set (map (to_lower \<circ> r_To) routes)"
    "\<forall>r \<in> set routes. r_To r \<noteq> [] \<and> trim_space (r_To r) = r_To r"
    using a by (auto simp: acc_def plain_route_def split: if_splits)
  from fold_add_route [OF f this] show "distinct (map (to_lower \<circ> r_To) (GraphOutgoingRoutes node))"
    "\<forall>r \<in> set (GraphOutgoingRoutes node). r_To r \<noteq> [] \<and> trim_space (r_To r) = r_To r"
    using out a f by simp_all
qed

lemma GraphOutgoingAgents_distinct: "distinct (GraphOutgoingAgents node)"
proof -
  have "distinct (map to_lower (GraphOutgoingAgents node))"
    using GraphOutgoingRoutes_distinct(1) [of node] by (simp add: GraphOutgoingAgents_def)
  then show ?thesis by (simp add: distinct_map)
qed

section \<open>The depth-first search\<close>

definition nodes :: "graph \<Rightarrow> string set" where
  "nodes g = fst ` set g"

lemma finite_nodes [simp]: "finite (nodes g)"
  by (simp add: nodes_def)

definition edges :: "graph \<Rightarrow> (string \<times> string) set" where
  "edges g = {(u, v). u \<in> nodes g \<and> v \<in> nodes g \<and> v \<in> set (GraphOutgoingAgents (node_of g u))}"

text \<open>
  Black nodes have black successors only and are ranked above them. A step keeps this, keeps the
  grey nodes grey and never turns a node white.
\<close>

definition dfs_inv :: "graph \<Rightarrow> colors \<Rightarrow> bool" where
  "dfs_inv g col \<longleftrightarrow>
     dom col = nodes g
     \<and> (\<forall>u v. col u = Some Black \<longrightarrow> (u, v) \<in> edges g \<longrightarrow> col v = Some Black)
     \<and> (\<exists>f :: string \<Rightarrow> nat. \<forall>u v. col u = Some Black \<longrightarrow> (u, v) \<in> edges g \<longrightarrow> f v < f u)"

definition dfs_post :: "graph \<Rightarrow> colors \<Rightarrow> colors \<Rightarrow> bool" where
  "dfs_post g col c \<longleftrightarrow>
     dfs_inv g c \<and> (\<forall>x. c x = Some Gray \<longleftrightarrow> col x = Some Gray)
     \<and> (\<forall>x. col x = Some Black \<longrightarrow> c x = Some Black) \<and> (\<forall>x. c x = Some White \<longrightarrow> col x = Some White)"

definition whites :: "colors \<Rightarrow> string set" where
  "whites col = {x. col x = Some White}"

lemma dfs_post_refl: "dfs_inv g col \<Longrightarrow> dfs_post g col col"
  by (simp add: dfs_post_def)

lemma dfs_post_trans: "dfs_post g a b \<Longrightarrow> dfs_post g b c \<Longrightarrow> dfs_post g a c"
  unfolding dfs_post_def by blast

lemma whites_finite: "dfs_inv g col \<Longrightarrow> finite (whites col)"
proof -
  assume "dfs_inv g col"
  then have "whites col \<subseteq> nodes g" by (auto simp: dfs_inv_def whites_def)
  then show ?thesis by (rule finite_subset) simp
qed

lemma dfs_post_whites: "dfs_inv g col \<Longrightarrow> dfs_post g col c \<Longrightarrow> card (whites c) \<le> card (whites col)"
  by (intro card_mono whites_finite [of g]) (auto simp: dfs_post_def whites_def)

lemma dfs_inv_gray:
  assumes "dfs_inv g col" "col node = Some White"
  shows "dfs_inv g (col(node \<mapsto> Gray))" "Suc (card (whites (col(node \<mapsto> Gray)))) = card (whites col)"
proof -
  show "dfs_inv g (col(node \<mapsto> Gray))"
  proof -
    have "dom (col(node \<mapsto> Gray)) = nodes g" using assms by (auto simp: dfs_inv_def)
    moreover have "(col(node \<mapsto> Gray)) u = Some Black \<longleftrightarrow> col u = Some Black" for u using assms(2) by auto
    ultimately show ?thesis using assms unfolding dfs_inv_def by (auto split: if_splits)
  qed
  have "whites col = insert node (whites (col(node \<mapsto> Gray)))" using assms(2) by (auto simp: whites_def)
  moreover have "node \<notin> whites (col(node \<mapsto> Gray))" by (simp add: whites_def)
  moreover have "finite (whites (col(node \<mapsto> Gray)))"
    using whites_finite [OF assms(1)] calculation(1) by (metis finite_insert)
  ultimately show "Suc (card (whites (col(node \<mapsto> Gray)))) = card (whites col)" by simp
qed

lemma dfs_inv_black:
  assumes inv: "dfs_inv g c" and gray: "c node = Some Gray"
    and succ: "\<forall>x. (node, x) \<in> edges g \<longrightarrow> c x = Some Black"
  shows "dfs_inv g (c(node \<mapsto> Black))"
proof -
  obtain f :: "string \<Rightarrow> nat" where f: "\<forall>u v. c u = Some Black \<longrightarrow> (u, v) \<in> edges g \<longrightarrow> f v < f u"
    using inv by (auto simp: dfs_inv_def)
  define f' where "f' = f(node := Suc (Max (f ` nodes g)))"
  have closed: "\<forall>u v. c u = Some Black \<longrightarrow> (u, v) \<in> edges g \<longrightarrow> c v = Some Black"
    using inv by (simp add: dfs_inv_def)
  have "f' v < f' u" if "(c(node \<mapsto> Black)) u = Some Black" "(u, v) \<in> edges g" for u v
  proof (cases "u = node")
    case True
    then have v: "c v = Some Black" using that succ by blast
    then have "v \<noteq> node" using gray by auto
    moreover have "f v \<le> Max (f ` nodes g)" using that(2) by (intro Max_ge) (auto simp: edges_def)
    ultimately show ?thesis using True by (simp add: f'_def)
  next
    case False
    then have u: "c u = Some Black" using that(1) by simp
    then have "c v = Some Black" using closed that(2) by blast
    then have "v \<noteq> node" using gray by auto
    then show ?thesis using False f u that(2) by (simp add: f'_def)
  qed
  moreover have "dom (c(node \<mapsto> Black)) = nodes g" using inv gray by (auto simp: dfs_inv_def)
  moreover have "(c(node \<mapsto> Black)) v = Some Black"
    if "(c(node \<mapsto> Black)) u = Some Black" "(u, v) \<in> edges g" for u v
    using that closed succ by (auto split: if_splits)
  ultimately show ?thesis unfolding dfs_inv_def by blast
qed

lemma visit_correct:
  fixes g :: graph
  shows "dfs_inv g col \<Longrightarrow> col node = Some White \<Longrightarrow> (\<forall>x. col x = Some Gray \<longrightarrow> (x, node) \<in> (edges g)\<^sup>+)
      \<Longrightarrow> card (whites col) \<le> n \<Longrightarrow>
      (case visit n g node col of
         None \<Rightarrow> False
       | Some (b, c) \<Rightarrow> if b then \<not> acyclic (edges g) else dfs_post g col c \<and> c node = Some Black)"
    and "dfs_inv g col \<Longrightarrow> col u = Some Gray \<Longrightarrow> (\<forall>x. col x = Some Gray \<longrightarrow> (x, u) \<in> (edges g)\<^sup>*)
      \<Longrightarrow> set xs \<subseteq> set (GraphOutgoingAgents (node_of g u)) \<Longrightarrow> card (whites col) \<le> n \<Longrightarrow>
      (case visit_nexts n g xs col of
         None \<Rightarrow> False
       | Some (b, c) \<Rightarrow> if b then \<not> acyclic (edges g)
           else dfs_post g col c \<and> (\<forall>x \<in> set xs. x \<in> nodes g \<longrightarrow> c x = Some Black))"
proof (induction n g node col and n g xs col arbitrary: and u rule: visit_visit_nexts.induct)
  case (1 g node col)
  have "finite (whites col)" by (rule whites_finite [OF 1(1)])
  moreover have "node \<in> whites col" using 1(2) by (simp add: whites_def)
  ultimately have "card (whites col) \<noteq> 0" by auto
  with 1(4) show ?case by simp
next
  case (2 n g node col)
  let ?col = "col(node \<mapsto> Gray)"
  note gray = dfs_inv_gray [OF 2(2,3)]
  have c: "?col node = Some Gray" "\<forall>x. ?col x = Some Gray \<longrightarrow> (x, node) \<in> (edges g)\<^sup>*"
    "card (whites ?col) \<le> n" using 2(4,5) gray(2) by auto
  have ih: "case visit_nexts n g (GraphOutgoingAgents (node_of g node)) ?col of
       None \<Rightarrow> False
     | Some (b, c) \<Rightarrow> if b then \<not> acyclic (edges g)
         else dfs_post g ?col c \<and> (\<forall>x \<in> set (GraphOutgoingAgents (node_of g node)).
           x \<in> nodes g \<longrightarrow> c x = Some Black)"
    using 2(1) [OF gray(1) c(1,2) subset_refl c(3)] by (simp only: fun_upd_def)
  show ?case
  proof (cases "visit_nexts n g (GraphOutgoingAgents (node_of g node)) ?col")
    case (Some r)
    obtain b c where r: "r = (b, c)" by force
    show ?thesis
    proof (cases b)
      case False
      with ih Some r have post: "dfs_post g ?col c"
        and blk: "\<forall>x \<in> set (GraphOutgoingAgents (node_of g node)). x \<in> nodes g \<longrightarrow> c x = Some Black"
        by simp_all
      have "dfs_inv g (c(node \<mapsto> Black))"
        using post blk by (intro dfs_inv_black) (auto simp: dfs_post_def edges_def)
      then have "dfs_post g col (c(node \<mapsto> Black))" using post 2(3) by (auto simp: dfs_post_def)
      with Some r False show ?thesis by simp
    qed (use ih Some r in simp)
  qed (use ih in simp)
next
  case (3 n g col)
  then show ?case by (simp add: dfs_post_refl)
next
  case (4 n g nxt rest col)
  have key: "col nxt \<noteq> None \<longleftrightarrow> nxt \<in> nodes g" using 4(5) by (auto simp: dfs_inv_def)
  have u: "u \<in> nodes g" using 4(5,6) by (auto simp: dfs_inv_def)
  have rest: "set rest \<subseteq> set (GraphOutgoingAgents (node_of g u))" using 4(8) by simp
  consider "col nxt = None" | "col nxt = Some Gray" | "col nxt = Some Black" | "col nxt = Some White"
    by (metis color.exhaust not_Some_eq)
  then show ?case
  proof cases
    case 1
    from 4(1) [OF 1 4(5,6,7) rest 4(9)] 1 key show ?thesis by (auto split: option.splits)
  next
    case 2
    then have "(u, nxt) \<in> edges g" using key u 4(8) by (auto simp: edges_def)
    moreover have "(nxt, u) \<in> (edges g)\<^sup>*" using 4(7) 2 by blast
    ultimately have "(u, u) \<in> (edges g)\<^sup>+" by (rule rtrancl_into_trancl2)
    with 2 show ?thesis by (auto simp: acyclic_def)
  next
    case 3
    from 4(4) [OF 3 refl 4(5,6,7) rest 4(9)] 3 show ?thesis
      by (auto simp: dfs_post_def split: option.splits if_splits)
  next
    case w: 4
    have "(u, nxt) \<in> edges g" using key u 4(8) w by (auto simp: edges_def)
    then have "\<forall>x. col x = Some Gray \<longrightarrow> (x, nxt) \<in> (edges g)\<^sup>+" using 4(7) by (meson rtrancl_into_trancl1)
    note v = 4(2) [OF w refl 4(5) w this 4(9)]
    show ?thesis
    proof (cases "visit n g nxt col")
      case (Some r)
      obtain b c where r: "r = (b, c)" by force
      show ?thesis
      proof (cases b)
        case False
        with v Some r w have post: "dfs_post g col c" and blk: "c nxt = Some Black" by simp_all
        have inv: "dfs_inv g c" and gu: "c u = Some Gray"
          and gr: "\<forall>x. c x = Some Gray \<longrightarrow> (x, u) \<in> (edges g)\<^sup>*"
          using post 4(6,7) by (auto simp: dfs_post_def)
        have "card (whites c) \<le> n" using dfs_post_whites [OF 4(5) post] 4(9) by simp
        note ih = 4(3) [OF w refl Some r [symmetric] _ inv gu gr rest this]
        have step: "visit_nexts n g (nxt # rest) col = visit_nexts n g rest c"
          using w Some r False by simp
        have mono: "dfs_post g col c2 \<and> c2 nxt = Some Black" if "dfs_post g c c2" for c2
          using dfs_post_trans [OF post that] that blk unfolding dfs_post_def [of g c] by blast
        show ?thesis unfolding step using ih False
          by (cases "visit_nexts n g rest c") (auto dest: mono split: if_splits)
      qed (use v Some r w in simp)
    qed (use v w in simp)
  qed
qed

lemma cycle_loop_correct:
  assumes "dfs_inv g col" "\<forall>x. col x \<noteq> Some Gray" "card (whites col) \<le> n"
    and "\<forall>x \<in> nodes g - set todo. col x = Some Black" "set todo \<subseteq> nodes g"
  shows "cycle_loop n g todo col = Some (\<not> acyclic (edges g))"
  using assms
proof (induction todo arbitrary: col)
  case Nil
  then obtain f :: "string \<Rightarrow> nat" where "\<forall>u v. col u = Some Black \<longrightarrow> (u, v) \<in> edges g \<longrightarrow> f v < f u"
    by (auto simp: dfs_inv_def)
  moreover have "col u = Some Black" if "(u, v) \<in> edges g" for u v
    using that Nil.prems(4) by (auto simp: edges_def)
  ultimately have "(edges g)\<inverse> \<subseteq> measure f" by auto
  then have "acyclic ((edges g)\<inverse>)" by (rule acyclic_subset [OF wf_acyclic [OF wf_measure]])
  then show ?case by simp
next
  case (Cons node rest)
  show ?case
  proof (cases "col node = Some White")
    case True
    have "case visit n g node col of
        None \<Rightarrow> False
      | Some (b, c) \<Rightarrow> if b then \<not> acyclic (edges g) else dfs_post g col c \<and> c node = Some Black"
      using Cons.prems True by (intro visit_correct(1)) auto
    then obtain b c where v: "visit n g node col = Some (b, c)"
      "if b then \<not> acyclic (edges g) else dfs_post g col c \<and> c node = Some Black"
      by (auto split: option.splits)
    show ?thesis
    proof (cases b)
      case False
      then have post: "dfs_post g col c" "c node = Some Black" using v by simp_all
      have "cycle_loop n g rest c = Some (\<not> acyclic (edges g))"
      proof (rule Cons.IH)
        show "dfs_inv g c" using post by (simp add: dfs_post_def)
        show "\<forall>x. c x \<noteq> Some Gray" using post Cons.prems(2) by (simp add: dfs_post_def)
        show "card (whites c) \<le> n" using dfs_post_whites [OF Cons.prems(1) post(1)] Cons.prems(3) by simp
        show "\<forall>x \<in> nodes g - set rest. c x = Some Black"
        proof
          fix x assume x: "x \<in> nodes g - set rest"
          show "c x = Some Black"
          proof (cases "x = node")
            case False
            then have "col x = Some Black" using x Cons.prems(4) by simp
            then show ?thesis using post(1) by (simp add: dfs_post_def)
          qed (simp add: post(2))
        qed
        show "set rest \<subseteq> nodes g" using Cons.prems(5) by simp
      qed
      with True v False show ?thesis by simp
    qed (use True v in simp)
  next
    case False
    have "node \<in> dom col" using Cons.prems(1,5) by (simp add: dfs_inv_def)
    then have "col node = Some Black" using False Cons.prems(2) by (metis color.exhaust domD)
    then have "\<forall>x \<in> nodes g - set rest. col x = Some Black" using Cons.prems(4) by auto
    with Cons False show ?thesis by simp
  qed
qed

lemma hasGraphCycle_correct: "hasGraphCycle g = Some (\<not> acyclic (edges g))"
proof -
  let ?col = "\<lambda>n. if List.member (map fst g) n then Some White else None"
  have "dom ?col = nodes g" by (simp add: dom_def nodes_def)
  then have inv: "dfs_inv g ?col" by (auto simp: dfs_inv_def split: if_splits)
  have "whites ?col = set (map fst g)" by (auto simp: whites_def)
  then have "card (whites ?col) \<le> length g + 1" using card_length [of "map fst g"] by simp
  then show ?thesis unfolding hasGraphCycle_def
    by (intro cycle_loop_correct inv) (simp_all add: nodes_def)
qed

section \<open>The execution order\<close>

text \<open>The edges into the listed agents, and the number of those into an agent that start outside a set.\<close>

definition deps :: "graph \<Rightarrow> string list \<Rightarrow> (string \<times> string) set" where
  "deps g agents = {(u, v). u \<in> nodes g \<and> v \<in> set agents \<and> v \<in> set (GraphOutgoingAgents (node_of g u))}"

definition remaining :: "graph \<Rightarrow> string set \<Rightarrow> string \<Rightarrow> int" where
  "remaining g D a =
     int (length (filter (\<lambda>(n, e). n \<notin> D \<and> a \<in> set (GraphOutgoingAgents e)) g))"

lemma map_of_bump:
  "map_of (bump d to m) a = map_option (\<lambda>k. k + (if a = to then d else 0)) (map_of m a)"
  by (cases "map_of m a") (auto simp: bump_def update_conv' split: option.splits)

lemma map_of_fold_bump:
  "distinct tos \<Longrightarrow> map_of (fold (bump d) tos m) a
     = map_option (\<lambda>k. k + (if a \<in> set tos then d else 0)) (map_of m a)"
proof (induction tos arbitrary: m)
  case (Cons to tos)
  then show ?case by (cases "map_of m a") (auto simp: map_of_bump)
qed (simp add: option.map_ident)

lemma map_of_init_indegree: "map_of (init_indegree agents) a = (if a \<in> set agents then Some 0 else None)"
proof -
  have "map_of (fold (\<lambda>a m. AList.update a 0 m) xs m) a = (if a \<in> set xs then Some 0 else map_of m a)"
    for xs and m :: "(string \<times> int) list"
    by (induction xs arbitrary: m) (auto simp: update_conv')
  then show ?thesis by (simp add: init_indegree_def)
qed

lemma map_of_indegrees:
  "map_of (indegrees g agents) a = (if a \<in> set agents then Some (remaining g {} a) else None)"
proof -
  have "map_of (fold (\<lambda>(n, e). fold (bump 1) (GraphOutgoingAgents e)) xs m) a
      = map_option (\<lambda>k. k + remaining xs {} a) (map_of m a)" for xs m
  proof (induction xs arbitrary: m)
    case Nil
    then show ?case by (simp add: remaining_def option.map_ident)
  next
    case (Cons x xs)
    then show ?case
      by (cases x, cases "map_of m a")
        (auto simp: map_of_fold_bump GraphOutgoingAgents_distinct remaining_def)
  qed
  then show ?thesis by (simp add: indegrees_def map_of_init_indegree)
qed

text \<open>What one round of the inner loop does, for distinct targets.\<close>

lemma fold_relax:
  assumes "distinct tos" "fold relax tos (ind, queue, queued) = (ind', queue', queued')"
  shows "map_of ind' a = map_option (\<lambda>k. k - (if a \<in> set tos then 1 else 0)) (map_of ind a)"
    and "set queue' = set queue \<union> {a \<in> set tos. map_of ind a = Some 1 \<and> a \<notin> set queued}"
    and "set queued' = set queued \<union> {a \<in> set tos. map_of ind a = Some 1}"
proof -
  have "(\<forall>a. map_of ind' a = map_option (\<lambda>k. k - (if a \<in> set tos then 1 else 0)) (map_of ind a))
    \<and> set queue' = set queue \<union> {a \<in> set tos. map_of ind a = Some 1 \<and> a \<notin> set queued}
    \<and> set queued' = set queued \<union> {a \<in> set tos. map_of ind a = Some 1}"
    using assms
  proof (induction tos arbitrary: ind queue queued)
    case Nil
    then show ?case by (simp add: option.map_ident)
  next
    case (Cons to tos)
    obtain i q d where r: "relax to (ind, queue, queued) = (i, q, d)" by (metis prod_cases3)
    have ind: "map_of i a = map_option (\<lambda>k. k - (if a = to then 1 else 0)) (map_of ind a)" for a
      using r by (cases "map_of ind a")
        (auto simp: relax_def Let_def update_conv' split: option.splits if_splits)
    have q: "set q = set queue \<union> (if map_of ind to = Some 1 \<and> to \<notin> set queued then {to} else {})"
      and d: "set d = set queued \<union> (if map_of ind to = Some 1 then {to} else {})"
      using r by (auto simp: relax_def Let_def split: option.splits if_splits)
    have rest: "map_of i a = map_of ind a" if "a \<in> set tos" for a
    proof -
      have "a \<noteq> to" using that Cons.prems(1) by auto
      then show ?thesis by (simp add: ind option.map_ident)
    qed
    have ih: "(\<forall>a. map_of ind' a = map_option (\<lambda>k. k - (if a \<in> set tos then 1 else 0)) (map_of i a))
      \<and> set queue' = set q \<union> {a \<in> set tos. map_of i a = Some 1 \<and> a \<notin> set d}
      \<and> set queued' = set d \<union> {a \<in> set tos. map_of i a = Some 1}"
      using Cons.prems r by (intro Cons.IH) simp_all
    have "map_of ind' a = map_option (\<lambda>k. k - (if a \<in> set (to # tos) then 1 else 0)) (map_of ind a)" for a
      using ih ind [of a] Cons.prems(1) by (cases "map_of ind a") auto
    moreover have "{a \<in> set tos. map_of i a = Some 1 \<and> a \<notin> set d}
        = {a \<in> set tos. map_of ind a = Some 1 \<and> a \<notin> set queued}"
      using rest d Cons.prems(1) by (auto split: if_splits)
    moreover have "{a \<in> set tos. map_of i a = Some 1} = {a \<in> set tos. map_of ind a = Some 1}"
      using rest by auto
    ultimately show ?case using ih q d by auto
  qed
  then show "map_of ind' a = map_option (\<lambda>k. k - (if a \<in> set tos then 1 else 0)) (map_of ind a)"
    and "set queue' = set queue \<union> {a \<in> set tos. map_of ind a = Some 1 \<and> a \<notin> set queued}"
    and "set queued' = set queued \<union> {a \<in> set tos. map_of ind a = Some 1}" by blast+
qed

lemma remaining_nonneg [simp]: "0 \<le> remaining g D a"
  by (simp add: remaining_def)

lemma remaining_zero:
  "remaining g D a = 0 \<longleftrightarrow> (\<forall>(n, e) \<in> set g. a \<in> set (GraphOutgoingAgents e) \<longrightarrow> n \<in> D)"
  by (auto simp: remaining_def filter_empty_conv)

text \<open>Visiting a node settles its own edges.\<close>

lemma remaining_Cons:
  "remaining ((n, e) # g) D a
     = (if n \<notin> D \<and> a \<in> set (GraphOutgoingAgents e) then 1 else 0) + remaining g D a"
  by (simp add: remaining_def)

lemma remaining_insert:
  assumes "distinct (map fst g)" "c \<notin> D"
  shows "remaining g (insert c D) a =
    remaining g D a - (if a \<in> set (case map_of g c of None \<Rightarrow> [] | Some e \<Rightarrow> GraphOutgoingAgents e) then 1 else 0)"
  using assms(1)
proof (induction g)
  case (Cons ne g)
  obtain n e where ne: "ne = (n, e)" by force
  show ?case
  proof (cases "n = c")
    case True
    then have "map_of g c = None" using Cons.prems ne by (simp add: map_of_eq_None_iff)
    then have "remaining g (insert c D) a = remaining g D a" using Cons by simp
    with True ne assms(2) show ?thesis by (simp add: remaining_Cons)
  next
    case False
    then have "map_of (ne # g) c = map_of g c" using ne by simp
    with Cons False show ?thesis unfolding ne remaining_Cons by simp
  qed
qed (simp add: remaining_def)

definition topo :: "graph \<Rightarrow> string list \<Rightarrow> string list \<Rightarrow> bool" where
  "topo g agents order \<longleftrightarrow>
     (\<forall>i < length order. \<forall>u. (u, order ! i) \<in> deps g agents \<longrightarrow> u \<in> set (take i order))"

lemma topo_snoc:
  assumes "topo g agents order" "\<forall>u. (u, c) \<in> deps g agents \<longrightarrow> u \<in> set order"
  shows "topo g agents (order @ [c])"
  using assms by (auto simp: topo_def nth_append less_Suc_eq)

definition kahn_inv :: "graph \<Rightarrow> string list \<Rightarrow> kahn \<Rightarrow> string list \<Rightarrow> bool" where
  "kahn_inv g agents st order \<longleftrightarrow>
     (let (ind, queue, queued) = st
      in (\<forall>a. map_of ind a = (if a \<in> set agents then Some (remaining g (set order) a) else None))
         \<and> set queued = set order \<union> set queue \<and> set queued \<subseteq> set agents \<and> distinct order
         \<and> (\<forall>a \<in> set agents. remaining g (set order) a = 0 \<longleftrightarrow> a \<in> set queued)
         \<and> topo g agents order)"

lemma kahn_invD:
  assumes "kahn_inv g agents (ind, queue, queued) order"
  shows "map_of ind a = (if a \<in> set agents then Some (remaining g (set order) a) else None)"
    and "set queued = set order \<union> set queue" "set queued \<subseteq> set agents" "distinct order"
    and "\<forall>a \<in> set agents. remaining g (set order) a = 0 \<longleftrightarrow> a \<in> set queued" "topo g agents order"
  using assms unfolding kahn_inv_def Let_def prod.case by blast+

lemma deps_remaining:
  "distinct (map fst g) \<Longrightarrow> remaining g D a = 0 \<Longrightarrow> (u, a) \<in> deps g agents \<Longrightarrow> u \<in> D"
  unfolding remaining_zero deps_def nodes_def node_of_def by fastforce

lemma kahn_inv_step:
  assumes inv: "kahn_inv g agents (ind, c # queue, queued) order" and new: "c \<notin> set order"
    and dist: "distinct (map fst g)"
    and out: "tos = (case map_of g c of None \<Rightarrow> [] | Some e \<Rightarrow> GraphOutgoingAgents e)"
  shows "kahn_inv g agents (fold relax tos (ind, queue, queued)) (order @ [c])"
proof -
  obtain ind' queue' queued' where f: "fold relax tos (ind, queue, queued) = (ind', queue', queued')"
    by (metis prod_cases3)
  have "distinct tos" using out by (simp add: GraphOutgoingAgents_distinct split: option.splits)
  note fr = fold_relax [OF this f]
  note i = kahn_invD(1) [OF inv] and q = kahn_invD(2-4) [OF inv] and z = kahn_invD(5) [OF inv]
    and t = kahn_invD(6) [OF inv]
  have rem: "remaining g (set (order @ [c])) a = remaining g (set order) a - (if a \<in> set tos then 1 else 0)" for a
    using remaining_insert [OF dist new, of a] out by simp
  have c: "c \<in> set agents" "remaining g (set order) c = 0" using q z by auto
  have "topo g agents (order @ [c])" using topo_snoc [OF t] deps_remaining [OF dist c(2)] by blast
  moreover have "map_of ind' a = (if a \<in> set agents then Some (remaining g (set (order @ [c])) a) else None)" for a
    unfolding rem using fr(1) [of a] i [of a] by simp
  moreover have "set queued' = set (order @ [c]) \<union> set queue'" using fr(2,3) q(1) by auto
  moreover have "set queued' \<subseteq> set agents" using fr(3) q(2) i by (auto split: if_splits)
  moreover have "remaining g (set (order @ [c])) a = 0 \<longleftrightarrow> a \<in> set queued'" if "a \<in> set agents" for a
  proof -
    have "0 \<le> remaining g (set (order @ [c])) a" by simp
    then show ?thesis using that z fr(3) i [of a] unfolding rem by (auto split: if_splits)
  qed
  ultimately show ?thesis using f new q(3) by (simp add: kahn_inv_def)
qed

lemma kahn_loop_inv:
  assumes "distinct (map fst g)" "kahn_inv g agents (ind, queue, queued) order"
  shows "\<exists>ind' queued'. kahn_inv g agents (ind', [], queued') (kahn_loop g (ind, queue, queued) order)"
  using assms
proof (induction g "(ind, queue, queued)" order arbitrary: ind queue queued rule: kahn_loop.induct)
  case (1 g ind queued order)
  then show ?case by auto
next
  case (2 g ind c queue queued order)
  show ?case
  proof (cases "c \<in> set order")
    case True
    have "kahn_inv g agents (ind, queue, queued) order"
      using 2(4) True by (auto simp: kahn_inv_def)
    with 2(1) [OF _ 2(3)] True show ?thesis by simp
  next
    case False
    define st where "st = fold relax (case map_of g c of None \<Rightarrow> [] | Some e \<Rightarrow> GraphOutgoingAgents e)
      (ind, queue, queued)"
    have "kahn_inv g agents st (order @ [c])"
      unfolding st_def using kahn_inv_step [OF 2(4) False 2(3) refl] .
    moreover obtain i q d where st: "st = (i, q, d)" by (metis prod_cases3)
    moreover have "kahn_loop g (ind, c # queue, queued) order = kahn_loop g st (order @ [c])"
      using False by (simp add: st_def)
    ultimately show ?thesis using 2(2) [of i q d, OF _ _ 2(3)] False by (simp add: st_def)
  qed
qed

lemma kahn_inv_start:
  assumes "queue = filter (\<lambda>a. deg (indegrees g agents) a = 0) agents"
  shows "kahn_inv g agents (indegrees g agents, queue, rev queue) []"
  using assms by (auto simp: kahn_inv_def map_of_indegrees deg_def topo_def)

text \<open>Without cycles, every agent that is left has an agent left before it, so none is left.\<close>

lemma deps_wf:
  assumes "acyclic (deps g agents)"
  shows "wf (deps g agents)"
proof -
  have "deps g agents \<subseteq> nodes g \<times> set agents" by (auto simp: deps_def)
  then have "finite (deps g agents)" by (rule finite_subset) simp
  then show ?thesis using assms by (rule finite_acyclic_wf)
qed

lemma acyclic_reaches_all:
  assumes "distinct (map fst g)" "acyclic (deps g agents)" "nodes g \<subseteq> set agents"
    and "\<forall>a \<in> set agents. remaining g D a = 0 \<longrightarrow> a \<in> D"
  shows "set agents \<subseteq> D"
proof (rule ccontr)
  assume "\<not> set agents \<subseteq> D"
  then obtain a where "a \<in> set agents - D" by blast
  from wfE_min [OF deps_wf [OF assms(2)] this] obtain z where
    z: "z \<in> set agents - D" "\<And>y. (y, z) \<in> deps g agents \<Longrightarrow> y \<notin> set agents - D" by blast
  have "remaining g D z = 0"
    unfolding remaining_zero
  proof clarify
    fix n e assume ne: "(n, e) \<in> set g" "z \<in> set (GraphOutgoingAgents e)"
    then have "(n, z) \<in> deps g agents"
      using z(1) assms(1) by (force simp: deps_def nodes_def node_of_def)
    moreover have "n \<in> set agents" using ne(1) assms(3) by (force simp: nodes_def)
    ultimately show "n \<in> D" using z(2) by blast
  qed
  with assms(4) z(1) show False by blast
qed

text \<open>A cycle of dependencies runs through nodes of the graph only.\<close>

lemma deps_trancl_edges:
  "(u, v) \<in> (deps g agents)\<^sup>+ \<Longrightarrow> v \<in> nodes g \<Longrightarrow> (u, v) \<in> (edges g)\<^sup>+"
proof (induction rule: trancl_induct)
  case (base y)
  then show ?case by (auto simp: deps_def edges_def)
next
  case (step y z)
  then have "y \<in> nodes g" "(y, z) \<in> edges g" by (auto simp: deps_def edges_def)
  with step show ?case by (meson trancl_into_trancl)
qed

lemma acyclic_deps: "acyclic (edges g) \<Longrightarrow> acyclic (deps g agents)"
proof (rule acyclicI, rule allI, rule notI)
  fix x assume e: "acyclic (edges g)" and x: "(x, x) \<in> (deps g agents)\<^sup>+"
  then have "x \<in> nodes g" by (auto simp: deps_def dest: tranclD)
  with deps_trancl_edges [OF x] e show False by (simp add: acyclic_def)
qed

lemma validateGraph_nodes: "validateGraph g agentSet = [] \<Longrightarrow> nodes g \<subseteq> set agentSet"
  by (auto simp: validateGraph_def validate_node_def nodes_def Let_def split: if_splits)

section \<open>Properties\<close>

text \<open>
  C31: The controller's search for a cycle is exact: it always ends, and it reports a cycle exactly
  when the graph's edges between its nodes have one.
\<close>

theorem hasGraphCycle_exact: "hasGraphCycle g = Some (\<not> acyclic (edges g))"
  by (rule hasGraphCycle_correct)

text \<open>
  C32: For a graph that passes the controller's checks, the execution order lists every agent once
  and after all agents that have an edge to it.
\<close>

theorem ExecutionAgentOrder_topological:
  assumes "distinct (as_Agents sp)" "distinct (map fst (as_Graph sp))"
    and "validateGraph (as_Graph sp) (as_Agents sp) = []" "hasGraphCycle (as_Graph sp) = Some False"
  shows "distinct (ExecutionAgentOrder sp) \<and> set (ExecutionAgentOrder sp) = set (as_Agents sp)
    \<and> (\<forall>i < length (ExecutionAgentOrder sp). \<forall>u.
        (u, ExecutionAgentOrder sp ! i) \<in> deps (as_Graph sp) (as_Agents sp) \<longrightarrow>
        u \<in> set (take i (ExecutionAgentOrder sp)))"
proof -
  let ?g = "as_Graph sp" and ?as = "as_Agents sp"
  let ?q = "filter (\<lambda>a. deg (indegrees ?g ?as) a = 0) ?as"
  let ?o = "kahn_loop ?g (indegrees ?g ?as, ?q, rev ?q) []"
  have acyc: "acyclic (deps ?g ?as)" using assms(4) hasGraphCycle_correct [of ?g] acyclic_deps by simp
  note nodes = validateGraph_nodes [OF assms(3)]
  obtain ind queued where inv: "kahn_inv ?g ?as (ind, [], queued) ?o"
    using kahn_loop_inv [OF assms(2) kahn_inv_start [OF refl]] by blast
  note o = kahn_invD [OF inv]
  have all: "set ?o = set ?as"
    using acyclic_reaches_all [OF assms(2) acyc nodes, of "set ?o"] o(2,3,5) by simp
  show ?thesis
  proof (cases "length ?as = 0 \<or> length ?g = 0")
    case True
    then have "ExecutionAgentOrder sp = ?as" by (auto simp: ExecutionAgentOrder_def Let_def)
    moreover have "deps ?g ?as = {}" using True by (auto simp: deps_def nodes_def)
    ultimately show ?thesis using assms(1) by simp
  next
    case False
    have "?q \<noteq> []"
    proof
      assume "?q = []"
      then have "?o = []" by simp
      with all False show False by simp
    qed
    moreover have "filter (\<lambda>a. \<not> List.member ?o a) ?as = []" using all by (simp add: filter_empty_conv)
    ultimately have "ExecutionAgentOrder sp = ?o" using False by (simp add: ExecutionAgentOrder_def Let_def)
    with o(4,6) all show ?thesis by (simp add: topo_def)
  qed
qed

definition demo_graph :: AgentSystemSpec where
  "demo_graph = \<lparr>as_Agents = [''c'', ''b'', ''a''],
     as_Graph = [(''a'', zero_edge\<lparr>n_Next := ''b''\<rparr>), (''b'', zero_edge\<lparr>n_Edges := [plain_route ''c'']\<rparr>)],
     as_CompletionReview = None, as_ContextAdapter = [], as_A2A_Enabled = False, as_A2A_Auth = []\<rparr>"

theorem ExecutionAgentOrder_topological_witness:
  "ExecutionAgentOrder demo_graph = [''a'', ''b'', ''c''] \<and> distinct (ExecutionAgentOrder demo_graph)"
proof -
  have "distinct (as_Agents demo_graph)" "distinct (map fst (as_Graph demo_graph))"
    "validateGraph (as_Graph demo_graph) (as_Agents demo_graph) = []"
    "hasGraphCycle (as_Graph demo_graph) = Some False"
    and o: "ExecutionAgentOrder demo_graph = [''a'', ''b'', ''c'']" by code_simp+
  from ExecutionAgentOrder_topological [OF this(1-4)] o show ?thesis by simp
qed

text \<open>
  Which edges fire for an agent's output. Without conditions all do. With conditions, the
  unconditional edges fire together with the conditional edges that match; when none matches, the
  default edge fires in their place. No edge fires twice, none fires that the node does not have,
  and a conditional edge that is neither matched nor a needed default never fires.
\<close>

theorem FilterRoutes_fires:
  "set (FilterRoutesForOutput lib routes output) =
     {r \<in> set routes. case r_Condition r of
        None \<Rightarrow> True
      | Some c \<Rightarrow>
          if c_Default c then
            \<not> (\<exists>r' \<in> set routes. \<exists>c'. r_Condition r' = Some c' \<and> \<not> c_Default c'
                \<and> edgeConditionMatches lib c' output (to_lower output))
          else edgeConditionMatches lib c output (to_lower output)}
   \<and> (distinct routes \<longrightarrow> distinct (FilterRoutesForOutput lib routes output))"
proof -
  let ?m = "\<lambda>r. case r_Condition r of None \<Rightarrow> False
    | Some c \<Rightarrow> \<not> c_Default c \<and> edgeConditionMatches lib c output (to_lower output)"
  let ?d = "\<lambda>r. case r_Condition r of None \<Rightarrow> False | Some c \<Rightarrow> c_Default c"
  let ?F = "FilterRoutesForOutput lib routes output"
  have M: "(\<exists>r' \<in> set routes. \<exists>c'. r_Condition r' = Some c' \<and> \<not> c_Default c'
      \<and> edgeConditionMatches lib c' output (to_lower output)) \<longleftrightarrow> filter ?m routes \<noteq> []"
    by (auto simp: filter_empty_conv split: option.splits)
  show ?thesis
  proof (cases "list_ex (\<lambda>r. r_Condition r \<noteq> None) routes")
    case False
    then have "?F = routes" by (simp add: FilterRoutesForOutput_def)
    moreover have "\<forall>r \<in> set routes. r_Condition r = None" using False by (auto simp: list_ex_iff)
    ultimately show ?thesis by auto
  next
    case True
    let ?u = "filter (\<lambda>r. r_Condition r = None) routes"
    have "?F = (if filter ?m routes \<noteq> [] then filter ?m routes else filter ?d routes) @ ?u"
      using True by (cases routes) (auto simp: FilterRoutesForOutput_def Let_def)
    then show ?thesis unfolding M
      by (cases "filter ?m routes = []") (auto split: option.splits if_splits simp: filter_empty_conv)
  qed
qed

definition demo_lib :: cond_lib where
  "demo_lib = \<lparr>re_compiles = (\<lambda>_. True), re_matches = (\<lambda>_ _. False), is_float = (\<lambda>_. True),
     json_cond = (\<lambda>_ _. False)\<rparr>"

definition demo_cond :: EdgeCondition where
  "demo_cond = \<lparr>c_OutputContains = [], c_OutputNotContains = [], c_OutputMatches = [], c_Default = False,
     c_OutputJSONPath = [], c_Equals = [], c_NotEquals = [], c_Contains = [], c_GreaterThan = [],
     c_LessThan = []\<rparr>"

definition demo_routes :: "GraphRoute list" where
  "demo_routes =
     [(plain_route ''yes'')\<lparr>r_Condition := Some (demo_cond\<lparr>c_OutputContains := ''Approve''\<rparr>)\<rparr>,
      (plain_route ''no'')\<lparr>r_Condition := Some (demo_cond\<lparr>c_Default := True\<rparr>)\<rparr>, plain_route ''log'']"

theorem FilterRoutes_fires_witness:
  "map r_To (FilterRoutesForOutput demo_lib demo_routes ''approved'') = [''yes'', ''log'']
   \<and> map r_To (FilterRoutesForOutput demo_lib demo_routes ''rejected'') = [''no'', ''log'']
   \<and> distinct (FilterRoutesForOutput demo_lib demo_routes ''rejected'')"
proof -
  have "distinct demo_routes"
    and "map r_To (FilterRoutesForOutput demo_lib demo_routes ''approved'') = [''yes'', ''log'']"
    and "map r_To (FilterRoutesForOutput demo_lib demo_routes ''rejected'') = [''no'', ''log'']"
    by code_simp+
  with FilterRoutes_fires [of demo_lib demo_routes "''rejected''"] show ?thesis by blast
qed

end
