(* ===== verification/Message_Process.thy ===== *)
theory Message_Process
  imports Message_Consumer Tool_Approval Governance Graph_Order
begin

text \<open>
  The processing of one delivered message (processMessage in runtime/agent_message_consumer.go): the
  attempt is opened, the join and delegation gates are passed, the agent is looked up and checked
  against the policies, its input is prepared, it is executed, the budgets and the turn limit are
  checked, and the outcome is recorded: retried, dead-lettered, completed, forwarded to the next
  agents or delegates, or paused for an approval.

  What the code looks up and what the execution of an agent gives are the fields of \<open>process_env\<close>;
  what others do to the stores and to the bus meanwhile, which accesses fail, and the clock are
  those of \<open>process_world\<close>, one \<open>world\<close> for each loop of the call. The runtimes of the tools, in
  process or as a Kubernetes job, are behind the execution. Telemetry, metering and debug output are
  left out.
\<close>

section \<open>What a call reads and changes\<close>

text \<open>Of a model endpoint the record has the field that is read.\<close>

record ModelEndpoint =
  me_DefaultModel :: string

record OrlojToolConfig =
  oc_ParentNamespace :: string
  oc_ParentTaskName :: string
  oc_CurrentDepth :: int
  oc_MaxDepth :: int
  oc_MaxChildren :: int

text \<open>
  The optional lookups of the manager are options. A lookup gives an error's text, or the resource
  if it is there. The context adapter gets a namespace, a key and the input; the decoder is
  json.Unmarshal into the struct; the execution gets the agent, the limits of the orloj tools, the
  input and the memory the agents of the task share, and returns that memory.
\<close>

record process_env =
  pe_lib :: cond_lib
  pe_systems :: "string \<Rightarrow> string + AgentSystem option"
  pe_agents :: "string \<Rightarrow> string + Agent option"
  pe_modelEPs :: "(string \<Rightarrow> string + ModelEndpoint option) option"
  pe_policies :: "(string + AgentPolicy list) option"
  pe_contextAdapters :: "(string \<Rightarrow> string \<Rightarrow> smap \<Rightarrow> go_error + smap) option"
  pe_unmarshal :: "string \<Rightarrow> ReviewRequestPayload option"
  pe_execute :: "Agent \<Rightarrow> OrlojToolConfig option \<Rightarrow> smap \<Rightarrow> smap \<Rightarrow> (AgentExecutionResult \<times> go_error option) \<times> smap"

record process_world =
  pw_delivery :: world
  pw_begin :: world
  pw_join :: world
  pw_delegation :: world
  pw_trace :: world
  pw_toolCheck :: world
  pw_tool :: world
  pw_review :: world
  pw_completion :: world
  pw_end :: world
  pw_toolApprovals :: "ToolApprovalStore \<Rightarrow> ToolApprovalStore"
  pw_reviews :: "nat \<Rightarrow> TaskApprovalStore \<Rightarrow> TaskApprovalStore"
  pw_completions :: "nat \<Rightarrow> TaskApprovalStore \<Rightarrow> TaskApprovalStore"
  pw_bus :: "nat \<Rightarrow> MemoryAgentMessageBus \<Rightarrow> MemoryAgentMessageBus"
  pw_clock :: "nat \<Rightarrow> instant"

record process_state =
  ps_run :: consumer_state
  ps_toolApprovals :: "ToolApprovalStore option"
  ps_taskApprovals :: "TaskApprovalStore option"
  ps_bus :: MemoryAgentMessageBus

abbreviation ps_tasks :: "process_state \<Rightarrow> TaskStore" where
  "ps_tasks s \<equiv> cs_tasks (ps_run s)"

type_synonym answer = "delivery_error option"

text \<open>A loop on the task store, and a log line whose failure is ignored.\<close>

definition on_run :: "(consumer_state \<Rightarrow> 'x \<times> consumer_state) \<Rightarrow> process_state \<Rightarrow> 'x \<times> process_state" where
  "on_run f s = (let (x, r) = f (ps_run s) in (x, s\<lparr>ps_run := r\<rparr>))"

definition log_task :: "instant \<Rightarrow> string \<Rightarrow> string \<Rightarrow> process_state \<Rightarrow> process_state" where
  "log_task now key line s =
     s\<lparr>ps_run := (ps_run s)\<lparr>cs_tasks := snd (TaskStore_AppendLog now key line (ps_tasks s))\<rparr>\<rparr>"

definition quoted :: "string \<Rightarrow> string" where
  "quoted s = [CHR 0x22] @ s @ [CHR 0x22]"

text \<open>What each failure of processMessage ends with.\<close>

definition retry_or_drop ::
  "consumer_config \<Rightarrow> process_world \<Rightarrow> string \<Rightarrow> AgentMessage \<Rightarrow> TaskMessage \<Rightarrow> go_error \<Rightarrow> string
    \<Rightarrow> process_state \<Rightarrow> answer \<times> process_state" where
  "retry_or_drop c w key msg record err cause s =
     (case on_run (recordRetryOrDeadLetter c (pw_end w) key msg record err) s of
        (Inl e, s) \<Rightarrow> (Some (failure_answer e), s)
      | (Inr (True, delay), s) \<Rightarrow> (Some (RetryAfter delay cause), s)
      | (Inr (False, _), s) \<Rightarrow> (None, s))"

definition end_stage ::
  "consumer_config \<Rightarrow> process_world \<Rightarrow> string \<Rightarrow> AgentMessage \<Rightarrow> TaskMessage \<Rightarrow> go_error
    \<Rightarrow> process_state \<Rightarrow> (answer + 'x) \<times> process_state" where
  "end_stage c w key msg record err s = (let (a, s) = retry_or_drop c w key msg record err [] s in (Inl a, s))"

section \<open>The agent and its policies\<close>

definition ParseModelEndpointRef :: "string \<Rightarrow> string \<Rightarrow> string \<times> string" where
  "ParseModelEndpointRef defaultNamespace ref =
     (let ref = trim_space ref
      in if List.member ref CHR ''/'' then
           (let (a, b) = split_first CHR ''/'' ref in (NormalizeNamespace (trim_space a), trim_space b))
         else (NormalizeNamespace defaultNamespace, ref))"

definition ResolveAgentModelRef ::
  "string \<Rightarrow> string \<Rightarrow> (string \<Rightarrow> string + ModelEndpoint option) option \<Rightarrow> go_error + string" where
  "ResolveAgentModelRef defaultNamespace modelRef endpoints =
     (case endpoints of
        None \<Rightarrow> Inl (ErrText ''no model endpoint store configured'')
      | Some get \<Rightarrow>
          let modelRef = trim_space modelRef;
              (refNamespace, refName) = ParseModelEndpointRef defaultNamespace modelRef
          in if modelRef = [] then Inl (ErrText ''spec.model_ref is required'')
             else case get (NormalizeNamespace refNamespace @ ''/'' @ trim_space refName) of
                    Inl e \<Rightarrow> Inl (ErrWrap (''model endpoint '' @ quoted modelRef @ '' lookup failed: '') (ErrText e) [])
                  | Inr None \<Rightarrow> Inl (ErrText (''model endpoint '' @ quoted modelRef @ '' not found''))
                  | Inr (Some endpoint) \<Rightarrow>
                      (let model = trim_space (me_DefaultModel endpoint)
                       in if model = []
                          then Inl (ErrText (''model endpoint '' @ quoted modelRef @ '' has empty spec.default_model''))
                          else Inr model))"

fun violation_text :: "Agent \<Rightarrow> policy_violation \<Rightarrow> string" where
  "violation_text agent (DisallowsModel policy model) =
     ''policy '' @ quoted policy @ '' disallows model '' @ quoted model @ '' (model_ref=''
     @ quoted (ag_ModelRef (ag_Spec agent)) @ '') for agent '' @ quoted (m_Name (ag_Metadata agent))"
| "violation_text agent (BlocksTool policy tool) =
     ''policy '' @ quoted policy @ '' blocks tool '' @ quoted tool @ '' for agent ''
     @ quoted (m_Name (ag_Metadata agent))"

text \<open>
  The agent with its model and the policies that apply; \<open>Inl\<close> ends the call. When the policies
  cannot be listed, none apply.
\<close>

definition resolve_agent ::
  "consumer_config \<Rightarrow> process_env \<Rightarrow> process_world \<Rightarrow> string \<Rightarrow> AgentMessage \<Rightarrow> TaskMessage \<Rightarrow> Task \<Rightarrow> AgentSystem
    \<Rightarrow> process_state \<Rightarrow> (answer + Agent \<times> AgentPolicy list) \<times> process_state" where
  "resolve_agent c E w key msg record t system s =
     (let ns = fst (splitTaskKey key)
      in case pe_agents E (scopedTaskName ns (am_ToAgent msg)) of
           Inl e \<Rightarrow> (Inl (Some (OtherError e)), s)
         | Inr None \<Rightarrow> end_stage c w key msg record (ErrText (''agent '' @ quoted (am_ToAgent msg) @ '' not found for message processing'')) s
         | Inr (Some agent) \<Rightarrow>
             (let name = m_Name (ag_Metadata agent)
              in case ResolveAgentModelRef ns (ag_ModelRef (ag_Spec agent)) (pe_modelEPs E) of
                   Inl e \<Rightarrow> end_stage c w key msg record (ErrWrap (''agent '' @ name @ '' model resolution failed: '') e []) s
                 | Inr model \<Rightarrow>
                     (let agent = agent\<lparr>ag_Spec := (ag_Spec agent)\<lparr>ag_Model := model\<rparr>\<rparr>;
                          matched = (case pe_policies E of Some (Inr all) \<Rightarrow> MatchedPolicies t system all | _ \<Rightarrow> [])
                      in case EnforcePoliciesForAgent agent model matched of
                           None \<Rightarrow> (Inr (agent, matched), s)
                         | Some v \<Rightarrow>
                             end_stage c w key msg record (ErrWrap (''agent '' @ name @ '' policy violation: '') (ErrText (violation_text agent v)) [])
                               (log_task (pw_clock w 0) key (''agent policy violation: '' @ name @ '' error=''
                                 @ violation_text agent v) s))))"

section \<open>Input\<close>

definition put_all :: "(string \<times> string) list \<Rightarrow> smap \<Rightarrow> smap" where
  "put_all kvs m = fold (\<lambda>(k, v). fmupd k v) kvs m"

definition gate_fields :: "string \<Rightarrow> gate_decision \<Rightarrow> (string \<times> string) list" where
  "gate_fields word d =
     (let k = (\<lambda>f. ''inbox.'' @ word @ ''.'' @ f)
      in if gd_Mode d = [] then []
         else [(k ''enabled'', ''true''), (k ''mode'', gd_Mode d),
               (k ''received'', itoa (int (length (gd_Sources d)))), (k ''required'', itoa (gd_Required d)),
               (k ''sources'', SourceAgents (gd_Sources d)), (k ''payloads'', SourcePayloads (gd_Sources d))])"

definition inbox_fields :: "AgentMessage \<Rightarrow> (string \<times> string) list" where
  "inbox_fields msg =
     [(''inbox.from'', trim_space (am_FromAgent msg)), (''inbox.to'', trim_space (am_ToAgent msg)),
      (''inbox.content'', trim_space (am_Payload msg)), (''inbox.message_id'', trim_space (am_MessageID msg)),
      (''inbox.trace_id'', trim_space (am_TraceID msg)), (''inbox.branch_id'', trim_space (am_BranchID msg)),
      (''inbox.parent_branch_id'', trim_space (am_ParentBranchID msg)),
      (''previous_agent'', trim_space (am_FromAgent msg))]"

definition DecodeReviewRequestPayload :: "process_env \<Rightarrow> string \<Rightarrow> ReviewRequestPayload option" where
  "DecodeReviewRequestPayload E raw = pe_unmarshal E (trim_space raw)"

definition review_fields :: "process_env \<Rightarrow> AgentMessage \<Rightarrow> (string \<times> string) list" where
  "review_fields E msg =
     (if \<not> equal_fold (trim_space (am_Type msg)) ''review_request_changes'' then []
      else case DecodeReviewRequestPayload E (am_Payload msg) of
             None \<Rightarrow> []
           | Some p \<Rightarrow>
               [(''inbox.content'', trim_space (rq_Content p)), (''review.feedback'', trim_space (rq_Feedback p)),
                (''review.previous_output'', trim_space (rq_PreviousOutput p)),
                (''review.checkpoint_id'', trim_space (rq_CheckpointID p))]
               @ (if 0 < rq_Cycle p then [(''review.cycle'', itoa (rq_Cycle p))] else [])
               @ [(''review.requested_by'', trim_space (rq_RequestedBy p)),
                  (''review.supersedes'', trim_space (rq_Supersedes p))])"

definition prepared_input ::
  "process_env \<Rightarrow> AgentMessage \<Rightarrow> gate_decision \<Rightarrow> gate_decision \<Rightarrow> smap \<Rightarrow> smap" where
  "prepared_input E msg join delegation input =
     put_all (inbox_fields msg @ review_fields E msg @ gate_fields ''join'' join @ gate_fields ''delegation'' delegation) input"

definition zero_StepEvent :: AgentStepEvent where
  "zero_StepEvent = \<lparr>ev_Timestamp = [], ev_Type = [], ev_Step = 0, ev_Tool = [], ev_Message = [], ev_ErrorCode = [],
     ev_ErrorReason = [], ev_Retryable = None, ev_ToolContractVersion = [], ev_ToolRequestID = [], ev_ToolAttempt = 0,
     ev_LatencyMS = 0, ev_Tokens = 0, ev_InputTokens = 0, ev_OutputTokens = 0, ev_UsageSource = [],
     ev_ToolAuthProfile = [], ev_ToolAuthSecretRef = []\<rparr>"

text \<open>
  The context adapter, before the first agent of the system only. The trace event of a failure is
  appended to a copy of the task that is not stored, so it is not part of the result.
\<close>

definition adapt_input ::
  "consumer_config \<Rightarrow> process_env \<Rightarrow> process_world \<Rightarrow> string \<Rightarrow> AgentMessage \<Rightarrow> TaskMessage \<Rightarrow> Task \<Rightarrow> AgentSystem
    \<Rightarrow> process_state \<Rightarrow> (answer + smap \<times> AgentStepEvent list) \<times> process_state" where
  "adapt_input c E w key msg record t system s =
     (let input = sp_Input (t_Spec t); ref = trim_space (as_ContextAdapter (sy_Spec system));
          ns = fst (splitTaskKey key); start = pw_clock w 1
      in case (if IsFirstExecutionAgent (sy_Spec system) (trim_space (am_ToAgent msg)) \<and> ref \<noteq> []
               then pe_contextAdapters E else None) of
           None \<Rightarrow> (Inr (input, []), s)
         | Some adapt \<Rightarrow>
             (case adapt ns (scopedTaskName ns ref) input of
                Inl e \<Rightarrow>
                  end_stage c w key msg record (ErrWrap ''context adapter: '' e [])
                    (log_task start key (''context adapter: '' @ error_text e) s)
              | Inr input' \<Rightarrow>
                  (Inr (input', [zero_StepEvent\<lparr>ev_Timestamp := format_nano start, ev_Type := ''context_adapter'',
                     ev_Message := ''adapter='' @ ref @ '' fields='' @ itoa (int (fcard (fmdom input'))),
                     ev_LatencyMS := go_div (time_sub (pw_clock w 2) start) Millisecond\<rparr>]), s)))"

section \<open>Tools and execution\<close>

definition builtinOrlojTools :: "string list" where
  "builtinOrlojTools = [''orloj.task.create'', ''orloj.task.list'']"

definition IsBuiltinOrlojTool :: "string \<Rightarrow> bool" where
  "IsBuiltinOrlojTool name = List.member builtinOrlojTools (trim_space name)"

definition AgentHasOrlojTools :: "Agent \<Rightarrow> bool" where
  "AgentHasOrlojTools agent = list_ex IsBuiltinOrlojTool (ag_AllowedTools (ag_Spec agent))"

definition parseDepthLabel :: "smap \<Rightarrow> int" where
  "parseDepthLabel labels =
     (case fmlookup labels ''orloj.dev/depth'' of
        None \<Rightarrow> 0
      | Some v \<Rightarrow> (case atoi (trim_space v) of None \<Rightarrow> 0 | Some n \<Rightarrow> if n < 0 then 0 else n))"

text \<open>The limits, with the defaults of NewOrlojToolRuntime.\<close>

definition orloj_config :: "string \<Rightarrow> Task \<Rightarrow> AgentPolicy list \<Rightarrow> OrlojToolConfig" where
  "orloj_config ns t matched =
     \<lparr>oc_ParentNamespace = ns, oc_ParentTaskName = m_Name (t_Metadata t),
      oc_CurrentDepth = parseDepthLabel (m_Labels (t_Metadata t)),
      oc_MaxDepth = or_positive 5 (MinimumChildDepth matched),
      oc_MaxChildren = or_positive 20 (MinimumChildTasks matched)\<rparr>"

definition memory_operations :: "string list" where
  "memory_operations = [''read'', ''write'', ''search'', ''list'', ''ingest'']"

definition NormalizeMemoryOperation :: "string \<Rightarrow> string option" where
  "NormalizeMemoryOperation raw =
     (let value = to_lower (trim_space raw)
      in find (\<lambda>op. value = op \<or> value = ''memory.'' @ op) memory_operations)"

fun NormalizeMemoryOperations :: "string list \<Rightarrow> string list \<Rightarrow> string + string list" where
  "NormalizeMemoryOperations seen [] = Inr []"
| "NormalizeMemoryOperations seen (x # xs) =
     (case NormalizeMemoryOperation x of
        None \<Rightarrow> Inl (''invalid memory operation '' @ quoted (trim_space x)
          @ '': expected read, write, search, list, or ingest'')
      | Some op \<Rightarrow>
          if List.member seen op then NormalizeMemoryOperations seen xs
          else case NormalizeMemoryOperations (op # seen) xs of Inl e \<Rightarrow> Inl e | Inr ops \<Rightarrow> Inr (op # ops))"

definition MemoryToolNamesForOperations :: "string list \<Rightarrow> string list" where
  "MemoryToolNamesForOperations ops =
     (case NormalizeMemoryOperations [] ops of Inl _ \<Rightarrow> [] | Inr ns \<Rightarrow> map (\<lambda>op. ''memory.'' @ op) ns)"

text \<open>dedupeStrings is the loop that also normalises lists of names.\<close>

definition with_builtin_tools :: "Agent \<Rightarrow> Agent" where
  "with_builtin_tools agent =
     (let sp = ag_Spec agent; tools = ag_Tools sp;
          tools = (if AgentHasOrlojTools agent then normalize_names [] (tools @ builtinOrlojTools) else tools);
          tools = (if trim_space (ag_MemoryRef sp) \<noteq> []
                   then normalize_names [] (tools @ MemoryToolNamesForOperations (ag_MemoryAllow sp)) else tools)
      in agent\<lparr>ag_Spec := sp\<lparr>ag_Tools := tools\<rparr>\<rparr>)"

definition taskSharedMemory :: "string \<Rightarrow> process_state \<Rightarrow> smap" where
  "taskSharedMemory key s = (case fmlookup (cs_memory (ps_run s)) key of Some m \<Rightarrow> m | None \<Rightarrow> fmempty)"

definition execute_agent ::
  "process_env \<Rightarrow> string \<Rightarrow> Task \<Rightarrow> AgentPolicy list \<Rightarrow> Agent \<Rightarrow> smap \<Rightarrow> process_state
    \<Rightarrow> (AgentExecutionResult \<times> go_error option) \<times> process_state" where
  "execute_agent E key t matched agent input s =
     (let cfg = (if AgentHasOrlojTools agent then Some (orloj_config (fst (splitTaskKey key)) t matched) else None);
          agent = with_builtin_tools agent
      in if trim_space (ag_MemoryRef (ag_Spec agent)) = [] then (fst (pe_execute E agent cfg input fmempty), s)
         else let (out, mem) = pe_execute E agent cfg input (taskSharedMemory key s)
              in (out, s\<lparr>ps_run := (ps_run s)\<lparr>cs_memory := fmupd key mem (cs_memory (ps_run s))\<rparr>\<rparr>))"

section \<open>Pausing for a tool approval\<close>

definition waits_text :: "Task \<Rightarrow> bool" where
  "waits_text t \<longleftrightarrow> equal_fold (trim_space (ts_Phase (t_Status t))) ''waitingapproval''"

definition tool_approval_request :: "string \<Rightarrow> AgentMessage \<Rightarrow> Agent \<Rightarrow> go_error \<Rightarrow> ToolApproval" where
  "tool_approval_request key msg agent err =
     (let (ns, taskName) = splitTaskKey key
      in \<lparr>ta_APIVersion = ''orloj.dev/v1'', ta_Kind = ''ToolApproval'',
          ta_Metadata = zero_meta\<lparr>m_Namespace := ns, m_Name := ToolApprovalResourceName key (am_MessageID msg)\<rparr>,
          ta_Spec = \<lparr>ap_TaskRef = scopedTaskName ns taskName, ap_Tool = ParseToolFromApprovalError err,
            ap_OperationClass = ''write'', ap_Agent = m_Name (ag_Metadata agent),
            ap_Input = take 4096 (RedactSensitive (ParseInputFromApprovalError err)),
            ap_Reason = take 500 (trim_space (error_text err)), ap_TTL = []\<rparr>,
          ta_Status = \<lparr>av_Phase = ''Pending'', av_Decision = [], av_DecidedBy = [], av_DecidedAt = [],
            av_Comment = [], av_ExpiresAt = []\<rparr>\<rparr>)"

definition blocked_task :: "TaskBlockedOn \<Rightarrow> string \<Rightarrow> Task \<Rightarrow> Task" where
  "blocked_task b lastError t = observe (on_status (\<lambda>st. st\<lparr>ts_Phase := ''WaitingApproval'', ts_BlockedOn := Some b,
     ts_LastError := lastError\<rparr>) t)"

text \<open>The result of the steps says that the task has been paused.\<close>

definition tool_pause_step ::
  "AgentMessage \<Rightarrow> string \<Rightarrow> string \<Rightarrow> go_error \<Rightarrow> instant \<Rightarrow> Task \<Rightarrow> bool verdict" where
  "tool_pause_step msg approvalName toolName err now t0 =
     (let (index, t) = ensureTaskMessageRecord now msg t0;
          t = set_message index ((msgs_of t ! index)\<lparr>tm_Phase := ''RetryPending'',
                tm_NextAttemptAt := format_nano (now + 2 * Second), tm_LastError := []\<rparr>) t;
          t = blocked_task \<lparr>bo_Kind = ''ToolApproval'', bo_Name = approvalName, bo_Reason = ''tool_approval''\<rparr>
                (RedactSensitive (error_text err)) t
      in Write (appendMessageTrace now msg ''tool_approval_pending''
                  (''message_id='' @ am_MessageID msg @ '' tool='' @ toolName) t)
           [''task paused for tool approval: tool='' @ toolName @ '' approval='' @ approvalName] False True)"

definition pauseTaskForToolApproval ::
  "process_world \<Rightarrow> string \<Rightarrow> AgentMessage \<Rightarrow> Agent \<Rightarrow> go_error \<Rightarrow> process_state \<Rightarrow> bool \<times> process_state" where
  "pauseTaskForToolApproval w key msg agent err s =
     (case ps_toolApprovals s of
        None \<Rightarrow> (False, s)
      | Some approvals \<Rightarrow>
          let approval = tool_approval_request key msg agent err; toolName = ap_Tool (ta_Spec approval)
          in if toolName = [] then (False, s)
             else case ToolApprovalStore_Upsert (pw_clock w 3) approval (pw_toolApprovals w approvals) of
                    (Inl _, approvals) \<Rightarrow> (False, s\<lparr>ps_toolApprovals := Some approvals\<rparr>)
                  | (Inr _, approvals) \<Rightarrow>
                      let s = s\<lparr>ps_toolApprovals := Some approvals,
                                ps_run := (ps_run s)\<lparr>cs_tasks := w_env (pw_toolCheck w) 0 (ps_tasks s)\<rparr>\<rparr>
                      in if w_get_err (pw_toolCheck w) 0 \<noteq> None then (False, s)
                         else if (case TaskStore_Get key (ps_tasks s) of None \<Rightarrow> False | Some t \<Rightarrow> waits_text t) then (True, s)
                         else case on_run (with_retries (pw_tool w) key False False
                                (stateless (tool_pause_step msg (m_Name (ta_Metadata approval)) toolName err)) ()) s of
                                (Inl _, s) \<Rightarrow> (False, s)
                              | (Inr paused, s) \<Rightarrow> (paused, s))"

section \<open>Pausing for a review\<close>

definition taskApprovalCycleFromMessage :: "process_env \<Rightarrow> AgentMessage \<Rightarrow> int \<times> string" where
  "taskApprovalCycleFromMessage E msg =
     (if \<not> equal_fold (trim_space (am_Type msg)) ''review_request_changes'' then (1, [])
      else case DecodeReviewRequestPayload E (am_Payload msg) of
             None \<Rightarrow> (2, [])
           | Some p \<Rightarrow> (or_positive 2 (rq_Cycle p), trim_space (rq_Supersedes p)))"

definition resume_context :: "AgentMessage \<Rightarrow> AgentExecutionResult \<Rightarrow> AgentMessage list \<Rightarrow> TaskApprovalResumeContext" where
  "resume_context msg result nextMessages =
     zero_resume\<lparr>rs_Mode := ''message-driven'',
       rs_Action := (if nextMessages = [] then ''message_complete'' else ''message_forward''),
       rs_System := trim_space (am_System msg), rs_ProducingAgent := trim_space (xr_Agent result),
       rs_CurrentMessage := Some (ResumeMessageFromAgentMessage msg),
       rs_NextMessages := map ResumeMessageFromAgentMessage nextMessages\<rparr>"

definition output_snapshot :: "AgentExecutionResult \<Rightarrow> string" where
  "output_snapshot r =
     (let out = trim_space (xr_Output r); ev = trim_space (xr_LastEvent r)
      in if out \<noteq> [] then out else if ev \<noteq> [] then ev else run_summary r)"

definition review_request ::
  "process_env \<Rightarrow> string \<Rightarrow> AgentMessage \<Rightarrow> ReviewCheckpointSpec \<Rightarrow> string \<Rightarrow> AgentExecutionResult
    \<Rightarrow> AgentMessage list \<Rightarrow> TaskApproval" where
  "review_request E key msg checkpoint checkpointType result nextMessages =
     (let (ns, taskName) = splitTaskKey key; (cycle, supersedes) = taskApprovalCycleFromMessage E msg;
          reason = trim_space (v_Reason checkpoint)
      in \<lparr>tr_APIVersion = ''orloj.dev/v1'', tr_Kind = ''TaskApproval'',
          tr_Metadata = zero_meta\<lparr>m_Namespace := ns,
            m_Name := TaskApprovalResourceName key (v_CheckpointID checkpoint) cycle\<rparr>,
          tr_Spec = \<lparr>tv_TaskRef = scopedTaskName ns taskName, tv_CheckpointID = trim_space (v_CheckpointID checkpoint),
            tv_CheckpointType = trim_space checkpointType, tv_Agent = trim_space (xr_Agent result),
            tv_Reason = (if reason = [] then ''checkpoint '' @ v_CheckpointID checkpoint @ '' requires review'' else reason),
            tv_TTL = trim_space (v_TTL checkpoint), tv_AllowRequestChanges = v_AllowRequestChanges checkpoint,
            tv_MaxReviewCycles = v_MaxReviewCycles checkpoint, tv_ReviewCycle = cycle, tv_Supersedes = supersedes,
            tv_Output = (if checkpointType = ''task_output'' then NoOutput else OutText (output_snapshot result)),
            tv_OutputFormat = (if checkpointType = ''task_output'' then ''json'' else ''text''),
            tv_ResumeContext = Inr (resume_context msg result nextMessages)\<rparr>,
          tr_Status = \<lparr>av_Phase = ''Pending'', av_Decision = [], av_DecidedBy = [], av_DecidedAt = [],
            av_Comment = [], av_ExpiresAt = []\<rparr>\<rparr>)"

definition with_task_output :: "smap \<Rightarrow> TaskApproval \<Rightarrow> TaskApproval" where
  "with_task_output out a =
     (let sp = tr_Spec a
      in a\<lparr>tr_Spec := sp\<lparr>tv_Output := OutMap out,
           tv_ResumeContext := (case tv_ResumeContext sp of Inl e \<Rightarrow> Inl e | Inr r \<Rightarrow> Inr (r\<lparr>rs_Output := out\<rparr>))\<rparr>\<rparr>)"

text \<open>
  The step carries the number of accesses to the approvals so far and the approvals: a review of
  the whole output writes the approval again with the output the task then has.
\<close>

definition review_step ::
  "consumer_config \<Rightarrow> (nat \<Rightarrow> TaskApprovalStore \<Rightarrow> TaskApprovalStore) \<Rightarrow> AgentMessage \<Rightarrow> TaskMessage
    \<Rightarrow> ReviewCheckpointSpec \<Rightarrow> TaskApproval \<Rightarrow> AgentExecutionResult \<Rightarrow> nat \<times> TaskApprovalStore \<Rightarrow> instant \<Rightarrow> Task \<Rightarrow> (nat \<times> TaskApprovalStore) \<times> bool verdict" where
  "review_step c env msg record rv approval result acc now t0 =
     (let (k, approvals) = acc; checkpoint = v_CheckpointID rv; name = m_Name (tr_Metadata approval);
          (index, t) = ensureTaskMessageRecord now msg t0;
          t = set_message index ((carry_attempts t record (msgs_of t ! index))\<lparr>tm_Phase := ''WaitingApproval'',
                tm_Worker := trim_space (cc_workerID c), tm_ProcessedAt := format_nano now, tm_NextAttemptAt := [],
                tm_LastError := []\<rparr>) t;
          t = appendMessageTrace now msg ''task_approval_pending'' (''message_id='' @ am_MessageID msg
                @ '' checkpoint='' @ checkpoint @ '' approval='' @ name) t;
          t = updateTaskOutput result ''message-driven'' (appendRuntimeStepTrace (xr_Agent result) (xr_StepEvents result) t);
          paused = Write (blocked_task \<lparr>bo_Kind = ''TaskApproval'', bo_Name = name, bo_Reason = ''output_review''\<rparr> [] t)
            [''task paused for output review: checkpoint='' @ checkpoint @ '' approval='' @ name] False True
      in if tv_CheckpointType (tr_Spec approval) = ''task_output'' then
           (case TaskApprovalStore_Upsert now (with_task_output (ts_Output (t_Status t)) approval) (env k approvals) of
              (Inl _, approvals) \<Rightarrow> ((Suc k, approvals), Return False)
            | (Inr _, approvals) \<Rightarrow> ((Suc k, approvals), paused))
         else (acc, paused))"

definition pauseTaskForOutputReview ::
  "consumer_config \<Rightarrow> process_env \<Rightarrow> world \<Rightarrow> (nat \<Rightarrow> TaskApprovalStore \<Rightarrow> TaskApprovalStore) \<Rightarrow> instant \<Rightarrow> string
    \<Rightarrow> AgentMessage \<Rightarrow> TaskMessage \<Rightarrow> ReviewCheckpointSpec option \<Rightarrow> string \<Rightarrow> AgentExecutionResult
    \<Rightarrow> AgentMessage list \<Rightarrow> process_state \<Rightarrow> bool \<times> process_state" where
  "pauseTaskForOutputReview c E w env now key msg record checkpoint checkpointType result nextMessages s =
     (case (checkpoint, ps_taskApprovals s) of
        (Some checkpoint, Some approvals) \<Rightarrow>
          (let approval = review_request E key msg checkpoint checkpointType result nextMessages
           in case TaskApprovalStore_Upsert now approval (env 0 approvals) of
                (Inl _, approvals) \<Rightarrow> (False, s\<lparr>ps_taskApprovals := Some approvals\<rparr>)
              | (Inr _, approvals) \<Rightarrow>
                  (case cas_loop w key False False (review_step c env msg record checkpoint approval result) 0 5 None
                          (1, approvals) (ps_run s) of
                     ((res, run), (_, approvals)) \<Rightarrow>
                       ((case res of Inl _ \<Rightarrow> False | Inr paused \<Rightarrow> paused),
                        s\<lparr>ps_run := run, ps_taskApprovals := Some approvals\<rparr>)))
      | _ \<Rightarrow> (False, s))"

section \<open>Routing the output\<close>

definition downstream_messages ::
  "cond_lib \<Rightarrow> instant \<Rightarrow> Task \<Rightarrow> AgentMessage \<Rightarrow> AgentExecutionResult \<Rightarrow> AgentSystem \<Rightarrow> gate_decision
    \<Rightarrow> AgentMessage list" where
  "downstream_messages lib now t msg result system delegation =
     (let node = trim_space (am_ToAgent msg); output = trim_space (xr_Output result);
          delegates = (case map_of (as_Graph (sy_Spec system)) node of
                         None \<Rightarrow> []
                       | Some n \<Rightarrow> if 0 < length (n_Delegates n) \<and> gd_Mode delegation = []
                                  then FilterRoutesForOutput lib (n_Delegates n) output else []);
          down = (if 0 < length delegates then buildDelegateMessages now t msg result (map r_To delegates) node else []);
          forwardDelegateOf = (if gd_Mode delegation \<noteq> [] then originalDelegateOfForAgent t (am_Attempt msg) node
                               else trim_space (am_DelegateOf msg));
          nextAgents = nextAgentsFromSystemForOutput lib system node output forwardDelegateOf
      in if 0 < length down then down
         else if 0 < length nextAgents then buildNextAgentMessages now t msg result nextAgents (Some forwardDelegateOf)
         else [])"

text \<open>Publishing in order; the message whose publication failed, with the error.\<close>

fun publish_all ::
  "process_world \<Rightarrow> nat \<Rightarrow> AgentMessage list \<Rightarrow> MemoryAgentMessageBus
    \<Rightarrow> (AgentMessage \<times> string) option \<times> MemoryAgentMessageBus" where
  "publish_all w k [] b = (None, b)"
| "publish_all w k (m # ms) b =
     (case Publish (pw_clock w (10 + k)) m (pw_bus w k b) of
        (Inl e, b) \<Rightarrow> (Some (m, e), b)
      | (Inr _, b) \<Rightarrow> publish_all w (Suc k) ms b)"

definition complete_message ::
  "consumer_config \<Rightarrow> process_world \<Rightarrow> string \<Rightarrow> AgentMessage \<Rightarrow> TaskMessage \<Rightarrow> AgentExecutionResult
    \<Rightarrow> process_state \<Rightarrow> answer \<times> process_state" where
  "complete_message c w key msg record result s =
     (case on_run (completeTaskSuccess c (pw_end w) key msg record result) s of
        (Inl e, s) \<Rightarrow> (Some (failure_answer e), s)
      | (Inr _, s) \<Rightarrow> (None, s))"

definition forward_message ::
  "consumer_config \<Rightarrow> process_world \<Rightarrow> string \<Rightarrow> AgentMessage \<Rightarrow> TaskMessage \<Rightarrow> AgentExecutionResult
    \<Rightarrow> AgentMessage list \<Rightarrow> process_state \<Rightarrow> answer \<times> process_state" where
  "forward_message c w key msg record result down s =
     (case publish_all w 0 down (ps_bus s) of
        (Some (m, e), b) \<Rightarrow>
          retry_or_drop c w key msg record
            (ErrWrap (''publish next message to '' @ am_ToAgent m @ '' failed: '') (ErrText e) []) e (s\<lparr>ps_bus := b\<rparr>)
      | (None, b) \<Rightarrow>
          (case on_run (recordForward c (pw_end w) key msg record result down) (s\<lparr>ps_bus := b\<rparr>) of
             (Inl e, s) \<Rightarrow> (Some (failure_answer e), s)
           | (Inr _, s) \<Rightarrow> (None, s)))"

text \<open>The reviews come first, then what the message leads to.\<close>

definition route_output ::
  "consumer_config \<Rightarrow> process_env \<Rightarrow> process_world \<Rightarrow> string \<Rightarrow> AgentMessage \<Rightarrow> TaskMessage \<Rightarrow> Task \<Rightarrow> AgentSystem
    \<Rightarrow> gate_decision \<Rightarrow> AgentExecutionResult \<Rightarrow> process_state \<Rightarrow> answer \<times> process_state" where
  "route_output c E w key msg record t system delegation result s =
     (let down = downstream_messages (pe_lib E) (pw_clock w 4) t msg result system delegation;
          review = (case map_of (as_Graph (sy_Spec system)) (trim_space (am_ToAgent msg)) of
                      None \<Rightarrow> None | Some n \<Rightarrow> n_Review n);
          (paused, s) = pauseTaskForOutputReview c E (pw_review w) (pw_reviews w) (pw_clock w 5) key msg record
            review ''agent_output'' result down s
      in if paused then (Some (RetryAfter (2 * Second) []), s)
         else if 0 < length down then forward_message c w key msg record result down s
         else let (paused, s) = pauseTaskForOutputReview c E (pw_completion w) (pw_completions w) (pw_clock w 6) key
                    msg record (as_CompletionReview (sy_Spec system)) ''task_output'' result [] s
              in if paused then (Some (RetryAfter (2 * Second) []), s)
                 else complete_message c w key msg record result s)"

section \<open>After the execution\<close>

definition execution_failed ::
  "consumer_config \<Rightarrow> process_world \<Rightarrow> string \<Rightarrow> AgentMessage \<Rightarrow> TaskMessage \<Rightarrow> Agent \<Rightarrow> AgentExecutionResult
    \<Rightarrow> go_error \<Rightarrow> process_state \<Rightarrow> answer \<times> process_state" where
  "execution_failed c w key msg record agent result err s =
     (let (paused, s) = (if IsApprovalRequiredError err then pauseTaskForToolApproval w key msg agent err s else (False, s))
      in if paused then (Some (RetryAfter (2 * Second) []), s)
         else case on_run (recordFailedExecutionTrace c (pw_trace w) key msg record result) s of
                (Inl e, s) \<Rightarrow> (Some (failure_answer e), s)
              | (Inr _, s) \<Rightarrow>
                  retry_or_drop c w key msg record
                    (ErrWrap (''agent '' @ m_Name (ag_Metadata agent) @ '' execution failed: '') err [])
                    (error_text err) s)"

definition over_budget :: "Task \<Rightarrow> AgentPolicy list \<Rightarrow> string \<Rightarrow> AgentExecutionResult \<Rightarrow> string option" where
  "over_budget t matched agentName r =
     (let budget = AgentTokenBudget matched agentName;
          text = (\<lambda>what used limit. what @ '' '' @ agentName @ '': used='' @ itoa used @ '' budget='' @ itoa limit
                    @ '' source='' @ trim_space (xr_TokenSource r))
      in if 0 < budget \<and> budget < xr_TokensUsed r
           then Some (text ''per-agent token budget exceeded for'' (xr_TokensUsed r) budget)
         else if tokenBudgetExceeded t r
           then Some (text ''token budget exceeded after agent'' (tokenUsageTotal t r) (tokenBudget t))
         else None)"

definition after_execution ::
  "consumer_config \<Rightarrow> process_env \<Rightarrow> process_world \<Rightarrow> string \<Rightarrow> AgentMessage \<Rightarrow> TaskMessage \<Rightarrow> Task \<Rightarrow> AgentSystem
    \<Rightarrow> gate_decision \<Rightarrow> AgentPolicy list \<Rightarrow> Agent \<Rightarrow> AgentExecutionResult \<Rightarrow> process_state \<Rightarrow> answer \<times> process_state" where
  "after_execution c E w key msg record t system delegation matched agent result s =
     (case over_budget t matched (m_Name (ag_Metadata agent)) result of
        Some reason \<Rightarrow> retry_or_drop c w key msg record (ErrText reason) reason s
      | None \<Rightarrow>
          (case shouldStopForTurnLimit t msg of
             (True, turns, maxTurns) \<Rightarrow>
               (case complete_message c w key msg record result s of
                  (Some e, s) \<Rightarrow> (Some e, s)
                | (None, s) \<Rightarrow>
                    (None, log_task (pw_clock w 7) key (''agent message turn limit reached: message_id=''
                       @ am_MessageID msg @ '' branch_id='' @ trim_space (am_BranchID msg) @ '' turns='' @ itoa turns
                       @ '' max_turns='' @ itoa maxTurns) s))
           | (False, _, _) \<Rightarrow> route_output c E w key msg record t system delegation result s))"

section \<open>The whole call\<close>

definition run_agent ::
  "consumer_config \<Rightarrow> process_env \<Rightarrow> process_world \<Rightarrow> string \<Rightarrow> AgentMessage \<Rightarrow> TaskMessage \<Rightarrow> Task \<Rightarrow> AgentSystem
    \<Rightarrow> gate_decision \<Rightarrow> gate_decision \<Rightarrow> process_state \<Rightarrow> answer \<times> process_state" where
  "run_agent c E w key msg record t system join delegation s =
     (case resolve_agent c E w key msg record t system s of
        (Inl a, s) \<Rightarrow> (a, s)
      | (Inr (agent, matched), s) \<Rightarrow>
          (case adapt_input c E w key msg record t system s of
             (Inl a, s) \<Rightarrow> (a, s)
           | (Inr (input, events), s) \<Rightarrow>
               (case execute_agent E key t matched agent (prepared_input E msg join delegation input) s of
                  ((result, Some err), s) \<Rightarrow> execution_failed c w key msg record agent result err s
                | ((result, None), s) \<Rightarrow>
                    after_execution c E w key msg record t system delegation matched agent
                      (result\<lparr>xr_StepEvents := events @ xr_StepEvents result\<rparr>) s)))"

definition pass_gates ::
  "consumer_config \<Rightarrow> process_env \<Rightarrow> process_world \<Rightarrow> string \<Rightarrow> AgentMessage \<Rightarrow> TaskMessage \<Rightarrow> Task \<Rightarrow> AgentSystem
    \<Rightarrow> process_state \<Rightarrow> answer \<times> process_state" where
  "pass_gates c E w key msg record t system s =
     (case on_run (applyJoinGate c (pw_join w) key msg system) s of
        (Inl e, s) \<Rightarrow> (Some (failure_answer e), s)
      | (Inr join, s) \<Rightarrow>
          if gd_SkipExecution join then (None, s)
          else case on_run (applyDelegationGate c (pw_delegation w) key msg system) s of
                 (Inl e, s) \<Rightarrow> (Some (failure_answer e), s)
               | (Inr delegation, s) \<Rightarrow>
                   if gd_SkipExecution delegation then (None, s)
                   else run_agent c E w key msg record t system join delegation s)"

definition processMessage ::
  "consumer_config \<Rightarrow> process_env \<Rightarrow> process_world \<Rightarrow> string \<Rightarrow> AgentMessage \<Rightarrow> process_state \<Rightarrow> answer \<times> process_state" where
  "processMessage c E w key msg s =
     (case on_run (beginMessageAttempt c (pw_begin w) key msg) s of
        (Inl e, s) \<Rightarrow> (Some (failure_answer e), s)
      | (Inr b, s) \<Rightarrow>
          if br_skip b then (None, s)
          else if 0 < br_retryAfter b then (Some (RetryAfter (br_retryAfter b) []), s)
          else let t = br_task b; record = br_record b
               in case pe_systems E (scopedTaskName (fst (splitTaskKey key)) (sp_System (t_Spec t))) of
                    Inl e \<Rightarrow> (Some (OtherError e), s)
                  | Inr None \<Rightarrow>
                      retry_or_drop c w key msg record
                        (ErrText (''agentsystem '' @ quoted (sp_System (t_Spec t)) @ '' not found'')) [] s
                  | Inr (Some system) \<Rightarrow> pass_gates c E w key msg record t system s)"

text \<open>A delivery from the bus to its answer.\<close>

definition handle_message ::
  "consumer_config \<Rightarrow> process_env \<Rightarrow> process_world \<Rightarrow> AgentMessage \<Rightarrow> process_state \<Rightarrow> answer \<times> process_state" where
  "handle_message c E w msg s =
     (case handleDelivery (pw_delivery w) msg (ps_tasks s) of
        Inl a \<Rightarrow> (a, s)
      | Inr (key, _) \<Rightarrow> processMessage c E w key msg s)"

end
