(* ===== verification/Process_Props.thy ===== *)
theory Process_Props
  imports Consumer_Props Message_Process
begin

text \<open>
  Properties of handling one message (\<open>Message_Process\<close>): what a task says of a message that needs no
  more processing (\<open>handled\<close>); a message is acknowledged only when it is handled, and a handled
  message has no further effect; the pause for a tool approval, which writes a task that has ended
  and stores the approval under the key the next attempt asks for. The stages of the handler each
  have a soundness lemma (\<open>sound\<close>, \<open>sound_stage\<close>) over the loop lemma \<open>loop_handles\<close>.
\<close>

section \<open>Handled messages\<close>

text \<open>
  What a task says of a message that needs no more processing: the task has ended, or the message's
  record is closed, or the trace or the idempotency records have it as processed.
\<close>

definition closed_record :: "AgentMessage \<Rightarrow> Task \<Rightarrow> bool" where
  "closed_record msg t \<longleftrightarrow>
     (case find_idx (same_id msg) (msgs_of t) of
        None \<Rightarrow> False
      | Some i \<Rightarrow> isTerminalMessagePhase (tm_Phase (msgs_of t ! i)))"

definition done_mark :: "AgentMessage \<Rightarrow> TaskMessageIdempotency \<Rightarrow> bool" where
  "done_mark msg r \<longleftrightarrow> messageIdempotencyKey msg \<noteq> [] \<and> equal_fold (trim_space (mi_Key r)) (messageIdempotencyKey msg)
     \<and> List.member [''completed'', ''deadletter''] (to_lower (trim_space (mi_State r)))"

definition handled :: "AgentMessage \<Rightarrow> Task \<Rightarrow> bool" where
  "handled msg t \<longleftrightarrow> isTerminalTaskPhase (ts_Phase (t_Status t))
     \<or> isMessageProcessed (ts_Trace (t_Status t)) (am_MessageID msg)
     \<or> closed_record msg t \<or> list_ex (done_mark msg) (idem_of t)"

definition handled_in :: "AgentMessage \<Rightarrow> string \<Rightarrow> TaskStore \<Rightarrow> bool" where
  "handled_in msg key s \<longleftrightarrow> (case TaskStore_Get key s of None \<Rightarrow> True | Some t \<Rightarrow> handled msg t)"

lemma handled_ended: "isTerminalTaskPhase (ts_Phase (t_Status t)) \<Longrightarrow> handled msg t"
  by (simp add: handled_def)

lemma handled_processed: "isMessageProcessed (ts_Trace (t_Status t)) (am_MessageID msg) \<Longrightarrow> handled msg t"
  by (simp add: handled_def)

text \<open>Normalising the status on the way into the store keeps it.\<close>

lemma handled_normal:
  assumes "handled msg t" "t_Status u = normalize_task_status (t_Status t)"
  shows "handled msg u"
proof -
  have "\<not> isTerminalTaskPhase []" by code_simp
  then have "isTerminalTaskPhase (ts_Phase (t_Status t)) \<Longrightarrow> isTerminalTaskPhase (ts_Phase (t_Status u))"
    using assms(2) by (auto simp: normalize_task_status_def Let_def)
  moreover have "msgs_of u = msgs_of t" "idem_of u = idem_of t" "ts_Trace (t_Status u) = ts_Trace (t_Status t)"
    by (simp_all add: assms(2) normalize_task_status_def Let_def)
  ultimately show ?thesis using assms(1) by (auto simp: handled_def closed_record_def split: option.splits)
qed

lemma handled_in_items: "st_items s' = st_items s \<Longrightarrow> handled_in msg key s' = handled_in msg key s"
  by (simp add: handled_in_def TaskStore_Get_def)

section \<open>The writes of a loop\<close>

text \<open>The other processes keep the store well-formed.\<close>

definition keeps_types :: "world \<Rightarrow> bool" where
  "keeps_types w \<longleftrightarrow> (\<forall>k s. task_store_wf s \<longrightarrow> task_store_wf (w_env w k s))"

lemma others_wf: "others w s s' \<Longrightarrow> keeps_types w \<Longrightarrow> task_store_wf s \<Longrightarrow> task_store_wf s'"
  unfolding others_def by (induction rule: rtrancl_induct) (auto simp: keeps_types_def)

lemma append_logs_items [simp]: "st_items (append_logs now key logs s) = st_items s"
  unfolding append_logs_def by (induction logs arbitrary: s) auto

lemma append_logs_wf: "task_store_wf s \<Longrightarrow> task_store_wf (append_logs now key logs s)"
  unfolding append_logs_def by (induction logs arbitrary: s) (auto intro: AppendLog_wf)

lemma one_write_wf:
  assumes "one_write w key step s r s'" "keeps_types w" "task_store_wf (cs_tasks s)"
  shows "task_store_wf (cs_tasks s')"
proof -
  from assms(1) obtain k st t' u s1 logs where
    w: "others w (cs_tasks s) st" "TaskStore_Upsert (w_now w k) t' (w_env w (2 * k + 1) st) = (Inr u, s1)"
      "cs_tasks s' = append_logs (w_now w k) key logs s1"
    unfolding one_write_def by blast
  have "task_store_wf (w_env w (2 * k + 1) st)"
    using others_wf [OF w(1) assms(2,3)] assms(2) by (simp add: keeps_types_def)
  from Upsert_wf [OF this, of "w_now w k" t'] have "task_store_wf s1" by (simp only: w(2) snd_conv)
  then show ?thesis by (simp add: w(3) append_logs_wf)
qed

lemma outcome_wf:
  assumes "outcome w key missing step s (x, s')" "keeps_types w" "task_store_wf (cs_tasks s)"
  shows "task_store_wf (cs_tasks s')"
  using assms(1) others_wf [OF _ assms(2,3)] one_write_wf [OF _ assms(2,3)]
  unfolding outcome_def returned_def by (auto split: sum.splits)

text \<open>What a loop that wrote has stored.\<close>

lemma one_write_stored:
  assumes "one_write w key step s r s'" "keeps_types w" "task_store_wf (cs_tasks s)"
    and "\<And>a now t a' t' l b. step a now t = (a', Write t' l b r) \<Longrightarrow> t_Metadata t' = t_Metadata t"
  obtains a now t a' t' l b u where "step a now t = (a', Write t' l b r)"
    "TaskStore_Get key (cs_tasks s') = Some u" "t_Status u = normalize_task_status (t_Status t')"
proof -
  from assms(1) obtain k st t a1 a2 t' logs m u s1 where
    w: "others w (cs_tasks s) st" "TaskStore_Get key st = Some t" "step a1 (w_now w k) t = (a2, Write t' logs m r)"
      "TaskStore_Upsert (w_now w k) t' (w_env w (2 * k + 1) st) = (Inr u, s1)"
      "cs_tasks s' = append_logs (w_now w k) key logs s1"
    unfolding one_write_def by blast
  have "normalizeLookupName key = scopedNameFromMeta (t_Metadata t)"
    using others_wf [OF w(1) assms(2,3)] w(2) task_store_wf_lookup [of st "normalizeLookupName key" t]
    by (simp add: TaskStore_Get_def store_get_def)
  with assms(4) [OF w(3)] Upsert_stores [OF w(4)]
  have "TaskStore_Get key (cs_tasks s') = Some u" "t_Status u = normalize_task_status (t_Status t')"
    by (simp_all add: w(5) TaskStore_Get_def store_get_def)
  with w(3) that show thesis by blast
qed

text \<open>
  A loop whose step ends with a result only when the task, as stored or as written, has the message
  as handled.
\<close>

lemma loop_handles:
  assumes out: "outcome w key missing step s (Inr r, s')" and env: "keeps_types w" "task_store_wf (cs_tasks s)"
    and ret: "\<And>a now t a'. step a now t = (a', Return r) \<Longrightarrow> handled msg t"
    and wr: "\<And>a now t a' t' l b. step a now t = (a', Write t' l b r) \<Longrightarrow> handled msg t' \<and> t_Metadata t' = t_Metadata t"
  shows "handled_in msg key (cs_tasks s')"
  using out unfolding outcome_def fst_conv snd_conv sum.case
proof
  assume "returned w key missing step s r s'"
  then show ?thesis using ret by (auto simp: returned_def handled_in_def split: option.splits)
next
  assume "one_write w key step s r s'"
  then obtain a now t a' t' l b u where st: "step a now t = (a', Write t' l b r)"
    "TaskStore_Get key (cs_tasks s') = Some u" "t_Status u = normalize_task_status (t_Status t')"
    using wr by (elim one_write_stored [OF _ env]) blast
  from wr [OF st(1)] handled_normal [OF _ st(3)] st(2) show ?thesis by (simp add: handled_in_def)
qed

section \<open>The steps\<close>

lemma meta_keep [simp]:
  "t_Metadata (set_message i r t) = t_Metadata t"
  "t_Metadata (markMessageIdempotency now msg st worker t) = t_Metadata t"
  "t_Metadata (appendMessageTrace now msg ev txt t) = t_Metadata t"
  "t_Metadata (trimTaskMessages t) = t_Metadata t"
  "t_Metadata (trimTaskIdempotency t) = t_Metadata t"
  "t_Metadata (trimTaskTrace t) = t_Metadata t"
  "t_Metadata (trimTaskHistory t) = t_Metadata t"
  "t_Metadata (trimTaskJoinStates t) = t_Metadata t"
  "t_Metadata (trimTaskDelegationStates t) = t_Metadata t"
  "t_Metadata (observe t) = t_Metadata t"
  "t_Metadata (appendRuntimeStepTrace a es t) = t_Metadata t"
  "t_Metadata (updateTaskOutput res mode t) = t_Metadata t"
  "t_Metadata (extendWorkerLease now wk d t) = t_Metadata t"
  by (simp_all add: set_message_def markMessageIdempotency_def appendMessageTrace_def trimTaskMessages_def
      trimTaskIdempotency_def trimTaskTrace_def trimTaskHistory_def trimTaskJoinStates_def
      trimTaskDelegationStates_def observe_def appendRuntimeStepTrace_def updateTaskOutput_def
      extendWorkerLease_def Let_def split_def)

lemma meta_queue [simp]: "t_Metadata (queue_next now n t) = t_Metadata t"
  by (auto simp: queue_next_def Let_def dest: ensureTaskMessageRecord_spec(4) split: prod.splits)

lemma meta_folds [simp]:
  "t_Metadata (fold (queue_next now) ns t) = t_Metadata t"
  "t_Metadata (fold (\<lambda>n. appendMessageTrace now n ev (f n)) ns t) = t_Metadata t"
  by (induction ns arbitrary: t) auto

text \<open>The trace after an entry was appended, and after the steps that leave it alone.\<close>

lemma trace_keep [simp]:
  "ts_Trace (t_Status (set_message i r t)) = ts_Trace (t_Status t)"
  "ts_Trace (t_Status (trimTaskMessages t)) = ts_Trace (t_Status t)"
  "ts_Trace (t_Status (trimTaskIdempotency t)) = ts_Trace (t_Status t)"
  "ts_Trace (t_Status (trimTaskHistory t)) = ts_Trace (t_Status t)"
  "ts_Trace (t_Status (trimTaskJoinStates t)) = ts_Trace (t_Status t)"
  "ts_Trace (t_Status (trimTaskDelegationStates t)) = ts_Trace (t_Status t)"
  "ts_Trace (t_Status (observe t)) = ts_Trace (t_Status t)"
  "ts_Trace (t_Status (updateTaskOutput res mode t)) = ts_Trace (t_Status t)"
  "ts_Trace (t_Status (extendWorkerLease now wk d t)) = ts_Trace (t_Status t)"
  by (simp_all add: set_message_def trimTaskMessages_def trimTaskIdempotency_def trimTaskHistory_def
      trimTaskJoinStates_def trimTaskDelegationStates_def observe_def updateTaskOutput_def extendWorkerLease_def
      lease_status_def Let_def)

text \<open>The ids the bus hands out are trimmed and not empty.\<close>

definition proper_id :: "AgentMessage \<Rightarrow> bool" where
  "proper_id msg \<longleftrightarrow> am_MessageID msg \<noteq> [] \<and> trim_space (am_MessageID msg) = am_MessageID msg"

lemma prefix_trim_space:
  assumes "trim_space a = a" "a \<noteq> []"
  shows "prefix a (trim_space (a @ r))"
proof -
  have a: "\<not> is_space (hd a)" "\<not> is_space (last a)" using assms by (simp_all add: trim_space_self_iff)
  have "dropWhile is_space (a @ r) = a @ r" using a(1) assms(2) by (cases a) auto
  moreover have "rev (dropWhile is_space (rev (a @ r))) = a @ rev (dropWhile is_space (rev r))"
  proof (cases "list_all is_space r")
    case True
    have "dropWhile is_space (rev a) = rev a" using a(2) assms(2) by (cases a rule: rev_cases) auto
    with True show ?thesis by (simp add: dropWhile_append list_all_iff dropWhile_eq_Nil_conv)
  next
    case False
    then show ?thesis by (auto simp: dropWhile_append list_all_iff)
  qed
  ultimately show ?thesis by (simp add: trim_space_def trim_func_def)
qed

lemma appended_marker:
  assumes "proper_id msg" "txt = ''message_id='' @ am_MessageID msg @ rest"
  shows "isMessageProcessed (ts_Trace (t_Status (appendMessageTrace now msg ''agent_message_processed'' txt t)))
    (am_MessageID msg)"
proof (cases "hasTraceMarker (ts_Trace (t_Status t)) ''agent_message_processed'' (am_MessageID msg)")
  case True
  then show ?thesis by (simp add: appendMessageTrace_def isMessageProcessed_def)
next
  case False
  let ?e = "zero_TraceEvent\<lparr>te_Timestamp := normalizeMessageTimestamp now (am_Timestamp msg),
    te_Attempt := max (am_Attempt msg) (ts_Attempts (t_Status t)), te_BranchID := trim_space (am_BranchID msg),
    te_Type := trim_space ''agent_message_processed'', te_Agent := trim_space (am_ToAgent msg),
    te_Message := trim_space txt\<rparr>"
  have id: "trim_space (am_MessageID msg) = am_MessageID msg" "am_MessageID msg \<noteq> []"
    using assms(1) by (simp_all add: proper_id_def)
  have a: "trim_space (''message_id='' @ am_MessageID msg) = ''message_id='' @ am_MessageID msg"
    using id by (simp add: trim_space_self_iff is_space_def)
  have "prefix (''message_id='' @ am_MessageID msg) (trim_space txt)"
    using prefix_trim_space [OF a, of rest] assms(2) by simp
  then have "str_contains (trim_space txt) (''message_id='' @ am_MessageID msg)"
    by (simp only: str_contains_iff prefix_imp_sublist)
  moreover have "equal_fold (trim_space (trim_space ''agent_message_processed'')) (trim_space ''agent_message_processed'')"
    by (simp add: equal_fold_def)
  moreover have "ts_Trace (t_Status (appendMessageTrace now msg ''agent_message_processed'' txt t))
      = keep_last 1000 (ts_Trace (t_Status t) @ [?e])"
    using False by (simp add: appendMessageTrace_def trimTaskTrace_def)
  moreover obtain ys where "keep_last 1000 (ts_Trace (t_Status t) @ [?e]) = ys @ [?e]"
    using keep_last_snoc [of 1000 "ts_Trace (t_Status t)" ?e] by auto
  ultimately show ?thesis
    using id by (simp add: isMessageProcessed_def hasTraceMarker_def Let_def)
qed

text \<open>Opening a record does not close it, and a closed record was there before.\<close>

lemma ensured_closed:
  assumes "ensureTaskMessageRecord now msg t = (i, t')" "isTerminalMessagePhase (tm_Phase (msgs_of t' ! i))"
  shows "handled msg t"
proof (cases "find_idx (same_id msg) (msgs_of t)")
  case None
  then have "tm_Phase (msgs_of t' ! i) = ''Queued''"
    using assms(1) by (auto simp: ensureTaskMessageRecord_def new_record_def)
  then show ?thesis using assms(2) literal_phases(3) by simp
next
  case (Some j)
  then have j: "j < length (msgs_of t)" "same_id msg (msgs_of t ! j)" by (simp_all add: find_idx_Some)
  moreover have "i = j" "msgs_of t' ! i = fill_record now t msg (msgs_of t ! j)"
    using assms(1) Some j(1) by (auto simp: ensureTaskMessageRecord_def)
  moreover from this assms(2) literal_phases(3) have "isTerminalMessagePhase (tm_Phase (msgs_of t ! j))"
    by (auto simp: fill_record_def split: if_splits)
  ultimately have "closed_record msg t" by (simp add: closed_record_def Some)
  then show ?thesis by (simp add: handled_def)
qed

lemma idempotent_done: "isMessageIdempotent now (idem_of t) (messageIdempotencyKey msg) \<Longrightarrow> handled msg t"
  by (auto simp: isMessageIdempotent_def handled_def done_mark_def record_counts_def list_ex_iff Let_def key_trimmed
      split: if_splits)

lemma begin_skip:
  assumes "begin_step c msg now t = Return b" "br_skip b"
  shows "handled msg t"
proof (cases "isTerminalTaskPhase (ts_Phase (t_Status t))")
  case False
  obtain i t' where i: "ensureTaskMessageRecord now msg t = (i, t')" by force
  have "isMessageIdempotent now (idem_of t') (messageIdempotencyKey msg)
      \<or> isTerminalMessagePhase (tm_Phase (msgs_of t' ! i)) \<or> isMessageProcessed (ts_Trace (t_Status t')) (am_MessageID msg)"
    using assms False by (auto simp: begin_step_def i Let_def split: prod.splits if_splits)
  moreover have "ts_Trace (t_Status t') = ts_Trace (t_Status t)" using ensureTaskMessageRecord_spec(6) [OF i] by auto
  ultimately show ?thesis
    using idempotent_done [of now t msg] ensured_closed [OF i] handled_processed [of t msg] by (auto simp: idem_ensure [OF i])
qed (rule handled_ended)

lemma begin_write: "begin_step c msg now t = Write t' l b r \<Longrightarrow> \<not> br_skip r"
  by (auto simp: begin_step_def Let_def split: prod.splits if_splits)

lemma acquire_meta: "acquireMessageOwnership c now msg t = (o', t') \<Longrightarrow> t_Metadata t' = t_Metadata t"
  by (auto simp: acquireMessageOwnership_def Let_def trimTaskHistory_def split: if_splits option.splits)

lemma begin_meta: "begin_step c msg now t = Write t' l b r \<Longrightarrow> t_Metadata t' = t_Metadata t"
  by (auto simp: begin_step_def Let_def dest!: ensureTaskMessageRecord_spec(4) acquire_meta split: prod.splits if_splits)

lemma complete_done:
  assumes "complete_step c msg rec res now t = Write t' l b u" "proper_id msg"
  shows "handled msg t' \<and> t_Metadata t' = t_Metadata t"
proof -
  obtain i t1 where i: "ensureTaskMessageRecord now msg t = (i, t1)" by force
  have "isMessageProcessed (ts_Trace (t_Status t')) (am_MessageID msg)"
    using assms by (auto simp: complete_step_def i Let_def release_def intro!: appended_marker split: if_splits)
  moreover have "t_Metadata t' = t_Metadata t"
    using assms(1) ensureTaskMessageRecord_spec(4) [OF i] by (auto simp: complete_step_def i Let_def split: if_splits)
  ultimately show ?thesis by (simp add: handled_processed)
qed

lemma forward_done:
  assumes "forward_step c msg rec res ns now t = Write t' l b u" "proper_id msg"
  shows "handled msg t' \<and> t_Metadata t' = t_Metadata t"
proof -
  obtain i t1 where i: "ensureTaskMessageRecord now msg t = (i, t1)" by force
  have "isMessageProcessed (ts_Trace (t_Status t')) (am_MessageID msg)"
    using assms by (auto simp: forward_step_def i Let_def intro!: appended_marker split: if_splits)
  moreover have "t_Metadata t' = t_Metadata t"
    using assms(1) ensureTaskMessageRecord_spec(4) [OF i] by (auto simp: forward_step_def i Let_def split: if_splits)
  ultimately show ?thesis by (simp add: handled_processed)
qed

lemma failed_trace_meta: "failed_trace_step c msg rec res now t = Write t' l b u \<Longrightarrow> t_Metadata t' = t_Metadata t"
  by (auto simp: failed_trace_step_def Let_def dest!: ensureTaskMessageRecord_spec(4) split: prod.splits if_splits)

lemma retry_meta: "retry_step c msg rec err now t = Write t' l b r \<Longrightarrow> t_Metadata t' = t_Metadata t"
  by (auto simp: retry_step_def dead_letter_def Let_def dest!: ensureTaskMessageRecord_spec(4) split: prod.splits if_splits)

lemma retry_done:
  assumes "retry_step c msg rec err now t = Write t' l b (False, d)"
  shows "handled msg t'"
proof -
  have o: "\<not> isTerminalTaskPhase (ts_Phase (t_Status t))" using assms by (auto simp: retry_step_def)
  with assms retry_step_retry [of t c msg rec err now] have "\<not> may_retry c msg rec err now t" by auto
  from retry_step_dead [OF o this] assms have "ts_Phase (t_Status t') = ''DeadLetter''" by auto
  moreover have "isTerminalTaskPhase ''DeadLetter''" by code_simp
  ultimately show ?thesis by (intro handled_ended) simp
qed

lemma complete_return: "complete_step c msg rec res now t = Return u \<Longrightarrow> handled msg t"
  by (auto simp: complete_step_def Let_def intro: handled_ended split: prod.splits if_splits)

lemma forward_return: "forward_step c msg rec res ns now t = Return u \<Longrightarrow> handled msg t"
  by (auto simp: forward_step_def Let_def intro: handled_ended split: prod.splits if_splits)

lemma retry_return: "retry_step c msg rec err now t = Return r \<Longrightarrow> handled msg t"
  by (auto simp: retry_step_def Let_def intro: handled_ended split: prod.splits if_splits)

text \<open>A gate that keeps a message back has it as processed.\<close>

lemma gate_skips:
  assumes kind: "kind = join_kind \<or> kind = delegation_kind" and id: "proper_id msg"
  shows "gate_step kind c msg node mode e r now t = Return d \<Longrightarrow> handled msg t"
    "gate_step kind c msg node mode e r now t = Write t' l b d \<Longrightarrow> gd_SkipExecution d \<Longrightarrow> handled msg t'"
    "gate_step kind c msg node mode e r now t = Write t' l b d \<Longrightarrow> t_Metadata t' = t_Metadata t"
proof -
  obtain i t1 where i: "ensureTaskMessageRecord now msg t = (i, t1)" by force
  obtain si states where si: "ensure_state (am_Attempt msg) node mode e r (gk_states kind t1) = (si, states)" by force
  have trim: "ts_Trace (t_Status (gk_trim kind x)) = ts_Trace (t_Status x)" "t_Metadata (gk_trim kind x) = t_Metadata x"
    "t_Metadata (gk_put kind js x) = t_Metadata x" for x js
    using kind by (auto simp: join_kind_def delegation_kind_def)
  show "gate_step kind c msg node mode e r now t = Return d \<Longrightarrow> handled msg t"
    using ensured_closed [OF i] by (auto simp: gate_step_def i si Let_def split: if_splits)
  show "gate_step kind c msg node mode e r now t = Write t' l b d \<Longrightarrow> gd_SkipExecution d \<Longrightarrow> handled msg t'"
    by (auto simp: gate_step_def i si Let_def trim intro!: handled_processed appended_marker [OF id] split: if_splits)
  show "gate_step kind c msg node mode e r now t = Write t' l b d \<Longrightarrow> t_Metadata t' = t_Metadata t"
    using ensureTaskMessageRecord_spec(4) [OF i] by (auto simp: gate_step_def i si Let_def trim split: if_splits)
qed

lemma join_skips:
  assumes "proper_id msg"
  shows "join_step c msg sys mode er now t = (er', Return d) \<Longrightarrow> handled msg t"
    "join_step c msg sys mode er now t = (er', Write t' l b d) \<Longrightarrow> gd_SkipExecution d \<Longrightarrow> handled msg t'"
    "join_step c msg sys mode er now t = (er', Write t' l b d) \<Longrightarrow> t_Metadata t' = t_Metadata t"
  using gate_skips [of join_kind, OF _ assms] by (auto simp: join_step_def Let_def handled_ended split: if_splits)

lemma delegation_skips:
  assumes "proper_id msg"
  shows "delegation_step c msg ds mode er now t = (er', Return d) \<Longrightarrow> handled msg t"
    "delegation_step c msg ds mode er now t = (er', Write t' l b d) \<Longrightarrow> gd_SkipExecution d \<Longrightarrow> handled msg t'"
    "delegation_step c msg ds mode er now t = (er', Write t' l b d) \<Longrightarrow> t_Metadata t' = t_Metadata t"
  using gate_skips [of delegation_kind, OF _ assms]
  by (auto simp: delegation_step_def Let_def handled_ended split: if_splits prod.splits)

section \<open>The stages of a call\<close>

definition others_keep_types :: "process_world \<Rightarrow> bool" where
  "others_keep_types w \<longleftrightarrow> list_all keeps_types [pw_begin w, pw_join w, pw_delegation w, pw_trace w,
     pw_toolCheck w, pw_tool w, pw_review w, pw_completion w, pw_end w]"

text \<open>A stage that ends the call keeps the store well-formed and acknowledges handled messages only.\<close>

definition sound :: "AgentMessage \<Rightarrow> string \<Rightarrow> answer \<times> process_state \<Rightarrow> bool" where
  "sound msg key res \<longleftrightarrow> task_store_wf (ps_tasks (snd res))
     \<and> (fst res = None \<longrightarrow> handled_in msg key (ps_tasks (snd res)))"

lemma sound_answer [simp]: "sound msg key (Some a, s) \<longleftrightarrow> task_store_wf (ps_tasks s)"
  by (simp add: sound_def)

lemma sound_ack [simp]: "sound msg key (None, s) \<longleftrightarrow> task_store_wf (ps_tasks s) \<and> handled_in msg key (ps_tasks s)"
  by (simp add: sound_def)

lemma log_task_wf [simp]: "task_store_wf (ps_tasks s) \<Longrightarrow> task_store_wf (ps_tasks (log_task now key line s))"
  by (simp add: log_task_def AppendLog_wf)

lemma log_task_handled [simp]: "handled_in msg k (ps_tasks (log_task now key line s)) = handled_in msg k (ps_tasks s)"
  by (simp add: log_task_def handled_in_def TaskStore_Get_def)

text \<open>A loop in a stage: the store stays well-formed, and the loop's own lemma gives the rest.\<close>

lemma on_run_outcome:
  assumes "on_run f s = (x, s')" "\<And>r. outcome w key missing step r (f r)" "keeps_types w" "task_store_wf (ps_tasks s)"
  shows "task_store_wf (ps_tasks s')" "outcome w key missing step (ps_run s) (x, ps_run s')"
proof -
  have "f (ps_run s) = (x, ps_run s')" using assms(1) by (auto simp: on_run_def split: prod.splits)
  with assms(2) [of "ps_run s"] show "outcome w key missing step (ps_run s) (x, ps_run s')" by simp
  from outcome_wf [OF this assms(3,4)] show "task_store_wf (ps_tasks s')" .
qed

lemma begin_loop:
  assumes "on_run (beginMessageAttempt c w key msg) s = (x, s')" "keeps_types w" "task_store_wf (ps_tasks s)"
  shows "task_store_wf (ps_tasks s')" "x = Inr b \<Longrightarrow> br_skip b \<Longrightarrow> handled_in msg key (ps_tasks s')"
proof -
  note o = on_run_outcome [OF assms(1) _ assms(2,3), unfolded beginMessageAttempt_def, OF with_retries_outcome]
  show "task_store_wf (ps_tasks s')" by (rule o(1))
  show "handled_in msg key (ps_tasks s')" if "x = Inr b" "br_skip b"
    by (rule loop_handles [OF o(2) [unfolded that(1)] assms(2,3)])
      (use that(2) begin_skip begin_write in \<open>fastforce+\<close>)
qed

lemma open_gate_goes_on: "\<not> gd_SkipExecution open_gate"
  by (simp add: open_gate_def)

lemma join_loop:
  assumes "on_run (applyJoinGate c w key msg sys) s = (x, s')" "keeps_types w" "task_store_wf (ps_tasks s)" "proper_id msg"
  shows "task_store_wf (ps_tasks s')" "x = Inr d \<Longrightarrow> gd_SkipExecution d \<Longrightarrow> handled_in msg key (ps_tasks s')"
proof -
  let ?q = "joinRequirements sys (trim_space (am_ToAgent msg))"
  have "task_store_wf (ps_tasks s') \<and> (x = Inr d \<longrightarrow> gd_SkipExecution d \<longrightarrow> handled_in msg key (ps_tasks s'))"
  proof (cases "jq_enabled ?q")
    case False
    with assms(1,3) show ?thesis by (auto simp: on_run_def applyJoinGate_def open_gate_goes_on)
  next
    case True
    have f: "applyJoinGate c w key msg sys = with_retries w key skip_gate open_gate (join_step c msg sys (jq_mode ?q))
        (jq_expected ?q, jq_required ?q)" using True by (simp add: applyJoinGate_def fun_eq_iff Let_def)
    note o = on_run_outcome [OF assms(1) [unfolded f] with_retries_outcome assms(2,3)]
    have "handled_in msg key (ps_tasks s')" if "x = Inr d" "gd_SkipExecution d"
      by (rule loop_handles [OF o(2) [unfolded that(1)] assms(2,3)])
        (use that(2) join_skips(1,2,3) [OF assms(4)] in metis)+
    with o(1) show ?thesis by blast
  qed
  then show "task_store_wf (ps_tasks s')" "x = Inr d \<Longrightarrow> gd_SkipExecution d \<Longrightarrow> handled_in msg key (ps_tasks s')"
    by blast+
qed

lemma delegation_loop:
  assumes "on_run (applyDelegationGate c w key msg sys) s = (x, s')" "keeps_types w" "task_store_wf (ps_tasks s)"
    "proper_id msg"
  shows "task_store_wf (ps_tasks s')" "x = Inr d \<Longrightarrow> gd_SkipExecution d \<Longrightarrow> handled_in msg key (ps_tasks s')"
proof -
  have cases: "(\<forall>r. applyDelegationGate c w key msg sys r = (Inr open_gate, r))
    \<or> (\<exists>ds mode er. applyDelegationGate c w key msg sys
          = with_retries w key skip_gate open_gate (delegation_step c msg ds mode) er)"
    by (cases "map_of (as_Graph (sy_Spec sys)) (trim_space (am_ToAgent msg))")
      (auto simp: applyDelegationGate_def Let_def fun_eq_iff)
  have "task_store_wf (ps_tasks s') \<and> (x = Inr d \<longrightarrow> gd_SkipExecution d \<longrightarrow> handled_in msg key (ps_tasks s'))"
    using cases
  proof
    assume "\<forall>r. applyDelegationGate c w key msg sys r = (Inr open_gate, r)"
    with assms(1,3) show ?thesis by (auto simp: on_run_def open_gate_goes_on)
  next
    assume "\<exists>ds mode er. applyDelegationGate c w key msg sys
          = with_retries w key skip_gate open_gate (delegation_step c msg ds mode) er"
    then obtain ds mode er where f: "applyDelegationGate c w key msg sys
          = with_retries w key skip_gate open_gate (delegation_step c msg ds mode) er" by blast
    note o = on_run_outcome [OF assms(1) [unfolded f] with_retries_outcome assms(2,3)]
    have "handled_in msg key (ps_tasks s')" if "x = Inr d" "gd_SkipExecution d"
      by (rule loop_handles [OF o(2) [unfolded that(1)] assms(2,3)])
        (use that(2) delegation_skips(1,2,3) [OF assms(4)] in metis)+
    with o(1) show ?thesis by blast
  qed
  then show "task_store_wf (ps_tasks s')" "x = Inr d \<Longrightarrow> gd_SkipExecution d \<Longrightarrow> handled_in msg key (ps_tasks s')"
    by blast+
qed

lemma retry_or_drop_sound:
  assumes "keeps_types (pw_end w)" "task_store_wf (ps_tasks s)"
  shows "sound msg key (retry_or_drop c w key msg rec err cause s)"
proof -
  obtain x s' where x: "on_run (recordRetryOrDeadLetter c (pw_end w) key msg rec err) s = (x, s')" by force
  note o = on_run_outcome [OF x _ assms, unfolded recordRetryOrDeadLetter_def, OF with_retries_outcome]
  have "handled_in msg key (ps_tasks s')" if "x = Inr (False, d)" for d
    by (rule loop_handles [OF o(2) [unfolded that] assms])
      (auto intro: retry_return retry_done dest: retry_meta)
  with o(1) show ?thesis
    by (auto simp: retry_or_drop_def x split: sum.splits prod.splits bool.splits)
qed

lemma complete_sound:
  assumes "keeps_types (pw_end w)" "task_store_wf (ps_tasks s)" "proper_id msg"
  shows "sound msg key (complete_message c w key msg rec res s)"
proof -
  obtain x s' where x: "on_run (completeTaskSuccess c (pw_end w) key msg rec res) s = (x, s')" by force
  note o = on_run_outcome [OF x _ assms(1,2), unfolded completeTaskSuccess_def, OF with_retries_outcome]
  have "handled_in msg key (ps_tasks s')" if "x = Inr u" for u
    by (rule loop_handles [OF o(2) [unfolded that] assms(1,2)])
      (use assms(3) in \<open>auto intro: complete_return dest: complete_done\<close>)
  with o(1) show ?thesis by (auto simp: complete_message_def x split: sum.splits)
qed

lemma forward_sound:
  assumes "keeps_types (pw_end w)" "task_store_wf (ps_tasks s)" "proper_id msg"
  shows "sound msg key (forward_message c w key msg rec res down s)"
proof -
  obtain f b where p: "publish_all w 0 down (ps_bus s) = (f, b)" by force
  let ?s = "s\<lparr>ps_bus := b\<rparr>"
  have wf: "task_store_wf (ps_tasks ?s)" using assms(2) by simp
  obtain x s' where x: "on_run (recordForward c (pw_end w) key msg rec res down) ?s = (x, s')" by force
  note o = on_run_outcome [OF x _ assms(1) wf, unfolded recordForward_def, OF with_retries_outcome]
  have "handled_in msg key (ps_tasks s')" if "x = Inr u" for u
    by (rule loop_handles [OF o(2) [unfolded that] assms(1) wf])
      (use assms(3) in \<open>auto intro: forward_return dest: forward_done\<close>)
  with o(1) retry_or_drop_sound [OF assms(1) wf] show ?thesis
    by (cases f) (auto simp: forward_message_def p x split: sum.splits prod.splits)
qed

text \<open>The pauses keep the store well-formed.\<close>

lemma tool_pause_wf:
  assumes "keeps_types (pw_toolCheck w)" "keeps_types (pw_tool w)" "task_store_wf (ps_tasks s)"
    "pauseTaskForToolApproval w key msg agent err s = (x, s')"
  shows "task_store_wf (ps_tasks s')"
proof -
  have run: "task_store_wf (ps_tasks r')"
    if "on_run (with_retries (pw_tool w) key False False step ()) r = (y, r')" "task_store_wf (ps_tasks r)"
    for r y r' and step :: "unit \<Rightarrow> instant \<Rightarrow> Task \<Rightarrow> unit \<times> bool verdict"
    by (rule on_run_outcome(1) [OF that(1) with_retries_outcome assms(2) that(2)])
  have wf: "task_store_wf (w_env (pw_toolCheck w) 0 (ps_tasks s))" using assms(1,3) by (simp add: keeps_types_def)
  show ?thesis using assms(3,4) wf
    by (auto simp: pauseTaskForToolApproval_def Let_def dest!: run
        split: option.splits prod.splits sum.splits if_splits)
qed

lemma review_pause_wf:
  assumes "keeps_types w" "task_store_wf (ps_tasks s)"
    "pauseTaskForOutputReview c E w env now key msg rec rv ty res next s = (x, s')"
  shows "task_store_wf (ps_tasks s')"
proof -
  have loop: "task_store_wf (cs_tasks run)"
    if "cas_loop w key False False step 0 5 None a (ps_run s) = ((y, run), a')" for step a y run a'
    using outcome_wf [OF cas_loop_outcome [of 5 None w key False step "ps_run s" False 0 a, simplified that fst_conv]] assms(1,2)
    by simp
  show ?thesis using assms(2,3)
    by (auto simp: pauseTaskForOutputReview_def Let_def dest!: loop split: option.splits prod.splits sum.splits)
qed

text \<open>The stages before the execution end the call soundly or hand on a well-formed store.\<close>

definition sound_stage :: "AgentMessage \<Rightarrow> string \<Rightarrow> (answer + 'x) \<times> process_state \<Rightarrow> bool" where
  "sound_stage msg key res \<longleftrightarrow>
     (case fst res of Inl a \<Rightarrow> sound msg key (a, snd res) | Inr _ \<Rightarrow> task_store_wf (ps_tasks (snd res)))"

lemma sound_stage_simps [simp]:
  "sound_stage msg key (Inl a, s) \<longleftrightarrow> sound msg key (a, s)"
  "sound_stage msg key (Inr x, s) \<longleftrightarrow> task_store_wf (ps_tasks s)"
  by (simp_all add: sound_stage_def)

lemma end_stage_sound:
  assumes "keeps_types (pw_end w)" "task_store_wf (ps_tasks s)"
  shows "sound_stage msg key (end_stage c w key msg rec err s)"
  using retry_or_drop_sound [OF assms, of msg key c rec err "[]"]
  by (cases "retry_or_drop c w key msg rec err [] s") (simp add: end_stage_def)

lemma resolve_sound:
  assumes "keeps_types (pw_end w)" "task_store_wf (ps_tasks s)"
  shows "sound_stage msg key (resolve_agent c E w key msg rec t sys s)"
  unfolding resolve_agent_def Let_def
  by (auto simp: assms(2) intro!: end_stage_sound [OF assms(1)] split: sum.splits option.splits)

lemma adapt_sound:
  assumes "keeps_types (pw_end w)" "task_store_wf (ps_tasks s)"
  shows "sound_stage msg key (adapt_input c E w key msg rec t sys s)"
  unfolding adapt_input_def Let_def
  by (auto simp: assms(2) intro!: end_stage_sound [OF assms(1)] split: sum.splits option.splits)

lemma execute_tasks [simp]: "ps_tasks (snd (execute_agent E key t matched agent input s)) = ps_tasks s"
  by (simp add: execute_agent_def Let_def split: prod.splits)

lemma route_sound:
  assumes "others_keep_types w" "task_store_wf (ps_tasks s)" "proper_id msg"
  shows "sound msg key (route_output c E w key msg rec t sys d res s)"
proof -
  have kw: "keeps_types (pw_review w)" "keeps_types (pw_completion w)" "keeps_types (pw_end w)"
    using assms(1) by (simp_all add: others_keep_types_def)
  let ?p = "pauseTaskForOutputReview c E"
  define down where "down = downstream_messages (pe_lib E) (pw_clock w 4) t msg res sys d"
  define rv where "rv = (case map_of (as_Graph (sy_Spec sys)) (trim_space (am_ToAgent msg)) of
    None \<Rightarrow> None | Some n \<Rightarrow> n_Review n)"
  obtain b1 s1 where 1: "?p (pw_review w) (pw_reviews w) (pw_clock w 5) key msg rec rv ''agent_output'' res down s = (b1, s1)"
    by force
  obtain b2 s2 where 2: "?p (pw_completion w) (pw_completions w) (pw_clock w 6) key msg rec
      (as_CompletionReview (sy_Spec sys)) ''task_output'' res [] s1 = (b2, s2)" by force
  have wf: "task_store_wf (ps_tasks s1)" "task_store_wf (ps_tasks s2)"
    using review_pause_wf [OF kw(1) assms(2) 1] review_pause_wf [OF kw(2) _ 2] by blast+
  show ?thesis
    unfolding route_output_def Let_def down_def [symmetric] rv_def [symmetric]
    using wf forward_sound [OF kw(3) wf(1) assms(3)] complete_sound [OF kw(3) wf(2) assms(3)] by (simp add: 1 2)
qed

lemma failed_sound:
  assumes "others_keep_types w" "task_store_wf (ps_tasks s)"
  shows "sound msg key (execution_failed c w key msg rec agent res err s)"
proof -
  have kw: "keeps_types (pw_trace w)" "keeps_types (pw_toolCheck w)" "keeps_types (pw_tool w)" "keeps_types (pw_end w)"
    using assms(1) by (simp_all add: others_keep_types_def)
  have trace: "task_store_wf (ps_tasks s2)"
    if "on_run (recordFailedExecutionTrace c (pw_trace w) key msg rec res) s1 = (x, s2)" "task_store_wf (ps_tasks s1)"
    for x s1 s2
  proof (cases "length (xr_StepEvents res) = 0")
    case True
    with that show ?thesis by (auto simp: on_run_def recordFailedExecutionTrace_def)
  next
    case False
    then have "recordFailedExecutionTrace c (pw_trace w) key msg rec res
        = with_retries (pw_trace w) key () () (stateless (failed_trace_step c msg rec res)) ()"
      by (simp add: recordFailedExecutionTrace_def fun_eq_iff)
    from on_run_outcome(1) [OF that(1) [unfolded this] with_retries_outcome kw(1) that(2)] show ?thesis .
  qed
  obtain b s1 where b: "(if IsApprovalRequiredError err then pauseTaskForToolApproval w key msg agent err s else (False, s))
    = (b, s1)" by force
  have wf1: "task_store_wf (ps_tasks s1)"
    using b assms(2) tool_pause_wf [OF kw(2,3) assms(2)] by (auto split: if_splits)
  obtain x s2 where x: "on_run (recordFailedExecutionTrace c (pw_trace w) key msg rec res) s1 = (x, s2)" by force
  show ?thesis
    unfolding execution_failed_def Let_def b prod.case x
    using wf1 trace [OF x wf1] retry_or_drop_sound [OF kw(4) trace [OF x wf1]] by (auto split: sum.splits)
qed

lemma after_sound:
  assumes "others_keep_types w" "task_store_wf (ps_tasks s)" "proper_id msg"
  shows "sound msg key (after_execution c E w key msg rec t sys d matched agent res s)"
proof -
  have kw: "keeps_types (pw_end w)" using assms(1) by (simp add: others_keep_types_def)
  obtain a s1 where c: "complete_message c w key msg rec res s = (a, s1)" by force
  obtain stop turns limit where tl: "shouldStopForTurnLimit t msg = (stop, turns, limit)" by (cases "shouldStopForTurnLimit t msg")
  show ?thesis
    unfolding after_execution_def tl prod.case c
    using complete_sound [OF kw assms(2,3), of key c rec res, unfolded c] route_sound [OF assms]
      retry_or_drop_sound [OF kw assms(2)]
    by (cases stop; cases a) (auto split: option.splits)
qed

lemma run_sound:
  assumes "others_keep_types w" "task_store_wf (ps_tasks s)" "proper_id msg"
  shows "sound msg key (run_agent c E w key msg rec t sys j d s)"
proof -
  have kw: "keeps_types (pw_end w)" using assms(1) by (simp add: others_keep_types_def)
  have exec: "sound msg key (case execute_agent E key t matched agent input s1 of
         ((result, Some err), s) \<Rightarrow> execution_failed c w key msg rec agent result err s
       | ((result, None), s) \<Rightarrow> after_execution c E w key msg rec t sys d matched agent (f result) s)"
    if "task_store_wf (ps_tasks s1)" for matched agent input s1 f
  proof (cases "execute_agent E key t matched agent input s1")
    case (Pair r s2)
    then have "task_store_wf (ps_tasks s2)" using execute_tasks [of E key t matched agent input s1] that by simp
    then show ?thesis using failed_sound [OF assms(1)] after_sound [OF assms(1) _ assms(3)] Pair
      by (cases r) (auto split: option.splits)
  qed
  have adapt: "sound msg key (case adapt_input c E w key msg rec t sys s1 of
         (Inl a, s) \<Rightarrow> (a, s)
       | (Inr (input, events), s) \<Rightarrow>
           (case execute_agent E key t matched agent (prepared_input E msg j d input) s of
              ((result, Some err), s) \<Rightarrow> execution_failed c w key msg rec agent result err s
            | ((result, None), s) \<Rightarrow> after_execution c E w key msg rec t sys d matched agent
                (result\<lparr>xr_StepEvents := events @ xr_StepEvents result\<rparr>) s))"
    if "task_store_wf (ps_tasks s1)" for matched agent s1
    using adapt_sound [OF kw that, of msg key c E rec t sys] exec
    by (cases "adapt_input c E w key msg rec t sys s1"; cases "fst (adapt_input c E w key msg rec t sys s1)") auto
  show ?thesis
    unfolding run_agent_def
    using resolve_sound [OF kw assms(2), of msg key c E rec t sys] adapt
    by (cases "resolve_agent c E w key msg rec t sys s"; cases "fst (resolve_agent c E w key msg rec t sys s)") auto
qed

lemma gates_sound:
  assumes "others_keep_types w" "task_store_wf (ps_tasks s)" "proper_id msg"
  shows "sound msg key (pass_gates c E w key msg rec t sys s)"
proof -
  have kw: "keeps_types (pw_join w)" "keeps_types (pw_delegation w)"
    using assms(1) by (simp_all add: others_keep_types_def)
  show ?thesis
    unfolding pass_gates_def
    using join_loop [OF _ kw(1) assms(2,3)] delegation_loop [OF _ kw(2) _ assms(3)] run_sound [OF assms(1) _ assms(3)]
    by (auto split: prod.splits sum.splits)
qed

lemma process_sound:
  assumes "others_keep_types w" "task_store_wf (ps_tasks s)" "proper_id msg"
  shows "sound msg key (processMessage c E w key msg s)"
proof -
  have kw: "keeps_types (pw_begin w)" "keeps_types (pw_end w)" using assms(1) by (simp_all add: others_keep_types_def)
  show ?thesis
    unfolding processMessage_def Let_def
    using begin_loop [OF _ kw(1) assms(2)] gates_sound [OF assms(1) _ assms(3)] retry_or_drop_sound [OF kw(2)]
    by (auto split: prod.splits sum.splits option.splits)
qed

lemma delivery_sound:
  assumes "handleDelivery w msg s = Inl None" "messageTaskKey msg = Some key"
  shows "handled_in msg key s"
  using assms by (auto simp: handleDelivery_def handled_in_def handled_ended handled_processed split: option.splits if_splits)

section \<open>Acknowledged messages are handled\<close>


section \<open>Handled messages are skipped\<close>

lemma terminal_fill:
  "isTerminalMessagePhase (tm_Phase r) \<Longrightarrow> isTerminalMessagePhase (tm_Phase (fill_record now t msg r))"
  using literal_phases(3) by (auto simp: fill_record_def isTerminalMessagePhase_def)

lemma begin_handled:
  assumes "handled msg t" "\<forall>r \<in> set (idem_of t). done_mark msg r \<longrightarrow> record_counts now (messageIdempotencyKey msg) r"
  shows "\<exists>b. begin_step c msg now t = Return b \<and> br_skip b"
proof (cases "isTerminalTaskPhase (ts_Phase (t_Status t))")
  case False
  obtain i t' where i: "ensureTaskMessageRecord now msg t = (i, t')" by force
  have tr: "ts_Trace (t_Status t') = ts_Trace (t_Status t)" using ensureTaskMessageRecord_spec(6) [OF i] by auto
  have "isTerminalMessagePhase (tm_Phase (msgs_of t' ! i))" if "closed_record msg t"
  proof -
    from that obtain j where j: "find_idx (same_id msg) (msgs_of t) = Some j"
      "isTerminalMessagePhase (tm_Phase (msgs_of t ! j))" by (auto simp: closed_record_def split: option.splits)
    then have "j < length (msgs_of t)" by (simp add: find_idx_Some)
    with j i terminal_fill show ?thesis by (auto simp: ensureTaskMessageRecord_def)
  qed
  moreover have "isMessageIdempotent now (idem_of t') (messageIdempotencyKey msg)" if "list_ex (done_mark msg) (idem_of t)"
    using that assms(2) key_trimmed [of msg]
    by (auto simp: isMessageIdempotent_def idem_ensure [OF i] Let_def list_ex_iff done_mark_def)
  ultimately show ?thesis using assms(1) False by (auto simp: begin_step_def i Let_def handled_def tr)
qed (simp add: begin_step_def)

text \<open>
  C20: A handled message has no further effect. When the task says that a message is handled, by its
  end, a closed record, its trace or a mark that has not expired, a delivery of the message executes
  no agent and changes nothing, whichever worker gets it and whatever the agents would do: it is
  acknowledged, or put off while the task waits for an approval.
\<close>

theorem handled_has_no_effect:
  assumes "messageTaskKey msg = Some key" "TaskStore_Get key (ps_tasks s) = Some t" "handled msg t"
    "\<forall>r \<in> set (idem_of t). done_mark msg r \<longrightarrow> record_counts (w_now (pw_begin w) 0) (messageIdempotencyKey msg) r"
    "w_get_err (pw_delivery w) 0 = None" "w_get_err (pw_begin w) 0 = None"
    "w_env (pw_begin w) 0 (ps_tasks s) = ps_tasks s"
  shows "handle_message c E w msg s = (if waits_text t then Some (RetryAfter (2 * Second) []) else None, s)"
proof -
  obtain b where b: "begin_step c msg (w_now (pw_begin w) 0) t = Return b" "br_skip b"
    using begin_handled [OF assms(3,4)] by blast
  have "beginMessageAttempt c (pw_begin w) key msg (ps_run s) = (Inr b, ps_run s)"
    using assms(2,6,7) b(1) by (simp add: beginMessageAttempt_def with_retries_def numeral_eq_Suc)
  then have "processMessage c E w key msg s = (None, s)"
    using b(2) by (simp add: processMessage_def on_run_def)
  moreover have "\<not> isTerminalTaskPhase (ts_Phase (t_Status t))" if "waits_text t"
  proof -
    have "\<not> List.member [''succeeded'', ''failed'', ''deadletter''] (to_lower ''waitingapproval'')" by code_simp
    with that show ?thesis by (auto simp: waits_text_def isTerminalTaskPhase_def equal_fold_def)
  qed
  ultimately show ?thesis
    using assms(1,2,5) by (auto simp: handle_message_def handleDelivery_def waits_text_def)
qed

section \<open>Undisturbed loops\<close>

lemma only_status_steps [simp]:
  "only_status t (set_message i r t') \<longleftrightarrow> only_status t t'"
  "only_status t (markMessageIdempotency now msg st worker t') \<longleftrightarrow> only_status t t'"
  "only_status t (appendMessageTrace now msg ev txt t') \<longleftrightarrow> only_status t t'"
  "only_status t (trimTaskMessages t') \<longleftrightarrow> only_status t t'"
  "only_status t (trimTaskIdempotency t') \<longleftrightarrow> only_status t t'"
  "only_status t (trimTaskTrace t') \<longleftrightarrow> only_status t t'"
  "only_status t (trimTaskHistory t') \<longleftrightarrow> only_status t t'"
  "only_status t (observe t') \<longleftrightarrow> only_status t t'"
  "only_status t (appendRuntimeStepTrace a es t') \<longleftrightarrow> only_status t t'"
  "only_status t (updateTaskOutput res mode t') \<longleftrightarrow> only_status t t'"
  "only_status t (blocked_task b e t') \<longleftrightarrow> only_status t t'"
  by (simp_all add: set_message_def markMessageIdempotency_def appendMessageTrace_def trimTaskMessages_def
      trimTaskIdempotency_def trimTaskTrace_def trimTaskHistory_def observe_def appendRuntimeStepTrace_def
      updateTaskOutput_def blocked_task_def Let_def split_def)

lemma only_status_ensure: "ensureTaskMessageRecord now msg t = (i, t') \<Longrightarrow> only_status t t'"
  by (auto simp: ensureTaskMessageRecord_def split: option.splits)

lemma complete_status: "complete_step c msg rec res now t = Write t' l b u \<Longrightarrow> only_status t t'"
  by (auto simp: complete_step_def Let_def dest!: only_status_ensure split: prod.splits if_splits)

lemma tool_pause_status: "tool_pause_step msg name tool err now t = Write t' l b u \<Longrightarrow> only_status t t'"
  by (auto simp: tool_pause_step_def Let_def dest!: only_status_ensure split: prod.splits)

text \<open>The first attempt of a loop nobody interferes with is its last.\<close>

lemma calm_loop:
  assumes "TaskStore_Get key (cs_tasks s) = Some t" "task_store_wf (cs_tasks s)"
    "m_ResourceVersion (t_Metadata t) = itoa n" "0 \<le> n" "in_int64 n"
    and step: "step a now t = (a', Write t' l m r)" "only_status t t'"
  shows "\<exists>u s'. with_retries (calm now) key missing dflt step a s = (Inr r, s')
    \<and> TaskStore_Get key (cs_tasks s') = Some u \<and> t_Status u = normalize_task_status (t_Status t')"
proof -
  have t: "map_of (st_items (cs_tasks s)) (normalizeLookupName key) = Some t"
    using assms(1) by (simp add: TaskStore_Get_def store_get_def)
  note w = task_store_wf_lookup [OF assms(2) t]
  have meta: "t_Metadata t' = t_Metadata t" by (rule only_status_meta [OF step(2)])
  have stored: "map_of (st_items (cs_tasks s)) (scopedNameFromMeta (t_Metadata t')) = Some t" using t w meta by simp
  obtain u s1 where u: "TaskStore_Upsert now t' (cs_tasks s) = (Inr u, s1)"
    using Upsert_stored [OF stored assms(3-5) only_status_normal [OF _ step(2)], of now] w meta assms(3) by auto
  have "TaskStore_Get key s1 = Some u" "t_Status u = normalize_task_status (t_Status t')"
    using Upsert_stores [OF u] w meta by (simp_all add: TaskStore_Get_def store_get_def)
  moreover have "with_retries (calm now) key missing dflt step a s
      = (Inr r, s\<lparr>cs_tasks := append_logs now key l s1, cs_memory := (if m then fmdrop key (cs_memory s) else cs_memory s)\<rparr>)"
    using assms(1) step(1) u by (simp add: with_retries_def numeral_eq_Suc calm_def put_task_def)
  ultimately show ?thesis by (auto simp: TaskStore_Get_def)
qed

section \<open>Witnesses\<close>

definition demo_agentsystem :: AgentSystem where
  "demo_agentsystem = \<lparr>sy_APIVersion = [], sy_Kind = [], sy_Metadata = zero_meta\<lparr>m_Name := ''sys''\<rparr>,
     sy_Spec = \<lparr>as_Agents = [''b''], as_Graph = [], as_CompletionReview = None, as_ContextAdapter = [],
       as_A2A_Enabled = False, as_A2A_Auth = []\<rparr>, sy_Phase = [], sy_LastError = [], sy_ObservedGeneration = 0\<rparr>"

definition demo_process_agent :: Agent where
  "demo_process_agent = \<lparr>ag_Metadata = zero_meta\<lparr>m_Name := ''b''\<rparr>, ag_Spec = \<lparr>ag_Model = [], ag_ModelRef = ''m'',
     ag_Tools = [''shell''], ag_AllowedTools = [], ag_Roles = [], ag_MemoryRef = [], ag_MemoryAllow = []\<rparr>\<rparr>"

definition demo_env :: process_env where
  "demo_env = \<lparr>pe_lib = \<lparr>re_compiles = (\<lambda>_. True), re_matches = (\<lambda>_ _. True), is_float = (\<lambda>_. True),
       json_cond = (\<lambda>_ _. True)\<rparr>,
     pe_systems = (\<lambda>_. Inr (Some demo_agentsystem)), pe_agents = (\<lambda>_. Inr (Some demo_process_agent)),
     pe_modelEPs = Some (\<lambda>_. Inr (Some \<lparr>me_DefaultModel = ''gpt''\<rparr>)), pe_policies = None, pe_contextAdapters = None,
     pe_unmarshal = (\<lambda>_. None), pe_execute = (\<lambda>_ _ _ m. ((demo_result, None), m))\<rparr>"

definition calm_process :: "instant \<Rightarrow> process_world" where
  "calm_process now = \<lparr>pw_delivery = calm now, pw_begin = calm now, pw_join = calm now, pw_delegation = calm now,
     pw_trace = calm now, pw_toolCheck = calm now, pw_tool = calm now, pw_review = calm now, pw_completion = calm now,
     pw_end = calm now, pw_toolApprovals = (\<lambda>s. s), pw_reviews = (\<lambda>_ s. s), pw_completions = (\<lambda>_ s. s),
     pw_bus = (\<lambda>_ b. b), pw_clock = (\<lambda>_. now)\<rparr>"

definition demo_process :: process_state where
  "demo_process = \<lparr>ps_run = demo_state, ps_toolApprovals = Some [], ps_taskApprovals = Some [],
     ps_bus = NewMemoryAgentMessageBus [] 0 0\<rparr>"

lemma calm_keeps: "keeps_types (calm now)" "others_keep_types (calm_process now)"
  by (simp_all add: others_keep_types_def calm_process_def keeps_types_def calm_def)

lemma calm_process_simps [simp]:
  "pw_delivery (calm_process now) = calm now" "pw_begin (calm_process now) = calm now"
  "pw_join (calm_process now) = calm now" "pw_delegation (calm_process now) = calm now"
  "pw_end (calm_process now) = calm now" "pw_tool (calm_process now) = calm now"
  "pw_toolCheck (calm_process now) = calm now" "pw_toolApprovals (calm_process now) = (\<lambda>s. s)"
  "w_get_err (calm now) k = None" "w_env (calm now) k s = s" "w_now (calm now) k = now"
  by (simp_all add: calm_process_def calm_def)

text \<open>The attempt the demonstration starts, and the state it leaves.\<close>

definition demo_begin :: "(store_failure + begin_result) \<times> consumer_state" where
  "demo_begin = beginMessageAttempt demo_cfg (calm 0) ''default/t1'' demo_msg demo_state"

lemma demo_begun:
  obtains b r t where "demo_begin = (Inr b, r)" "\<not> br_skip b" "br_retryAfter b = 0" "sp_MaxTurns (t_Spec (br_task b)) = 0"
    "over_budget (br_task b) [] ''b'' demo_result = None"
    "downstream_messages (pe_lib demo_env) 0 (br_task b) demo_msg demo_result demo_agentsystem open_gate = []"
    "TaskStore_Get ''default/t1'' (cs_tasks r) = Some t" "m_ResourceVersion (t_Metadata t) = itoa 2"
    "\<not> isTerminalTaskPhase (ts_Phase (t_Status t))"
proof -
  have "case demo_begin of (Inl e, r) \<Rightarrow> False
    | (Inr b, r) \<Rightarrow> \<not> br_skip b \<and> br_retryAfter b = 0 \<and> sp_MaxTurns (t_Spec (br_task b)) = 0
        \<and> over_budget (br_task b) [] ''b'' demo_result = None
        \<and> downstream_messages (pe_lib demo_env) 0 (br_task b) demo_msg demo_result demo_agentsystem open_gate = []
        \<and> (case TaskStore_Get ''default/t1'' (cs_tasks r) of None \<Rightarrow> False
           | Some t \<Rightarrow> m_ResourceVersion (t_Metadata t) = itoa 2 \<and> \<not> isTerminalTaskPhase (ts_Phase (t_Status t)))"
    by code_simp
  then show thesis using that by (auto split: prod.splits sum.splits option.splits)
qed

lemma demo_wf: "task_store_wf (ps_tasks demo_process)"
  using reachable_wf [OF demo_store_reachable(1)] by (simp add: demo_process_def demo_state_def)

lemma on_run_eq: "f (ps_run s) = (x, r) \<Longrightarrow> on_run f s = (x, s\<lparr>ps_run := r\<rparr>)"
  by (simp add: on_run_def)

lemma demo_run:
  "\<exists>s' u. handle_message demo_cfg demo_env (calm_process 0) demo_msg demo_process = (None, s')
     \<and> TaskStore_Get ''default/t1'' (ps_tasks s') = Some u"
proof -
  obtain b r t where b: "demo_begin = (Inr b, r)" "\<not> br_skip b" "br_retryAfter b = 0" "sp_MaxTurns (t_Spec (br_task b)) = 0"
    "over_budget (br_task b) [] ''b'' demo_result = None"
    "downstream_messages (pe_lib demo_env) 0 (br_task b) demo_msg demo_result demo_agentsystem open_gate = []"
    and t: "TaskStore_Get ''default/t1'' (cs_tasks r) = Some t" "m_ResourceVersion (t_Metadata t) = itoa 2"
    "\<not> isTerminalTaskPhase (ts_Phase (t_Status t))" by (rule demo_begun)
  let ?s = "demo_process\<lparr>ps_run := r\<rparr>"
  let ?w = "calm_process 0"
  have st0: "on_run (beginMessageAttempt demo_cfg (calm 0) ''default/t1'' demo_msg) demo_process = (Inr b, ?s)"
    by (rule on_run_eq) (use b(1) in \<open>simp add: demo_begin_def demo_process_def\<close>)
  have wf: "task_store_wf (cs_tasks r)"
    using begin_loop(1) [OF st0 calm_keeps(1) demo_wf] by simp
  obtain t' l m u where step: "complete_step demo_cfg demo_msg (br_record b) demo_result 0 t = Write t' l m u"
    using complete_step_writes [OF t(3)] by blast
  have n: "(0::int) \<le> 2" "in_int64 2" by code_simp+
  from calm_loop [OF t(1) wf t(2) n, of "stateless (complete_step demo_cfg demo_msg (br_record b) demo_result)" "()" 0 "()" t' l m u "()" "()"]
    step complete_status [OF step]
  obtain v r' where v: "with_retries (calm 0) ''default/t1'' () () (stateless (complete_step demo_cfg demo_msg (br_record b) demo_result)) () r
      = (Inr u, r')" "TaskStore_Get ''default/t1'' (cs_tasks r') = Some v" by auto
  have "on_run (completeTaskSuccess demo_cfg (calm 0) ''default/t1'' demo_msg (br_record b) demo_result) ?s
      = (Inr u, ?s\<lparr>ps_run := r'\<rparr>)"
    by (rule on_run_eq) (use v(1) in \<open>simp add: completeTaskSuccess_def\<close>)
  then have fin: "complete_message demo_cfg ?w ''default/t1'' demo_msg (br_record b) demo_result ?s = (None, ?s\<lparr>ps_run := r'\<rparr>)"
    by (simp add: complete_message_def)
  have to: "trim_space (am_ToAgent demo_msg) = ''b''" "\<not> jq_enabled (joinRequirements demo_agentsystem ''b'')"
    "ResolveAgentModelRef (fst (splitTaskKey ''default/t1'')) ''m'' (Some (\<lambda>_. Inr (Some \<lparr>me_DefaultModel = ''gpt''\<rparr>))) = Inr ''gpt''"
    by code_simp+
  have dt: "case handleDelivery (calm 0) demo_msg demo_store of Inl _ \<Rightarrow> False | Inr (k, _) \<Rightarrow> k = ''default/t1''" by code_simp
  have gates: "on_run (applyJoinGate demo_cfg (calm 0) ''default/t1'' demo_msg demo_agentsystem) ?s = (Inr open_gate, ?s)"
    "on_run (applyDelegationGate demo_cfg (calm 0) ''default/t1'' demo_msg demo_agentsystem) ?s = (Inr open_gate, ?s)"
    by (simp_all add: on_run_def applyJoinGate_def applyDelegationGate_def to Let_def demo_agentsystem_def [THEN arg_cong, of sy_Spec])
  let ?a = "demo_process_agent\<lparr>ag_Spec := (ag_Spec demo_process_agent)\<lparr>ag_Model := ''gpt''\<rparr>\<rparr>"
  have resolve: "resolve_agent demo_cfg demo_env ?w ''default/t1'' demo_msg (br_record b) (br_task b) demo_agentsystem ?s
      = (Inr (?a, []), ?s)"
    by (simp add: resolve_agent_def demo_env_def demo_process_agent_def to Let_def)
  have adapt: "adapt_input demo_cfg demo_env ?w ''default/t1'' demo_msg (br_record b) (br_task b) demo_agentsystem ?s
      = (Inr (sp_Input (t_Spec (br_task b)), []), ?s)"
    by (simp add: adapt_input_def demo_env_def Let_def)
  have exec: "execute_agent demo_env ''default/t1'' (br_task b) [] ?a input ?s = ((demo_result, None), ?s)" for input
    by (simp add: execute_agent_def demo_env_def with_builtin_tools_def demo_process_agent_def Let_def)
  have route: "route_output demo_cfg demo_env ?w ''default/t1'' demo_msg (br_record b) (br_task b) demo_agentsystem
      open_gate demo_result ?s = (None, ?s\<lparr>ps_run := r'\<rparr>)"
    using b(6) fin by (simp add: route_output_def pauseTaskForOutputReview_def demo_agentsystem_def calm_process_def)
  have ev: "demo_result\<lparr>xr_StepEvents := [] @ xr_StepEvents demo_result\<rparr> = demo_result" by simp
  have "after_execution demo_cfg demo_env ?w ''default/t1'' demo_msg (br_record b) (br_task b) demo_agentsystem open_gate []
      ?a demo_result ?s = (None, ?s\<lparr>ps_run := r'\<rparr>)"
    using b(4,5) route by (simp add: after_execution_def shouldStopForTurnLimit_def demo_process_agent_def)
  then have "run_agent demo_cfg demo_env ?w ''default/t1'' demo_msg (br_record b) (br_task b) demo_agentsystem open_gate
      open_gate ?s = (None, ?s\<lparr>ps_run := r'\<rparr>)"
    by (simp only: run_agent_def resolve adapt exec prod.case sum.case option.case ev)
  then have "pass_gates demo_cfg demo_env ?w ''default/t1'' demo_msg (br_record b) (br_task b) demo_agentsystem ?s
      = (None, ?s\<lparr>ps_run := r'\<rparr>)"
    using gates open_gate_goes_on by (simp add: pass_gates_def)
  then have "processMessage demo_cfg demo_env ?w ''default/t1'' demo_msg demo_process = (None, ?s\<lparr>ps_run := r'\<rparr>)"
    using st0 b(2,3) by (simp add: processMessage_def demo_env_def)
  moreover have "handle_message demo_cfg demo_env ?w demo_msg demo_process
      = processMessage demo_cfg demo_env ?w ''default/t1'' demo_msg demo_process"
    using dt by (auto simp: handle_message_def demo_process_def demo_state_def split: sum.splits prod.splits)
  ultimately show ?thesis using v(2) by auto
qed


text \<open>A task that is done, and one whose trace has the message.\<close>

theorem handled_has_no_effect_witness:
  "handle_message demo_cfg demo_env (calm_process 0) demo_msg
     (demo_process\<lparr>ps_run := demo_state\<lparr>cs_tasks := demo_traced\<rparr>\<rparr>)
   = (None, demo_process\<lparr>ps_run := demo_state\<lparr>cs_tasks := demo_traced\<rparr>\<rparr>)"
proof -
  let ?s = "demo_process\<lparr>ps_run := demo_state\<lparr>cs_tasks := demo_traced\<rparr>\<rparr>"
  have k: "messageTaskKey demo_msg = Some ''default/t1''" by code_simp
  have "case TaskStore_Get ''default/t1'' demo_traced of None \<Rightarrow> False
    | Some t \<Rightarrow> handled demo_msg t \<and> idem_of t = [] \<and> \<not> waits_text t" by code_simp
  then obtain t where t: "TaskStore_Get ''default/t1'' (ps_tasks ?s) = Some t" "handled demo_msg t" "idem_of t = []"
    "\<not> waits_text t" by (auto split: option.splits)
  from handled_has_no_effect [OF k t(1,2), of "calm_process 0" demo_cfg demo_env] t(3,4) show ?thesis by simp
qed

section \<open>Pauses\<close>

text \<open>A task that has ended is not written by any step but those of the pauses.\<close>

lemma ended_steps_return:
  assumes "isTerminalTaskPhase (ts_Phase (t_Status t))"
  shows "\<exists>r. begin_step c msg now t = Return r" "\<exists>r. snd (join_step c msg sys mode er now t) = Return r"
    "\<exists>r. snd (delegation_step c msg ds mode er now t) = Return r" "complete_step c msg rec res now t = Return ()"
    "forward_step c msg rec res ns now t = Return ()" "failed_trace_step c msg rec res now t = Return ()"
    "retry_step c msg rec err now t = Return (False, 0)"
  using assms by (simp_all add: begin_step_def join_step_def delegation_step_def complete_step_def forward_step_def
      failed_trace_step_def retry_step_def)

lemma others_calm: "others (calm now) s s' \<longleftrightarrow> s' = s"
proof
  have "{(x, w_env (calm now) k x) | x k. True} = Id" by (auto simp: calm_def)
  then show "others (calm now) s s' \<Longrightarrow> s' = s" by (simp add: others_def)
qed simp

text \<open>
  C22: A pause revives a task that has ended. When a task has ended, as another branch's dead letter
  ends it, while an agent is executed for it, and that execution demands an approval, then a pause
  that succeeds stores the ended task as waiting for the approval; every other step of the consumer
  leaves an ended task alone (\<open>ended_steps_return\<close>).
\<close>

theorem pause_revives_ended_task:
  assumes "pauseTaskForToolApproval w key msg agent err s = (True, s')" "pw_tool w = calm now"
    "TaskStore_Get key (w_env (pw_toolCheck w) 0 (ps_tasks s)) = Some t" "isTerminalTaskPhase (ts_Phase (t_Status t))"
    "task_store_wf (w_env (pw_toolCheck w) 0 (ps_tasks s))"
  shows "\<exists>u. TaskStore_Get key (ps_tasks s') = Some u \<and> ts_Phase (t_Status u) = ''WaitingApproval''"
proof -
  let ?st = "w_env (pw_toolCheck w) 0 (ps_tasks s)"
  let ?step = "stateless (tool_pause_step msg (m_Name (ta_Metadata (tool_approval_request key msg agent err)))
    (ap_Tool (ta_Spec (tool_approval_request key msg agent err))) err)"
  have nw: "\<not> waits_text t"
  proof
    assume "waits_text t"
    moreover have "\<not> List.member [''succeeded'', ''failed'', ''deadletter''] (to_lower ''waitingapproval'')" by code_simp
    ultimately show False using assms(4) by (auto simp: waits_text_def isTerminalTaskPhase_def equal_fold_def)
  qed
  obtain r where run: "with_retries (calm now) key False False ?step () r = (Inr True, ps_run s')" "cs_tasks r = ?st"
    using assms(1-3) nw
    by (auto simp: pauseTaskForToolApproval_def Let_def on_run_def split: option.splits prod.splits sum.splits if_splits)
  have "outcome (calm now) key False ?step r (Inr True, ps_run s')"
    by (subst run(1) [symmetric]) (rule with_retries_outcome)
  moreover have "\<not> returned (calm now) key False ?step r True (ps_run s')"
    by (auto simp: returned_def tool_pause_step_def Let_def split: option.splits prod.splits)
  ultimately have ow: "one_write (calm now) key ?step r True (ps_run s')" by (simp add: outcome_def)
  have meta: "t_Metadata t2 = t_Metadata t1" if "?step a x t1 = (a', Write t2 l b True)" for a x t1 a' t2 l b
    using that tool_pause_status [of msg _ _ err x t1 t2 l b True] by (auto dest: only_status_meta)
  have wf: "task_store_wf (cs_tasks r)" using assms(5) run(2) by simp
  obtain a x t1 a' t2 l b u where u: "?step a x t1 = (a', Write t2 l b True)"
    "TaskStore_Get key (ps_tasks s') = Some u" "t_Status u = normalize_task_status (t_Status t2)"
    by (rule one_write_stored [OF ow calm_keeps(1) wf meta])
  from u(1) have "ts_Phase (t_Status t2) = ''WaitingApproval''"
    by (auto simp: tool_pause_step_def Let_def blocked_task_def observe_def appendMessageTrace_def trimTaskTrace_def
        split: prod.splits)
  with u(2,3) show ?thesis by (simp add: normalize_task_status_def Let_def)
qed

lemma hex8_not_space: "list_all (\<lambda>c. \<not> is_space c) (hex8 n)"
proof -
  have "list_all (\<lambda>d. \<not> is_space (hex_digit d)) [0..<16]" by code_simp
  then have "\<not> is_space (hex_digit d)" if "d < 16" for d using that by (simp add: list_all_iff)
  then show ?thesis by (auto simp: hex8_def list_all_iff)
qed

lemma trim_approval_name: "trim_space (''ta-'' @ hex8 n) = ''ta-'' @ hex8 n"
  using hex8_not_space [of n] by (intro trim_space_id) (simp add: is_space_def)


text \<open>The task of the demonstration, dead-lettered by another branch while the agent was executed.\<close>

definition demo_ended :: TaskStore where
  "demo_ended = snd (TaskStore_Upsert 0 (on_status (\<lambda>s. s\<lparr>ts_Phase := ''DeadLetter''\<rparr>) demo_task) NewTaskStore)"

definition demo_ended_world :: process_world where
  "demo_ended_world = calm_process 0\<lparr>pw_toolCheck := (calm 0)\<lparr>w_env := (\<lambda>_ _. demo_ended)\<rparr>\<rparr>"

definition demo_demand :: go_error where
  "demo_demand = ErrApproval ''shell'' ''ls'' ''policy''"

lemma demo_ended_reachable: "reachable_store demo_ended"
  unfolding demo_ended_def by (intro reachable_store.intros)

lemma demo_ended_wf: "task_store_wf demo_ended"
  by (rule reachable_wf [OF demo_ended_reachable])

lemma demo_ended_task:
  obtains t where "TaskStore_Get ''default/t1'' demo_ended = Some t" "isTerminalTaskPhase (ts_Phase (t_Status t))"
    "m_ResourceVersion (t_Metadata t) = itoa 1" "\<not> waits_text t"
proof -
  have "case TaskStore_Get ''default/t1'' demo_ended of None \<Rightarrow> False
    | Some t \<Rightarrow> isTerminalTaskPhase (ts_Phase (t_Status t)) \<and> m_ResourceVersion (t_Metadata t) = itoa 1 \<and> \<not> waits_text t"
    by code_simp
  then show thesis using that by (auto split: option.splits)
qed

lemma demo_pause:
  "\<exists>s'. pauseTaskForToolApproval demo_ended_world ''default/t1'' demo_msg demo_process_agent demo_demand demo_process = (True, s')"
proof -
  let ?q = "tool_approval_request ''default/t1'' demo_msg demo_process_agent demo_demand"
  obtain t where t: "TaskStore_Get ''default/t1'' demo_ended = Some t" "isTerminalTaskPhase (ts_Phase (t_Status t))"
    "m_ResourceVersion (t_Metadata t) = itoa 1" "\<not> waits_text t" by (rule demo_ended_task)
  have tool: "ap_Tool (ta_Spec ?q) \<noteq> []" by code_simp
  have "case fst (ToolApprovalStore_Upsert 0 ?q []) of Inl _ \<Rightarrow> False | Inr _ \<Rightarrow> True" by code_simp
  then obtain x after where x: "ToolApprovalStore_Upsert 0 ?q [] = (Inr x, after)"
    by (cases "ToolApprovalStore_Upsert 0 ?q []") (auto split: sum.splits)
  let ?step = "tool_pause_step demo_msg (m_Name (ta_Metadata ?q)) (ap_Tool (ta_Spec ?q)) demo_demand"
  have "\<exists>t' l m. ?step 0 t = Write t' l m True"
    by (cases "ensureTaskMessageRecord 0 demo_msg t") (auto simp: tool_pause_step_def Let_def)
  then obtain t' l m where step: "?step 0 t = Write t' l m True" by blast
  let ?r = "demo_state\<lparr>cs_tasks := demo_ended\<rparr>"
  have n: "(0::int) \<le> 1" "in_int64 1" by code_simp+
  obtain r' where r': "with_retries (calm 0) ''default/t1'' False False (stateless ?step) () ?r = (Inr True, r')"
    using calm_loop [of "''default/t1''" ?r t 1 "stateless ?step" "()" 0 "()" t' l m True False False] t n demo_ended_wf step
      tool_pause_status [OF step] by auto
  have fields: "ps_toolApprovals demo_process = Some []" "ps_run demo_process = demo_state"
      "pw_clock demo_ended_world k = 0" "pw_toolApprovals demo_ended_world = (\<lambda>s. s)" "pw_tool demo_ended_world = calm 0"
      "w_env (pw_toolCheck demo_ended_world) 0 st = demo_ended" "w_get_err (pw_toolCheck demo_ended_world) 0 = None" for k st
    by (simp_all add: demo_process_def demo_ended_world_def calm_process_def calm_def)
  show ?thesis
    unfolding pauseTaskForToolApproval_def Let_def fields option.case x prod.case sum.case
    using tool t(1,4) r' by (simp add: on_run_def)
qed

theorem pause_revives_ended_task_witness:
  "\<exists>s' t u. pauseTaskForToolApproval demo_ended_world ''default/t1'' demo_msg demo_process_agent demo_demand demo_process = (True, s')
     \<and> TaskStore_Get ''default/t1'' demo_ended = Some t \<and> isTerminalTaskPhase (ts_Phase (t_Status t))
     \<and> TaskStore_Get ''default/t1'' (ps_tasks s') = Some u \<and> ts_Phase (t_Status u) = ''WaitingApproval''"
proof -
  obtain s' where s': "pauseTaskForToolApproval demo_ended_world ''default/t1'' demo_msg demo_process_agent demo_demand demo_process
    = (True, s')" using demo_pause by blast
  obtain t where t: "TaskStore_Get ''default/t1'' demo_ended = Some t" "isTerminalTaskPhase (ts_Phase (t_Status t))"
    by (rule demo_ended_task)
  have "pw_tool demo_ended_world = calm 0" "w_env (pw_toolCheck demo_ended_world) 0 (ps_tasks demo_process) = demo_ended"
    by (simp_all add: demo_ended_world_def)
  with pause_revives_ended_task [OF s', of 0 t] t demo_ended_wf s' show ?thesis by auto
qed


end
