(* ===== verification/Worker_Store.thy ===== *)
theory Worker_Store
  imports Resource_Store
begin

text \<open>
  Workers (resources/resource_types.go) and their store (store/resource_stores.go, WorkerStore),
  with the slots that bound how many tasks a worker runs at a time.

  Shown here: the store's operations keep it well-formed, and under any sequence of acquisitions
  and releases the slots in use are those granted and not yet given back, within the worker's limit.
\<close>

record WorkerCapabilities =
  wc_GPU :: bool
  wc_SupportedModels :: "string list"

record WorkerSpec =
  ws_Region :: string
  ws_Capabilities :: WorkerCapabilities
  ws_MaxConcurrentTasks :: int

record WorkerStatus =
  wt_Phase :: string
  wt_LastError :: string
  wt_LastHeartbeat :: string
  wt_ObservedGeneration :: int
  wt_CurrentTasks :: int

record Worker =
  w_APIVersion :: string
  w_Kind :: string
  w_Metadata :: ObjectMeta
  w_Spec :: WorkerSpec
  w_Status :: WorkerStatus

definition Worker_Normalize :: "Worker \<Rightarrow> api_error + Worker" where
  "Worker_Normalize w =
     (let api = (if w_APIVersion w = [] then ''orloj.dev/v1'' else w_APIVersion w);
          kind = (if w_Kind w = [] then ''Worker'' else w_Kind w);
          meta = NormalizeObjectMetaNamespace (w_Metadata w)
      in if \<not> equal_fold kind ''Worker'' then Inl (UnsupportedKind kind ''Worker'')
         else case ValidateMetadataName (m_Name meta) of
                Some e \<Rightarrow> Inl e
              | None \<Rightarrow>
                  Inr (w\<lparr>w_APIVersion := api, w_Kind := kind, w_Metadata := meta,
                         w_Spec := (w_Spec w)\<lparr>ws_MaxConcurrentTasks :=
                            (if ws_MaxConcurrentTasks (w_Spec w) \<le> 0 then 1
                             else ws_MaxConcurrentTasks (w_Spec w))\<rparr>,
                         w_Status := (w_Status w)\<lparr>wt_Phase :=
                            (if wt_Phase (w_Status w) = [] then ''Pending'' else wt_Phase (w_Status w))\<rparr>\<rparr>))"

type_synonym WorkerStore = "(string \<times> Worker) list"

abbreviation set_worker_meta :: "ObjectMeta \<Rightarrow> Worker \<Rightarrow> Worker" where
  "set_worker_meta m w \<equiv> w\<lparr>w_Metadata := m\<rparr>"

abbreviation worker_spec_changed :: "Worker \<Rightarrow> Worker \<Rightarrow> bool" where
  "worker_spec_changed a b \<equiv> w_Spec a \<noteq> w_Spec b"

definition WorkerStore_Upsert :: "instant \<Rightarrow> Worker \<Rightarrow> WorkerStore \<Rightarrow> (api_error + Worker) \<times> WorkerStore" where
  "WorkerStore_Upsert now item s =
     store_upsert ''Worker'' w_Metadata set_worker_meta worker_spec_changed Worker_Normalize now item s"

definition WorkerStore_Get :: "string \<Rightarrow> WorkerStore \<Rightarrow> Worker option" where
  "WorkerStore_Get name s = store_get name s"

definition WorkerStore_List :: "WorkerStore \<Rightarrow> Worker list" where
  "WorkerStore_List s = store_list w_Metadata s"

definition WorkerStore_ListCursor :: "int \<Rightarrow> string \<Rightarrow> string \<Rightarrow> WorkerStore \<Rightarrow> Worker list" where
  "WorkerStore_ListCursor limit after namespace s = store_list_cursor w_Metadata limit after namespace s"

definition WorkerStore_Delete :: "string \<Rightarrow> WorkerStore \<Rightarrow> api_error option \<times> WorkerStore" where
  "WorkerStore_Delete name s = store_delete ''worker'' name s"

definition max_slots :: "Worker \<Rightarrow> int" where
  "max_slots w = (let m = ws_MaxConcurrentTasks (w_Spec w) in if m \<le> 0 then 1 else m)"

text \<open>The answer is an error, or the worker found (if any) and whether a slot was acquired.\<close>

definition TryAcquireSlot ::
  "instant \<Rightarrow> string \<Rightarrow> WorkerStore \<Rightarrow> (api_error + Worker option \<times> bool) \<times> WorkerStore" where
  "TryAcquireSlot now name s =
     (let key = normalizeLookupName name
      in case map_of s key of
           None \<Rightarrow> (Inr (None, False), s)
         | Some w \<Rightarrow>
             let phase = to_lower (trim_space (wt_Phase (w_Status w)))
             in if phase \<noteq> ''ready'' \<and> phase \<noteq> ''pending'' then (Inr (Some w, False), s)
                else if max_slots w \<le> wt_CurrentTasks (w_Status w) then (Inr (Some w, False), s)
                else case initializeUpdateMetadata now ''Worker'' (w_Metadata w) (w_Metadata w) False of
                       Inl e \<Rightarrow> (Inl e, s)
                     | Inr m \<Rightarrow>
                         let w' = w\<lparr>w_Metadata := m, w_Status := (w_Status w)\<lparr>
                                     wt_CurrentTasks := wt_CurrentTasks (w_Status w) + 1,
                                     wt_ObservedGeneration := m_Generation (w_Metadata w)\<rparr>\<rparr>
                         in (Inr (Some w', True), AList.update key w' s))"

definition ReleaseSlot :: "instant \<Rightarrow> string \<Rightarrow> WorkerStore \<Rightarrow> api_error option \<times> WorkerStore" where
  "ReleaseSlot now name s =
     (let key = normalizeLookupName name
      in case map_of s key of
           None \<Rightarrow> (None, s)
         | Some w \<Rightarrow>
             if wt_CurrentTasks (w_Status w) \<le> 0 then (None, s)
             else case initializeUpdateMetadata now ''Worker'' (w_Metadata w) (w_Metadata w) False of
                    Inl e \<Rightarrow> (Some e, s)
                  | Inr m \<Rightarrow>
                      let n = wt_CurrentTasks (w_Status w) - 1;
                          w' = w\<lparr>w_Metadata := m, w_Status := (w_Status w)\<lparr>
                                  wt_CurrentTasks := (if n < 0 then 0 else n),
                                  wt_ObservedGeneration := m_Generation (w_Metadata w)\<rparr>\<rparr>
                      in (None, AList.update key w' s))"

section \<open>Well-formed stores\<close>

definition worker_ok :: "Worker \<Rightarrow> bool" where
  "worker_ok w \<longleftrightarrow>
     equal_fold (w_Kind w) ''Worker'' \<and> ValidateMetadataName (m_Name (w_Metadata w)) = None
     \<and> NormalizeNamespace (m_Namespace (w_Metadata w)) = m_Namespace (w_Metadata w)
     \<and> 1 \<le> ws_MaxConcurrentTasks (w_Spec w) \<and> wt_Phase (w_Status w) \<noteq> []"

lemma Worker_Normalize_ok: "Worker_Normalize w = Inr w' \<Longrightarrow> worker_ok w'"
  by (auto simp: Worker_Normalize_def worker_ok_def Let_def NormalizeObjectMetaNamespace_def
      split: if_splits option.splits)

interpretation worker_res: versioned_resource "''Worker''" w_Metadata set_worker_meta
  worker_spec_changed Worker_Normalize worker_ok
  by unfold_locales (auto intro: Worker_Normalize_ok, simp_all add: worker_ok_def)

abbreviation worker_store_wf :: "WorkerStore \<Rightarrow> bool" where
  "worker_store_wf s \<equiv> items_wf w_Metadata worker_ok s"

lemma worker_replace_wf:
  assumes "worker_store_wf s" "map_of s k = Some w"
    and "initializeUpdateMetadata now r (w_Metadata w) (w_Metadata w) ch = Inr m"
    and "wt_Phase st = wt_Phase (w_Status w)"
  shows "worker_store_wf (AList.update k (w\<lparr>w_Metadata := m, w_Status := st\<rparr>) s)"
proof (rule items_wf_update [OF assms(1)])
  note l = items_wf_lookup [OF assms(1,2)] and n = initializeUpdateMetadata_names [OF assms(3)]
  show "k = scopedNameFromMeta (w_Metadata (w\<lparr>w_Metadata := m, w_Status := st\<rparr>))"
    using l n by (simp add: scopedNameFromMeta_def)
  show "worker_ok (w\<lparr>w_Metadata := m, w_Status := st\<rparr>)"
    using l n assms(4) by (simp add: worker_ok_def)
  show "version_ok (w_Metadata (w\<lparr>w_Metadata := m, w_Status := st\<rparr>))"
    using version_ok_update [OF assms(3)] by simp
qed

lemma TryAcquireSlot_wf: "worker_store_wf s \<Longrightarrow> worker_store_wf (snd (TryAcquireSlot now name s))"
  by (auto simp: TryAcquireSlot_def Let_def split: option.splits sum.splits intro!: worker_replace_wf)

lemma ReleaseSlot_wf: "worker_store_wf s \<Longrightarrow> worker_store_wf (snd (ReleaseSlot now name s))"
  by (auto simp: ReleaseSlot_def Let_def split: option.splits sum.splits intro!: worker_replace_wf)

lemma WorkerStore_Upsert_wf: "worker_store_wf s \<Longrightarrow> worker_store_wf (snd (WorkerStore_Upsert now item s))"
  unfolding WorkerStore_Upsert_def by (rule worker_res.upsert_wf)

lemma WorkerStore_Delete_wf: "worker_store_wf s \<Longrightarrow> worker_store_wf (snd (WorkerStore_Delete name s))"
  unfolding WorkerStore_Delete_def by (rule worker_res.delete_wf)

section \<open>Slots\<close>

text \<open>
  A run of acquisitions and releases by one or more task loops of a worker. It records how many
  acquisitions were granted and not yet released; a loop releases only what it was granted.
\<close>

definition slots_used :: "string \<Rightarrow> WorkerStore \<Rightarrow> int" where
  "slots_used key s = (case map_of s key of None \<Rightarrow> 0 | Some w \<Rightarrow> wt_CurrentTasks (w_Status w))"

inductive slot_run :: "string \<Rightarrow> WorkerStore \<Rightarrow> int \<Rightarrow> bool" for name where
  start: "worker_store_wf s \<Longrightarrow> slots_used (normalizeLookupName name) s = 0 \<Longrightarrow> slot_run name s 0"
| acquire: "slot_run name s n \<Longrightarrow> TryAcquireSlot now name s = (r, s') \<Longrightarrow>
    slot_run name s' (case r of Inr (_, True) \<Rightarrow> n + 1 | _ \<Rightarrow> n)"
| release: "slot_run name s n \<Longrightarrow> 0 < n \<Longrightarrow> ReleaseSlot now name s = (None, s') \<Longrightarrow>
    slot_run name s' (n - 1)"

lemma acquire_slots:
  assumes "TryAcquireSlot now name s = (r, s')"
  shows "slots_used (normalizeLookupName name) s' =
      slots_used (normalizeLookupName name) s + (case r of Inr (_, True) \<Rightarrow> 1 | _ \<Rightarrow> 0)"
    and "map_option w_Spec (map_of s' (normalizeLookupName name))
      = map_option w_Spec (map_of s (normalizeLookupName name))"
    and "(case r of Inr (_, True) \<Rightarrow> True | _ \<Rightarrow> False) \<Longrightarrow>
      \<exists>w. map_of s (normalizeLookupName name) = Some w
        \<and> slots_used (normalizeLookupName name) s < max_slots w"
  using assms
  by (auto simp: TryAcquireSlot_def Let_def slots_used_def update_conv'
      split: option.splits sum.splits if_splits)

lemma release_slots:
  assumes "ReleaseSlot now name s = (None, s')" "0 < slots_used (normalizeLookupName name) s"
  shows "slots_used (normalizeLookupName name) s' = slots_used (normalizeLookupName name) s - 1"
    and "map_option w_Spec (map_of s' (normalizeLookupName name))
      = map_option w_Spec (map_of s (normalizeLookupName name))"
  using assms
  by (auto simp: ReleaseSlot_def Let_def slots_used_def update_conv'
      split: option.splits sum.splits if_splits)

lemma max_slots_spec: "w_Spec a = w_Spec b \<Longrightarrow> max_slots a = max_slots b"
  by (simp add: max_slots_def)

lemma slot_run_count:
  assumes "slot_run name s n"
  shows "slots_used (normalizeLookupName name) s = n \<and> 0 \<le> n
    \<and> (n = 0 \<or> (\<exists>w. map_of s (normalizeLookupName name) = Some w \<and> n \<le> max_slots w))"
  using assms
proof induction
  case (acquire s n now r s')
  let ?k = "normalizeLookupName name"
  note a = acquire_slots [OF acquire(2)]
  show ?case
  proof (cases "case r of Inr (_, True) \<Rightarrow> True | _ \<Rightarrow> False")
    case True
    then obtain w where w: "map_of s ?k = Some w" "slots_used ?k s < max_slots w" using a(3) by blast
    from w(1) a(2) obtain w' where w': "map_of s' ?k = Some w'" "w_Spec w' = w_Spec w" by auto
    with True w a(1) acquire(3) max_slots_spec [OF w'(2)] show ?thesis
      by (auto split: sum.splits prod.splits bool.splits)
  next
    case False
    with a(1,2) acquire(3) show ?thesis
      by (cases "map_of s' ?k") (auto simp: max_slots_def split: sum.splits prod.splits bool.splits)
  qed
next
  case (release s n now s')
  let ?k = "normalizeLookupName name"
  have pos: "0 < slots_used ?k s" using release by simp
  note r = release_slots [OF release(3) pos]
  obtain w where w: "map_of s ?k = Some w" "n \<le> max_slots w" using release by auto
  with r(2) obtain w' where w': "map_of s' ?k = Some w'" "w_Spec w' = w_Spec w" by auto
  with r(1) release w max_slots_spec [OF w'(2)] show ?case by auto
qed simp

section \<open>Properties\<close>

text \<open>
  A worker never runs more tasks than its limit. Under any sequence of slot acquisitions and
  releases that starts with no slot in use and releases no more than was granted, the stored count
  is exactly the number of slots granted and not yet released, is never negative, and never
  exceeds the worker's MaxConcurrentTasks.
\<close>

theorem slots_bounded:
  assumes "slot_run name s n" "map_of s (normalizeLookupName name) = Some w"
  shows "wt_CurrentTasks (w_Status w) = n \<and> 0 \<le> n \<and> n \<le> max_slots w"
proof -
  have "1 \<le> max_slots w" by (simp add: max_slots_def Let_def)
  with slot_run_count [OF assms(1)] assms(2) show ?thesis by (auto simp: slots_used_def)
qed

definition demo_worker :: Worker where
  "demo_worker = \<lparr>w_APIVersion = ''orloj.dev/v1'', w_Kind = ''Worker'',
     w_Metadata = \<lparr>m_Name = ''w1'', m_Namespace = ''default'', m_Labels = fmempty, m_Annotations = fmempty,
       m_ResourceVersion = [], m_Generation = 0, m_CreatedAt = []\<rparr>,
     w_Spec = \<lparr>ws_Region = [], ws_Capabilities = \<lparr>wc_GPU = False, wc_SupportedModels = []\<rparr>,
       ws_MaxConcurrentTasks = 1\<rparr>,
     w_Status = \<lparr>wt_Phase = ''Ready'', wt_LastError = [], wt_LastHeartbeat = format_nano 0,
       wt_ObservedGeneration = 0, wt_CurrentTasks = 0\<rparr>\<rparr>"

definition demo_workers :: WorkerStore where
  "demo_workers = snd (WorkerStore_Upsert 0 demo_worker [])"

theorem slots_bounded_witness:
  "\<exists>w. map_of (snd (TryAcquireSlot 0 ''w1'' demo_workers)) ''default/w1'' = Some w
    \<and> wt_CurrentTasks (w_Status w) = 1"
proof -
  have k: "normalizeLookupName ''w1'' = ''default/w1''" by code_simp
  have "worker_store_wf demo_workers" unfolding demo_workers_def by (simp add: WorkerStore_Upsert_wf)
  moreover have "slots_used ''default/w1'' demo_workers = 0" by code_simp
  ultimately have run: "slot_run ''w1'' demo_workers 0" using k by (auto intro: slot_run.start)
  have "case fst (TryAcquireSlot 0 ''w1'' demo_workers) of Inr (_, True) \<Rightarrow> True | _ \<Rightarrow> False" by code_simp
  then obtain w0 where "TryAcquireSlot 0 ''w1'' demo_workers
      = (Inr (w0, True), snd (TryAcquireSlot 0 ''w1'' demo_workers))"
    by (cases "TryAcquireSlot 0 ''w1'' demo_workers") (auto split: sum.splits prod.splits bool.splits)
  from slot_run.acquire [OF run this]
  have r: "slot_run ''w1'' (snd (TryAcquireSlot 0 ''w1'' demo_workers)) 1" by simp
  have "slots_used ''default/w1'' (snd (TryAcquireSlot 0 ''w1'' demo_workers)) = 1" by code_simp
  then obtain w where "map_of (snd (TryAcquireSlot 0 ''w1'' demo_workers)) ''default/w1'' = Some w"
    by (auto simp: slots_used_def split: option.splits)
  with slots_bounded [OF r, of w] k show ?thesis by simp
qed

end
