(* ===== verification/Scheduler.thy ===== *)
theory Scheduler
  imports Task_Store Worker_Store
begin

text \<open>
  The task scheduler (controllers/task_scheduler_controller.go): one pass assigns every pending
  task without a usable assignment to the least loaded worker that fits it.

  A pass reads the clock once per call in the model. The map of eligible workers is an association
  list by name (two workers of the same name in different namespaces collide in it, as they do in
  the code), the counts of new assignments a function from names. Between two accesses of the
  store other callers may use it: the retry loop takes what they do before its \<open>k\<close>-th access as
  an argument \<open>env k\<close>. Events published on the bus are output and are not modelled.

  Shown here: selection returns a fitting worker of least load, with the least name on ties; a
  pass never assigns a worker beyond its limit; the write loop's outcomes, and that after a
  conflict it overwrites the status another caller has written.
\<close>

section \<open>Eligibility\<close>

definition workerEligible :: "instant \<Rightarrow> duration \<Rightarrow> Worker \<Rightarrow> bool" where
  "workerEligible now staleAfter w =
     (let phase = to_lower (trim_space (wt_Phase (w_Status w)))
      in if phase \<noteq> ''ready'' \<and> phase \<noteq> ''pending'' then False
         else if trim_space (wt_LastHeartbeat (w_Status w)) = [] then False
         else case parseTimestamp (wt_LastHeartbeat (w_Status w)) of
                None \<Rightarrow> False
              | Some ts \<Rightarrow> \<not> staleAfter < now - ts)"

definition taskFitsWorkerRequirements :: "Task \<Rightarrow> Worker \<Rightarrow> bool" where
  "taskFitsWorkerRequirements t w =
     (let req = sp_Requirements (t_Spec t); models = wc_SupportedModels (ws_Capabilities (w_Spec w))
      in if trim_space (rq_Region req) \<noteq> []
            \<and> \<not> equal_fold (trim_space (rq_Region req)) (trim_space (ws_Region (w_Spec w))) then False
         else if rq_GPU req \<and> \<not> wc_GPU (ws_Capabilities (w_Spec w)) then False
         else if trim_space (rq_Model req) \<noteq> [] \<and> 0 < length models
            \<and> \<not> contains_fold models (rq_Model req) then False
         else True)"

definition taskPendingForScheduling :: "instant \<Rightarrow> Task \<Rightarrow> bool" where
  "taskPendingForScheduling now t =
     (if equal_fold (trim_space (sp_Mode (t_Spec t))) ''template'' then False
      else let phase = to_lower (trim_space (ts_Phase (t_Status t)))
           in if phase \<noteq> [] \<and> phase \<noteq> ''pending'' then False
              else if trim_space (ts_NextAttemptAt (t_Status t)) = [] then True
              else case parseTimestamp (ts_NextAttemptAt (t_Status t)) of
                     None \<Rightarrow> True
                   | Some nxt \<Rightarrow> \<not> now < nxt)"

definition appendHistoryWithWorker :: "instant \<Rightarrow> string \<Rightarrow> string \<Rightarrow> string \<Rightarrow> Task \<Rightarrow> Task" where
  "appendHistoryWithWorker now eventType worker message t =
     on_status (\<lambda>st. st\<lparr>ts_History := keep_last 200 (ts_History st @
       [\<lparr>he_Timestamp = format_nano now, he_Type = eventType, he_Worker = worker,
         he_Message = message\<rparr>])\<rparr>) t"

section \<open>Selection\<close>

type_synonym workers = "(string \<times> Worker) list"
type_synonym counts = "string \<Rightarrow> int"

definition worker_load :: "workers \<Rightarrow> counts \<Rightarrow> string \<Rightarrow> int" where
  "worker_load elig na name =
     (case map_of elig name of None \<Rightarrow> 0 | Some w \<Rightarrow> wt_CurrentTasks (w_Status w) + na name)"

text \<open>The loop of selectWorker, with the selection and its load so far.\<close>

fun select_loop :: "Task \<Rightarrow> workers \<Rightarrow> counts \<Rightarrow> string list \<Rightarrow> string \<Rightarrow> int \<Rightarrow> string \<times> int" where
  "select_loop t elig na [] selected selectedLoad = (selected, selectedLoad)"
| "select_loop t elig na (name # names) selected selectedLoad =
     (case map_of elig name of
        None \<Rightarrow> select_loop t elig na names selected selectedLoad
      | Some w \<Rightarrow>
          if \<not> taskFitsWorkerRequirements t w then select_loop t elig na names selected selectedLoad
          else let load = wt_CurrentTasks (w_Status w) + na name
               in if max_slots w \<le> load then select_loop t elig na names selected selectedLoad
                  else if selected = [] \<or> load < selectedLoad then select_loop t elig na names name load
                  else select_loop t elig na names selected selectedLoad)"

definition selectWorker :: "Task \<Rightarrow> workers \<Rightarrow> counts \<Rightarrow> string option" where
  "selectWorker t elig na =
     (let (selected, _) = select_loop t elig na (sort (map fst elig)) [] 0
      in if selected = [] then None else Some selected)"

section \<open>Writing a task back\<close>

text \<open>
  The loop shared by the controllers' upsertTask: up to five attempts, each after a conflict
  taking the version, generation, creation time and spec of the stored task. What is answered when
  the task has meanwhile gone differs and is the argument \<open>missing\<close>.
\<close>

fun upsert_loop ::
  "(api_error \<Rightarrow> api_error + Task) \<Rightarrow> (nat \<Rightarrow> TaskStore \<Rightarrow> TaskStore) \<Rightarrow> instant \<Rightarrow> nat \<Rightarrow> nat
    \<Rightarrow> api_error option \<Rightarrow> Task \<Rightarrow> TaskStore \<Rightarrow> (api_error + Task) \<times> TaskStore" where
  "upsert_loop missing env now k 0 lastErr t s =
     (case lastErr of Some e \<Rightarrow> (Inl e, s) | None \<Rightarrow> TaskStore_Upsert now t (env k s))"
| "upsert_loop missing env now k (Suc n) lastErr t s =
     (case TaskStore_Upsert now t (env k s) of
        (Inr updated, s1) \<Rightarrow> (Inr updated, s1)
      | (Inl e, s1) \<Rightarrow>
          if \<not> IsConflict e then (Inl e, s1)
          else let s2 = env (Suc k) s1
               in case TaskStore_Get (scopedName (m_Namespace (t_Metadata t)) (m_Name (t_Metadata t))) s2 of
                    None \<Rightarrow> (missing e, s2)
                  | Some current \<Rightarrow>
                      upsert_loop missing env now (Suc (Suc k)) n (Some e)
                        (t\<lparr>t_Metadata := (t_Metadata t)\<lparr>
                             m_ResourceVersion := m_ResourceVersion (t_Metadata current),
                             m_Generation := m_Generation (t_Metadata current),
                             m_CreatedAt := m_CreatedAt (t_Metadata current)\<rparr>,
                           t_Spec := t_Spec current\<rparr>) s2)"

text \<open>
  The scheduler's variant returns the zero task and the nil error of the successful Get when the
  task is gone.
\<close>

definition upsertTask_scheduler ::
  "(nat \<Rightarrow> TaskStore \<Rightarrow> TaskStore) \<Rightarrow> instant \<Rightarrow> Task \<Rightarrow> TaskStore \<Rightarrow> (api_error + Task) \<times> TaskStore" where
  "upsertTask_scheduler env now t s = upsert_loop (\<lambda>_. Inr zero_Task) env now 0 5 None t s"

section \<open>A pass\<close>

definition reconcileTaskAssignment ::
  "(nat \<Rightarrow> TaskStore \<Rightarrow> TaskStore) \<Rightarrow> instant \<Rightarrow> Task \<Rightarrow> workers \<Rightarrow> counts \<Rightarrow> TaskStore
    \<Rightarrow> (api_error + bool) \<times> counts \<times> TaskStore" where
  "reconcileTaskAssignment env now t elig na s =
     (let current = trim_space (ts_AssignedWorker (t_Status t));
          keep = (current \<noteq> [] \<and> (case map_of elig current of
                    None \<Rightarrow> False | Some w \<Rightarrow> taskFitsWorkerRequirements t w));
          t1 = (if current \<noteq> [] then
                  appendHistoryWithWorker now ''assignment_cleared'' []
                    (''cleared assignment from worker='' @ current)
                    (on_status (\<lambda>st. st\<lparr>ts_AssignedWorker := []\<rparr>) t)
                else t)
      in if keep then (Inr False, na, s)
         else case selectWorker t1 elig na of
                None \<Rightarrow>
                  if current \<noteq> [] then
                    (case upsertTask_scheduler env now t1 s of
                       (Inl e, s') \<Rightarrow> (Inl e, na, s')
                     | (Inr _, s') \<Rightarrow> (Inr True, na, s'))
                  else (Inr False, na, s)
              | Some name \<Rightarrow>
                  let t2 = appendHistoryWithWorker now ''assigned'' name
                             (''task assigned to worker='' @ name)
                             (on_status (\<lambda>st. st\<lparr>ts_AssignedWorker := name\<rparr>) t1)
                  in case upsertTask_scheduler env now t2 s of
                       (Inl e, s') \<Rightarrow> (Inl e, na, s')
                     | (Inr _, s') \<Rightarrow> (Inr True, na(name := na name + 1), s'))"

fun schedule_loop ::
  "(nat \<Rightarrow> TaskStore \<Rightarrow> TaskStore) \<Rightarrow> instant \<Rightarrow> workers \<Rightarrow> Task list \<Rightarrow> counts \<Rightarrow> TaskStore
    \<Rightarrow> api_error option \<times> counts \<times> TaskStore" where
  "schedule_loop env now elig [] na s = (None, na, s)"
| "schedule_loop env now elig (t # ts) na s =
     (if \<not> taskPendingForScheduling now t then schedule_loop env now elig ts na s
      else case reconcileTaskAssignment env now t elig na s of
             (Inl e, na', s') \<Rightarrow> (Some e, na', s')
           | (Inr _, na', s') \<Rightarrow> schedule_loop env now elig ts na' s')"

definition eligible_workers :: "instant \<Rightarrow> duration \<Rightarrow> WorkerStore \<Rightarrow> workers" where
  "eligible_workers now staleAfter ws =
     fold (\<lambda>w m. AList.update (m_Name (w_Metadata w)) w m)
       (filter (workerEligible now staleAfter) (WorkerStore_List ws)) []"

definition Scheduler_ReconcileOnce ::
  "(nat \<Rightarrow> TaskStore \<Rightarrow> TaskStore) \<Rightarrow> instant \<Rightarrow> duration \<Rightarrow> WorkerStore \<Rightarrow> TaskStore
    \<Rightarrow> api_error option \<times> counts \<times> TaskStore" where
  "Scheduler_ReconcileOnce env now staleAfter ws s =
     (let elig = eligible_workers now staleAfter ws
      in if length (WorkerStore_List ws) = 0 \<or> length elig = 0 then (None, (\<lambda>_. 0), s)
         else schedule_loop env now elig
                (sort_key (\<lambda>t. m_Name (t_Metadata t)) (TaskStore_List s)) (\<lambda>_. 0) s)"

section \<open>Selection is least loaded\<close>

definition can_take :: "Task \<Rightarrow> workers \<Rightarrow> counts \<Rightarrow> string \<Rightarrow> bool" where
  "can_take t elig na name =
     (case map_of elig name of
        None \<Rightarrow> False
      | Some w \<Rightarrow> taskFitsWorkerRequirements t w \<and> worker_load elig na name < max_slots w)"

text \<open>The selection is a least loaded candidate among the names seen, the least name on ties.\<close>

definition best_of :: "Task \<Rightarrow> workers \<Rightarrow> counts \<Rightarrow> string set \<Rightarrow> string \<Rightarrow> int \<Rightarrow> bool" where
  "best_of t elig na seen sel load \<longleftrightarrow>
     (if sel = [] then \<forall>x \<in> seen. \<not> can_take t elig na x
      else sel \<in> seen \<and> can_take t elig na sel \<and> load = worker_load elig na sel
        \<and> (\<forall>x \<in> seen. can_take t elig na x \<longrightarrow>
             load < worker_load elig na x \<or> load = worker_load elig na x \<and> sel \<le> x))"

lemma select_loop_step:
  "select_loop t elig na (name # names) sel load =
     (if can_take t elig na name \<and> (sel = [] \<or> worker_load elig na name < load)
      then select_loop t elig na names name (worker_load elig na name)
      else select_loop t elig na names sel load)"
  by (auto simp: worker_load_def can_take_def Let_def split: option.splits)

lemma best_of_step:
  assumes "best_of t elig na seen sel load" "name \<noteq> []" "\<forall>x \<in> seen. x \<le> name"
  shows "if can_take t elig na name \<and> (sel = [] \<or> worker_load elig na name < load)
    then best_of t elig na (insert name seen) name (worker_load elig na name)
    else best_of t elig na (insert name seen) sel load"
  using assms by (cases "sel = []") (auto simp: best_of_def)

lemma select_loop_best:
  assumes "[] \<notin> set names" "best_of t elig na seen sel load"
    and "\<forall>x \<in> seen. \<forall>y \<in> set names. x \<le> y" "sorted names"
    and "select_loop t elig na names sel load = (sel', load')"
  shows "best_of t elig na (seen \<union> set names) sel' load'"
  using assms
proof (induction names arbitrary: sel load seen)
  case (Cons name names)
  have seen: "seen \<union> set (name # names) = insert name seen \<union> set names" by auto
  have "\<forall>x \<in> insert name seen. \<forall>y \<in> set names. x \<le> y" "[] \<notin> set names" "sorted names"
    using Cons.prems(1,3,4) by auto
  note ih = Cons.IH [OF this(2) _ this(1,3)]
  show ?case
    using best_of_step [OF Cons.prems(2), of name] Cons.prems(1,3,5) ih
    unfolding seen select_loop_step by (auto split: if_splits)
qed simp

lemma can_take_key: "can_take t elig na x \<Longrightarrow> x \<in> fst ` set elig"
  using in_keys_iff [of x elig] by (auto simp: can_take_def split: option.splits)

lemma selectWorker_best:
  assumes "[] \<notin> fst ` set elig"
  shows "case selectWorker t elig na of
    None \<Rightarrow> \<forall>name. \<not> can_take t elig na name
  | Some name \<Rightarrow> can_take t elig na name
      \<and> (\<forall>x. can_take t elig na x \<longrightarrow> worker_load elig na name < worker_load elig na x
           \<or> worker_load elig na name = worker_load elig na x \<and> name \<le> x)"
proof -
  let ?names = "sort (map fst elig)"
  obtain sel load where sl: "select_loop t elig na ?names [] 0 = (sel, load)" by force
  have "best_of t elig na ({} \<union> set ?names) sel load"
    using assms by (intro select_loop_best [OF _ _ _ _ sl]) (simp_all add: best_of_def)
  then have b: "best_of t elig na (fst ` set elig) sel load" by simp
  show ?thesis
  proof (cases "sel = []")
    case True
    with b can_take_key [of t elig na] show ?thesis
      by (auto simp: selectWorker_def sl best_of_def)
  next
    case False
    then have "selectWorker t elig na = Some sel" by (simp add: selectWorker_def sl)
    moreover have "can_take t elig na sel" "load = worker_load elig na sel"
      "\<forall>x \<in> fst ` set elig. can_take t elig na x \<longrightarrow>
         load < worker_load elig na x \<or> load = worker_load elig na x \<and> sel \<le> x"
      using b False unfolding best_of_def by auto
    ultimately show ?thesis using can_take_key [of t elig na] by (simp only: option.case) blast
  qed
qed

section \<open>A pass respects the limits\<close>

lemma eligible_workers_lookup:
  assumes "map_of (eligible_workers now staleAfter ws) name = Some w"
  shows "w \<in> snd ` set ws \<and> m_Name (w_Metadata w) = name \<and> workerEligible now staleAfter w"
proof -
  have "map_of (fold (\<lambda>w m. AList.update (m_Name (w_Metadata w)) w m) xs m) name = Some w \<Longrightarrow>
      map_of m name = Some w \<or> w \<in> set xs \<and> m_Name (w_Metadata w) = name" for xs m
  proof (induction xs arbitrary: m)
    case (Cons x xs)
    from Cons.IH [of "AList.update (m_Name (w_Metadata x)) x m"] Cons.prems show ?case
      by (auto simp: update_conv' split: if_splits)
  qed simp
  from this [of "filter (workerEligible now staleAfter) (WorkerStore_List ws)" "[]"] assms
  show ?thesis by (auto simp: eligible_workers_def WorkerStore_List_def store_list_def)
qed

lemma eligible_workers_names:
  assumes "worker_store_wf ws"
  shows "[] \<notin> fst ` set (eligible_workers now staleAfter ws)"
proof
  assume "[] \<in> fst ` set (eligible_workers now staleAfter ws)"
  then obtain w where "map_of (eligible_workers now staleAfter ws) [] = Some w"
    using in_keys_iff [of "[]" "eligible_workers now staleAfter ws"] by auto
  then have w: "w \<in> snd ` set ws" "m_Name (w_Metadata w) = []" using eligible_workers_lookup by blast+
  then have "worker_ok w" using assms by (auto simp: items_wf_def)
  with w(2) show False by (simp add: worker_ok_def ValidateMetadataName_def)
qed

definition within_limits :: "workers \<Rightarrow> counts \<Rightarrow> bool" where
  "within_limits elig na \<longleftrightarrow>
     (\<forall>name w. map_of elig name = Some w \<longrightarrow>
        0 < na name \<longrightarrow> wt_CurrentTasks (w_Status w) + na name \<le> max_slots w)"

lemma selectWorker_within:
  assumes "[] \<notin> fst ` set elig" "selectWorker t elig na = Some name" "within_limits elig na"
  shows "within_limits elig (na(name := na name + 1))"
proof -
  have "can_take t elig na name" using selectWorker_best [OF assms(1), of t na] assms(2) by simp
  then obtain w where "map_of elig name = Some w" "wt_CurrentTasks (w_Status w) + na name < max_slots w"
    by (auto simp: can_take_def worker_load_def split: option.splits)
  with assms(3) show ?thesis by (simp add: within_limits_def)
qed

lemma reconcileTaskAssignment_within:
  assumes "[] \<notin> fst ` set elig" "within_limits elig na"
    and "reconcileTaskAssignment env now t elig na s = (r, na', s')"
  shows "within_limits elig na'"
  using assms selectWorker_within
  by (auto simp: reconcileTaskAssignment_def Let_def split: if_splits option.splits prod.splits sum.splits)

lemma schedule_loop_within:
  "[] \<notin> fst ` set elig \<Longrightarrow> within_limits elig na \<Longrightarrow>
   within_limits elig (fst (snd (schedule_loop env now elig ts na s)))"
proof (induction env now elig ts na s rule: schedule_loop.induct)
  case (2 env now elig t ts na s)
  obtain r na' s' where r: "reconcileTaskAssignment env now t elig na s = (r, na', s')"
    by (cases "reconcileTaskAssignment env now t elig na s") auto
  with 2 reconcileTaskAssignment_within [OF 2(3,4) r] show ?case by (auto split: sum.splits)
qed simp

section \<open>The write loop\<close>

lemma Task_Normalize_iff:
  "(\<exists>t'. Task_Normalize t = Inr t' \<and> t_Status t' = normalize_task_status (t_Status t)) \<longleftrightarrow>
     equal_fold (if t_Kind t = [] then ''Task'' else t_Kind t) ''Task''
     \<and> ValidateMetadataName (m_Name (t_Metadata t)) = None
     \<and> (\<exists>sp. normalize_task_spec (t_Spec t) = Inr sp)"
  by (auto simp: Task_Normalize_def Let_def NormalizeObjectMetaNamespace_def
      split: if_splits option.splits sum.splits)

lemma Task_Normalize_status:
  "Task_Normalize t = Inr t' \<Longrightarrow> t_Status t' = normalize_task_status (t_Status t)"
  by (auto simp: Task_Normalize_def Let_def split: if_splits option.splits sum.splits)

text \<open>An Upsert that carries the current version, or none, stores the caller's status.\<close>

lemma Upsert_current:
  assumes "map_of (st_items s) (scopedNameFromMeta (t_Metadata t)) = Some cur"
    and "m_ResourceVersion (t_Metadata cur) = itoa n" "0 \<le> n" "in_int64 n"
    and "Task_Normalize t = Inr it"
    and "trim_space (m_ResourceVersion (t_Metadata t)) \<in> {[], itoa n}"
  shows "\<exists>u s'. TaskStore_Upsert now t s = (Inr u, s') \<and> t_Status u = normalize_task_status (t_Status t)"
proof -
  have "\<exists>m. initializeUpdateMetadata now ''Task'' (t_Metadata it) (t_Metadata cur) ch = Inr m" for ch
    using assms(2-4,6) Task_Normalize_meta(2) [OF assms(5)]
    by (auto simp: initializeUpdateMetadata_def nextResourceVersion_def Let_def)
  then obtain m where "initializeUpdateMetadata now ''Task'' (t_Metadata it) (t_Metadata cur)
      (t_Spec cur \<noteq> t_Spec it) = Inr m" by blast
  then show ?thesis
    using assms(1,5) Task_Normalize_meta(1) [OF assms(5)] Task_Normalize_status [OF assms(5)]
    by (simp add: TaskStore_Upsert_def store_upsert_def Let_def)
qed

lemma Upsert_conflicts:
  assumes "map_of (st_items s) (scopedNameFromMeta (t_Metadata t)) = Some cur"
    and "Task_Normalize t = Inr it"
    and "trim_space (m_ResourceVersion (t_Metadata t)) \<notin> {[], m_ResourceVersion (t_Metadata cur)}"
  shows "\<exists>e. TaskStore_Upsert now t s = (Inl e, s) \<and> IsConflict e"
  using assms Task_Normalize_meta [OF assms(2)]
    initializeUpdateMetadata_stale [of "t_Metadata it" "t_Metadata cur"]
  by (simp add: TaskStore_Upsert_def store_upsert_def Let_def IsConflict_def)

lemma retry_normalizes:
  assumes "Task_Normalize t = Inr it" "task_ok cur"
    and "t2 = t\<lparr>t_Metadata := (t_Metadata t)\<lparr>m_ResourceVersion := v, m_Generation := g, m_CreatedAt := c\<rparr>,
                t_Spec := t_Spec cur\<rparr>"
  shows "\<exists>it2. Task_Normalize t2 = Inr it2"
proof -
  have "normalize_task_spec (t_Spec cur) = Inr (t_Spec cur)"
    using assms(2) by (simp add: task_ok_def normalize_task_spec_id)
  moreover have "equal_fold (if t_Kind t = [] then ''Task'' else t_Kind t) ''Task''"
    "ValidateMetadataName (m_Name (t_Metadata t)) = None"
    using assms(1) Task_Normalize_status [OF assms(1)] Task_Normalize_iff [of t] by blast+
  ultimately have "\<exists>it2. Task_Normalize t2 = Inr it2 \<and> t_Status it2 = normalize_task_status (t_Status t2)"
    unfolding Task_Normalize_iff assms(3) by (simp split: if_splits)
  then show ?thesis by blast
qed

section \<open>Properties\<close>

text \<open>
  C15: The scheduler picks a least loaded worker. When it selects one, that worker meets the task's
  region, GPU and model requirements and has a free slot, no other fitting worker with a free slot
  has a smaller load, and among equals it is the first by name; it selects none only when no
  eligible worker fits and has a free slot.
\<close>

theorem selectWorker_least_loaded:
  assumes "worker_store_wf ws" "elig = eligible_workers now staleAfter ws"
  shows "case selectWorker t elig na of
    None \<Rightarrow> \<forall>name. \<not> can_take t elig na name
  | Some name \<Rightarrow> can_take t elig na name
      \<and> (\<forall>x. can_take t elig na x \<longrightarrow> worker_load elig na name < worker_load elig na x
           \<or> worker_load elig na name = worker_load elig na x \<and> name \<le> x)"
  unfolding assms(2) by (rule selectWorker_best [OF eligible_workers_names [OF assms(1)]])

lemma demo_workers_wf: "worker_store_wf demo_workers"
  unfolding demo_workers_def by (simp add: WorkerStore_Upsert_wf)

theorem selectWorker_least_loaded_witness:
  "\<exists>name. selectWorker demo_task (eligible_workers Second Second demo_workers) (\<lambda>_. 0) = Some name
    \<and> can_take demo_task (eligible_workers Second Second demo_workers) (\<lambda>_. 0) name"
proof -
  have "selectWorker demo_task (eligible_workers Second Second demo_workers) (\<lambda>_. 0) = Some ''w1''"
    by code_simp
  with selectWorker_least_loaded [OF demo_workers_wf refl, where t = demo_task and na = "\<lambda>_. 0"
      and now = Second and staleAfter = Second]
  show ?thesis by simp
qed



text \<open>
  The write loop of the scheduler succeeds on a store nobody else changes: for a task that is
  stored and normalises, at most one conflict occurs, and the task is stored with the status the
  caller computed.
\<close>

theorem upsertTask_quiet:
  assumes "reachable_store s" "map_of (st_items s) (scopedNameFromMeta (t_Metadata t)) = Some cur"
    and "m_ResourceVersion (t_Metadata cur) = itoa n" "0 \<le> n" "in_int64 n"
    and "Task_Normalize t = Inr it"
    and "CHR ''/'' \<notin> set (m_Namespace (t_Metadata t))" "trim_space (m_Name (t_Metadata t)) \<noteq> []"
  shows "\<exists>u s'. upsertTask_scheduler (\<lambda>_ s. s) now t s = (Inr u, s')
    \<and> t_Status u = normalize_task_status (t_Status t)"
proof (cases "trim_space (m_ResourceVersion (t_Metadata t)) \<in> {[], itoa n}")
  case True
  from Upsert_current [OF assms(2-6) this, of now] show ?thesis
    by (auto simp: upsertTask_scheduler_def numeral_eq_Suc)
next
  case False
  then obtain e where e: "TaskStore_Upsert now t s = (Inl e, s)" "IsConflict e"
    using Upsert_conflicts [OF assms(2,6)] assms(3) by metis
  have get: "TaskStore_Get (scopedName (m_Namespace (t_Metadata t)) (m_Name (t_Metadata t))) s = Some cur"
    using assms(2,7,8) normalizeLookupName_scopedName
    by (simp add: TaskStore_Get_def store_get_def scopedNameFromMeta_def)
  let ?t2 = "t\<lparr>t_Metadata := (t_Metadata t)\<lparr>m_ResourceVersion := m_ResourceVersion (t_Metadata cur),
      m_Generation := m_Generation (t_Metadata cur), m_CreatedAt := m_CreatedAt (t_Metadata cur)\<rparr>,
      t_Spec := t_Spec cur\<rparr>"
  have "task_ok cur" using task_store_wf_lookup [OF reachable_wf [OF assms(1)] assms(2)] by blast
  then obtain it2 where it2: "Task_Normalize ?t2 = Inr it2" using retry_normalizes [OF assms(6)] by blast
  have "map_of (st_items s) (scopedNameFromMeta (t_Metadata ?t2)) = Some cur"
    using assms(2) by (simp add: scopedNameFromMeta_def)
  from Upsert_current [OF this assms(3-5) it2, of now] assms(3) obtain u s' where
    "TaskStore_Upsert now ?t2 s = (Inr u, s')" "t_Status u = normalize_task_status (t_Status t)"
    by auto
  with e get show ?thesis by (simp add: upsertTask_scheduler_def numeral_eq_Suc)
qed

theorem upsertTask_quiet_witness:
  "\<exists>u s'. upsertTask_scheduler (\<lambda>_ s. s) 1 demo_v1 (snd (TaskStore_Upsert 0 demo_v1 demo_store)) = (Inr u, s')
    \<and> t_Status u = normalize_task_status (t_Status demo_v1)"
proof -
  let ?s = "snd (TaskStore_Upsert 0 demo_v1 demo_store)"
  have r: "reachable_store ?s" by (intro reachable_store.intros demo_store_reachable)
  have c: "case map_of (st_items ?s) (scopedNameFromMeta (t_Metadata demo_v1)) of None \<Rightarrow> False
      | Some t \<Rightarrow> m_ResourceVersion (t_Metadata t) = itoa 2" by code_simp
  have i: "\<not> (case Task_Normalize demo_v1 of Inl _ \<Rightarrow> True | Inr _ \<Rightarrow> False)" by code_simp
  have d: "\<not> List.member (m_Namespace (t_Metadata demo_v1)) CHR ''/''"
    "trim_space (m_Name (t_Metadata demo_v1)) \<noteq> []" "in_int64 2" by code_simp+
  from c obtain cur where cur: "map_of (st_items ?s) (scopedNameFromMeta (t_Metadata demo_v1)) = Some cur"
    "m_ResourceVersion (t_Metadata cur) = itoa 2" by (auto split: option.splits)
  from i obtain it where "Task_Normalize demo_v1 = Inr it" by (auto split: sum.splits)
  from upsertTask_quiet [OF r cur _ d(3) this _ d(2)] d(1) show ?thesis by simp
qed

text \<open>
  After a conflict the scheduler overwrites a claim. The pass lists the pending task t1; before
  its write a worker w9 claims the task. The write conflicts, is repeated with the new version and
  succeeds with the old status: the task is pending and unclaimed again while w9 runs it under a
  live lease, and another worker's claim is granted at once.
\<close>

theorem scheduler_overwrites_claim:
  "let env = (\<lambda>k s. if k = 0 then snd (TaskStore_ClaimIfDue Second ''t1'' ''w9'' (30 * Second) s) else s);
       r = Scheduler_ReconcileOnce env Second (20 * Second) demo_workers demo_store;
       s' = snd (snd r)
   in lease_held ''default/t1'' ''w9'' (31 * Second) (env 0 demo_store)
      \<and> fst r = None
      \<and> map_option (\<lambda>t. (ts_Phase (t_Status t), ts_ClaimedBy (t_Status t))) (map_of (st_items s') ''default/t1'')
          = Some (''Pending'', [])
      \<and> lease_held ''default/t1'' ''w1'' (3 * Second) (snd (TaskStore_ClaimIfDue (2 * Second) ''t1'' ''w1'' Second s'))"
  by code_simp

text \<open>
  When the task is deleted between the conflict and the read, the scheduler's write reports
  success though nothing was stored: it returns the error of the read, which is nil.
\<close>

theorem scheduler_reports_deleted_as_stored:
  "let env = (\<lambda>k s. if k = 0 then snd (TaskStore_Upsert 0 demo_v1 s)
                    else if k = 1 then snd (TaskStore_Delete ''t1'' s) else s);
       r = upsertTask_scheduler env 0 demo_v1 demo_store
   in fst r = Inr zero_Task \<and> st_items (snd r) = []"
  by code_simp

end
