(* ===== verification/Cron_Expr.thy ===== *)
theory Cron_Expr
  imports Go_Time
begin

text \<open>
  Cron expressions (cronexpr/cronexpr.go): parsing of the five fields into tables of admitted
  values and the minute-by-minute search for the next and the previous match.

  An error is \<open>CronInvalid\<close> with the text the error names. The loop that marks a segment adds the
  step in 64 bits and indexes the table with the result; an index outside the table is Go's run
  time panic, \<open>CronPanic\<close>. The loop is given the length of the table plus one as fuel, and it is
  shown that this is never used up (\<open>CronFuel\<close> is not an outcome).

  Shown here: the table a segment marks is the arithmetic progression it denotes; Next and Prev
  return the nearest match; a step near the top of the 64-bit range makes Parse panic.
\<close>

datatype cron_error = CronInvalid string | CronPanic | CronFuel

record field =
  f_values :: "bool list"
  f_any :: bool
  f_min :: int
  f_max :: int

record Expression =
  e_minute :: field
  e_hour :: field
  e_dom :: field
  e_month :: field
  e_dow :: field

section \<open>Parsing\<close>

definition parseFieldValue :: "string \<Rightarrow> int \<Rightarrow> int \<Rightarrow> bool \<Rightarrow> cron_error + int" where
  "parseFieldValue raw mn mx sundayAlias =
     (case atoi (trim_space raw) of
        None \<Rightarrow> Inl (CronInvalid raw)
      | Some v \<Rightarrow>
          let v = (if sundayAlias \<and> v = 7 then 0 else v)
          in if v < mn \<or> mx < v then Inl (CronInvalid raw) else Inr v)"

definition allTrue :: "bool list \<Rightarrow> bool" where
  "allTrue values \<longleftrightarrow> list_all (\<lambda>v. v) values \<and> 0 < length values"

text \<open>The loop \<open>for value := start; value <= end; value += step\<close>.\<close>

fun mark_loop :: "nat \<Rightarrow> int \<Rightarrow> int \<Rightarrow> int \<Rightarrow> int \<Rightarrow> bool list \<Rightarrow> cron_error + bool list" where
  "mark_loop 0 mn en step value values = Inl CronFuel"
| "mark_loop (Suc n) mn en step value values =
     (if \<not> value \<le> en then Inr values
      else if value - mn < 0 \<or> int (length values) \<le> value - mn then Inl CronPanic
      else mark_loop n mn en step (wrap64 (value + step)) (values[nat (value - mn) := True]))"

text \<open>The base of a segment and its step.\<close>

definition segment_step :: "string \<Rightarrow> cron_error + (string \<times> int)" where
  "segment_step segment =
     (if List.member segment CHR ''/'' then
        (case split_char CHR ''/'' segment of
           [a, b] \<Rightarrow>
             (if trim_space a = [] then Inl (CronInvalid segment)
              else case atoi (trim_space b) of
                     None \<Rightarrow> Inl (CronInvalid segment)
                   | Some v \<Rightarrow> if v \<le> 0 then Inl (CronInvalid segment) else Inr (trim_space a, v))
         | _ \<Rightarrow> Inl (CronInvalid segment))
      else Inr (segment, 1))"

text \<open>The first and the last value a segment covers.\<close>

definition segment_bounds :: "field \<Rightarrow> string \<Rightarrow> string \<Rightarrow> bool \<Rightarrow> cron_error + (int \<times> int)" where
  "segment_bounds out segment base sundayAlias =
     (if base = ''*'' then Inr (f_min out, f_max out)
      else if List.member base CHR ''-'' then
        (case split_char CHR ''-'' base of
           [a, b] \<Rightarrow>
             (case parseFieldValue a (f_min out) (f_max out) sundayAlias of
                Inl e \<Rightarrow> Inl e
              | Inr left \<Rightarrow>
                  (case parseFieldValue b (f_min out) (f_max out) sundayAlias of
                     Inl e \<Rightarrow> Inl e
                   | Inr right \<Rightarrow> if right < left then Inl (CronInvalid base) else Inr (left, right)))
         | _ \<Rightarrow> Inl (CronInvalid base))
      else
        (case parseFieldValue base (f_min out) (f_max out) sundayAlias of
           Inl e \<Rightarrow> Inl e
         | Inr v \<Rightarrow> Inr (v, if List.member segment CHR ''/'' then f_max out else v)))"

definition markSegment :: "field \<Rightarrow> string \<Rightarrow> bool \<Rightarrow> cron_error + field" where
  "markSegment out segment sundayAlias =
     (case segment_step segment of
        Inl e \<Rightarrow> Inl e
      | Inr (base, step) \<Rightarrow>
          (case segment_bounds out segment base sundayAlias of
             Inl e \<Rightarrow> Inl e
           | Inr (start, en) \<Rightarrow>
               (case mark_loop (length (f_values out) + 1) (f_min out) en step start (f_values out) of
                  Inl e \<Rightarrow> Inl e
                | Inr values \<Rightarrow> Inr (out\<lparr>f_values := values\<rparr>))))"

fun mark_segments :: "field \<Rightarrow> string list \<Rightarrow> bool \<Rightarrow> cron_error + field" where
  "mark_segments out [] sundayAlias = Inr out"
| "mark_segments out (raw # rest) sundayAlias =
     (let segment = trim_space raw
      in if segment = [] then Inl (CronInvalid raw)
         else case markSegment out segment sundayAlias of
                Inl e \<Rightarrow> Inl e
              | Inr out' \<Rightarrow> mark_segments out' rest sundayAlias)"

definition empty_field :: "int \<Rightarrow> int \<Rightarrow> field" where
  "empty_field mn mx =
     \<lparr>f_values = replicate (nat (mx - mn + 1)) False, f_any = False, f_min = mn, f_max = mx\<rparr>"

definition parseField :: "string \<Rightarrow> int \<Rightarrow> int \<Rightarrow> bool \<Rightarrow> cron_error + field" where
  "parseField spec mn mx sundayAlias =
     (let spec = trim_space spec
      in if spec = [] then Inl (CronInvalid spec)
         else case mark_segments (empty_field mn mx) (split_char CHR '','' spec) sundayAlias of
                Inl e \<Rightarrow> Inl e
              | Inr out \<Rightarrow> Inr (out\<lparr>f_any := allTrue (f_values out)\<rparr>))"

definition Parse :: "string \<Rightarrow> cron_error + Expression" where
  "Parse spec =
     (case str_fields (trim_space spec) of
        [p0, p1, p2, p3, p4] \<Rightarrow>
          (case parseField p0 0 59 False of Inl e \<Rightarrow> Inl e | Inr minF \<Rightarrow>
          (case parseField p1 0 23 False of Inl e \<Rightarrow> Inl e | Inr houF \<Rightarrow>
          (case parseField p2 1 31 False of Inl e \<Rightarrow> Inl e | Inr domF \<Rightarrow>
          (case parseField p3 1 12 False of Inl e \<Rightarrow> Inl e | Inr monF \<Rightarrow>
          (case parseField p4 0 6 True of Inl e \<Rightarrow> Inl e | Inr dowF \<Rightarrow>
             Inr \<lparr>e_minute = minF, e_hour = houF, e_dom = domF, e_month = monF, e_dow = dowF\<rparr>)))))
      | _ \<Rightarrow> Inl (CronInvalid spec))"

section \<open>Matching and searching\<close>

text \<open>A read outside the table would be a panic; \<open>field_wf\<close> below excludes it.\<close>

definition field_contains :: "field \<Rightarrow> int \<Rightarrow> bool" where
  "field_contains f v =
     (if v < f_min f \<or> f_max f < v then False else f_values f ! nat (v - f_min f))"

definition cron_matches :: "location \<Rightarrow> Expression \<Rightarrow> instant \<Rightarrow> bool" where
  "cron_matches loc e t =
     (if \<not> field_contains (e_month e) (time_month loc t) then False
      else if \<not> field_contains (e_hour e) (time_hour loc t) then False
      else if \<not> field_contains (e_minute e) (time_minute loc t) then False
      else let domMatch = field_contains (e_dom e) (time_day loc t);
               dowMatch = field_contains (e_dow e) (time_weekday loc t)
           in if f_any (e_dom e) \<and> f_any (e_dow e) then True
              else if f_any (e_dom e) then dowMatch
              else if f_any (e_dow e) then domMatch
              else domMatch \<or> dowMatch)"

fun scan_loop :: "location \<Rightarrow> Expression \<Rightarrow> nat \<Rightarrow> duration \<Rightarrow> instant \<Rightarrow> instant option" where
  "scan_loop loc e 0 step current = None"
| "scan_loop loc e (Suc n) step current =
     (if cron_matches loc e current then Some current else scan_loop loc e n step (current + step))"

definition scan :: "location \<Rightarrow> Expression \<Rightarrow> instant \<Rightarrow> nat \<Rightarrow> int \<Rightarrow> instant option" where
  "scan loc e start maxSteps dir =
     scan_loop loc e maxSteps (if dir < 0 then - Minute else Minute) start"

definition scan_steps :: nat where
  "scan_steps = 10 * 366 * 24 * 60"

definition truncate_minute :: "instant \<Rightarrow> instant" where
  "truncate_minute t = t - t mod Minute"

definition Next :: "location \<Rightarrow> Expression \<Rightarrow> instant \<Rightarrow> instant option" where
  "Next loc e after = scan loc e (truncate_minute after + Minute) scan_steps 1"

definition Prev :: "location \<Rightarrow> Expression \<Rightarrow> instant \<Rightarrow> instant option" where
  "Prev loc e atOrBefore = scan loc e (truncate_minute atOrBefore) scan_steps (- 1)"

section \<open>Parsed fields are well-formed\<close>

definition field_wf :: "int \<Rightarrow> int \<Rightarrow> field \<Rightarrow> bool" where
  "field_wf mn mx f \<longleftrightarrow>
     f_min f = mn \<and> f_max f = mx \<and> length (f_values f) = nat (mx - mn + 1)"

text \<open>The values a progression marks.\<close>

definition progression :: "int \<Rightarrow> int \<Rightarrow> int \<Rightarrow> int set" where
  "progression start en step = {v. \<exists>k::nat. v = start + int k * step \<and> v \<le> en}"

lemma progression_step:
  assumes "start \<le> en"
  shows "v \<in> progression start en step \<longleftrightarrow> v = start \<or> v \<in> progression (start + step) en step"
proof -
  have "(\<exists>k::nat. v = start + int k * step) \<longleftrightarrow> v = start \<or> (\<exists>k::nat. v = start + step + int k * step)"
  proof
    assume "\<exists>k::nat. v = start + int k * step"
    then obtain k where "v = start + int k * step" by blast
    then show "v = start \<or> (\<exists>k::nat. v = start + step + int k * step)"
      by (cases k) (auto simp: algebra_simps)
  next
    assume "v = start \<or> (\<exists>k::nat. v = start + step + int k * step)"
    then show "\<exists>k::nat. v = start + int k * step"
      by (metis (no_types) add.commute add.left_commute add.right_neutral distrib_right
          mult_cancel_right2 mult_zero_left of_nat_0 of_nat_Suc)
  qed
  with assms show ?thesis by (auto simp: progression_def)
qed

lemma progression_empty: "en < start \<Longrightarrow> 0 < step \<Longrightarrow> progression start en step = {}"
  by (auto simp: progression_def) (smt (verit) mult_nonneg_nonneg of_nat_0_le_iff)

text \<open>
  Started inside the table, the loop marks exactly the progression, unless an addition leaves the
  64-bit range: then it panics. The fuel is enough in both cases.
\<close>

lemma mark_loop_outcome:
  assumes "0 < step" "in_int64 step" "mn \<le> v" "0 \<le> mn" "en < 2 ^ 62"
    and "int (length vs) = mx - mn + 1" "en \<le> mx" "nat (mx + 2 - v) \<le> n" "v \<le> mx + 1 \<or> en < v" "0 < n"
  shows "mark_loop n mn en step v vs = Inl CronPanic
    \<or> (\<exists>vs'. mark_loop n mn en step v vs = Inr vs' \<and> length vs' = length vs
        \<and> (\<forall>i < length vs. vs' ! i \<longleftrightarrow> vs ! i \<or> mn + int i \<in> progression v en step))"
  using assms
proof (induction n arbitrary: v vs)
  case (Suc n)
  show ?case
  proof (cases "v \<le> en")
    case False
    then show ?thesis using Suc.prems by (simp add: progression_empty)
  next
    case True
    let ?vs = "vs[nat (v - mn) := True]"
    have idx: "nat (v - mn) < length vs" using Suc.prems True by linarith
    have n: "0 < n" using Suc.prems True by linarith
    show ?thesis
    proof (cases "in_int64 (v + step)")
      case False
      then have "wrap64 (v + step) = v + step - 2 ^ 64"
        using Suc.prems True by (intro wrap64_over) (simp_all add: in_int64_bounds)
      then have "wrap64 (v + step) < 0" using Suc.prems True by (simp add: in_int64_bounds)
      moreover obtain n' where "n = Suc n'" using n by (cases n) auto
      ultimately show ?thesis using Suc.prems True idx by simp
    next
      case ok: True
      have "mark_loop n mn en step (v + step) ?vs = Inl CronPanic
        \<or> (\<exists>vs'. mark_loop n mn en step (v + step) ?vs = Inr vs' \<and> length vs' = length ?vs
          \<and> (\<forall>i < length ?vs. vs' ! i \<longleftrightarrow> ?vs ! i \<or> mn + int i \<in> progression (v + step) en step))"
        using Suc.prems True n by (intro Suc.IH) auto
      moreover have "?vs ! i \<or> mn + int i \<in> progression (v + step) en step
          \<longleftrightarrow> vs ! i \<or> mn + int i \<in> progression v en step" if "i < length vs" for i
        using that idx Suc.prems(3) progression_step [OF True, of "mn + int i" step]
        by (auto simp: nth_list_update)
      ultimately show ?thesis using Suc.prems True idx ok by (simp add: wrap64_id)
    qed
  qed
qed simp

lemma parseFieldValue_range: "parseFieldValue raw mn mx al = Inr v \<Longrightarrow> mn \<le> v \<and> v \<le> mx"
  by (auto simp: parseFieldValue_def Let_def split: option.splits if_splits)

lemma segment_step_positive:
  "segment_step seg = Inr (base, step) \<Longrightarrow> 0 < step \<and> in_int64 step"
  by (auto simp: segment_step_def atoi_def Let_def in_int64_bounds
      split: if_splits list.splits option.splits)

lemma segment_bounds_range:
  assumes "segment_bounds f seg base al = Inr (start, en)" "f_min f \<le> f_max f"
  shows "f_min f \<le> start \<and> start \<le> en \<and> en \<le> f_max f"
  using assms
  by (fastforce simp: segment_bounds_def split: if_splits list.splits sum.splits
      dest: parseFieldValue_range)

lemma markSegment_outcome:
  assumes wf: "field_wf mn mx f" and range: "0 \<le> mn" "mn \<le> mx" "mx < 2 ^ 62"
    and st: "segment_step seg = Inr (base, step)" and bd: "segment_bounds f seg base al = Inr (start, en)"
  shows "markSegment f seg al = Inl CronPanic
    \<or> (\<exists>f'. markSegment f seg al = Inr f' \<and> field_wf mn mx f'
        \<and> (\<forall>v. field_contains f' v \<longleftrightarrow> field_contains f v \<or> v \<in> progression start en step))"
proof -
  have b: "mn \<le> start" "start \<le> en" "en \<le> mx" and len: "int (length (f_values f)) = mx - mn + 1"
    using segment_bounds_range [OF bd] wf range by (auto simp: field_wf_def)
  let ?r = "mark_loop (length (f_values f) + 1) mn en step start (f_values f)"
  have r: "markSegment f seg al = (case ?r of Inl e \<Rightarrow> Inl e | Inr vs \<Rightarrow> Inr (f\<lparr>f_values := vs\<rparr>))"
    using st bd wf by (simp only: markSegment_def field_wf_def sum.case prod.case)
  have "?r = Inl CronPanic
    \<or> (\<exists>vs'. ?r = Inr vs' \<and> length vs' = length (f_values f)
        \<and> (\<forall>i < length (f_values f). vs' ! i \<longleftrightarrow> f_values f ! i \<or> mn + int i \<in> progression start en step))"
    using segment_step_positive [OF st] b len range by (intro mark_loop_outcome) auto
  moreover have "field_contains (f\<lparr>f_values := vs'\<rparr>) v
      \<longleftrightarrow> field_contains f v \<or> v \<in> progression start en step"
    if vs': "\<forall>i < length (f_values f). vs' ! i \<longleftrightarrow> f_values f ! i \<or> mn + int i \<in> progression start en step"
    for vs' v
  proof (cases "mn \<le> v \<and> v \<le> mx")
    case True
    then have "nat (v - mn) < length (f_values f)" using len by linarith
    with vs' True wf show ?thesis by (auto simp: field_contains_def field_wf_def)
  next
    case False
    then have "v \<notin> progression start en step"
      using b segment_step_positive [OF st]
      by (auto simp: progression_def) (smt (verit) mult_nonneg_nonneg of_nat_0_le_iff)
    with False wf show ?thesis by (auto simp: field_contains_def field_wf_def)
  qed
  ultimately show ?thesis using wf unfolding r
    by (elim disjE exE conjE) (auto simp: field_wf_def simp del: mark_loop.simps)
qed

text \<open>Every outcome of parsing a field: an error or a panic, or a well-formed field.\<close>

lemma markSegment_wf:
  assumes "markSegment f seg al = Inr f'" "field_wf mn mx f" "0 \<le> mn" "mn \<le> mx" "mx < 2 ^ 62"
  shows "field_wf mn mx f'"
proof -
  obtain base step start en where
    "segment_step seg = Inr (base, step)" "segment_bounds f seg base al = Inr (start, en)"
    using assms(1) by (auto simp: markSegment_def split: sum.splits)
  from markSegment_outcome [OF assms(2-5) this] assms(1) show ?thesis by auto
qed

lemma mark_segments_wf:
  "mark_segments f segs al = Inr f' \<Longrightarrow> field_wf mn mx f \<Longrightarrow> 0 \<le> mn \<Longrightarrow> mn \<le> mx \<Longrightarrow> mx < 2 ^ 62
   \<Longrightarrow> field_wf mn mx f'"
  by (induction f segs al rule: mark_segments.induct)
    (auto simp: Let_def split: if_splits sum.splits dest: markSegment_wf)

lemma parseField_wf:
  assumes "parseField spec mn mx al = Inr f" "0 \<le> mn" "mn \<le> mx" "mx < 2 ^ 62"
  shows "field_wf mn mx f \<and> f_any f = (\<forall>v. mn \<le> v \<and> v \<le> mx \<longrightarrow> field_contains f v)"
proof -
  have "field_wf mn mx (empty_field mn mx)" by (simp add: field_wf_def empty_field_def)
  then have wf: "field_wf mn mx f" and any: "f_any f = allTrue (f_values f)"
    using assms(1) mark_segments_wf [OF _ _ assms(2-4)]
    by (auto simp: parseField_def Let_def field_wf_def split: if_splits sum.splits)
  have "list_all (\<lambda>v. v) (f_values f) \<longleftrightarrow> (\<forall>v. mn \<le> v \<and> v \<le> mx \<longrightarrow> field_contains f v)"
  proof -
    have "(\<forall>i < nat (mx - mn + 1). f_values f ! i) \<longleftrightarrow>
        (\<forall>v. mn \<le> v \<and> v \<le> mx \<longrightarrow> f_values f ! nat (v - mn))" (is "?l \<longleftrightarrow> ?r")
    proof
      assume ?r
      then have "f_values f ! nat (mn + int i - mn)" if "i < nat (mx - mn + 1)" for i
        using that assms(3) by (intro \<open>?r\<close> [rule_format]) linarith
      then show ?l by simp
    qed auto
    with wf show ?thesis by (auto simp: list_all_length field_wf_def field_contains_def)
  qed
  with wf any assms(3) show ?thesis by (auto simp: allTrue_def field_wf_def)
qed

section \<open>Searching finds the nearest match\<close>

lemma scan_loop_Some:
  "scan_loop loc e n step cur = Some t \<longleftrightarrow>
     (\<exists>i < n. t = cur + int i * step \<and> cron_matches loc e t
        \<and> (\<forall>j < i. \<not> cron_matches loc e (cur + int j * step)))"
proof (induction n arbitrary: cur)
  case (Suc n)
  show ?case
    unfolding Ex_less_Suc2 by (auto simp: Suc All_less_Suc2 algebra_simps)
qed simp

lemma scan_loop_None:
  "scan_loop loc e n step cur = None \<longleftrightarrow> (\<forall>i < n. \<not> cron_matches loc e (cur + int i * step))"
  by (induction n arbitrary: cur) (auto simp: All_less_Suc2 algebra_simps)

lemma truncate_minute_bounds:
  "truncate_minute t \<le> t" "t < truncate_minute t + Minute" "truncate_minute t mod Minute = 0"
  using pos_mod_sign [of Minute t] pos_mod_bound [of Minute t]
  by (simp_all add: truncate_minute_def mod_diff_eq)

text \<open>Whole minutes at or after a minute \<open>m\<close> are \<open>m\<close> plus a number of minutes.\<close>

lemma minute_index:
  assumes "m mod Minute = 0" "u mod Minute = 0" "m \<le> u"
  obtains i :: nat where "u = m + int i * Minute"
proof -
  obtain a b where ab: "m = Minute * a" "u = Minute * b" using assms(1,2) by (auto elim!: dvdE simp: mod_eq_0_iff_dvd)
  with assms(3) have "u = m + int (nat (b - a)) * Minute" by (simp add: algebra_simps)
  then show thesis by (rule that)
qed

lemma minute_gap:
  assumes "m mod Minute = 0" "u mod Minute = 0" "m < u"
  shows "m + Minute \<le> u"
proof -
  obtain i where i: "u = m + int i * Minute" using minute_index [OF assms(1,2)] assms(3) by force
  with assms(3) have "0 < i" by (cases i) auto
  with i show ?thesis by simp
qed

lemma minute_index_down:
  assumes "m mod Minute = 0" "u mod Minute = 0" "u \<le> m"
  obtains i :: nat where "u = m + int i * (- Minute)"
  using minute_index [OF assms(2,1,3)] by (metis add.right_inverse add_diff_cancel_right' diff_minus_eq_add
      minus_mult_right)

section \<open>What a field denotes\<close>

definition segment_denotes :: "int \<Rightarrow> int \<Rightarrow> bool \<Rightarrow> string \<Rightarrow> int \<Rightarrow> bool" where
  "segment_denotes mn mx al seg v \<longleftrightarrow>
     (\<exists>base step start en. segment_step seg = Inr (base, step)
        \<and> segment_bounds (empty_field mn mx) seg base al = Inr (start, en)
        \<and> v \<in> progression start en step)"

lemma segment_bounds_cong:
  "field_wf mn mx f \<Longrightarrow> segment_bounds f seg base al = segment_bounds (empty_field mn mx) seg base al"
proof -
  assume "field_wf mn mx f"
  then have "f_min f = mn" "f_max f = mx" by (simp_all add: field_wf_def)
  moreover have "f_min (empty_field mn mx) = mn" "f_max (empty_field mn mx) = mx"
    by (simp_all add: empty_field_def)
  ultimately show ?thesis by (simp only: segment_bounds_def)
qed

lemma markSegment_denotes:
  assumes "markSegment f seg al = Inr f'" "field_wf mn mx f" "0 \<le> mn" "mn \<le> mx" "mx < 2 ^ 62"
  shows "field_contains f' v \<longleftrightarrow> field_contains f v \<or> segment_denotes mn mx al seg v"
proof -
  obtain base step start en where sb:
    "segment_step seg = Inr (base, step)" "segment_bounds f seg base al = Inr (start, en)"
    using assms(1) by (auto simp: markSegment_def split: sum.splits)
  with markSegment_outcome [OF assms(2-5) this] assms(1)
  show ?thesis by (auto simp: segment_denotes_def segment_bounds_cong [OF assms(2), symmetric])
qed

lemma mark_segments_denotes:
  "mark_segments f segs al = Inr f' \<Longrightarrow> field_wf mn mx f \<Longrightarrow> 0 \<le> mn \<Longrightarrow> mn \<le> mx \<Longrightarrow> mx < 2 ^ 62
   \<Longrightarrow> field_contains f' v \<longleftrightarrow>
      field_contains f v \<or> (\<exists>seg \<in> set segs. segment_denotes mn mx al (trim_space seg) v)"
proof (induction f segs al rule: mark_segments.induct)
  case (2 out raw rest al)
  then obtain o1 where o1: "markSegment out (trim_space raw) al = Inr o1"
    "mark_segments o1 rest al = Inr f'" "trim_space raw \<noteq> []"
    by (auto simp: Let_def split: if_splits sum.splits)
  have "field_wf mn mx o1" using markSegment_wf [OF o1(1)] 2(3-6) by blast
  with 2 o1 show ?case by (simp add: markSegment_denotes [OF o1(1) 2(3-6)])
qed simp

section \<open>Properties\<close>

text \<open>
  C17: Next returns the first minute strictly after the given time that the expression matches:
  it is a whole minute, it matches, and no whole minute in between does; when it returns nothing,
  none of the 10 * 366 * 24 * 60 minutes after the given one matches.
\<close>

theorem Next_nearest:
  "case Next loc e after of
     Some t \<Rightarrow> after < t \<and> t mod Minute = 0 \<and> cron_matches loc e t
       \<and> (\<forall>u. after < u \<and> u < t \<and> u mod Minute = 0 \<longrightarrow> \<not> cron_matches loc e u)
   | None \<Rightarrow> \<forall>u. after < u \<and> u \<le> truncate_minute after + int scan_steps * Minute \<and> u mod Minute = 0
       \<longrightarrow> \<not> cron_matches loc e u"
proof -
  let ?s = "truncate_minute after + Minute"
  have s: "?s mod Minute = 0" using truncate_minute_bounds(3) [of after] by simp
  have ge: "?s \<le> u" if "after < u" "u mod Minute = 0" for u
    using minute_gap [OF truncate_minute_bounds(3) that(2)] that(1) truncate_minute_bounds(1) [of after]
    by simp
  show ?thesis
  proof (cases "Next loc e after")
    case None
    then have none: "\<not> cron_matches loc e (?s + int i * Minute)" if "i < scan_steps" for i
      using that by (simp add: Next_def scan_def scan_loop_None)
    have "\<not> cron_matches loc e u"
      if u: "after < u" "u \<le> truncate_minute after + int scan_steps * Minute" "u mod Minute = 0" for u
    proof -
      obtain i where i: "u = ?s + int i * Minute" by (rule minute_index [OF s u(3) ge])
        (use u in auto)
      with u(2) have "i < scan_steps" by simp
      with none i show ?thesis by blast
    qed
    with None show ?thesis by simp
  next
    case (Some t)
    then obtain i where i: "t = ?s + int i * Minute" "cron_matches loc e t"
      "\<forall>j < i. \<not> cron_matches loc e (?s + int j * Minute)"
      by (auto simp: Next_def scan_def scan_loop_Some)
    have "\<not> cron_matches loc e u" if u: "after < u" "u < t" "u mod Minute = 0" for u
    proof -
      obtain j where j: "u = ?s + int j * Minute" by (rule minute_index [OF s u(3) ge])
        (use u in auto)
      with u(2) i(1) have "j < i" by simp
      with i(3) j show ?thesis by blast
    qed
    moreover have "after < t" using i(1) truncate_minute_bounds(2) [of after] by simp
    moreover have "t mod Minute = 0" using i(1) s by simp
    ultimately show ?thesis using Some i(2) by simp
  qed
qed

definition demo_cron :: Expression where
  "demo_cron = (case Parse ''5 0 * * *'' of Inr e \<Rightarrow> e | Inl _ \<Rightarrow> undefined)"

theorem Next_nearest_witness:
  "Next utc demo_cron 0 = Some (5 * Minute) \<and> \<not> cron_matches utc demo_cron (3 * Minute)"
proof -
  have n: "Next utc demo_cron 0 = Some (5 * Minute)" by code_simp
  from Next_nearest [where loc = utc and e = demo_cron and after = 0] n show ?thesis by simp
qed

text \<open>
  Prev returns the last minute at or before the given time that the expression matches; when
  it returns nothing, none of the 10 * 366 * 24 * 60 minutes up to the given one matches.
\<close>

theorem Prev_nearest:
  "case Prev loc e t0 of
     Some t \<Rightarrow> t \<le> t0 \<and> t mod Minute = 0 \<and> cron_matches loc e t
       \<and> (\<forall>u. t < u \<and> u \<le> t0 \<and> u mod Minute = 0 \<longrightarrow> \<not> cron_matches loc e u)
   | None \<Rightarrow> \<forall>u. truncate_minute t0 - int scan_steps * Minute < u \<and> u \<le> t0 \<and> u mod Minute = 0
       \<longrightarrow> \<not> cron_matches loc e u"
proof -
  let ?s = "truncate_minute t0"
  note s = truncate_minute_bounds(3) [of t0]
  have le: "u \<le> ?s" if "u \<le> t0" "u mod Minute = 0" for u
    using minute_gap [OF s that(2)] that(1) truncate_minute_bounds(2) [of t0] by (cases "?s < u") auto
  show ?thesis
  proof (cases "Prev loc e t0")
    case None
    then have none: "\<not> cron_matches loc e (?s + int i * (- Minute))" if "i < scan_steps" for i
      using that by (simp add: Prev_def scan_def scan_loop_None)
    have "\<not> cron_matches loc e u"
      if u: "?s - int scan_steps * Minute < u" "u \<le> t0" "u mod Minute = 0" for u
    proof -
      obtain i where i: "u = ?s + int i * (- Minute)" by (rule minute_index_down [OF s u(3) le])
        (use u in auto)
      with u(1) have "i < scan_steps" by simp
      with none i show ?thesis by blast
    qed
    with None show ?thesis by simp
  next
    case (Some t)
    then obtain i where i: "t = ?s + int i * (- Minute)" "cron_matches loc e t"
      "\<forall>j < i. \<not> cron_matches loc e (?s + int j * (- Minute))"
      by (auto simp: Prev_def scan_def scan_loop_Some)
    have "\<not> cron_matches loc e u" if u: "t < u" "u \<le> t0" "u mod Minute = 0" for u
    proof -
      obtain j where j: "u = ?s + int j * (- Minute)" by (rule minute_index_down [OF s u(3) le])
        (use u in auto)
      with u(1) i(1) have "j < i" by simp
      with i(3) j show ?thesis by blast
    qed
    moreover have "t \<le> t0" "t mod Minute = 0"
      using i(1) truncate_minute_bounds [of t0] by (simp_all add: mod_diff_eq [symmetric])
    ultimately show ?thesis using Some i(2) by simp
  qed
qed

theorem Prev_nearest_witness:
  "Prev utc demo_cron (9 * Minute) = Some (5 * Minute) \<and> \<not> cron_matches utc demo_cron (7 * Minute)"
proof -
  have n: "Prev utc demo_cron (9 * Minute) = Some (5 * Minute)" by code_simp
  from Prev_nearest [where loc = utc and e = demo_cron and ?t0.0 = "9 * Minute"] n show ?thesis by simp
qed

text \<open>
  C18: A parsed field admits exactly the values its segments denote: a value is admitted when some
  comma-separated segment's arithmetic progression, from its first value by its step up to its
  last, contains it. The field's table covers the whole range, and the flag that makes a field
  count as unrestricted is set exactly when every value of the range is admitted.
\<close>

theorem parseField_denotes:
  assumes "parseField spec mn mx al = Inr f" "0 \<le> mn" "mn \<le> mx" "mx < 2 ^ 62"
  shows "length (f_values f) = nat (mx - mn + 1)
    \<and> (field_contains f v \<longleftrightarrow>
        (\<exists>seg \<in> set (split_char CHR '','' (trim_space spec)). segment_denotes mn mx al (trim_space seg) v))
    \<and> f_any f = (\<forall>v. mn \<le> v \<and> v \<le> mx \<longrightarrow> field_contains f v)"
proof -
  have e: "field_wf mn mx (empty_field mn mx)" "\<not> field_contains (empty_field mn mx) v"
    by (auto simp: field_wf_def empty_field_def field_contains_def)
  obtain out where out: "mark_segments (empty_field mn mx) (split_char CHR '','' (trim_space spec)) al = Inr out"
    "f = out\<lparr>f_any := allTrue (f_values out)\<rparr>"
    using assms(1) by (auto simp: parseField_def Let_def split: if_splits sum.splits)
  have "field_contains f v = field_contains out v" using out(2) by (simp add: field_contains_def)
  with mark_segments_denotes [OF out(1) e(1) assms(2-4), of v] e(2) parseField_wf [OF assms]
  show ?thesis by (simp add: field_wf_def)
qed

theorem parseField_denotes_witness:
  "\<exists>f. parseField ''10-20/5,40'' 0 59 False = Inr f \<and> field_contains f 15
    \<and> segment_denotes 0 59 False ''10-20/5'' 15"
proof -
  let ?p = "parseField ''10-20/5,40'' 0 59 False"
  have "case ?p of Inl _ \<Rightarrow> False | Inr f \<Rightarrow> field_contains f 15" by code_simp
  then obtain f where f: "?p = Inr f" "field_contains f 15" by (auto split: sum.splits)
  have segs: "map trim_space (split_char CHR '','' (trim_space ''10-20/5,40'')) = [''10-20/5'', ''40'']"
    by code_simp
  have "segment_step ''40'' = Inr (''40'', 1)"
    "segment_bounds (empty_field 0 59) ''40'' ''40'' False = Inr (40, 40)" by code_simp+
  then have "\<not> segment_denotes 0 59 False ''40'' 15"
    by (auto simp: segment_denotes_def progression_def)
  moreover have "\<exists>seg \<in> set [''10-20/5'', ''40'']. segment_denotes 0 59 False seg 15"
    using parseField_denotes [OF f(1), of 15] f(2) unfolding segs [symmetric] by simp
  ultimately show ?thesis using f by simp
qed

text \<open>
  A step near the top of the 64-bit range makes Parse panic instead of returning an error: the
  addition of the step wraps to a negative value, which passes the loop's test and is used as an index.
\<close>

theorem Parse_panics:
  "Parse ''0 0 */9223372036854775807 * *'' = Inl CronPanic"
  by code_simp

end
