(* ===== verification/Controller_Common.thy ===== *)
theory Controller_Common
  imports Go_Time
begin

text \<open>
  What the controllers share (controllers/task_controller.go): reading a timestamp from a status. The
  two layouts the code tries accept the same texts, so the second attempt adds nothing.
\<close>

definition parseControllerTimestamp :: "string \<Rightarrow> instant option" where
  "parseControllerTimestamp value =
     (let v = trim_space value in if v = [] then None else parse_rfc3339 v)"

lemma parseControllerTimestamp_trim [simp]:
  "parseControllerTimestamp (trim_space v) = parseControllerTimestamp v"
  by (simp add: parseControllerTimestamp_def)

lemma parseControllerTimestamp_nano [simp]:
  "year_in_range t \<Longrightarrow> parseControllerTimestamp (format_nano t) = Some t"
  using parse_format_nano [of t] by (simp add: parseControllerTimestamp_def Let_def format_trim) (simp add: format_nano_def)

lemma parseControllerTimestamp_blank: "parseControllerTimestamp v = Some t \<Longrightarrow> trim_space v \<noteq> []"
  by (auto simp: parseControllerTimestamp_def Let_def)

end
