(* ===== verification/Work_Queue.thy ===== *)
theory Work_Queue
  imports Go_Prelude
begin

text \<open>
  The work queue of the controllers (controllers/workqueue.go): keys wait in order of arrival, a
  key that waits or is being worked on is not queued again, and a channel of capacity one wakes a
  waiting worker.

  The mutex makes each of the critical sections below one step. Enqueue is two of them, the
  insertion under the mutex and the non-blocking send on the channel after it; Pop is a loop of
  TryPop and a wait on the channel or on the cancellation of the context. The section on
  concurrent use gives any number of callers and workers as a machine whose events are those steps.

  The locale \<open>key_queue\<close> is what a controller needs of the queue: its waiting keys, its held keys
  and how the operations change them. In it: filling a queue and draining it hands out every key
  once, in the order of its first arrival.
\<close>

section \<open>The queue\<close>

record keyQueue =
  kq_pending :: "string fset"
  kq_items :: "string list"
  kq_notify :: bool

text \<open>The size is only the initial capacity of the slice.\<close>

definition newKeyQueue :: "int \<Rightarrow> keyQueue" where
  "newKeyQueue capacity = \<lparr>kq_pending = {||}, kq_items = [], kq_notify = False\<rparr>"

text \<open>Enqueue up to the release of the mutex: whether the key was queued, and the queue.\<close>

definition enqueue_insert :: "string \<Rightarrow> keyQueue \<Rightarrow> bool \<times> keyQueue" where
  "enqueue_insert key q =
     (let key = trim_space key
      in if key = [] then (False, q)
         else if key |\<in>| kq_pending q then (False, q)
         else (True, q\<lparr>kq_pending := finsert key (kq_pending q), kq_items := kq_items q @ [key]\<rparr>))"

definition enqueue_signal :: "keyQueue \<Rightarrow> keyQueue" where
  "enqueue_signal q = q\<lparr>kq_notify := True\<rparr>"

definition Enqueue :: "string \<Rightarrow> keyQueue \<Rightarrow> keyQueue" where
  "Enqueue key q = (let (queued, q) = enqueue_insert key q in if queued then enqueue_signal q else q)"

definition TryPop :: "keyQueue \<Rightarrow> string option \<times> keyQueue" where
  "TryPop q = (case kq_items q of [] \<Rightarrow> (None, q) | key # rest \<Rightarrow> (Some key, q\<lparr>kq_items := rest\<rparr>))"

definition KeyDone :: "string \<Rightarrow> keyQueue \<Rightarrow> keyQueue" where
  "KeyDone key q =
     (let key = trim_space key
      in if key = [] then q else q\<lparr>kq_pending := kq_pending q |-| {|key|}\<rparr>)"

section \<open>The contract\<close>

locale key_queue =
  fixes new_queue :: 'q
    and enqueue :: "string \<Rightarrow> 'q \<Rightarrow> 'q"
    and try_pop :: "'q \<Rightarrow> string option \<times> 'q"
    and key_done :: "string \<Rightarrow> 'q \<Rightarrow> 'q"
    and waiting :: "'q \<Rightarrow> string list"
    and held :: "'q \<Rightarrow> string set"
    and ok :: "'q \<Rightarrow> bool"
  assumes new_queue: "ok new_queue" "waiting new_queue = []" "held new_queue = {}"
    and enqueue: "ok q \<Longrightarrow> ok (enqueue k q)" "ok q \<Longrightarrow> held (enqueue k q) = held q"
      "ok q \<Longrightarrow> waiting (enqueue k q) =
         (if trim_space k = [] \<or> trim_space k \<in> set (waiting q) \<union> held q then waiting q
          else waiting q @ [trim_space k])"
    and pop_empty: "ok q \<Longrightarrow> waiting q = [] \<Longrightarrow> try_pop q = (None, q)"
    and pop_key: "ok q \<Longrightarrow> waiting q = k # ks \<Longrightarrow>
      \<exists>q'. try_pop q = (Some k, q') \<and> ok q' \<and> waiting q' = ks \<and> held q' = insert k (held q)"
    and key_done: "ok q \<Longrightarrow> k \<in> held q \<Longrightarrow>
      ok (key_done k q) \<and> waiting (key_done k q) = waiting q \<and> held (key_done k q) = held q - {k}"
    and disjoint: "ok q \<Longrightarrow> distinct (waiting q) \<and> set (waiting q) \<inter> held q = {}"
begin

text \<open>The keys a queue hands out after all of \<open>ks\<close> were put in: each once, in order of arrival.\<close>

lemma fill_waiting:
  assumes "ok q"
  shows "ok (fold enqueue ks q) \<and> held (fold enqueue ks q) = held q
    \<and> set (waiting (fold enqueue ks q)) =
        set (waiting q) \<union> ({k. k \<noteq> [] \<and> k \<in> trim_space ` set ks} - held q)
    \<and> (\<exists>new. waiting (fold enqueue ks q) = waiting q @ new)"
  using assms
proof (induction ks arbitrary: q)
  case (Cons k ks)
  from Cons.IH [of "enqueue k q"] Cons.prems enqueue show ?case by auto
qed simp

text \<open>
  A loop that takes a key, works on it and marks it done, until the queue is empty or the work
  fails. The fuel is a bound on the number of keys.
\<close>

lemma drain_waiting:
  assumes "ok q" "held q = {}" "waiting q = k # ks"
  obtains q' where "try_pop q = (Some k, q')" "ok (key_done k q')" "waiting (key_done k q') = ks"
    "held (key_done k q') = {}"
proof -
  from pop_key [OF assms(1,3)] obtain q' where q': "try_pop q = (Some k, q')" "ok q'"
    "waiting q' = ks" "held q' = insert k (held q)" by blast
  with key_done [of q' k] assms(2) that [of q'] show thesis by simp
qed

end

section \<open>The queue keeps the contract\<close>

definition queue_ok :: "keyQueue \<Rightarrow> bool" where
  "queue_ok q \<longleftrightarrow> distinct (kq_items q) \<and> set (kq_items q) \<subseteq> fset (kq_pending q)
     \<and> (\<forall>k \<in> fset (kq_pending q). k \<noteq> [] \<and> trim_space k = k)"

definition held_keys :: "keyQueue \<Rightarrow> string set" where
  "held_keys q = fset (kq_pending q) - set (kq_items q)"

lemma enqueue_insert_items:
  "queue_ok q \<Longrightarrow> enqueue_insert k q = (b, q') \<Longrightarrow>
   queue_ok q' \<and> held_keys q' = held_keys q \<and> kq_notify q' = kq_notify q
   \<and> kq_items q' = (if b then kq_items q @ [trim_space k] else kq_items q)
   \<and> (b \<longleftrightarrow> trim_space k \<noteq> [] \<and> trim_space k \<notin> fset (kq_pending q))
   \<and> fset (kq_pending q') = (if b then insert (trim_space k) (fset (kq_pending q)) else fset (kq_pending q))"
  by (auto simp: enqueue_insert_def queue_ok_def held_keys_def Let_def split: if_splits)

lemma queue_ok_signal [simp]:
  "queue_ok (enqueue_signal q) = queue_ok q" "held_keys (enqueue_signal q) = held_keys q"
  "kq_items (enqueue_signal q) = kq_items q" "kq_pending (enqueue_signal q) = kq_pending q"
  by (simp_all add: enqueue_signal_def queue_ok_def held_keys_def)

lemma pending_split: "queue_ok q \<Longrightarrow> fset (kq_pending q) = set (kq_items q) \<union> held_keys q"
  by (auto simp: queue_ok_def held_keys_def)

lemma Enqueue_items:
  assumes "queue_ok q"
  shows "queue_ok (Enqueue k q)" "held_keys (Enqueue k q) = held_keys q"
    "kq_items (Enqueue k q) =
       (if trim_space k = [] \<or> trim_space k \<in> set (kq_items q) \<union> held_keys q then kq_items q
        else kq_items q @ [trim_space k])"
proof -
  obtain b q' where i: "enqueue_insert k q = (b, q')" by (cases "enqueue_insert k q")
  note l = enqueue_insert_items [OF assms i] and p = pending_split [OF assms]
  have E: "Enqueue k q = (if b then enqueue_signal q' else q')" by (simp add: Enqueue_def i)
  show "queue_ok (Enqueue k q)" "held_keys (Enqueue k q) = held_keys q" using l by (simp_all add: E)
  have "kq_items (Enqueue k q) = kq_items q'" by (simp add: E)
  moreover have "b \<longleftrightarrow> \<not> (trim_space k = [] \<or> trim_space k \<in> set (kq_items q) \<union> held_keys q)"
    using l p by simp
  ultimately show "kq_items (Enqueue k q) =
       (if trim_space k = [] \<or> trim_space k \<in> set (kq_items q) \<union> held_keys q then kq_items q
        else kq_items q @ [trim_space k])"
    using l by (cases b) simp_all
qed

lemma TryPop_items:
  "queue_ok q \<Longrightarrow> kq_items q = k # ks \<Longrightarrow>
   \<exists>q'. TryPop q = (Some k, q') \<and> queue_ok q' \<and> kq_items q' = ks \<and> held_keys q' = insert k (held_keys q)
     \<and> kq_pending q' = kq_pending q \<and> kq_notify q' = kq_notify q"
  by (auto simp: TryPop_def queue_ok_def held_keys_def)

lemma KeyDone_items:
  "queue_ok q \<Longrightarrow> k \<in> held_keys q \<Longrightarrow>
   queue_ok (KeyDone k q) \<and> kq_items (KeyDone k q) = kq_items q
   \<and> held_keys (KeyDone k q) = held_keys q - {k} \<and> kq_notify (KeyDone k q) = kq_notify q"
  by (auto simp: KeyDone_def queue_ok_def held_keys_def Let_def)

interpretation wq: key_queue "newKeyQueue n" Enqueue TryPop KeyDone kq_items held_keys queue_ok
proof unfold_locales
  show "queue_ok (newKeyQueue n)" "kq_items (newKeyQueue n) = []" "held_keys (newKeyQueue n) = {}"
    by (simp_all add: newKeyQueue_def queue_ok_def held_keys_def)
next
  fix q k ks assume "queue_ok q" "kq_items q = k # ks"
  then show "\<exists>q'. TryPop q = (Some k, q') \<and> queue_ok q' \<and> kq_items q' = ks
    \<and> held_keys q' = insert k (held_keys q)"
    using TryPop_items by blast
next
  fix q k assume "queue_ok q" "k \<in> held_keys q"
  then show "queue_ok (KeyDone k q) \<and> kq_items (KeyDone k q) = kq_items q
    \<and> held_keys (KeyDone k q) = held_keys q - {k}"
    using KeyDone_items by blast
next
  fix q assume "queue_ok q"
  then show "distinct (kq_items q) \<and> set (kq_items q) \<inter> held_keys q = {}"
    by (auto simp: queue_ok_def held_keys_def)
qed (simp_all add: Enqueue_items TryPop_def)

section \<open>Concurrent use\<close>

text \<open>
  A worker is about to call TryPop, waits in the select of Pop, works on a key, or has returned.
  \<open>qs_senders\<close> counts the callers of Enqueue between the release of the mutex and the send.
\<close>

datatype worker_state = Trying | Waiting | Processing string | Stopped

record queue_system =
  qs_queue :: keyQueue
  qs_senders :: nat
  qs_workers :: "worker_state list"
  qs_cancelled :: bool

datatype queue_event =
    Insert string
  | Signal
  | Take nat
  | Wake nat
  | Finish nat
  | Cancel
  | Leave nat

definition queue_start :: "nat \<Rightarrow> queue_system" where
  "queue_start n = \<lparr>qs_queue = newKeyQueue 1024, qs_senders = 0, qs_workers = replicate n Trying,
     qs_cancelled = False\<rparr>"

definition worker_at :: "nat \<Rightarrow> queue_system \<Rightarrow> worker_state" where
  "worker_at i s = (if i < length (qs_workers s) then qs_workers s ! i else Stopped)"

definition set_worker :: "nat \<Rightarrow> worker_state \<Rightarrow> queue_system \<Rightarrow> queue_system" where
  "set_worker i w s = s\<lparr>qs_workers := (qs_workers s)[i := w]\<rparr>"

text \<open>One step of the callers and workers; \<^const>\<open>None\<close> when the event cannot happen.\<close>

fun queue_step :: "queue_event \<Rightarrow> queue_system \<Rightarrow> queue_system option" where
  "queue_step (Insert key) s =
     (let (queued, q) = enqueue_insert key (qs_queue s)
      in Some (s\<lparr>qs_queue := q, qs_senders := qs_senders s + (if queued then 1 else 0)\<rparr>))"
| "queue_step Signal s =
     (if qs_senders s = 0 then None
      else Some (s\<lparr>qs_queue := enqueue_signal (qs_queue s), qs_senders := qs_senders s - 1\<rparr>))"
| "queue_step (Take i) s =
     (if worker_at i s \<noteq> Trying then None
      else case TryPop (qs_queue s) of
             (Some key, q) \<Rightarrow> Some (set_worker i (Processing key) (s\<lparr>qs_queue := q\<rparr>))
           | (None, q) \<Rightarrow> Some (set_worker i Waiting (s\<lparr>qs_queue := q\<rparr>)))"
| "queue_step (Wake i) s =
     (if worker_at i s = Waiting \<and> kq_notify (qs_queue s)
      then Some (set_worker i Trying (s\<lparr>qs_queue := (qs_queue s)\<lparr>kq_notify := False\<rparr>\<rparr>))
      else None)"
| "queue_step (Finish i) s =
     (case worker_at i s of
        Processing key \<Rightarrow> Some (set_worker i Trying (s\<lparr>qs_queue := KeyDone key (qs_queue s)\<rparr>))
      | _ \<Rightarrow> None)"
| "queue_step Cancel s = Some (s\<lparr>qs_cancelled := True\<rparr>)"
| "queue_step (Leave i) s =
     (if worker_at i s = Waiting \<and> qs_cancelled s then Some (set_worker i Stopped s) else None)"

fun queue_run :: "queue_event list \<Rightarrow> queue_system \<Rightarrow> queue_system option" where
  "queue_run [] s = Some s"
| "queue_run (e # es) s = (case queue_step e s of None \<Rightarrow> None | Some s' \<Rightarrow> queue_run es s')"

text \<open>The keys being worked on.\<close>

fun keys_of :: "worker_state list \<Rightarrow> string list" where
  "keys_of [] = []"
| "keys_of (Processing k # ws) = k # keys_of ws"
| "keys_of (_ # ws) = keys_of ws"

definition system_ok :: "queue_system \<Rightarrow> bool" where
  "system_ok s \<longleftrightarrow> queue_ok (qs_queue s)
     \<and> distinct (keys_of (qs_workers s)) \<and> set (keys_of (qs_workers s)) = held_keys (qs_queue s)
     \<and> (\<not> qs_cancelled s \<longrightarrow> Stopped \<notin> set (qs_workers s))
     \<and> (kq_items (qs_queue s) \<noteq> [] \<and> qs_workers s \<noteq> [] \<and> \<not> qs_cancelled s \<longrightarrow>
          kq_notify (qs_queue s) \<or> 0 < qs_senders s
          \<or> (\<exists>w \<in> set (qs_workers s). w \<noteq> Waiting))"

lemma keys_of_replicate [simp]: "keys_of (replicate n Trying) = []"
  by (induction n) auto

lemma keys_of_append [simp]: "keys_of (xs @ ys) = keys_of xs @ keys_of ys"
  by (induction xs rule: keys_of.induct) auto

lemma worker_at_split:
  assumes "worker_at i s = w" "w \<noteq> Stopped"
  obtains xs ys where "qs_workers s = xs @ w # ys" "length xs = i"
proof -
  from assms have "i < length (qs_workers s)" "qs_workers s ! i = w"
    by (auto simp: worker_at_def split: if_splits)
  then show thesis using that [of "take i (qs_workers s)" "drop (Suc i) (qs_workers s)"]
    by (auto simp: id_take_nth_drop)
qed

lemma set_worker_split: "qs_workers s = xs @ w # ys \<Longrightarrow> length xs = i \<Longrightarrow>
  qs_workers (set_worker i w' s) = xs @ w' # ys"
  by (auto simp: set_worker_def list_update_append)

lemma set_worker_rest [simp]:
  "qs_queue (set_worker i w s) = qs_queue s" "qs_senders (set_worker i w s) = qs_senders s"
  "qs_cancelled (set_worker i w s) = qs_cancelled s"
  by (simp_all add: set_worker_def)

lemma insert_ok: "system_ok s \<Longrightarrow> queue_step (Insert key) s = Some s' \<Longrightarrow> system_ok s'"
  by (cases "enqueue_insert key (qs_queue s)")
    (auto simp: system_ok_def dest!: enqueue_insert_items [rotated])

lemma signal_ok: "system_ok s \<Longrightarrow> queue_step Signal s = Some s' \<Longrightarrow> system_ok s'"
  by (auto simp: system_ok_def enqueue_signal_def queue_ok_def held_keys_def split: if_splits)

lemma take_ok:
  assumes "system_ok s" "queue_step (Take i) s = Some s'"
  shows "system_ok s'"
proof -
  from assms(2) have t: "worker_at i s = Trying" by (auto split: if_splits)
  then obtain xs ys where w: "qs_workers s = xs @ Trying # ys" "length xs = i"
    by (auto elim: worker_at_split)
  show ?thesis
  proof (cases "kq_items (qs_queue s)")
    case Nil
    then have "s' = set_worker i Waiting s" using assms(2) t by (simp add: TryPop_def)
    with Nil assms(1) w show ?thesis by (auto simp: system_ok_def set_worker_split)
  next
    case (Cons k ks)
    have q: "queue_ok (qs_queue s)" using assms(1) by (simp add: system_ok_def)
    from TryPop_items [OF q Cons] obtain q' where q': "TryPop (qs_queue s) = (Some k, q')"
      "queue_ok q'" "kq_items q' = ks" "held_keys q' = insert k (held_keys (qs_queue s))"
      "kq_notify q' = kq_notify (qs_queue s)" by blast
    have s': "s' = set_worker i (Processing k) (s\<lparr>qs_queue := q'\<rparr>)" using assms(2) t q'(1) by simp
    have ws: "qs_workers s' = xs @ Processing k # ys"
      unfolding s' by (rule set_worker_split) (simp_all add: w)
    have "k \<notin> held_keys (qs_queue s)" using Cons by (auto simp: held_keys_def)
    then have "k \<notin> set (keys_of xs) \<union> set (keys_of ys)" using assms(1) w by (auto simp: system_ok_def)
    with assms(1) q' s' w ws show ?thesis by (auto simp: system_ok_def)
  qed
qed

lemma wake_ok:
  assumes "system_ok s" "queue_step (Wake i) s = Some s'"
  shows "system_ok s'"
proof -
  from assms(2) have t: "worker_at i s = Waiting" by (auto split: if_splits)
  then obtain xs ys where w: "qs_workers s = xs @ Waiting # ys" "length xs = i"
    by (auto elim: worker_at_split)
  let ?q = "(qs_queue s)\<lparr>kq_notify := False\<rparr>"
  have s': "s' = set_worker i Trying (s\<lparr>qs_queue := ?q\<rparr>)" using assms(2) by (auto split: if_splits)
  have "qs_workers s' = xs @ Trying # ys" unfolding s' by (rule set_worker_split) (simp_all add: w)
  with assms(1) s' w show ?thesis by (auto simp: system_ok_def queue_ok_def held_keys_def)
qed

lemma finish_ok:
  assumes "system_ok s" "queue_step (Finish i) s = Some s'"
  shows "system_ok s'"
proof -
  from assms(2) obtain k where k: "worker_at i s = Processing k"
    and s': "s' = set_worker i Trying (s\<lparr>qs_queue := KeyDone k (qs_queue s)\<rparr>)"
    by (auto split: worker_state.splits)
  then obtain xs ys where w: "qs_workers s = xs @ Processing k # ys" "length xs = i"
    by (auto elim: worker_at_split)
  have ws: "qs_workers s' = xs @ Trying # ys" unfolding s' by (rule set_worker_split) (simp_all add: w)
  have "queue_ok (qs_queue s)" "k \<in> held_keys (qs_queue s)" using assms(1) w by (auto simp: system_ok_def)
  with KeyDone_items [of "qs_queue s" k] assms(1) s' w ws show ?thesis
    by (auto simp: system_ok_def)
qed

lemma leave_ok:
  assumes "system_ok s" "queue_step (Leave i) s = Some s'"
  shows "system_ok s'"
proof -
  from assms(2) have t: "worker_at i s = Waiting" "qs_cancelled s" "s' = set_worker i Stopped s"
    by (auto split: if_splits)
  then obtain xs ys where w: "qs_workers s = xs @ Waiting # ys" "length xs = i"
    by (auto elim: worker_at_split)
  have "qs_workers s' = xs @ Stopped # ys" unfolding t(3) by (rule set_worker_split) (simp_all add: w)
  with assms(1) t w show ?thesis by (auto simp: system_ok_def)
qed

lemma cancel_ok: "system_ok s \<Longrightarrow> queue_step Cancel s = Some s' \<Longrightarrow> system_ok s'"
  by (auto simp: system_ok_def)

lemma queue_step_ok: "queue_step e s = Some s' \<Longrightarrow> system_ok s \<Longrightarrow> system_ok s'"
  by (cases e; hypsubst)
    (erule (1) insert_ok [rotated] signal_ok [rotated] take_ok [rotated] wake_ok [rotated]
      finish_ok [rotated] cancel_ok [rotated] leave_ok [rotated])+

lemma queue_run_ok: "queue_run es s = Some s' \<Longrightarrow> system_ok s \<Longrightarrow> system_ok s'"
  by (induction es arbitrary: s) (auto split: option.splits dest: queue_step_ok)

lemma queue_run_workers: "queue_run es s = Some s' \<Longrightarrow> length (qs_workers s') = length (qs_workers s)"
proof (induction es arbitrary: s)
  case (Cons e es)
  then obtain s1 where s1: "queue_step e s = Some s1" "queue_run es s1 = Some s'"
    by (auto split: option.splits)
  have "length (qs_workers s1) = length (qs_workers s)"
    using s1(1) by (cases e) (auto simp: set_worker_def split: prod.splits if_splits option.splits worker_state.splits)
  with Cons.IH [OF s1(2)] show ?case by simp
qed simp

lemma queue_start_ok: "system_ok (queue_start n)"
  by (simp add: system_ok_def queue_start_def newKeyQueue_def queue_ok_def held_keys_def)

section \<open>Properties\<close>

text \<open>
  C36: The work queue under any interleaving of callers of Enqueue and of worker loops: no key is
  worked on by two workers or queued while it waits or is worked on, a key is pending exactly when
  it waits or is worked on, and no wake-up is lost: unless the context is cancelled, while a key
  waits, a worker is awake, a token is in the channel or a caller is about to send one.
\<close>

theorem queue_exclusive_and_awake:
  assumes "queue_run es (queue_start n) = Some s"
  shows "distinct (kq_items (qs_queue s) @ keys_of (qs_workers s))
    \<and> fset (kq_pending (qs_queue s)) = set (kq_items (qs_queue s) @ keys_of (qs_workers s))
    \<and> (kq_items (qs_queue s) \<noteq> [] \<and> 0 < n \<and> \<not> qs_cancelled s \<longrightarrow>
         kq_notify (qs_queue s) \<or> 0 < qs_senders s \<or> (\<exists>w \<in> set (qs_workers s). w \<noteq> Waiting))"
proof -
  have ok: "system_ok s" using queue_run_ok [OF assms queue_start_ok] .
  have "length (qs_workers s) = n"
    using queue_run_workers [OF assms] by (simp add: queue_start_def)
  then have ws: "0 < n \<Longrightarrow> qs_workers s \<noteq> []" by auto
  have q: "queue_ok (qs_queue s)" and k: "distinct (keys_of (qs_workers s))"
    "set (keys_of (qs_workers s)) = held_keys (qs_queue s)"
    using ok by (simp_all add: system_ok_def)
  have "distinct (kq_items (qs_queue s) @ keys_of (qs_workers s))"
    using q k by (auto simp: queue_ok_def held_keys_def)
  moreover have "fset (kq_pending (qs_queue s)) = set (kq_items (qs_queue s) @ keys_of (qs_workers s))"
    using pending_split [OF q] k by simp
  moreover have "kq_items (qs_queue s) \<noteq> [] \<and> 0 < n \<and> \<not> qs_cancelled s \<longrightarrow>
      kq_notify (qs_queue s) \<or> 0 < qs_senders s \<or> (\<exists>w \<in> set (qs_workers s). w \<noteq> Waiting)"
    using ok ws unfolding system_ok_def by blast
  ultimately show ?thesis by blast
qed

theorem queue_exclusive_and_awake_witness:
  "\<exists>s. queue_run [Insert ''a'', Insert '' a '', Signal, Take 0, Insert ''b'', Signal, Insert ''a'', Take 1]
        (queue_start 2) = Some s
     \<and> qs_workers s = [Processing ''a'', Processing ''b''] \<and> kq_items (qs_queue s) = []
     \<and> fset (kq_pending (qs_queue s)) = {''a'', ''b''}"
proof -
  have "queue_run [Insert ''a'', Insert '' a '', Signal, Take 0, Insert ''b'', Signal, Insert ''a'', Take 1]
      (queue_start 2) = Some \<lparr>qs_queue = \<lparr>kq_pending = {|''b'', ''a''|}, kq_items = [], kq_notify = True\<rparr>,
        qs_senders = 0, qs_workers = [Processing ''a'', Processing ''b''], qs_cancelled = False\<rparr>"
    by code_simp
  with queue_exclusive_and_awake [OF this] show ?thesis by auto
qed

end
