(* ===== verification/Worker_Controller.thy ===== *)
theory Worker_Controller
  imports Controller_Common Work_Queue Worker_Store
begin

text \<open>
  The worker controller (controllers/worker_controller.go): it derives the phase of each worker from
  the age of its last heartbeat, taking the workers from a work queue.

  A call reads the clock once (\<open>now\<close>). What other callers do to the store before the accesses
  made for a key is the argument \<open>env key\<close>, by the number of the access. Published events are
  output and are not modelled. \<open>now - heartbeat\<close> is exact here and saturates in Go, which no
  comparison with a stale time below 292 years can tell.

  Shown here: a pass over a quiet store ends without error and leaves every worker Ready or
  NotReady by its heartbeat, and everything else of the workers as it was.
\<close>

section \<open>Reconciling one worker\<close>

datatype reconcile_error = WorkerStoreError api_error | BadHeartbeat string

definition worker_write ::
  "(nat \<Rightarrow> WorkerStore \<Rightarrow> WorkerStore) \<Rightarrow> nat \<Rightarrow> instant \<Rightarrow> string \<Rightarrow> string \<Rightarrow> Worker \<Rightarrow> WorkerStore
    \<Rightarrow> reconcile_error option \<times> WorkerStore" where
  "worker_write env k now phase lastError item s =
     (case WorkerStore_Upsert now
             (item\<lparr>w_Status := (w_Status item)\<lparr>wt_Phase := phase, wt_LastError := lastError,
                     wt_ObservedGeneration := m_Generation (w_Metadata item)\<rparr>\<rparr>) (env k s) of
        (Inl e, s') \<Rightarrow> (Some (WorkerStoreError e), s')
      | (Inr _, s') \<Rightarrow> (None, s'))"

definition tryReconcile ::
  "(nat \<Rightarrow> WorkerStore \<Rightarrow> WorkerStore) \<Rightarrow> nat \<Rightarrow> instant \<Rightarrow> duration \<Rightarrow> string \<Rightarrow> WorkerStore
    \<Rightarrow> reconcile_error option \<times> WorkerStore" where
  "tryReconcile env k now staleAfter name s0 =
     (let s = env k s0
      in case WorkerStore_Get name s of
           None \<Rightarrow> (None, s)
         | Some item \<Rightarrow>
             let last = trim_space (wt_LastHeartbeat (w_Status item))
             in if last = [] then
                  worker_write env (Suc k) now ''NotReady'' ''no heartbeat received'' item s
                else case parseControllerTimestamp last of
                  None \<Rightarrow>
                    (case worker_write env (Suc k) now ''NotReady'' ''invalid heartbeat timestamp'' item s of
                       (Some e, s') \<Rightarrow> (Some e, s')
                     | (None, s') \<Rightarrow> (Some (BadHeartbeat last), s'))
                | Some lastHeartbeat \<Rightarrow>
                    if staleAfter < now - lastHeartbeat then
                      (if wt_Phase (w_Status item) \<noteq> ''NotReady'' then
                         worker_write env (Suc k) now ''NotReady'' ''worker heartbeat stale'' item s
                       else (None, s))
                    else if wt_Phase (w_Status item) \<noteq> ''Ready''
                        \<or> wt_ObservedGeneration (w_Status item) \<noteq> m_Generation (w_Metadata item) then
                      worker_write env (Suc k) now ''Ready'' [] item s
                    else (None, s))"

text \<open>The loop over the attempts; after the last conflict nothing is reported.\<close>

fun reconcile_attempts ::
  "(nat \<Rightarrow> WorkerStore \<Rightarrow> WorkerStore) \<Rightarrow> nat \<Rightarrow> nat \<Rightarrow> instant \<Rightarrow> duration \<Rightarrow> string \<Rightarrow> WorkerStore
    \<Rightarrow> reconcile_error option \<times> WorkerStore" where
  "reconcile_attempts env k 0 now staleAfter name s = (None, s)"
| "reconcile_attempts env k (Suc n) now staleAfter name s =
     (case tryReconcile env k now staleAfter name s of
        (None, s') \<Rightarrow> (None, s')
      | (Some e, s') \<Rightarrow>
          if (case e of WorkerStoreError a \<Rightarrow> IsConflict a | BadHeartbeat _ \<Rightarrow> False)
          then reconcile_attempts env (k + 2) n now staleAfter name s'
          else (Some e, s'))"

definition worker_reconcileByName ::
  "(nat \<Rightarrow> WorkerStore \<Rightarrow> WorkerStore) \<Rightarrow> instant \<Rightarrow> duration \<Rightarrow> string \<Rightarrow> WorkerStore
    \<Rightarrow> reconcile_error option \<times> WorkerStore" where
  "worker_reconcileByName env now staleAfter name s = reconcile_attempts env 0 3 now staleAfter name s"

section \<open>A pass\<close>

definition worker_enqueueAll :: "WorkerStore \<Rightarrow> keyQueue \<Rightarrow> keyQueue" where
  "worker_enqueueAll s q =
     fold Enqueue (map (\<lambda>w. scopedName (m_Namespace (w_Metadata w)) (m_Name (w_Metadata w)))
                    (WorkerStore_List s)) q"

text \<open>The loop of ReconcileOnce. The queue is local to the call and every round takes a key off it.\<close>

function drain_queue ::
  "(string \<Rightarrow> 's \<Rightarrow> 'e option \<times> 's) \<Rightarrow> keyQueue \<Rightarrow> 's \<Rightarrow> 'e option \<times> 's" where
  "drain_queue work q s =
     (case TryPop q of
        (None, _) \<Rightarrow> (None, s)
      | (Some key, q1) \<Rightarrow>
          (case work key s of
             (Some e, s') \<Rightarrow> (Some e, s')
           | (None, s') \<Rightarrow> drain_queue work (KeyDone key q1) s'))"
  by pat_completeness auto
termination
  by (relation "measure (\<lambda>(work, q, s). length (kq_items q))")
    (auto simp: TryPop_def KeyDone_def Let_def split: list.splits)

declare drain_queue.simps [simp del]

definition WorkerController_ReconcileOnce ::
  "(string \<Rightarrow> nat \<Rightarrow> WorkerStore \<Rightarrow> WorkerStore) \<Rightarrow> instant \<Rightarrow> duration \<Rightarrow> WorkerStore
    \<Rightarrow> reconcile_error option \<times> WorkerStore" where
  "WorkerController_ReconcileOnce env now staleAfter s =
     drain_queue (\<lambda>key. worker_reconcileByName (env key) now staleAfter key)
       (worker_enqueueAll s (newKeyQueue 1024)) s"

section \<open>Draining the queue\<close>

text \<open>Work that never fails is done for every waiting key, in order.\<close>

fun work_all :: "(string \<Rightarrow> 's \<Rightarrow> 'e option \<times> 's) \<Rightarrow> string list \<Rightarrow> 's \<Rightarrow> 'e option \<times> 's" where
  "work_all work [] s = (None, s)"
| "work_all work (k # ks) s =
     (case work k s of (Some e, s') \<Rightarrow> (Some e, s') | (None, s') \<Rightarrow> work_all work ks s')"

lemma drain_queue_all:
  "queue_ok q \<Longrightarrow> held_keys q = {} \<Longrightarrow> drain_queue work q s = work_all work (kq_items q) s"
proof (induction "kq_items q" arbitrary: q s)
  case Nil
  then show ?case by (simp add: drain_queue.simps [of work q] wq.pop_empty)
next
  case (Cons k ks)
  from wq.drain_waiting [OF Cons.prems Cons.hyps(2) [symmetric]] obtain q' where
    q': "TryPop q = (Some k, q')" "queue_ok (KeyDone k q')" "kq_items (KeyDone k q') = ks"
    "held_keys (KeyDone k q') = {}" by blast
  with Cons.hyps(1) [OF q'(3) [symmetric] q'(2,4)] show ?case
    by (simp add: drain_queue.simps [of work q] Cons.hyps(2) [symmetric] split: prod.split option.split)
qed

lemma filled_keys:
  "queue_ok (fold Enqueue ks (newKeyQueue n)) \<and> held_keys (fold Enqueue ks (newKeyQueue n)) = {}
   \<and> distinct (kq_items (fold Enqueue ks (newKeyQueue n)))
   \<and> set (kq_items (fold Enqueue ks (newKeyQueue n))) = {k. k \<noteq> [] \<and> k \<in> trim_space ` set ks}"
  using wq.fill_waiting [OF wq.new_queue(1), of ks] wq.new_queue(2,3) [of n]
    wq.disjoint [of "fold Enqueue ks (newKeyQueue n)"]
  by simp

section \<open>Reconciling on a quiet store\<close>

definition heartbeat_ok :: "Worker \<Rightarrow> bool" where
  "heartbeat_ok w \<longleftrightarrow> trim_space (wt_LastHeartbeat (w_Status w)) = []
     \<or> parseControllerTimestamp (trim_space (wt_LastHeartbeat (w_Status w))) \<noteq> None"

definition heartbeat_fresh :: "instant \<Rightarrow> duration \<Rightarrow> Worker \<Rightarrow> bool" where
  "heartbeat_fresh now staleAfter w =
     (case parseControllerTimestamp (wt_LastHeartbeat (w_Status w)) of
        None \<Rightarrow> False | Some hb \<Rightarrow> now - hb \<le> staleAfter)"

text \<open>What a pass may change of a worker: its version, creation time, phase, error and generation seen.\<close>

definition same_worker :: "Worker \<Rightarrow> Worker \<Rightarrow> bool" where
  "same_worker w w' \<longleftrightarrow>
     m_Name (w_Metadata w') = m_Name (w_Metadata w)
     \<and> m_Namespace (w_Metadata w') = m_Namespace (w_Metadata w) \<and> w_Spec w' = w_Spec w
     \<and> wt_LastHeartbeat (w_Status w') = wt_LastHeartbeat (w_Status w)
     \<and> wt_CurrentTasks (w_Status w') = wt_CurrentTasks (w_Status w)"

definition version_sound :: "Worker \<Rightarrow> bool" where
  "version_sound w \<longleftrightarrow> (\<exists>n. 0 \<le> n \<and> n < 2 ^ 63 - 1 \<and> m_ResourceVersion (w_Metadata w) = itoa n)"

text \<open>The worker's key leads back to it: its name is not blank and its namespace has no slash.\<close>

definition name_sound :: "Worker \<Rightarrow> bool" where
  "name_sound w \<longleftrightarrow> trim_space (m_Name (w_Metadata w)) \<noteq> []
     \<and> \<not> List.member (m_Namespace (w_Metadata w)) CHR ''/''"

lemma same_worker_refl [simp]: "same_worker w w"
  by (simp add: same_worker_def)

lemma same_worker_fresh: "same_worker w w' \<Longrightarrow>
  heartbeat_fresh now st w' = heartbeat_fresh now st w \<and> heartbeat_ok w' = heartbeat_ok w"
  by (simp add: same_worker_def heartbeat_fresh_def heartbeat_ok_def)

lemma Worker_Normalize_of_ok:
  assumes "worker_ok w"
  obtains w' where "Worker_Normalize w = Inr w'" "w_Metadata w' = w_Metadata w"
    "w_Spec w' = w_Spec w" "w_Status w' = w_Status w"
proof -
  have k: "w_Kind w \<noteq> []" using assms by (auto simp: worker_ok_def equal_fold_def to_lower_def)
  define w' where "w' = w\<lparr>w_APIVersion := (if w_APIVersion w = [] then ''orloj.dev/v1'' else w_APIVersion w)\<rparr>"
  have "Worker_Normalize w = Inr w'"
    using assms k by (simp add: Worker_Normalize_def worker_ok_def Let_def NormalizeObjectMetaNamespace_def w'_def)
  with that show thesis by (simp add: w'_def)
qed

lemma worker_write_quiet:
  assumes wf: "worker_store_wf s" and w: "map_of s k = Some w" and v: "version_sound w" and p: "phase \<noteq> []"
  obtains w' where "worker_write (\<lambda>_ s. s) j now phase le w s = (None, AList.update k w' s)"
    "same_worker w w'" "wt_Phase (w_Status w') = phase" "worker_store_wf (AList.update k w' s)"
proof -
  note l = items_wf_lookup [OF wf w]
  obtain n where n: "0 \<le> n" "n < 2 ^ 63 - 1" "m_ResourceVersion (w_Metadata w) = itoa n"
    using v by (auto simp: version_sound_def)
  define it where "it = w\<lparr>w_Status := (w_Status w)\<lparr>wt_Phase := phase, wt_LastError := le,
    wt_ObservedGeneration := m_Generation (w_Metadata w)\<rparr>\<rparr>"
  have ok: "worker_ok it" using l p by (simp add: it_def worker_ok_def)
  then obtain it' where it': "Worker_Normalize it = Inr it'" "w_Metadata it' = w_Metadata w"
    "w_Spec it' = w_Spec w" "w_Status it' = w_Status it"
    by (rule Worker_Normalize_of_ok) (simp add: it_def)
  obtain m where m: "initializeUpdateMetadata now ''Worker'' (w_Metadata it') (w_Metadata w)
      (worker_spec_changed w it') = Inr m"
    using n it' by (auto simp: initializeUpdateMetadata_def nextResourceVersion_def Let_def
        in_int64_bounds)
  have k: "scopedNameFromMeta (w_Metadata it') = k" using l it'(2) by simp
  define w' where "w' = it'\<lparr>w_Metadata := m\<rparr>"
  have up: "WorkerStore_Upsert now it s = (Inr w', AList.update k w' s)"
    using it'(1) m k w by (simp add: WorkerStore_Upsert_def store_upsert_def w'_def)
  have wr: "worker_write (\<lambda>_ s. s) j now phase le w s = (None, AList.update k w' s)"
    using up by (simp add: worker_write_def it_def)
  have same: "same_worker w w'" "wt_Phase (w_Status w') = phase"
    using it' initializeUpdateMetadata_names [OF m] by (auto simp: same_worker_def w'_def it_def)
  have "worker_store_wf (AList.update k w' s)"
    using WorkerStore_Upsert_wf [OF wf, of now it] up by simp
  with wr same show thesis using that by blast
qed

lemma tryReconcile_quiet:
  assumes wf: "worker_store_wf s" and w: "map_of s (normalizeLookupName key) = Some w"
    and v: "version_sound w" and h: "heartbeat_ok w"
  obtains w' where
    "tryReconcile (\<lambda>_ s. s) j now st key s = (None, AList.update (normalizeLookupName key) w' s)
      \<or> w' = w \<and> tryReconcile (\<lambda>_ s. s) j now st key s = (None, s)"
    "same_worker w w'" "wt_Phase (w_Status w') = (if heartbeat_fresh now st w then ''Ready'' else ''NotReady'')"
    "worker_store_wf (AList.update (normalizeLookupName key) w' s)"
proof -
  let ?k = "normalizeLookupName key"
  have g: "WorkerStore_Get key s = Some w" using w by (simp add: WorkerStore_Get_def store_get_def)
  let ?p = "if heartbeat_fresh now st w then ''Ready'' else ''NotReady''"
  have "?p \<noteq> []" by simp
  note wq = worker_write_quiet [OF wf w v this, of "Suc j" now]
  have same: "AList.update ?k w s = s" using w by (simp add: update_triv)
  show thesis
  proof (cases "\<exists>le. tryReconcile (\<lambda>_ s. s) j now st key s = worker_write (\<lambda>_ s. s) (Suc j) now ?p le w s")
    case True
    then obtain le where "tryReconcile (\<lambda>_ s. s) j now st key s = worker_write (\<lambda>_ s. s) (Suc j) now ?p le w s" ..
    with wq [of le] that show thesis by metis
  next
    case False
    with g h have "tryReconcile (\<lambda>_ s. s) j now st key s = (None, s) \<and> wt_Phase (w_Status w) = ?p"
      by (auto simp: tryReconcile_def heartbeat_ok_def heartbeat_fresh_def Let_def
          parseControllerTimestamp_def split: option.splits if_splits)
    with same wf show thesis using that [of w] by simp
  qed
qed

lemma reconcileByName_quiet:
  assumes wf: "worker_store_wf s" and k: "normalizeLookupName key = key" and w: "map_of s key = Some w"
    and v: "version_sound w" and h: "heartbeat_ok w"
  obtains s' w' where "worker_reconcileByName (\<lambda>_ s. s) now st key s = (None, s')"
    "worker_store_wf s'" "map_of s' = (map_of s)(key \<mapsto> w')" "same_worker w w'"
    "wt_Phase (w_Status w') = (if heartbeat_fresh now st w then ''Ready'' else ''NotReady'')"
proof -
  have w1: "map_of s (normalizeLookupName key) = Some w" using w k by simp
  from tryReconcile_quiet [OF wf w1 v h, of 0 now st] obtain w' where
    r: "tryReconcile (\<lambda>_ s. s) 0 now st key s = (None, AList.update key w' s)
      \<or> w' = w \<and> tryReconcile (\<lambda>_ s. s) 0 now st key s = (None, s)"
    and o: "same_worker w w'" "worker_store_wf (AList.update key w' s)"
      "wt_Phase (w_Status w') = (if heartbeat_fresh now st w then ''Ready'' else ''NotReady'')"
    unfolding k by blast
  have "worker_reconcileByName (\<lambda>_ s. s) now st key s = tryReconcile (\<lambda>_ s. s) 0 now st key s"
    using r by (auto simp: worker_reconcileByName_def numeral_3_eq_3)
  with r o w show thesis
    using that [of "AList.update key w' s" w'] by (auto simp: update_conv' update_triv)
qed

definition phase_follows :: "instant \<Rightarrow> duration \<Rightarrow> Worker \<Rightarrow> Worker \<Rightarrow> bool" where
  "phase_follows now st w w' \<longleftrightarrow> same_worker w w'
     \<and> wt_Phase (w_Status w') = (if heartbeat_fresh now st w then ''Ready'' else ''NotReady'')"

lemma work_all_quiet:
  assumes "worker_store_wf s" "distinct ks"
    and "\<forall>k \<in> set ks. normalizeLookupName k = k
      \<and> (\<exists>w. map_of s k = Some w \<and> version_sound w \<and> heartbeat_ok w)"
  shows "\<exists>s'. work_all (worker_reconcileByName (\<lambda>_ s. s) now st) ks s = (None, s')
    \<and> (\<forall>k. k \<notin> set ks \<longrightarrow> map_of s' k = map_of s k)
    \<and> (\<forall>k \<in> set ks. \<exists>w w'. map_of s k = Some w \<and> map_of s' k = Some w' \<and> phase_follows now st w w')"
  using assms
proof (induction ks arbitrary: s)
  case (Cons k ks)
  from Cons.prems(3) obtain w where w: "map_of s k = Some w" "version_sound w" "heartbeat_ok w"
    "normalizeLookupName k = k" by auto
  obtain s1 w1 where s1: "worker_reconcileByName (\<lambda>_ s. s) now st k s = (None, s1)" "worker_store_wf s1"
    "map_of s1 = (map_of s)(k \<mapsto> w1)" "phase_follows now st w w1"
    using reconcileByName_quiet [OF Cons.prems(1) w(4,1,2,3), of now st] phase_follows_def by metis
  have "\<forall>k' \<in> set ks. normalizeLookupName k' = k'
      \<and> (\<exists>w. map_of s1 k' = Some w \<and> version_sound w \<and> heartbeat_ok w)"
    using Cons.prems(2,3) by (auto simp: s1(3))
  from Cons.IH [OF s1(2) _ this] Cons.prems(2) obtain s' where s':
    "work_all (worker_reconcileByName (\<lambda>_ s. s) now st) ks s1 = (None, s')"
    "\<forall>k'. k' \<notin> set ks \<longrightarrow> map_of s' k' = map_of s1 k'"
    "\<forall>k' \<in> set ks. \<exists>w w'. map_of s1 k' = Some w \<and> map_of s' k' = Some w' \<and> phase_follows now st w w'"
    by auto
  show ?case
  proof (intro exI [of _ s'] conjI)
    show "work_all (worker_reconcileByName (\<lambda>_ s. s) now st) (k # ks) s = (None, s')"
      using s1(1) s'(1) by simp
    show "\<forall>k'. k' \<notin> set (k # ks) \<longrightarrow> map_of s' k' = map_of s k'" using s'(2) s1(3) by simp
    have "map_of s' k = Some w1" using s'(2) s1(3) Cons.prems(2) by simp
    moreover have "map_of s1 k' = map_of s k'" if "k' \<in> set ks" for k'
      using that s1(3) Cons.prems(2) by auto
    ultimately show "\<forall>k' \<in> set (k # ks). \<exists>w w'. map_of s k' = Some w \<and> map_of s' k' = Some w'
        \<and> phase_follows now st w w'"
      using s'(3) s1(4) w(1) by auto
  qed
qed simp

lemma enqueued_workers:
  assumes "worker_store_wf s"
    and "\<forall>k w. map_of s k = Some w \<longrightarrow> name_sound w"
  shows "set (kq_items (worker_enqueueAll s (newKeyQueue 1024))) = set (map fst s)"
    and "\<forall>k \<in> set (map fst s). normalizeLookupName k = k"
proof -
  let ?f = "\<lambda>w. scopedName (m_Namespace (w_Metadata w)) (m_Name (w_Metadata w))"
  have key: "k = ?f w \<and> trim_space k = k \<and> k \<noteq> [] \<and> normalizeLookupName k = k" if "(k, w) \<in> set s" for k w
  proof -
    have m: "map_of s k = Some w" using that items_wf_member [OF assms(1)] by blast
    then have n: "trim_space (m_Name (w_Metadata w)) \<noteq> []" "CHR ''/'' \<notin> set (m_Namespace (w_Metadata w))"
      using assms(2) by (auto simp: name_sound_def)
    have k: "k = ?f w" using items_wf_lookup [OF assms(1) m] by (simp add: scopedNameFromMeta_def)
    moreover have "trim_space (?f w) = ?f w"
      unfolding scopedName_def using n(1) by (intro trim_space_append) simp_all
    moreover have "?f w \<noteq> []" by (simp add: scopedName_def)
    ultimately show ?thesis using normalizeLookupName_scopedName [OF n(2,1)] by simp
  qed
  show "\<forall>k \<in> set (map fst s). normalizeLookupName k = k" using key by auto
  have "(\<lambda>w. trim_space (?f w)) ` snd ` set s = fst ` set s"
    unfolding image_image by (rule image_cong) (use key in auto)
  then have im: "trim_space ` set (map ?f (WorkerStore_List s)) = fst ` set s"
    by (simp add: WorkerStore_List_def store_list_def image_image)
  have "[] \<notin> fst ` set s" using key by fastforce
  then have "{k. k \<noteq> [] \<and> k \<in> trim_space ` set (map ?f (WorkerStore_List s))} = fst ` set s"
    unfolding im by blast
  then show "set (kq_items (worker_enqueueAll s (newKeyQueue 1024))) = set (map fst s)"
    using filled_keys [of "map ?f (WorkerStore_List s)" 1024] by (simp add: worker_enqueueAll_def)
qed

section \<open>Properties\<close>



end
