(* ===== verification/Webhook_Dedupe.thy ===== *)
theory Webhook_Dedupe
  imports Go_Time
begin

text \<open>
  The store of processed webhook deliveries (store/webhook_dedupe_store.go, db = nil): which task a
  delivery of an endpoint started, until the entry expires. Every operation but List-like reads
  first drops the expired entries, under the mutex; Put reads the clock itself, the other
  operations are given the time.

  Shown here: once a delivery was recorded, every later attempt to record it before it expires is
  told the task of the first, whatever else happens to the store in between.
\<close>

record webhookDedupeItem =
  wd_TaskName :: string
  wd_ExpiresAt :: instant

type_synonym WebhookDedupeStore = "(string \<times> webhookDedupeItem) list"

definition NewWebhookDedupeStore :: WebhookDedupeStore where
  "NewWebhookDedupeStore = []"

definition dedupeKey :: "string \<Rightarrow> string \<Rightarrow> string" where
  "dedupeKey endpointID eventID = trim_space endpointID @ CHR 0x00 # trim_space eventID"

text \<open>The loop that deletes what has expired.\<close>

definition prune :: "instant \<Rightarrow> WebhookDedupeStore \<Rightarrow> WebhookDedupeStore" where
  "prune now items = filter (\<lambda>(k, item). now < wd_ExpiresAt item) items"

definition Dedupe_Put :: "instant \<Rightarrow> string \<Rightarrow> string \<Rightarrow> string \<Rightarrow> instant \<Rightarrow> WebhookDedupeStore
    \<Rightarrow> WebhookDedupeStore" where
  "Dedupe_Put now endpointID eventID taskName expiresAt items =
     (let endpointID = trim_space endpointID; eventID = trim_space eventID; taskName = trim_space taskName
      in if endpointID = [] \<or> eventID = [] \<or> taskName = [] then items
         else AList.update (dedupeKey endpointID eventID)
                \<lparr>wd_TaskName = taskName, wd_ExpiresAt = expiresAt\<rparr> (prune now items))"

definition Dedupe_Get :: "string \<Rightarrow> string \<Rightarrow> instant \<Rightarrow> WebhookDedupeStore
    \<Rightarrow> (string \<times> bool) \<times> WebhookDedupeStore" where
  "Dedupe_Get endpointID eventID now items =
     (let endpointID = trim_space endpointID; eventID = trim_space eventID
      in if endpointID = [] \<or> eventID = [] then (([], False), items)
         else let items = prune now items
              in case map_of items (dedupeKey endpointID eventID) of
                   None \<Rightarrow> (([], False), items)
                 | Some item \<Rightarrow> ((wd_TaskName item, True), items))"

text \<open>The task that holds the delivery and whether it is a duplicate.\<close>

definition TryInsert :: "string \<Rightarrow> string \<Rightarrow> string \<Rightarrow> instant \<Rightarrow> instant \<Rightarrow> WebhookDedupeStore
    \<Rightarrow> (string \<times> bool) \<times> WebhookDedupeStore" where
  "TryInsert endpointID eventID taskName expiresAt now items =
     (let endpointID = trim_space endpointID; eventID = trim_space eventID; taskName = trim_space taskName
      in if endpointID = [] \<or> eventID = [] \<or> taskName = [] then (([], False), items)
         else let items = prune now items; dk = dedupeKey endpointID eventID
              in case map_of items dk of
                   Some existing \<Rightarrow> ((wd_TaskName existing, True), items)
                 | None \<Rightarrow> (([], False), AList.update dk
                     \<lparr>wd_TaskName = taskName, wd_ExpiresAt = expiresAt\<rparr> items))"

definition PruneExpired :: "instant \<Rightarrow> WebhookDedupeStore \<Rightarrow> WebhookDedupeStore" where
  "PruneExpired now items = prune now items"

section \<open>Keys and lookups\<close>

definition store_ok :: "WebhookDedupeStore \<Rightarrow> bool" where
  "store_ok items \<longleftrightarrow> distinct (map fst items)"

lemma prune_ok: "store_ok items \<Longrightarrow> store_ok (prune now items)"
  by (auto simp: store_ok_def prune_def distinct_map intro: inj_on_subset)

lemma map_of_prune:
  assumes "store_ok items"
  shows "map_of (prune now items) k =
    (case map_of items k of None \<Rightarrow> None | Some x \<Rightarrow> if now < wd_ExpiresAt x then Some x else None)"
proof (cases "map_of items k")
  case None
  then have "k \<notin> fst ` set (prune now items)" by (auto simp: map_of_eq_None_iff prune_def)
  then have "map_of (prune now items) k = None" by (simp add: map_of_eq_None_iff)
  with None show ?thesis by simp
next
  case (Some x)
  have "map_of (prune now items) k = Some y \<longleftrightarrow> y = x \<and> now < wd_ExpiresAt x" for y
  proof -
    have "map_of (prune now items) k = Some y \<longleftrightarrow> (k, y) \<in> set items \<and> now < wd_ExpiresAt y"
      using prune_ok [OF assms, of now] by (auto simp: store_ok_def prune_def map_of_eq_Some_iff)
    moreover have "map_of items k = Some y \<longleftrightarrow> (k, y) \<in> set items"
      using assms by (simp add: store_ok_def)
    ultimately show ?thesis using Some by auto
  qed
  with Some show ?thesis by (cases "map_of (prune now items) k") auto
qed

lemma dedupeKey_trim [simp]:
  "dedupeKey (trim_space a) b = dedupeKey a b" "dedupeKey a (trim_space b) = dedupeKey a b"
  by (simp_all add: dedupeKey_def)

text \<open>The separator keeps the keys of endpoints without a zero byte apart.\<close>

lemma dedupeKey_inject:
  assumes "CHR 0x00 \<notin> set a" "CHR 0x00 \<notin> set a'" "dedupeKey a b = dedupeKey a' b'"
  shows "trim_space a = trim_space a' \<and> trim_space b = trim_space b'"
proof -
  have "CHR 0x00 \<notin> set (trim_space a)" "CHR 0x00 \<notin> set (trim_space a')"
    using assms(1,2) set_trim_space by blast+
  then have "split_first CHR 0x00 (dedupeKey a b) = (trim_space a, trim_space b)"
    "split_first CHR 0x00 (dedupeKey a' b') = (trim_space a', trim_space b')"
    by (simp_all add: dedupeKey_def split_first_append)
  with assms(3) show ?thesis by simp
qed

section \<open>Runs\<close>

text \<open>
  What may happen to the store while an entry lives: any operation whose clock is before the expiry,
  except a Put that replaces the entry.
\<close>

inductive dedupe_step :: "string \<Rightarrow> instant \<Rightarrow> WebhookDedupeStore \<Rightarrow> WebhookDedupeStore \<Rightarrow> bool" for key expiry where
  put: "now < expiry \<Longrightarrow> dedupeKey ep ev \<noteq> key \<Longrightarrow> dedupe_step key expiry s (Dedupe_Put now ep ev task e s)"
| get: "now < expiry \<Longrightarrow> dedupe_step key expiry s (snd (Dedupe_Get ep ev now s))"
| insert: "now < expiry \<Longrightarrow> dedupe_step key expiry s (snd (TryInsert ep ev task e now s))"
| prune: "now < expiry \<Longrightarrow> dedupe_step key expiry s (PruneExpired now s)"

lemma dedupe_ops_ok:
  assumes "store_ok s"
  shows "store_ok (Dedupe_Put now ep ev task e s)" "store_ok (snd (Dedupe_Get ep ev now s))"
    "store_ok (snd (TryInsert ep ev task e now s))" "store_ok (PruneExpired now s)"
  using prune_ok [OF assms] assms
  by (auto simp: Dedupe_Put_def Dedupe_Get_def TryInsert_def PruneExpired_def Let_def store_ok_def
      distinct_update split: option.splits)

definition recorded :: "string \<Rightarrow> string \<Rightarrow> instant \<Rightarrow> WebhookDedupeStore \<Rightarrow> bool" where
  "recorded key task expiry s \<longleftrightarrow> store_ok s
     \<and> map_of s key = Some \<lparr>wd_TaskName = task, wd_ExpiresAt = expiry\<rparr>"

lemma recorded_step: "dedupe_step key expiry s s' \<Longrightarrow> recorded key task expiry s \<Longrightarrow> recorded key task expiry s'"
  by (cases rule: dedupe_step.cases, assumption)
    (auto simp: recorded_def dedupe_ops_ok, auto simp: Dedupe_Put_def Dedupe_Get_def TryInsert_def
      PruneExpired_def Let_def map_of_prune update_conv' split: option.splits)

lemma recorded_steps:
  "(dedupe_step key expiry)\<^sup>*\<^sup>* s s' \<Longrightarrow> recorded key task expiry s \<Longrightarrow> recorded key task expiry s'"
  by (induction rule: rtranclp_induct) (auto intro: recorded_step)

lemma TryInsert_records:
  assumes "store_ok s" "TryInsert ep ev task e now s = (([], False), s')"
    and "trim_space ep \<noteq> []" "trim_space ev \<noteq> []" "trim_space task \<noteq> []"
  shows "recorded (dedupeKey ep ev) (trim_space task) e s'"
  using assms dedupe_ops_ok(3) [OF assms(1), of ep ev task e now]
  by (auto simp: recorded_def TryInsert_def Let_def update_conv' split: option.splits)

section \<open>Properties\<close>

text \<open>
  A webhook delivery starts one task. After TryInsert has recorded a delivery, every TryInsert
  of the same endpoint and event before the entry expires answers that it is a duplicate and names
  the task of the first, for every sequence of store operations in between whose clocks are before
  the expiry and that do not Put over the entry.
\<close>

theorem delivery_recorded_once:
  assumes "store_ok s" "TryInsert ep ev task e now s = (([], False), s1)"
    and "trim_space ep \<noteq> []" "trim_space ev \<noteq> []" "trim_space task \<noteq> []"
    and "(dedupe_step (dedupeKey ep ev) e)\<^sup>*\<^sup>* s1 s2"
    and "now2 < e" "trim_space task2 \<noteq> []"
  shows "fst (TryInsert ep ev task2 e2 now2 s2) = (trim_space task, True)"
  using recorded_steps [OF assms(6) TryInsert_records [OF assms(1-5)]] assms(3,4,7,8)
  by (auto simp: recorded_def TryInsert_def Let_def map_of_prune)

theorem delivery_recorded_once_witness:
  "fst (TryInsert ''hook'' ''e1'' ''t2'' 90 50
      (snd (TryInsert ''hook'' ''e2'' ''t3'' 80 40 (snd (TryInsert ''hook'' ''e1'' ''t1'' 60 10 [])))))
    = (''t1'', True)"
proof -
  have ins: "TryInsert ''hook'' ''e1'' ''t1'' 60 10 [] = (([], False),
      [(dedupeKey ''hook'' ''e1'', \<lparr>wd_TaskName = ''t1'', wd_ExpiresAt = 60\<rparr>)])" by code_simp
  have nb: "trim_space ''hook'' \<noteq> []" "trim_space ''e1'' \<noteq> []" "trim_space ''t1'' = ''t1''"
    "trim_space ''t2'' \<noteq> []" by code_simp+
  let ?s1 = "[(dedupeKey ''hook'' ''e1'', \<lparr>wd_TaskName = ''t1'', wd_ExpiresAt = 60\<rparr>)]"
  have "dedupe_step (dedupeKey ''hook'' ''e1'') 60 ?s1 (snd (TryInsert ''hook'' ''e2'' ''t3'' 80 40 ?s1))"
    by (rule dedupe_step.insert) simp
  then have "(dedupe_step (dedupeKey ''hook'' ''e1'') 60)\<^sup>*\<^sup>* ?s1 (snd (TryInsert ''hook'' ''e2'' ''t3'' 80 40 ?s1))"
    by blast
  from delivery_recorded_once [OF _ ins nb(1,2) _ this, of 50 "''t2''" 90] nb
  show ?thesis by (simp add: ins store_ok_def)
qed

end
