(* ===== verification/Task_Schedule.thy ===== *)
theory Task_Schedule
  imports Task_Types Resource_Store Cron_Expr
begin

text \<open>
  The TaskSchedule resource (resources/resource_types.go) and its in-memory store
  (store/resource_stores.go, TaskScheduleStore).

  \<open>time.LoadLocation\<close> reads the time zone database, which is data of the machine: it is the argument
  \<open>load\<close>. A pointer to a task template is an option. Normalisation parses the cron expression, and
  where that panics, so does the call (\<open>Panicked\<close>).

  Shown here: normalisation establishes what the controller relies on (a parsed schedule, a known
  time zone, positive limits), is idempotent, and every stored schedule is in normal form.
\<close>

record TaskScheduleSpec =
  sc_TaskRef :: string
  sc_TaskTemplate :: "TaskSpec option"
  sc_Schedule :: string
  sc_TimeZone :: string
  sc_Suspend :: bool
  sc_StartingDeadlineSeconds :: int
  sc_ConcurrencyPolicy :: string
  sc_SuccessfulHistoryLimit :: int
  sc_FailedHistoryLimit :: int

record TaskScheduleStatus =
  ss_Phase :: string
  ss_LastError :: string
  ss_LastScheduleTime :: string
  ss_LastSuccessfulTime :: string
  ss_NextScheduleTime :: string
  ss_LastTriggeredTask :: string
  ss_ActiveRuns :: "string list"
  ss_ObservedGeneration :: int

record TaskSchedule =
  sd_APIVersion :: string
  sd_Kind :: string
  sd_Metadata :: ObjectMeta
  sd_Spec :: TaskScheduleSpec
  sd_Status :: TaskScheduleStatus

section \<open>Normalisation\<close>

definition normalize_task_template :: "TaskSpec \<Rightarrow> api_error + TaskSpec" where
  "normalize_task_template tmpl =
     (let sys = trim_space (sp_System tmpl);
          rp = sp_Retry tmpl; mr = sp_MessageRetry tmpl;
          attempts = (if rp_MaxAttempts rp \<le> 0 then 1 else rp_MaxAttempts rp);
          backoff = (if rp_Backoff rp = [] then ''0s'' else rp_Backoff rp);
          m_attempts = (if mr_MaxAttempts mr \<le> 0 then attempts else mr_MaxAttempts mr);
          m_backoff = (if trim_space (mr_Backoff mr) = [] then backoff else mr_Backoff mr);
          m_max = (if trim_space (mr_MaxBackoff mr) = [] then ''24h'' else mr_MaxBackoff mr);
          j = to_lower (trim_space (mr_Jitter mr));
          jitter = (if j = [] then ''full'' else j)
      in if sys = [] then Inl (RequiredField ''spec.task_template.system'')
         else if parse_duration backoff = None then
           Inl (InvalidField ''spec.task_template.retry.backoff'' backoff)
         else if parse_duration m_backoff = None then
           Inl (InvalidField ''spec.task_template.message_retry.backoff'' m_backoff)
         else if parse_duration m_max = None then
           Inl (InvalidField ''spec.task_template.message_retry.max_backoff'' m_max)
         else if \<not> List.member [''none'', ''full'', ''equal''] jitter then
           Inl (InvalidField ''spec.task_template.message_retry.jitter'' (mr_Jitter mr))
         else Inr (tmpl\<lparr>sp_System := sys,
                sp_Priority := (if trim_space (sp_Priority tmpl) = [] then ''normal'' else sp_Priority tmpl),
                sp_Retry := rp\<lparr>rp_MaxAttempts := attempts, rp_Backoff := backoff\<rparr>,
                sp_MessageRetry := mr\<lparr>mr_MaxAttempts := m_attempts, mr_Backoff := m_backoff,
                  mr_MaxBackoff := m_max, mr_Jitter := jitter\<rparr>\<rparr>))"

text \<open>The checks of task_ref and task_template; the result is the normalised template.\<close>

definition normalize_task_source :: "TaskScheduleSpec \<Rightarrow> api_error + TaskSpec option" where
  "normalize_task_source sp =
     (let ref = trim_space (sc_TaskRef sp)
      in if ref \<noteq> [] \<and> sc_TaskTemplate sp \<noteq> None then
           Inl (InvalidField ''spec.task_ref'' ''mutually exclusive with spec.task_template'')
         else if ref = [] \<and> sc_TaskTemplate sp = None then Inl (RequiredField ''spec.task_ref'')
         else if ref \<noteq> [] \<and> List.member ref CHR ''/''
             \<and> (let (a, b) = split_first CHR ''/'' ref in trim_space a = [] \<or> trim_space b = []) then
           Inl (InvalidField ''spec.task_ref'' ref)
         else case sc_TaskTemplate sp of
                None \<Rightarrow> Inr None
              | Some tmpl \<Rightarrow> (case normalize_task_template tmpl of Inl e \<Rightarrow> Inl e | Inr t \<Rightarrow> Inr (Some t)))"

definition normalize_schedule_spec ::
  "(string \<Rightarrow> location option) \<Rightarrow> TaskScheduleSpec \<Rightarrow> api_error + TaskScheduleSpec" where
  "normalize_schedule_spec load sp =
     (case normalize_task_source sp of
        Inl e \<Rightarrow> Inl e
      | Inr tmpl \<Rightarrow>
          let sched = trim_space (sc_Schedule sp);
              z = trim_space (sc_TimeZone sp);
              zone = (if z = [] then ''UTC'' else z);
              p = to_lower (trim_space (sc_ConcurrencyPolicy sp));
              policy = (if p = [] then ''forbid'' else p)
          in if sched = [] then Inl (RequiredField ''spec.schedule'')
             else case Parse sched of
                    Inl CronPanic \<Rightarrow> Inl (Panicked ''cronexpr.Parse'')
                  | Inl _ \<Rightarrow> Inl (InvalidField ''spec.schedule'' sched)
                  | Inr _ \<Rightarrow>
             (if load zone = None then Inl (InvalidField ''spec.time_zone'' zone)
              else if policy \<noteq> ''forbid'' then
                Inl (InvalidField ''spec.concurrency_policy'' (sc_ConcurrencyPolicy sp))
              else Inr (sp\<lparr>sc_TaskRef := trim_space (sc_TaskRef sp), sc_TaskTemplate := tmpl,
                     sc_Schedule := sched, sc_TimeZone := zone,
                     sc_StartingDeadlineSeconds :=
                       (if sc_StartingDeadlineSeconds sp \<le> 0 then 300 else sc_StartingDeadlineSeconds sp),
                     sc_ConcurrencyPolicy := policy,
                     sc_SuccessfulHistoryLimit :=
                       (if sc_SuccessfulHistoryLimit sp \<le> 0 then 10 else sc_SuccessfulHistoryLimit sp),
                     sc_FailedHistoryLimit :=
                       (if sc_FailedHistoryLimit sp \<le> 0 then 3 else sc_FailedHistoryLimit sp)\<rparr>)))"

definition TaskSchedule_Normalize ::
  "(string \<Rightarrow> location option) \<Rightarrow> TaskSchedule \<Rightarrow> api_error + TaskSchedule" where
  "TaskSchedule_Normalize load t =
     (let api = (if sd_APIVersion t = [] then ''orloj.dev/v1'' else sd_APIVersion t);
          kind = (if sd_Kind t = [] then ''TaskSchedule'' else sd_Kind t);
          meta = NormalizeObjectMetaNamespace (sd_Metadata t)
      in if \<not> equal_fold kind ''TaskSchedule'' then Inl (UnsupportedKind kind ''TaskSchedule'')
         else case ValidateMetadataName (m_Name meta) of
                Some e \<Rightarrow> Inl e
              | None \<Rightarrow>
                  (case normalize_schedule_spec load (sd_Spec t) of
                     Inl e \<Rightarrow> Inl e
                   | Inr sp \<Rightarrow>
                       Inr (t\<lparr>sd_APIVersion := api, sd_Kind := kind, sd_Metadata := meta, sd_Spec := sp,
                         sd_Status := (sd_Status t)\<lparr>ss_Phase :=
                           (if ss_Phase (sd_Status t) = [] then ''Pending'' else ss_Phase (sd_Status t))\<rparr>\<rparr>)))"

section \<open>The store\<close>

type_synonym TaskScheduleStore = "(string \<times> TaskSchedule) list"

abbreviation set_schedule_meta :: "ObjectMeta \<Rightarrow> TaskSchedule \<Rightarrow> TaskSchedule" where
  "set_schedule_meta m t \<equiv> t\<lparr>sd_Metadata := m\<rparr>"

abbreviation schedule_spec_changed :: "TaskSchedule \<Rightarrow> TaskSchedule \<Rightarrow> bool" where
  "schedule_spec_changed a b \<equiv> sd_Spec a \<noteq> sd_Spec b"

definition TaskScheduleStore_Upsert ::
  "(string \<Rightarrow> location option) \<Rightarrow> instant \<Rightarrow> TaskSchedule \<Rightarrow> TaskScheduleStore
    \<Rightarrow> (api_error + TaskSchedule) \<times> TaskScheduleStore" where
  "TaskScheduleStore_Upsert load now item s =
     store_upsert ''TaskSchedule'' sd_Metadata set_schedule_meta schedule_spec_changed
       (TaskSchedule_Normalize load) now item s"

definition TaskScheduleStore_Get :: "string \<Rightarrow> TaskScheduleStore \<Rightarrow> TaskSchedule option" where
  "TaskScheduleStore_Get name s = store_get name s"

definition TaskScheduleStore_List :: "TaskScheduleStore \<Rightarrow> TaskSchedule list" where
  "TaskScheduleStore_List s = store_list sd_Metadata s"

definition TaskScheduleStore_ListCursor ::
  "int \<Rightarrow> string \<Rightarrow> string \<Rightarrow> TaskScheduleStore \<Rightarrow> TaskSchedule list" where
  "TaskScheduleStore_ListCursor limit after namespace s =
     store_list_cursor sd_Metadata limit after namespace s"

definition TaskScheduleStore_Delete :: "string \<Rightarrow> TaskScheduleStore \<Rightarrow> api_error option \<times> TaskScheduleStore" where
  "TaskScheduleStore_Delete name s = store_delete ''taskschedule'' name s"

section \<open>What normalisation establishes\<close>

definition schedule_spec_ok :: "(string \<Rightarrow> location option) \<Rightarrow> TaskScheduleSpec \<Rightarrow> bool" where
  "schedule_spec_ok load sp \<longleftrightarrow>
     \<not> isl (Parse (sc_Schedule sp)) \<and> load (sc_TimeZone sp) \<noteq> None
     \<and> 1 \<le> sc_StartingDeadlineSeconds sp \<and> sc_ConcurrencyPolicy sp = ''forbid''
     \<and> 1 \<le> sc_SuccessfulHistoryLimit sp \<and> 1 \<le> sc_FailedHistoryLimit sp
     \<and> (sc_TaskRef sp = [] \<longleftrightarrow> sc_TaskTemplate sp \<noteq> None)"

text \<open>A schedule in normal form: what every store holds.\<close>

definition schedule_ok :: "(string \<Rightarrow> location option) \<Rightarrow> TaskSchedule \<Rightarrow> bool" where
  "schedule_ok load t \<longleftrightarrow> TaskSchedule_Normalize load t = Inr t"

lemma normal_jitter:
  "List.member [''none'', ''full'', ''equal''] j \<Longrightarrow> to_lower (trim_space j) = j \<and> j \<noteq> []"
  by (auto simp: literal_words literal_lower)

lemma normal_policy: "to_lower (trim_space ''forbid'') = ''forbid''"
  by code_simp

text \<open>A default that replaces a blank value is stable even when it is blank itself.\<close>

lemma normalize_task_template_idem:
  assumes "normalize_task_template t = Inr t'"
  shows "normalize_task_template t' = Inr t'"
proof -
  define attempts where "attempts = (if rp_MaxAttempts (sp_Retry t) \<le> 0 then 1 else rp_MaxAttempts (sp_Retry t))"
  define backoff where "backoff = (if rp_Backoff (sp_Retry t) = [] then ''0s'' else rp_Backoff (sp_Retry t))"
  define m_att where "m_att = (if mr_MaxAttempts (sp_MessageRetry t) \<le> 0 then attempts
    else mr_MaxAttempts (sp_MessageRetry t))"
  define m_back where "m_back = (if trim_space (mr_Backoff (sp_MessageRetry t)) = [] then backoff
    else mr_Backoff (sp_MessageRetry t))"
  define m_max where "m_max = (if trim_space (mr_MaxBackoff (sp_MessageRetry t)) = [] then ''24h''
    else mr_MaxBackoff (sp_MessageRetry t))"
  define j where "j = to_lower (trim_space (mr_Jitter (sp_MessageRetry t)))"
  define jit where "jit = (if j = [] then ''full'' else j)"
  define prio where "prio = (if trim_space (sp_Priority t) = [] then ''normal'' else sp_Priority t)"
  have c: "trim_space (sp_System t) \<noteq> []" "parse_duration backoff \<noteq> None" "parse_duration m_back \<noteq> None"
    "parse_duration m_max \<noteq> None" "List.member [''none'', ''full'', ''equal''] jit"
    and t': "t' = t\<lparr>sp_System := trim_space (sp_System t), sp_Priority := prio,
      sp_Retry := (sp_Retry t)\<lparr>rp_MaxAttempts := attempts, rp_Backoff := backoff\<rparr>,
      sp_MessageRetry := (sp_MessageRetry t)\<lparr>mr_MaxAttempts := m_att, mr_Backoff := m_back,
        mr_MaxBackoff := m_max, mr_Jitter := jit\<rparr>\<rparr>"
    using assms
    unfolding normalize_task_template_def Let_def attempts_def [symmetric] backoff_def [symmetric]
      m_att_def [symmetric] m_back_def [symmetric] m_max_def [symmetric] j_def [symmetric]
      jit_def [symmetric] prio_def [symmetric]
    by (simp_all split: if_splits del: One_nat_def)
  have s: "0 < attempts" "0 < m_att" "backoff \<noteq> []" "trim_space m_back = [] \<Longrightarrow> m_back = backoff"
    "trim_space m_max \<noteq> []" "trim_space prio \<noteq> []" "to_lower (trim_space jit) = jit" "jit \<noteq> []"
    using normal_jitter [OF c(5)]
    by (auto simp: attempts_def m_att_def backoff_def m_back_def m_max_def prio_def is_space_def)
  from c s show ?thesis
    unfolding t' normalize_task_template_def Let_def
    by (cases "trim_space m_back = []") simp_all
qed

lemma normalize_task_source_idem:
  assumes "normalize_task_source sp = Inr tmpl"
  shows "normalize_task_source (sp\<lparr>sc_TaskRef := trim_space (sc_TaskRef sp), sc_TaskTemplate := tmpl\<rparr>) = Inr tmpl"
proof (cases "sc_TaskTemplate sp")
  case None
  with assms show ?thesis
    by (auto simp: normalize_task_source_def Let_def split: if_splits prod.splits)
next
  case (Some t)
  with assms obtain t' where "normalize_task_template t = Inr t'" "tmpl = Some t'" "trim_space (sc_TaskRef sp) = []"
    by (auto simp: normalize_task_source_def Let_def split: if_splits sum.splits)
  then show ?thesis
    by (simp add: normalize_task_source_def Let_def normalize_task_template_idem)
qed

lemma normalize_schedule_spec_cases:
  assumes "normalize_schedule_spec load sp = Inr sp'"
  obtains tmpl e where "normalize_task_source sp = Inr tmpl" "Parse (sc_Schedule sp') = Inr e"
    "trim_space (sc_Schedule sp') = sc_Schedule sp'" "sc_Schedule sp' \<noteq> []"
    "trim_space (sc_TimeZone sp') = sc_TimeZone sp'" "sc_TimeZone sp' \<noteq> []" "load (sc_TimeZone sp') \<noteq> None"
    "sc_TaskRef sp' = trim_space (sc_TaskRef sp)" "sc_TaskTemplate sp' = tmpl"
    "1 \<le> sc_StartingDeadlineSeconds sp'" "sc_ConcurrencyPolicy sp' = ''forbid''"
    "1 \<le> sc_SuccessfulHistoryLimit sp'" "1 \<le> sc_FailedHistoryLimit sp'"
proof -
  from assms obtain tmpl where t: "normalize_task_source sp = Inr tmpl"
    by (auto simp: normalize_schedule_spec_def split: sum.splits)
  with assms obtain e where e: "Parse (trim_space (sc_Schedule sp)) = Inr e" "trim_space (sc_Schedule sp) \<noteq> []"
    by (auto simp: normalize_schedule_spec_def Let_def split: sum.splits cron_error.splits if_splits)
  define zone where "zone = (if trim_space (sc_TimeZone sp) = [] then ''UTC'' else trim_space (sc_TimeZone sp))"
  define p where "p = to_lower (trim_space (sc_ConcurrencyPolicy sp))"
  define policy where "policy = (if p = [] then ''forbid'' else p)"
  define dl where "dl = (if sc_StartingDeadlineSeconds sp \<le> 0 then 300 else sc_StartingDeadlineSeconds sp)"
  define sl where "sl = (if sc_SuccessfulHistoryLimit sp \<le> 0 then 10 else sc_SuccessfulHistoryLimit sp)"
  define fl where "fl = (if sc_FailedHistoryLimit sp \<le> 0 then 3 else sc_FailedHistoryLimit sp)"
  have c: "load zone \<noteq> None" "policy = ''forbid''"
    and sp': "sp' = sp\<lparr>sc_TaskRef := trim_space (sc_TaskRef sp), sc_TaskTemplate := tmpl,
      sc_Schedule := trim_space (sc_Schedule sp), sc_TimeZone := zone, sc_StartingDeadlineSeconds := dl,
      sc_ConcurrencyPolicy := policy, sc_SuccessfulHistoryLimit := sl, sc_FailedHistoryLimit := fl\<rparr>"
    using assms e
    unfolding normalize_schedule_spec_def t Let_def sum.case zone_def [symmetric] p_def [symmetric]
      policy_def [symmetric] dl_def [symmetric] sl_def [symmetric] fl_def [symmetric]
    by (simp_all split: if_splits)
  have u: "trim_space ''UTC'' = ''UTC''" by code_simp
  have v: "1 \<le> dl" "1 \<le> sl" "1 \<le> fl" "trim_space zone = zone" "zone \<noteq> []"
    by (simp_all add: dl_def sl_def fl_def zone_def u)
  show thesis
    by (rule that [OF t, of e]) (simp_all add: sp' e v c)
qed

lemma normalize_schedule_spec_idem:
  assumes "normalize_schedule_spec load sp = Inr sp'"
  shows "normalize_schedule_spec load sp' = Inr sp'"
proof -
  from assms obtain tmpl e where n: "normalize_task_source sp = Inr tmpl" "Parse (sc_Schedule sp') = Inr e"
    "trim_space (sc_Schedule sp') = sc_Schedule sp'" "sc_Schedule sp' \<noteq> []"
    "trim_space (sc_TimeZone sp') = sc_TimeZone sp'" "sc_TimeZone sp' \<noteq> []" "load (sc_TimeZone sp') \<noteq> None"
    "sc_TaskRef sp' = trim_space (sc_TaskRef sp)" "sc_TaskTemplate sp' = tmpl"
    "1 \<le> sc_StartingDeadlineSeconds sp'" "sc_ConcurrencyPolicy sp' = ''forbid''"
    "1 \<le> sc_SuccessfulHistoryLimit sp'" "1 \<le> sc_FailedHistoryLimit sp'"
    by (rule normalize_schedule_spec_cases)
  have "normalize_task_source sp' = normalize_task_source (sp\<lparr>sc_TaskRef := trim_space (sc_TaskRef sp), sc_TaskTemplate := tmpl\<rparr>)"
    using n(8,9) by (simp add: normalize_task_source_def Let_def)
  then have src: "normalize_task_source sp' = Inr tmpl" using normalize_task_source_idem [OF n(1)] by simp
  have "trim_space (sc_TaskRef sp') = sc_TaskRef sp'" using n(8) by simp
  with n src show ?thesis by (cases sp') (simp add: normalize_schedule_spec_def Let_def normal_policy)
qed

lemma schedule_spec_ok_normal:
  "normalize_schedule_spec load sp = Inr sp' \<Longrightarrow> schedule_spec_ok load sp'"
proof (erule normalize_schedule_spec_cases)
  fix tmpl e
  assume t: "normalize_task_source sp = Inr tmpl" and n: "Parse (sc_Schedule sp') = Inr e"
    "load (sc_TimeZone sp') \<noteq> None" "sc_TaskRef sp' = trim_space (sc_TaskRef sp)"
    "sc_TaskTemplate sp' = tmpl" "1 \<le> sc_StartingDeadlineSeconds sp'"
    "sc_ConcurrencyPolicy sp' = ''forbid''" "1 \<le> sc_SuccessfulHistoryLimit sp'"
    "1 \<le> sc_FailedHistoryLimit sp'"
  have "trim_space (sc_TaskRef sp) = [] \<longleftrightarrow> tmpl \<noteq> None"
    using t by (auto simp: normalize_task_source_def Let_def split: if_splits option.splits sum.splits)
  with n show "schedule_spec_ok load sp'" by (simp add: schedule_spec_ok_def)
qed

lemma TaskSchedule_Normalize_idem:
  assumes "TaskSchedule_Normalize load t = Inr t'"
  shows "schedule_ok load t'"
proof -
  from assms obtain sp where sp: "normalize_schedule_spec load (sd_Spec t) = Inr sp"
    by (auto simp: TaskSchedule_Normalize_def Let_def split: if_splits option.splits sum.splits)
  define kind where "kind = (if sd_Kind t = [] then ''TaskSchedule'' else sd_Kind t)"
  define api where "api = (if sd_APIVersion t = [] then ''orloj.dev/v1'' else sd_APIVersion t)"
  define ph where "ph = (if ss_Phase (sd_Status t) = [] then ''Pending'' else ss_Phase (sd_Status t))"
  have c: "equal_fold kind ''TaskSchedule''" "ValidateMetadataName (m_Name (sd_Metadata t)) = None"
    and t': "t' = t\<lparr>sd_APIVersion := api, sd_Kind := kind,
      sd_Metadata := NormalizeObjectMetaNamespace (sd_Metadata t), sd_Spec := sp,
      sd_Status := (sd_Status t)\<lparr>ss_Phase := ph\<rparr>\<rparr>"
    using assms
    unfolding TaskSchedule_Normalize_def Let_def kind_def [symmetric] api_def [symmetric] ph_def [symmetric]
    by (simp_all add: sp NormalizeObjectMetaNamespace_def split: if_splits option.splits)
  have "kind \<noteq> []" "api \<noteq> []" "ph \<noteq> []" by (simp_all add: kind_def api_def ph_def)
  with c normalize_schedule_spec_idem [OF sp] show ?thesis
    by (simp add: t' schedule_ok_def TaskSchedule_Normalize_def Let_def NormalizeObjectMetaNamespace_def)
qed

text \<open>A schedule in normal form, and that the status and the metadata that keep the name do not matter.\<close>

lemma schedule_ok_iff:
  "schedule_ok load t \<longleftrightarrow> sd_APIVersion t \<noteq> [] \<and> sd_Kind t \<noteq> [] \<and> equal_fold (sd_Kind t) ''TaskSchedule''
     \<and> ValidateMetadataName (m_Name (sd_Metadata t)) = None
     \<and> NormalizeNamespace (m_Namespace (sd_Metadata t)) = m_Namespace (sd_Metadata t)
     \<and> normalize_schedule_spec load (sd_Spec t) = Inr (sd_Spec t) \<and> ss_Phase (sd_Status t) \<noteq> []"
proof
  assume "schedule_ok load t"
  then have n: "TaskSchedule_Normalize load t = Inr t" by (simp add: schedule_ok_def)
  then obtain sp where "normalize_schedule_spec load (sd_Spec t) = Inr sp"
    "ValidateMetadataName (m_Name (sd_Metadata t)) = None"
    by (auto simp: TaskSchedule_Normalize_def Let_def NormalizeObjectMetaNamespace_def
        split: if_splits option.splits sum.splits)
  with n show "sd_APIVersion t \<noteq> [] \<and> sd_Kind t \<noteq> [] \<and> equal_fold (sd_Kind t) ''TaskSchedule''
     \<and> ValidateMetadataName (m_Name (sd_Metadata t)) = None
     \<and> NormalizeNamespace (m_Namespace (sd_Metadata t)) = m_Namespace (sd_Metadata t)
     \<and> normalize_schedule_spec load (sd_Spec t) = Inr (sd_Spec t) \<and> ss_Phase (sd_Status t) \<noteq> []"
    by (cases t, cases "sd_Metadata t", cases "sd_Status t")
      (auto simp: TaskSchedule_Normalize_def Let_def NormalizeObjectMetaNamespace_def split: if_splits)
next
  assume "sd_APIVersion t \<noteq> [] \<and> sd_Kind t \<noteq> [] \<and> equal_fold (sd_Kind t) ''TaskSchedule''
     \<and> ValidateMetadataName (m_Name (sd_Metadata t)) = None
     \<and> NormalizeNamespace (m_Namespace (sd_Metadata t)) = m_Namespace (sd_Metadata t)
     \<and> normalize_schedule_spec load (sd_Spec t) = Inr (sd_Spec t) \<and> ss_Phase (sd_Status t) \<noteq> []"
  then show "schedule_ok load t"
    by (simp add: schedule_ok_def TaskSchedule_Normalize_def Let_def NormalizeObjectMetaNamespace_def)
qed

interpretation schedule_res: versioned_resource "''TaskSchedule''" sd_Metadata set_schedule_meta
  schedule_spec_changed "TaskSchedule_Normalize load" "schedule_ok load"
  by unfold_locales (auto intro: TaskSchedule_Normalize_idem, simp_all add: schedule_ok_iff)

abbreviation schedule_store_wf :: "(string \<Rightarrow> location option) \<Rightarrow> TaskScheduleStore \<Rightarrow> bool" where
  "schedule_store_wf load s \<equiv> items_wf sd_Metadata (schedule_ok load) s"

lemma TaskScheduleStore_Upsert_wf:
  "schedule_store_wf load s \<Longrightarrow> schedule_store_wf load (snd (TaskScheduleStore_Upsert load now item s))"
  unfolding TaskScheduleStore_Upsert_def by (rule schedule_res.upsert_wf)

lemma TaskScheduleStore_Delete_wf:
  "schedule_store_wf load s \<Longrightarrow> schedule_store_wf load (snd (TaskScheduleStore_Delete name s))"
  unfolding TaskScheduleStore_Delete_def by (rule schedule_res.delete_wf)

end
