(* ===== verification/Schedule_Controller.thy ===== *)
theory Schedule_Controller
  imports Controller_Common Task_Schedule Task_Store
begin

text \<open>
  The controller of task schedules (controllers/task_schedule_controller.go): when a slot of a
  schedule's cron expression has come, it creates the run task of that slot, prunes old runs and
  writes the schedule's status.

  The state is both stores. What other callers do to them between two accesses of this controller is
  the list \<open>sw_env\<close> in the state, whose head is applied before each access (\<open>sync\<close>); the empty list is
  a quiet system. A pass over one schedule reads the clock once (\<open>now\<close>). The configuration holds what
  the machine provides, the time zones, and the texts of the errors, of which only the fact that they
  are not blank matters. Published events are output and are not modelled.

  A negative history limit would index a slice below zero; normalisation makes the limits positive
  (\<open>schedule_spec_ok\<close>), so they are read as natural numbers.
\<close>

section \<open>State\<close>

datatype schedule_error =
    InvalidSchedule cron_error
  | InvalidTimeZone string
  | InvalidLastTime string
  | TaskRefRequired
  | InvalidTaskRef string
  | TemplateNotFound string
  | NotATemplate string
  | RunNameConflict string
  | ScheduleStoreError api_error

record schedule_config =
  cf_location :: "string \<Rightarrow> location option"
  cf_text :: "schedule_error \<Rightarrow> string"

record sched_world =
  sw_schedules :: TaskScheduleStore
  sw_tasks :: TaskStore
  sw_env :: "(TaskScheduleStore \<times> TaskStore \<Rightarrow> TaskScheduleStore \<times> TaskStore) list"

definition sync :: "sched_world \<Rightarrow> sched_world" where
  "sync w = (case sw_env w of
      [] \<Rightarrow> w
    | e # es \<Rightarrow> (let (ss, ts) = e (sw_schedules w, sw_tasks w)
                 in w\<lparr>sw_schedules := ss, sw_tasks := ts, sw_env := es\<rparr>))"

definition taskScheduleNameLabel :: string where
  "taskScheduleNameLabel = ''orloj.dev/task-schedule''"

definition taskScheduleNamespaceLabel :: string where
  "taskScheduleNamespaceLabel = ''orloj.dev/task-schedule-namespace''"

definition taskScheduleSlotLabel :: string where
  "taskScheduleSlotLabel = ''orloj.dev/task-schedule-slot''"

text \<open>Go's lookup in a map, with the zero value for a missing key.\<close>

definition label_of :: "smap \<Rightarrow> string \<Rightarrow> string" where
  "label_of labels k = (case fmlookup labels k of None \<Rightarrow> [] | Some v \<Rightarrow> v)"

section \<open>Slots\<close>

definition parseScheduleSpec ::
  "schedule_config \<Rightarrow> TaskSchedule \<Rightarrow> schedule_error + (Expression \<times> location)" where
  "parseScheduleSpec cf item =
     (case Parse (sc_Schedule (sd_Spec item)) of
        Inl e \<Rightarrow> Inl (InvalidSchedule e)
      | Inr expr \<Rightarrow>
          (case cf_location cf (sc_TimeZone (sd_Spec item)) of
             None \<Rightarrow> Inl (InvalidTimeZone (sc_TimeZone (sd_Spec item)))
           | Some loc \<Rightarrow> Inr (expr, loc)))"

text \<open>The latest slot that is due, if any, and whether it is within its deadline.\<close>

definition evaluateDueSlot ::
  "TaskSchedule \<Rightarrow> Expression \<Rightarrow> location \<Rightarrow> instant \<Rightarrow> schedule_error + (instant \<times> bool) option" where
  "evaluateDueSlot item expr loc now =
     (case Prev loc expr now of
        None \<Rightarrow> Inr None
      | Some latest \<Rightarrow>
          let last = ss_LastScheduleTime (sd_Status item);
              d = wrap64 (sc_StartingDeadlineSeconds (sd_Spec item) * Second);
              deadline = (if d \<le> 0 then 300 * Second else d);
              due = Inr (Some (latest, now - latest \<le> deadline))
          in if trim_space last \<noteq> [] then
               (case parseControllerTimestamp last of
                  None \<Rightarrow> Inl (InvalidLastTime last)
                | Some t \<Rightarrow> if \<not> t < latest then Inr None else due)
             else due)"

section \<open>Run tasks\<close>

definition resolveTaskRef :: "string \<Rightarrow> string \<Rightarrow> schedule_error + (string \<times> string)" where
  "resolveTaskRef scheduleNamespace taskRef =
     (let ref = trim_space taskRef
      in if ref = [] then Inl TaskRefRequired
         else if \<not> List.member ref CHR ''/'' then Inr (NormalizeNamespace scheduleNamespace, ref)
         else let (ns, name) = split_first CHR ''/'' ref
              in if trim_space name = [] then Inl (InvalidTaskRef taskRef)
                 else Inr (NormalizeNamespace ns, trim_space name))"

text \<open>The loop of sanitizeName, with its flag for a dash just written.\<close>

fun sanitize_loop :: "bool \<Rightarrow> string \<Rightarrow> string" where
  "sanitize_loop lastDash [] = []"
| "sanitize_loop lastDash (r # rs) =
     (if ''a'' \<le> [r] \<and> [r] \<le> ''z'' \<or> is_digit r then r # sanitize_loop False rs
      else if \<not> lastDash then CHR ''-'' # sanitize_loop True rs
      else sanitize_loop lastDash rs)"

definition sanitizeName :: "string \<Rightarrow> string" where
  "sanitizeName value = (if value = [] then [] else trim_cutset ''-'' (sanitize_loop False value))"

text \<open>The layout 20060102-1504, in UTC.\<close>

definition format_slot :: "instant \<Rightarrow> string" where
  "format_slot t =
     (let s = t div Second; c = civil_of_days (s div 86400); r = s mod 86400
      in pad_int 4 (year c) @ two_digits (month c) @ two_digits (day c) @ ''-''
         @ two_digits (r div 3600) @ two_digits (r mod 3600 div 60))"

definition scheduledTaskName :: "string \<Rightarrow> instant \<Rightarrow> string" where
  "scheduledTaskName scheduleName slot =
     (let base = sanitizeName (to_lower (trim_space scheduleName));
          base = (if base = [] then ''schedule'' else base);
          base = (if 40 < length base then trim_cutset ''-'' (take 40 base) else base)
      in base @ ''-'' @ format_slot slot)"

text \<open>The spec a run is created from and the namespace it goes to.\<close>

definition run_template ::
  "TaskSchedule \<Rightarrow> sched_world \<Rightarrow> (schedule_error + (TaskSpec \<times> string)) \<times> sched_world" where
  "run_template item w =
     (case sc_TaskTemplate (sd_Spec item) of
        Some tmpl \<Rightarrow> (Inr (tmpl, NormalizeNamespace (m_Namespace (sd_Metadata item))), w)
      | None \<Rightarrow>
          (case resolveTaskRef (m_Namespace (sd_Metadata item)) (sc_TaskRef (sd_Spec item)) of
             Inl e \<Rightarrow> (Inl e, w)
           | Inr (ns, name) \<Rightarrow>
               let w = sync w
               in case TaskStore_Get (scopedName ns name) (sw_tasks w) of
                    None \<Rightarrow> (Inl (TemplateNotFound (sc_TaskRef (sd_Spec item))), w)
                  | Some template \<Rightarrow>
                      if \<not> equal_fold (trim_space (sp_Mode (t_Spec template))) ''template''
                        then (Inl (NotATemplate (sc_TaskRef (sd_Spec item))), w)
                      else (Inr (t_Spec template, m_Namespace (t_Metadata template)), w)))"

text \<open>A run task that already exists belongs to the slot when its labels say so.\<close>

definition run_matches :: "TaskSchedule \<Rightarrow> instant \<Rightarrow> Task \<Rightarrow> bool" where
  "run_matches item slot existing =
     (let labels = m_Labels (t_Metadata existing)
      in equal_fold (trim_space (label_of labels taskScheduleNameLabel)) (trim_space (m_Name (sd_Metadata item)))
         \<and> equal_fold (trim_space (label_of labels taskScheduleNamespaceLabel))
             (trim_space (m_Namespace (sd_Metadata item)))
         \<and> trim_space (label_of labels taskScheduleSlotLabel) = format_nano slot)"

definition run_task :: "TaskSchedule \<Rightarrow> instant \<Rightarrow> TaskSpec \<Rightarrow> string \<Rightarrow> Task" where
  "run_task item slot spec namespace =
     \<lparr>t_APIVersion = ''orloj.dev/v1'', t_Kind = ''Task'',
       t_Metadata = zero_meta\<lparr>m_Name := scheduledTaskName (m_Name (sd_Metadata item)) slot,
         m_Namespace := namespace,
         m_Labels := fmupd taskScheduleSlotLabel (format_nano slot)
           (fmupd taskScheduleNamespaceLabel (NormalizeNamespace (m_Namespace (sd_Metadata item)))
             (fmupd taskScheduleNameLabel (m_Name (sd_Metadata item)) fmempty))\<rparr>,
       t_Spec = spec\<lparr>sp_Mode := ''run''\<rparr>, t_Status = zero_TaskStatus\<rparr>"

definition ensureRunTask ::
  "instant \<Rightarrow> TaskSchedule \<Rightarrow> instant \<Rightarrow> sched_world \<Rightarrow> (schedule_error + string) \<times> sched_world" where
  "ensureRunTask now item slot w =
     (case run_template item w of
        (Inl e, w) \<Rightarrow> (Inl e, w)
      | (Inr (spec, namespace), w) \<Rightarrow>
          let runKey = scopedName namespace (scheduledTaskName (m_Name (sd_Metadata item)) slot);
              w = sync w
          in case TaskStore_Get runKey (sw_tasks w) of
               Some existing \<Rightarrow>
                 (if run_matches item slot existing then Inr runKey else Inl (RunNameConflict runKey), w)
             | None \<Rightarrow>
                 let w = sync w
                 in case TaskStore_Upsert now (run_task item slot spec namespace) (sw_tasks w) of
                      (Inl e, ts) \<Rightarrow> (Inl (ScheduleStoreError e), w\<lparr>sw_tasks := ts\<rparr>)
                    | (Inr _, ts) \<Rightarrow> (Inr runKey, w\<lparr>sw_tasks := ts\<rparr>))"

section \<open>The runs of a schedule\<close>

definition is_generated :: "TaskSchedule \<Rightarrow> Task \<Rightarrow> bool" where
  "is_generated item t =
     (let labels = m_Labels (t_Metadata t)
      in equal_fold (trim_space (label_of labels taskScheduleNameLabel)) (trim_space (m_Name (sd_Metadata item)))
         \<and> equal_fold (trim_space (label_of labels taskScheduleNamespaceLabel))
             (NormalizeNamespace (m_Namespace (sd_Metadata item))))"

definition generatedTasks :: "TaskSchedule \<Rightarrow> TaskStore \<Rightarrow> Task list" where
  "generatedTasks item ts = filter (is_generated item) (TaskStore_List ts)"

definition taskKey :: "Task \<Rightarrow> string" where
  "taskKey t = scopedName (m_Namespace (t_Metadata t)) (m_Name (t_Metadata t))"

definition is_active :: "Task \<Rightarrow> bool" where
  "is_active t \<longleftrightarrow>
     List.member ['''', ''pending'', ''running''] (to_lower (trim_space (ts_Phase (t_Status t))))"

definition listActiveRuns :: "Task list \<Rightarrow> string list" where
  "listActiveRuns tasks = sort (map taskKey (filter is_active tasks))"

text \<open>The zero \<open>time.Time\<close>, the first second of the year 1.\<close>

definition zero_time :: instant where
  "zero_time = - 62135596800 * Second"

fun first_timestamp :: "string list \<Rightarrow> instant" where
  "first_timestamp [] = zero_time"
| "first_timestamp (value # values) =
     (if trim_space value = [] then first_timestamp values
      else case parseControllerTimestamp value of
             Some ts \<Rightarrow> ts
           | None \<Rightarrow> first_timestamp values)"

definition taskTerminalTime :: "Task \<Rightarrow> instant" where
  "taskTerminalTime t =
     first_timestamp [ts_CompletedAt (t_Status t), ts_StartedAt (t_Status t), m_CreatedAt (t_Metadata t)]"

definition phase_is :: "string list \<Rightarrow> Task \<Rightarrow> bool" where
  "phase_is phases t \<longleftrightarrow> List.member phases (to_lower (trim_space (ts_Phase (t_Status t))))"

text \<open>The newest first; tasks that ended at the same time are in one of the orders the code produces.\<close>

definition newest_first :: "Task list \<Rightarrow> Task list" where
  "newest_first tasks = sort_key (\<lambda>t. - taskTerminalTime t) tasks"

fun delete_tasks :: "Task list \<Rightarrow> int \<Rightarrow> sched_world \<Rightarrow> (int \<times> api_error option) \<times> sched_world" where
  "delete_tasks [] deleted w = ((deleted, None), w)"
| "delete_tasks (t # ts) deleted w =
     (let w = sync w
      in case TaskStore_Delete (taskKey t) (sw_tasks w) of
           (Some e, s) \<Rightarrow> ((deleted, Some e), w\<lparr>sw_tasks := s\<rparr>)
         | (None, s) \<Rightarrow> delete_tasks ts (deleted + 1) (w\<lparr>sw_tasks := s\<rparr>))"

definition surplus :: "TaskSchedule \<Rightarrow> Task list \<Rightarrow> Task list \<times> Task list" where
  "surplus item generated =
     (drop (nat (sc_SuccessfulHistoryLimit (sd_Spec item)))
        (newest_first (filter (phase_is [''succeeded'']) generated)),
      drop (nat (sc_FailedHistoryLimit (sd_Spec item)))
        (newest_first (filter (phase_is [''failed'', ''deadletter'']) generated)))"

definition cleanupHistory ::
  "TaskSchedule \<Rightarrow> sched_world \<Rightarrow> (int \<times> api_error option) \<times> sched_world" where
  "cleanupHistory item w =
     (let w = sync w; (successes, failures) = surplus item (generatedTasks item (sw_tasks w))
      in case delete_tasks successes 0 w of
           ((deleted, Some e), w) \<Rightarrow> ((deleted, Some e), w)
         | ((deleted, None), w) \<Rightarrow> delete_tasks failures deleted w)"

section \<open>Writing the schedule\<close>

abbreviation on_sched_status :: "(TaskScheduleStatus \<Rightarrow> TaskScheduleStatus) \<Rightarrow> TaskSchedule \<Rightarrow> TaskSchedule" where
  "on_sched_status f item \<equiv> item\<lparr>sd_Status := f (sd_Status item)\<rparr>"

fun upsert_schedule_loop ::
  "schedule_config \<Rightarrow> instant \<Rightarrow> nat \<Rightarrow> api_error option \<Rightarrow> TaskSchedule \<Rightarrow> sched_world
    \<Rightarrow> api_error option \<times> sched_world" where
  "upsert_schedule_loop cf now 0 lastErr item w =
     (case lastErr of
        Some e \<Rightarrow> (Some e, w)
      | None \<Rightarrow>
          let w = sync w
          in case TaskScheduleStore_Upsert (cf_location cf) now item (sw_schedules w) of
               (Inl e, s) \<Rightarrow> (Some e, w\<lparr>sw_schedules := s\<rparr>)
             | (Inr _, s) \<Rightarrow> (None, w\<lparr>sw_schedules := s\<rparr>))"
| "upsert_schedule_loop cf now (Suc n) lastErr item w =
     (let w = sync w
      in case TaskScheduleStore_Upsert (cf_location cf) now item (sw_schedules w) of
           (Inr _, s) \<Rightarrow> (None, w\<lparr>sw_schedules := s\<rparr>)
         | (Inl e, s) \<Rightarrow>
             let w = w\<lparr>sw_schedules := s\<rparr>
             in if \<not> IsConflict e then (Some e, w)
                else let w = sync w
                     in case TaskScheduleStore_Get
                               (scopedName (m_Namespace (sd_Metadata item)) (m_Name (sd_Metadata item)))
                               (sw_schedules w) of
                          None \<Rightarrow> (Some e, w)
                        | Some current \<Rightarrow>
                            upsert_schedule_loop cf now n (Some e)
                              (item\<lparr>sd_Metadata := (sd_Metadata item)\<lparr>
                                     m_ResourceVersion := m_ResourceVersion (sd_Metadata current),
                                     m_Generation := m_Generation (sd_Metadata current),
                                     m_CreatedAt := m_CreatedAt (sd_Metadata current),
                                     m_Labels := m_Labels (sd_Metadata current)\<rparr>,
                                   sd_Spec := sd_Spec current\<rparr>) w)"

definition upsertTaskSchedule ::
  "schedule_config \<Rightarrow> instant \<Rightarrow> TaskSchedule \<Rightarrow> sched_world \<Rightarrow> api_error option \<times> sched_world" where
  "upsertTaskSchedule cf now item w = upsert_schedule_loop cf now 5 None item w"

text \<open>The latest end of a succeeded run.\<close>

definition last_success :: "Task list \<Rightarrow> instant" where
  "last_success generated =
     fold (\<lambda>t last. if last < taskTerminalTime t then taskTerminalTime t else last)
       (filter (\<lambda>t. equal_fold (trim_space (ts_Phase (t_Status t))) ''succeeded'') generated) zero_time"

definition refreshed_status :: "TaskSchedule \<Rightarrow> Task list \<Rightarrow> TaskSchedule" where
  "refreshed_status item generated =
     (let last = last_success generated
      in on_sched_status (\<lambda>st. st\<lparr>ss_ActiveRuns := listActiveRuns generated,
           ss_LastSuccessfulTime := (if last = zero_time then [] else format_nano last),
           ss_Phase := (if trim_space (ss_LastError st) = [] then ''Ready'' else ss_Phase st),
           ss_ObservedGeneration := m_Generation (sd_Metadata item)\<rparr>) item)"

definition refreshScheduleStatus ::
  "schedule_config \<Rightarrow> instant \<Rightarrow> TaskSchedule \<Rightarrow> sched_world \<Rightarrow> api_error option \<times> sched_world" where
  "refreshScheduleStatus cf now item w =
     (let w = sync w
      in upsertTaskSchedule cf now (refreshed_status item (generatedTasks item (sw_tasks w))) w)"

section \<open>A pass\<close>

definition schedule_failed :: "schedule_config \<Rightarrow> schedule_error \<Rightarrow> TaskSchedule \<Rightarrow> TaskSchedule" where
  "schedule_failed cf e item =
     on_sched_status (\<lambda>st. st\<lparr>ss_LastError := cf_text cf e, ss_Phase := ''Error''\<rparr>) item"

definition with_next :: "Expression \<Rightarrow> location \<Rightarrow> instant \<Rightarrow> TaskSchedule \<Rightarrow> TaskSchedule" where
  "with_next expr loc now item =
     on_sched_status (\<lambda>st. st\<lparr>ss_NextScheduleTime :=
       (case Next loc expr now of None \<Rightarrow> [] | Some next \<Rightarrow> format_nano next)\<rparr>) item"

definition observed :: "TaskSchedule \<Rightarrow> TaskSchedule" where
  "observed item = on_sched_status (\<lambda>st. st\<lparr>ss_ObservedGeneration := m_Generation (sd_Metadata item)\<rparr>) item"

text \<open>What a due slot leads to: it is recorded, and run unless it is late or an earlier run is active.\<close>

definition handle_due ::
  "schedule_config \<Rightarrow> instant \<Rightarrow> string list \<Rightarrow> instant \<Rightarrow> bool \<Rightarrow> TaskSchedule \<Rightarrow> sched_world
    \<Rightarrow> TaskSchedule \<times> sched_world" where
  "handle_due cf now activeRuns slot withinDeadline item w =
     (let item = on_sched_status (\<lambda>st. st\<lparr>ss_LastScheduleTime := format_nano slot\<rparr>) item
      in if \<not> withinDeadline then (item, w)
         else if equal_fold (sc_ConcurrencyPolicy (sd_Spec item)) ''forbid'' \<and> 0 < length activeRuns
           then (item, w)
         else case ensureRunTask now item slot w of
                (Inl e, w) \<Rightarrow> (schedule_failed cf e item, w)
              | (Inr runKey, w) \<Rightarrow>
                  (on_sched_status (\<lambda>st. st\<lparr>ss_LastError := [], ss_LastTriggeredTask := runKey\<rparr>) item, w))"

definition reconcileSchedule ::
  "schedule_config \<Rightarrow> instant \<Rightarrow> TaskSchedule \<Rightarrow> sched_world \<Rightarrow> api_error option \<times> sched_world" where
  "reconcileSchedule cf now item w =
     (case parseScheduleSpec cf item of
        Inl e \<Rightarrow> upsertTaskSchedule cf now (observed (schedule_failed cf e item)) w
      | Inr (expr, loc) \<Rightarrow>
          let item = on_sched_status (\<lambda>st. st\<lparr>ss_LastError := []\<rparr>) item
          in if sc_Suspend (sd_Spec item) then
               refreshScheduleStatus cf now
                 (observed (with_next expr loc now
                   (on_sched_status (\<lambda>st. st\<lparr>ss_Phase := ''Suspended'', ss_LastError := []\<rparr>) item))) w
             else
               let w = sync w; activeRuns = listActiveRuns (generatedTasks item (sw_tasks w))
               in case evaluateDueSlot item expr loc now of
                    Inl e \<Rightarrow> upsertTaskSchedule cf now (observed (schedule_failed cf e item)) w
                  | Inr due \<Rightarrow>
                      let (item, w) = (case due of
                             None \<Rightarrow> (item, w)
                           | Some (slot, within) \<Rightarrow> handle_due cf now activeRuns slot within item w);
                          ((deleted, cleanupErr), w) = cleanupHistory item w;
                          item = (case cleanupErr of
                                    None \<Rightarrow> item
                                  | Some e \<Rightarrow> schedule_failed cf (ScheduleStoreError e) item)
                      in refreshScheduleStatus cf now (with_next expr loc now item) w)"

fun reconcile_schedules ::
  "schedule_config \<Rightarrow> (nat \<Rightarrow> instant) \<Rightarrow> nat \<Rightarrow> TaskSchedule list \<Rightarrow> sched_world
    \<Rightarrow> api_error option \<times> sched_world" where
  "reconcile_schedules cf clock k [] w = (None, w)"
| "reconcile_schedules cf clock k (item # items) w =
     (case reconcileSchedule cf (clock k) item w of
        (Some e, w) \<Rightarrow> (Some e, w)
      | (None, w) \<Rightarrow> reconcile_schedules cf clock (Suc k) items w)"

text \<open>The clock gives each schedule of the pass its time.\<close>

definition ScheduleController_ReconcileOnce ::
  "schedule_config \<Rightarrow> (nat \<Rightarrow> instant) \<Rightarrow> sched_world \<Rightarrow> api_error option \<times> sched_world" where
  "ScheduleController_ReconcileOnce cf clock w =
     (let w = sync w
      in reconcile_schedules cf clock 0
           (sort_key (\<lambda>x. scopedName (m_Namespace (sd_Metadata x)) (m_Name (sd_Metadata x)))
              (TaskScheduleStore_List (sw_schedules w))) w)"

end
