(* ===== verification/Schedule_Props.thy ===== *)
theory Schedule_Props
  imports Schedule_Controller "HOL-Library.Multiset"
begin

text \<open>
  Properties of the schedule controller in a quiet system (no other writer between its accesses):
  a slot is handled by one pass only, its run task is created once and is recognised afterwards, no
  run starts while another is active, and pruning keeps the newest runs. Two flaws are shown as well:
  a suspended schedule reports Ready, and a run another replica has just created and a worker has
  claimed is overwritten.
\<close>

section \<open>A quiet system\<close>

lemma sync_quiet [simp]: "sw_env w = [] \<Longrightarrow> sync w = w"
  by (simp add: sync_def)

lemma run_template_quiet:
  "sw_env w = [] \<Longrightarrow> snd (run_template item w) = w"
  by (auto simp: run_template_def Let_def split: option.splits sum.splits)

lemma ensureRunTask_quiet:
  assumes "sw_env w = []"
  shows "sw_env (snd (ensureRunTask now item slot w)) = []
    \<and> sw_schedules (snd (ensureRunTask now item slot w)) = sw_schedules w"
proof (cases "run_template item w")
  case (Pair r w1)
  then have "w1 = w" using run_template_quiet [OF assms, of item] by simp
  with Pair assms show ?thesis
    by (auto simp: ensureRunTask_def Let_def split: sum.splits option.splits prod.splits)
qed

lemma delete_tasks_quiet:
  "sw_env w = [] \<Longrightarrow> sw_env (snd (delete_tasks ts n w)) = []
   \<and> sw_schedules (snd (delete_tasks ts n w)) = sw_schedules w"
  by (induction ts n w rule: delete_tasks.induct) (auto simp: Let_def split: prod.splits option.splits)

lemma cleanupHistory_quiet:
  assumes "sw_env w = []"
  shows "sw_env (snd (cleanupHistory item w)) = [] \<and> sw_schedules (snd (cleanupHistory item w)) = sw_schedules w"
proof -
  obtain xs ys where s: "surplus item (generatedTasks item (sw_tasks w)) = (xs, ys)" by fastforce
  obtain n e w1 where d: "delete_tasks xs 0 w = ((n, e), w1)" by (metis prod.exhaust)
  have "sw_env w1 = []" "sw_schedules w1 = sw_schedules w" using delete_tasks_quiet [OF assms, of xs 0] d by simp_all
  then show ?thesis
    using delete_tasks_quiet [of w1 ys n] by (cases e) (simp_all add: cleanupHistory_def assms s d)
qed

text \<open>What a pass changes of a schedule before it writes it is the status alone.\<close>

definition status_only :: "TaskSchedule \<Rightarrow> TaskSchedule \<Rightarrow> bool" where
  "status_only item item' \<longleftrightarrow> sd_Metadata item' = sd_Metadata item \<and> sd_Spec item' = sd_Spec item
     \<and> sd_Kind item' = sd_Kind item \<and> sd_APIVersion item' = sd_APIVersion item
     \<and> (ss_Phase (sd_Status item) \<noteq> [] \<longrightarrow> ss_Phase (sd_Status item') \<noteq> [])"

lemma status_only_refl [simp]: "status_only a a"
  by (simp add: status_only_def)

lemma status_only_trans: "status_only a b \<Longrightarrow> status_only b c \<Longrightarrow> status_only a c"
  by (simp add: status_only_def)

lemma status_only_ok: "status_only a b \<Longrightarrow> schedule_ok load a \<Longrightarrow> schedule_ok load b"
  by (simp add: status_only_def schedule_ok_iff)

lemma status_only_steps:
  "status_only item (schedule_failed cf e item)" "status_only item (with_next expr loc now item)"
  "status_only item (observed item)" "status_only item (refreshed_status item gen)"
  by (auto simp: status_only_def schedule_failed_def with_next_def observed_def refreshed_status_def Let_def)

lemma last_time_kept [simp]:
  "ss_LastScheduleTime (sd_Status (schedule_failed cf e item)) = ss_LastScheduleTime (sd_Status item)"
  "ss_LastScheduleTime (sd_Status (with_next expr loc now item)) = ss_LastScheduleTime (sd_Status item)"
  "ss_LastScheduleTime (sd_Status (refreshed_status item gen)) = ss_LastScheduleTime (sd_Status item)"
  by (simp_all add: schedule_failed_def with_next_def refreshed_status_def Let_def)

lemma handle_due_effect:
  assumes "handle_due cf now runs slot within item w = (item', w')" "sw_env w = []"
  shows "status_only item item' \<and> ss_LastScheduleTime (sd_Status item') = format_nano slot
    \<and> sw_env w' = [] \<and> sw_schedules w' = sw_schedules w"
proof -
  let ?i = "on_sched_status (\<lambda>st. st\<lparr>ss_LastScheduleTime := format_nano slot\<rparr>) item"
  obtain r w1 where e: "ensureRunTask now ?i slot w = (r, w1)" by (metis prod.exhaust)
  have "sw_env w1 = []" "sw_schedules w1 = sw_schedules w"
    using ensureRunTask_quiet [OF assms(2), of now ?i slot] e by simp_all
  with assms e show ?thesis
    by (auto simp: handle_due_def Let_def status_only_def schedule_failed_def split: if_splits sum.splits)
qed

section \<open>Writing the schedule\<close>

definition schedule_version_sound :: "TaskSchedule \<Rightarrow> bool" where
  "schedule_version_sound t \<longleftrightarrow> (\<exists>n. 0 \<le> n \<and> n < 2 ^ 63 - 1 \<and> m_ResourceVersion (sd_Metadata t) = itoa n)"

lemma upsertTaskSchedule_quiet:
  assumes q: "sw_env w = []" and wf: "schedule_store_wf (cf_location cf) (sw_schedules w)"
    and old: "map_of (sw_schedules w) k = Some old" and v: "schedule_version_sound old"
    and st: "status_only old item"
  obtains item' w' where "upsertTaskSchedule cf now item w = (None, w')" "sw_tasks w' = sw_tasks w"
    "sw_env w' = []" "sw_schedules w' = AList.update k item' (sw_schedules w)"
    "sd_Spec item' = sd_Spec item" "sd_Status item' = sd_Status item"
    "m_Name (sd_Metadata item') = m_Name (sd_Metadata item)"
    "m_Namespace (sd_Metadata item') = m_Namespace (sd_Metadata item)"
    "schedule_store_wf (cf_location cf) (sw_schedules w')"
proof -
  let ?load = "cf_location cf"
  note l = items_wf_lookup [OF wf old]
  obtain n where n: "0 \<le> n" "n < 2 ^ 63 - 1" "m_ResourceVersion (sd_Metadata old) = itoa n"
    using v by (auto simp: schedule_version_sound_def)
  have norm: "TaskSchedule_Normalize ?load item = Inr item"
    using status_only_ok [OF st] l by (simp add: schedule_ok_def)
  have md: "sd_Metadata item = sd_Metadata old" using st by (simp add: status_only_def)
  obtain m where m: "initializeUpdateMetadata now ''TaskSchedule'' (sd_Metadata item) (sd_Metadata old)
      (schedule_spec_changed old item) = Inr m"
    using n md by (auto simp: initializeUpdateMetadata_def nextResourceVersion_def Let_def in_int64_bounds)
  have key: "scopedNameFromMeta (sd_Metadata item) = k" using l md by simp
  define item' where "item' = item\<lparr>sd_Metadata := m\<rparr>"
  have up: "TaskScheduleStore_Upsert ?load now item (sw_schedules w) = (Inr item', AList.update k item' (sw_schedules w))"
    using norm m key old by (simp add: TaskScheduleStore_Upsert_def store_upsert_def item'_def)
  have r: "upsertTaskSchedule cf now item w
      = (None, w\<lparr>sw_schedules := AList.update k item' (sw_schedules w)\<rparr>)"
    using up q by (simp add: upsertTaskSchedule_def eval_nat_numeral)
  have "schedule_store_wf ?load (AList.update k item' (sw_schedules w))"
    using TaskScheduleStore_Upsert_wf [OF wf, of now item] up by simp
  with r q show thesis
    using that [of "w\<lparr>sw_schedules := AList.update k item' (sw_schedules w)\<rparr>" item']
      initializeUpdateMetadata_names [OF m] by (simp add: item'_def)
qed

section \<open>Slots\<close>

lemma evaluateDueSlot_some:
  assumes "evaluateDueSlot item expr loc now = Inr (Some (slot, within))"
  shows "Prev loc expr now = Some slot"
    and "parseControllerTimestamp (ss_LastScheduleTime (sd_Status item)) = Some t \<Longrightarrow> t < slot"
  using assms
  by (auto simp: evaluateDueSlot_def Let_def split: option.splits if_splits dest: parseControllerTimestamp_blank)

lemma reconcile_due:
  assumes q: "sw_env w = []" and wf: "schedule_store_wf (cf_location cf) (sw_schedules w)"
    and st: "map_of (sw_schedules w) k = Some item" and v: "schedule_version_sound item"
    and parsed: "parseScheduleSpec cf item = Inr (expr, loc)" and ns: "\<not> sc_Suspend (sd_Spec item)"
    and due: "evaluateDueSlot item expr loc now = Inr (Some (slot, within))"
  obtains item' w' where "reconcileSchedule cf now item w = (None, w')" "sw_env w' = []"
    "map_of (sw_schedules w') k = Some item'" "sd_Spec item' = sd_Spec item"
    "ss_LastScheduleTime (sd_Status item') = format_nano slot"
    "schedule_store_wf (cf_location cf) (sw_schedules w')"
proof -
  let ?i0 = "on_sched_status (\<lambda>st. st\<lparr>ss_LastError := []\<rparr>) item"
  let ?runs = "listActiveRuns (generatedTasks ?i0 (sw_tasks w))"
  have due0: "evaluateDueSlot ?i0 expr loc now = Inr (Some (slot, within))"
    using due by (simp add: evaluateDueSlot_def cong: option.case_cong)
  obtain i1 w1 where h: "handle_due cf now ?runs slot within ?i0 w = (i1, w1)" by (metis prod.exhaust)
  note e1 = handle_due_effect [OF h q]
  obtain n err w2 where c: "cleanupHistory i1 w1 = ((n, err), w2)" by (metis prod.exhaust)
  have e2: "sw_env w2 = []" "sw_schedules w2 = sw_schedules w"
    using cleanupHistory_quiet [of w1 i1] c e1 by simp_all
  define i2 where "i2 = (case err of None \<Rightarrow> i1 | Some e \<Rightarrow> schedule_failed cf (ScheduleStoreError e) i1)"
  define i3 where "i3 = refreshed_status (with_next expr loc now i2) (generatedTasks (with_next expr loc now i2) (sw_tasks w2))"
  have r: "reconcileSchedule cf now item w = upsertTaskSchedule cf now i3 w2"
    using parsed ns q e2(1)
    by (simp add: reconcileSchedule_def Let_def due0 h c i2_def i3_def refreshScheduleStatus_def)
  have "status_only item ?i0" by (simp add: status_only_def)
  moreover have "status_only i1 i2" by (cases err) (simp_all add: i2_def status_only_steps)
  ultimately have so: "status_only item i3"
    unfolding i3_def using e1 status_only_steps status_only_trans by metis
  have last: "ss_LastScheduleTime (sd_Status i3) = format_nano slot"
    using e1 by (cases err) (simp_all add: i3_def i2_def)
  obtain item' w' where u: "upsertTaskSchedule cf now i3 w2 = (None, w')" "sw_env w' = []"
    "sw_schedules w' = AList.update k item' (sw_schedules w2)" "sd_Spec item' = sd_Spec i3"
    "sd_Status item' = sd_Status i3" "schedule_store_wf (cf_location cf) (sw_schedules w')"
    by (rule upsertTaskSchedule_quiet [of w2 cf k item i3 now]) (use e2 wf st v so in auto)
  show thesis
    by (rule that [of w' item']) (use u r last so in \<open>auto simp: update_conv' status_only_def\<close>)
qed

section \<open>Run tasks\<close>

lemma ensureRunTask_cases:
  assumes q: "sw_env w = []" and r: "ensureRunTask now item slot w = (Inr key, w')"
  obtains spec ns where "fst (run_template item w) = Inr (spec, ns)"
    "key = scopedName ns (scheduledTaskName (m_Name (sd_Metadata item)) slot)"
    "(\<exists>t. TaskStore_Get key (sw_tasks w) = Some t \<and> run_matches item slot t \<and> w' = w)
     \<or> TaskStore_Get key (sw_tasks w) = None
       \<and> (\<exists>t ts. TaskStore_Upsert now (run_task item slot spec ns) (sw_tasks w) = (Inr t, ts)
            \<and> w' = w\<lparr>sw_tasks := ts\<rparr>)"
proof -
  have t: "snd (run_template item w) = w" using run_template_quiet [OF q] .
  then obtain spec ns where s: "run_template item w = (Inr (spec, ns), w)"
    using r by (cases "run_template item w"; cases "fst (run_template item w)")
      (auto simp: ensureRunTask_def)
  show thesis
    by (rule that [of spec ns]) (use r q s in \<open>auto simp: ensureRunTask_def Let_def split: option.splits sum.splits prod.splits if_splits\<close>)
qed

lemma initialize_labels:
  "initializeCreateMetadata now r m = Inr m' \<Longrightarrow> m_Labels m' = m_Labels m"
  "initializeUpdateMetadata now r m cur ch = Inr m' \<Longrightarrow> m_Labels m' = m_Labels m"
  unfolding initializeCreateMetadata_def initializeUpdateMetadata_def
  by (auto simp: Let_def split: if_splits option.splits)

lemma TaskStore_Upsert_task:
  assumes "TaskStore_Upsert now item s = (Inr t, s')"
  shows "m_Labels (t_Metadata t) = m_Labels (t_Metadata item)"
    and "scopedNameFromMeta (t_Metadata t) = scopedNameFromMeta (t_Metadata item)"
    and "st_items s' = AList.update (scopedNameFromMeta (t_Metadata t)) t (st_items s)"
proof -
  from assms obtain it where it: "Task_Normalize item = Inr it"
    and up: "store_upsert ''Task'' t_Metadata set_task_meta task_spec_changed Task_Normalize now item
      (st_items s) = (Inr t, st_items s')"
    by (auto simp: TaskStore_Upsert_def store_upsert_def split: prod.splits sum.splits)
  from it have im: "t_Metadata it = NormalizeObjectMetaNamespace (t_Metadata item)"
    by (auto simp: Task_Normalize_def Let_def split: if_splits option.splits sum.splits)
  define res where "res = (case map_of (st_items s) (scopedNameFromMeta (t_Metadata it)) of
      None \<Rightarrow> initializeCreateMetadata now ''Task'' (t_Metadata it)
    | Some ex \<Rightarrow> initializeUpdateMetadata now ''Task'' (t_Metadata it) (t_Metadata ex) (task_spec_changed ex it))"
  have "(case res of Inl e \<Rightarrow> (Inl e, st_items s)
    | Inr m \<Rightarrow> (Inr (set_task_meta m it),
        AList.update (scopedNameFromMeta (t_Metadata it)) (set_task_meta m it) (st_items s)))
    = (Inr t, st_items s')"
    using up by (simp add: store_upsert_def Let_def it res_def)
  then obtain m where res: "res = Inr m" and m: "t = set_task_meta m it"
    and m2: "st_items s' = AList.update (scopedNameFromMeta (t_Metadata it)) t (st_items s)"
    by (cases res) auto
  have m3: "initializeCreateMetadata now ''Task'' (t_Metadata it) = Inr m
      \<or> (\<exists>cur ch. initializeUpdateMetadata now ''Task'' (t_Metadata it) cur ch = Inr m)"
    using res by (auto simp: res_def split: option.splits)
  have lab: "m_Labels m = m_Labels (t_Metadata it)" "m_Name m = m_Name (t_Metadata it)"
    "m_Namespace m = m_Namespace (t_Metadata it)"
    using m3 initialize_labels version_ok_create initializeUpdateMetadata_names by blast+
  show "m_Labels (t_Metadata t) = m_Labels (t_Metadata item)"
    using m lab im by (simp add: NormalizeObjectMetaNamespace_def)
  have "scopedNameFromMeta (t_Metadata t) = scopedNameFromMeta (t_Metadata it)"
    using m lab by (simp add: scopedNameFromMeta_def)
  moreover have "\<dots> = scopedNameFromMeta (t_Metadata item)"
    by (simp add: im NormalizeObjectMetaNamespace_def scopedNameFromMeta_def scopedName_def)
  ultimately show "scopedNameFromMeta (t_Metadata t) = scopedNameFromMeta (t_Metadata item)"
    "st_items s' = AList.update (scopedNameFromMeta (t_Metadata t)) t (st_items s)"
    using m2 by simp_all
qed

lemma run_task_matches:
  assumes "NormalizeNamespace (m_Namespace (sd_Metadata item)) = m_Namespace (sd_Metadata item)"
    and "m_Labels (t_Metadata t) = m_Labels (t_Metadata (run_task item slot spec ns))"
  shows "run_matches item slot t"
proof -
  have "taskScheduleNameLabel \<noteq> taskScheduleNamespaceLabel" "taskScheduleNameLabel \<noteq> taskScheduleSlotLabel"
    "taskScheduleNamespaceLabel \<noteq> taskScheduleSlotLabel"
    by (simp_all add: taskScheduleNameLabel_def taskScheduleNamespaceLabel_def taskScheduleSlotLabel_def)
  with assms show ?thesis
    by (simp add: run_matches_def run_task_def label_of_def Let_def format_trim)
qed

text \<open>The template is looked up in the same place, and the run does not hide it.\<close>

lemma run_template_same:
  assumes "sw_env w = []" "sw_env w1 = []" "fst (run_template item w) = Inr r"
    and "\<And>k t. TaskStore_Get k (sw_tasks w) = Some t \<Longrightarrow> TaskStore_Get k (sw_tasks w1) = Some t"
  shows "run_template item w1 = (Inr r, w1)"
proof (cases "sc_TaskTemplate (sd_Spec item)")
  case None
  with assms(1,3) obtain ns name t where
    "resolveTaskRef (m_Namespace (sd_Metadata item)) (sc_TaskRef (sd_Spec item)) = Inr (ns, name)"
    "TaskStore_Get (scopedName ns name) (sw_tasks w) = Some t"
    by (auto simp: run_template_def Let_def split: sum.splits option.splits)
  moreover from this(2) have "TaskStore_Get (scopedName ns name) (sw_tasks w1) = Some t" by (rule assms(4))
  ultimately show ?thesis using None assms(1-3) by (auto simp: run_template_def split: if_splits)
qed (use assms(3) in \<open>simp add: run_template_def\<close>)

section \<open>Pruning\<close>

lemma delete_tasks_only:
  assumes "sw_env w = []"
  shows "map_of (st_items (sw_tasks (snd (delete_tasks ts n w)))) k = map_of (st_items (sw_tasks w)) k
    \<or> map_of (st_items (sw_tasks (snd (delete_tasks ts n w)))) k = None
      \<and> (\<exists>t \<in> set ts. normalizeLookupName (taskKey t) = k)"
  using assms
proof (induction ts n w rule: delete_tasks.induct)
  case (2 t ts n w)
  obtain e s where d: "TaskStore_Delete (taskKey t) (sw_tasks w) = (e, s)" by (metis prod.exhaust)
  have s: "map_of (st_items s) k = map_of (st_items (sw_tasks w)) k
      \<or> map_of (st_items s) k = None \<and> normalizeLookupName (taskKey t) = k"
    using d by (auto simp: TaskStore_Delete_def Let_def delete_conv' split: if_splits)
  show ?case
  proof (cases e)
    case None
    let ?m = "map_of (st_items (sw_tasks (snd (delete_tasks ts (n + 1) (w\<lparr>sw_tasks := s\<rparr>)))))"
    have "?m k = map_of (st_items s) k \<or> ?m k = None \<and> (\<exists>t \<in> set ts. normalizeLookupName (taskKey t) = k)"
      using 2(1) [of w e s] 2(2) d None by simp
    moreover have "snd (delete_tasks (t # ts) n w) = snd (delete_tasks ts (n + 1) (w\<lparr>sw_tasks := s\<rparr>))"
      using 2(2) d None by simp
    ultimately show ?thesis using s by auto
  next
    case (Some x)
    with 2(2) d s show ?thesis by auto
  qed
qed simp

lemma cleanup_only:
  assumes "sw_env w = []"
  shows "map_of (st_items (sw_tasks (snd (cleanupHistory item w)))) k = map_of (st_items (sw_tasks w)) k
    \<or> map_of (st_items (sw_tasks (snd (cleanupHistory item w)))) k = None
      \<and> (\<exists>t \<in> set (generatedTasks item (sw_tasks w)).
            phase_is [''succeeded'', ''failed'', ''deadletter''] t \<and> normalizeLookupName (taskKey t) = k)"
proof -
  obtain xs ys where s: "surplus item (generatedTasks item (sw_tasks w)) = (xs, ys)" by fastforce
  then have sub: "set xs \<subseteq> set (filter (phase_is [''succeeded'']) (generatedTasks item (sw_tasks w)))"
    "set ys \<subseteq> set (filter (phase_is [''failed'', ''deadletter'']) (generatedTasks item (sw_tasks w)))"
    by (auto simp: surplus_def newest_first_def dest!: in_set_dropD)
  obtain n e w1 where d: "delete_tasks xs 0 w = ((n, e), w1)" by (metis prod.exhaust)
  have q1: "sw_env w1 = []" using delete_tasks_quiet [OF assms, of xs 0] d by simp
  have fin: "snd (cleanupHistory item w) = (case e of Some _ \<Rightarrow> w1 | None \<Rightarrow> snd (delete_tasks ys n w1))"
    by (cases e) (simp_all add: cleanupHistory_def assms s d)
  let ?K = "\<exists>t \<in> set xs \<union> set ys. normalizeLookupName (taskKey t) = k"
  let ?m = "\<lambda>w. map_of (st_items (sw_tasks w)) k"
  have 1: "?m w1 = ?m w \<or> ?m w1 = None \<and> ?K"
    using delete_tasks_only [OF assms, of xs 0 k] d by auto
  have 2: "?m (snd (delete_tasks ys n w1)) = ?m w1 \<or> ?m (snd (delete_tasks ys n w1)) = None \<and> ?K"
    using delete_tasks_only [OF q1, of ys n k] by auto
  have "?m (snd (cleanupHistory item w)) = ?m w \<or> ?m (snd (cleanupHistory item w)) = None \<and> ?K"
    using 1 2 by (cases e) (auto simp: fin)
  moreover have "\<exists>t \<in> set (generatedTasks item (sw_tasks w)).
      phase_is [''succeeded'', ''failed'', ''deadletter''] t \<and> normalizeLookupName (taskKey t) = k" if ?K
    using that sub by (fastforce simp: phase_is_def)
  ultimately show ?thesis by blast
qed

text \<open>Writing the schedule leaves the tasks alone.\<close>

lemma upsert_schedule_loop_tasks:
  "sw_env w = [] \<Longrightarrow> sw_tasks (snd (upsert_schedule_loop cf now n le item w)) = sw_tasks w"
  by (induction cf now n le item w rule: upsert_schedule_loop.induct)
    (auto simp: Let_def split: option.splits prod.splits sum.splits)

lemma write_tasks [simp]:
  "sw_env w = [] \<Longrightarrow> sw_tasks (snd (upsertTaskSchedule cf now item w)) = sw_tasks w"
  "sw_env w = [] \<Longrightarrow> sw_tasks (snd (refreshScheduleStatus cf now item w)) = sw_tasks w"
  by (simp_all add: upsertTaskSchedule_def refreshScheduleStatus_def upsert_schedule_loop_tasks)

lemma generatedTasks_metadata:
  "sd_Metadata a = sd_Metadata b \<Longrightarrow> generatedTasks a s = generatedTasks b s"
  by (simp add: generatedTasks_def is_generated_def [abs_def])

lemma TaskStore_List_simp:
  "TaskStore_List s = sort_key (\<lambda>t. m_Name (t_Metadata t)) (map snd (st_items s))"
  by (simp add: TaskStore_List_def TaskStore_ListPaged_def)

lemma TaskStore_List_keys:
  assumes "task_store_wf s"
  shows "t \<in> set (TaskStore_List s) \<longleftrightarrow> map_of (st_items s) (taskKey t) = Some t"
    and "distinct (map taskKey (TaskStore_List s))"
proof -
  have wf: "items_wf t_Metadata task_ok (st_items s)" using assms by (simp add: task_store_wf_def)
  have key: "k = taskKey t" if "(k, t) \<in> set (st_items s)" for k t
    using that items_wf_lookup [OF wf] items_wf_member [OF wf, of k t]
    by (auto simp: taskKey_def scopedNameFromMeta_def)
  then show "t \<in> set (TaskStore_List s) \<longleftrightarrow> map_of (st_items s) (taskKey t) = Some t"
    using items_wf_member [OF wf] by (force simp: TaskStore_List_simp)
  have "map taskKey (map snd (st_items s)) = map fst (st_items s)" using key by auto
  moreover have "distinct (map fst (st_items s))" using wf by (simp add: items_wf_def)
  moreover have "mset (map taskKey (TaskStore_List s)) = mset (map taskKey (map snd (st_items s)))"
    by (simp only: TaskStore_List_simp mset_map mset_sort)
  ultimately show "distinct (map taskKey (TaskStore_List s))"
    by (metis mset_eq_imp_distinct_iff)
qed

lemma delete_tasks_all:
  assumes "sw_env w = []" "distinct (map taskKey ts)"
    and "\<forall>t \<in> set ts. normalizeLookupName (taskKey t) = taskKey t \<and> map_of (st_items (sw_tasks w)) (taskKey t) \<noteq> None"
  shows "fst (delete_tasks ts n w) = (n + int (length ts), None)
    \<and> (\<forall>k. map_of (st_items (sw_tasks (snd (delete_tasks ts n w)))) k
         = (if k \<in> taskKey ` set ts then None else map_of (st_items (sw_tasks w)) k))"
  using assms
proof (induction ts arbitrary: n w)
  case (Cons t ts)
  define s where "s = (sw_tasks w)\<lparr>st_items := AList.delete (taskKey t) (st_items (sw_tasks w)),
    st_logs := AList.delete (taskKey t) (st_logs (sw_tasks w))\<rparr>"
  have d: "TaskStore_Delete (taskKey t) (sw_tasks w) = (None, s)"
    using Cons.prems(3) by (auto simp: TaskStore_Delete_def Let_def s_def)
  have m: "map_of (st_items s) k = (if k = taskKey t then None else map_of (st_items (sw_tasks w)) k)" for k
    by (simp add: s_def delete_conv')
  have "\<forall>t' \<in> set ts. normalizeLookupName (taskKey t') = taskKey t' \<and> map_of (st_items s) (taskKey t') \<noteq> None"
    using Cons.prems(2,3) by (auto simp: m) (metis image_eqI)
  with Cons.IH [of "w\<lparr>sw_tasks := s\<rparr>" "n + 1"] Cons.prems(1,2) d m show ?case by auto
qed simp

lemma delete_tasks_wf:
  "sw_env w = [] \<Longrightarrow> task_store_wf (sw_tasks w) \<Longrightarrow> task_store_wf (sw_tasks (snd (delete_tasks ts n w)))"
proof (induction ts arbitrary: n w)
  case (Cons t ts)
  obtain e s where d: "TaskStore_Delete (taskKey t) (sw_tasks w) = (e, s)" by (metis prod.exhaust)
  have "task_store_wf s" using Delete_wf [OF Cons.prems(2), of "taskKey t"] d by simp
  with Cons d show ?case by (cases e) auto
qed simp

lemma cleanup_wf:
  assumes "sw_env w = []" "task_store_wf (sw_tasks w)"
  shows "task_store_wf (sw_tasks (snd (cleanupHistory item w)))"
proof -
  obtain xs ys where s: "surplus item (generatedTasks item (sw_tasks w)) = (xs, ys)" by fastforce
  obtain n e w1 where d: "delete_tasks xs 0 w = ((n, e), w1)" by (metis prod.exhaust)
  have "sw_env w1 = []" "task_store_wf (sw_tasks w1)"
    using delete_tasks_quiet [OF assms(1), of xs 0] delete_tasks_wf [OF assms, of xs 0] d by simp_all
  then show ?thesis
    using delete_tasks_wf [of w1 ys n] by (cases e) (simp_all add: cleanupHistory_def assms s d)
qed

lemma surplus_parts:
  assumes "task_store_wf s" "surplus item (generatedTasks item s) = (xs, ys)"
  shows "distinct (map taskKey (xs @ ys))" "set (xs @ ys) \<subseteq> set (generatedTasks item s)"
proof -
  let ?g = "generatedTasks item s"
  have d: "distinct (map taskKey ?g)"
    using TaskStore_List_keys(2) [OF assms(1)] by (simp add: generatedTasks_def distinct_map_filter)
  have part: "distinct (map taskKey (drop n (newest_first (filter P ?g))))
      \<and> set (drop n (newest_first (filter P ?g))) \<subseteq> set (filter P ?g)" for n P
  proof -
    have "mset (map taskKey (newest_first (filter P ?g))) = mset (map taskKey (filter P ?g))"
      by (simp only: newest_first_def mset_map mset_sort)
    then have "distinct (map taskKey (newest_first (filter P ?g)))"
      using d by (metis distinct_map_filter mset_eq_imp_distinct_iff)
    then show ?thesis by (auto simp: drop_map [symmetric] newest_first_def dest!: in_set_dropD)
  qed
  have x: "xs = drop (nat (sc_SuccessfulHistoryLimit (sd_Spec item))) (newest_first (filter (phase_is [''succeeded'']) ?g))"
    "ys = drop (nat (sc_FailedHistoryLimit (sd_Spec item))) (newest_first (filter (phase_is [''failed'', ''deadletter'']) ?g))"
    using assms(2) by (simp_all add: surplus_def)
  show sub: "set (xs @ ys) \<subseteq> set ?g" using part unfolding x by auto
  have "taskKey a \<noteq> taskKey b" if "a \<in> set xs" "b \<in> set ys" for a b
  proof
    assume e: "taskKey a = taskKey b"
    have "phase_is [''succeeded''] a" "phase_is [''failed'', ''deadletter''] b" "a \<in> set ?g" "b \<in> set ?g"
      using that part unfolding x by auto
    moreover from this have "a = b" using e d by (meson distinct_map inj_on_def)
    ultimately show False by (auto simp: phase_is_def)
  qed
  with part show "distinct (map taskKey (xs @ ys))" unfolding x by (auto simp: image_iff)
qed

lemma cleanup_all:
  assumes q: "sw_env w = []" and wf: "task_store_wf (sw_tasks w)"
    and keys: "\<forall>k t. map_of (st_items (sw_tasks w)) k = Some t \<longrightarrow> normalizeLookupName k = k"
    and s: "surplus item (generatedTasks item (sw_tasks w)) = (xs, ys)"
  shows "fst (cleanupHistory item w) = (int (length xs + length ys), None)
    \<and> (\<forall>k. map_of (st_items (sw_tasks (snd (cleanupHistory item w)))) k
         = (if k \<in> taskKey ` set (xs @ ys) then None else map_of (st_items (sw_tasks w)) k))"
proof -
  note p = surplus_parts [OF wf s]
  have st: "normalizeLookupName (taskKey t) = taskKey t \<and> map_of (st_items (sw_tasks w)) (taskKey t) = Some t"
    if "t \<in> set (xs @ ys)" for t
    using that p(2) TaskStore_List_keys(1) [OF wf] keys by (auto simp: generatedTasks_def)
  have x: "fst (delete_tasks xs 0 w) = (int (length xs), None)
      \<and> (\<forall>k. map_of (st_items (sw_tasks (snd (delete_tasks xs 0 w)))) k
           = (if k \<in> taskKey ` set xs then None else map_of (st_items (sw_tasks w)) k))"
    using delete_tasks_all [OF q, of xs 0] p(1) st by simp
  obtain w1 where w1: "delete_tasks xs 0 w = ((int (length xs), None), w1)"
    using x by (cases "delete_tasks xs 0 w") auto
  have q1: "sw_env w1 = []" using delete_tasks_quiet [OF q, of xs 0] w1 by simp
  have "\<forall>t \<in> set ys. normalizeLookupName (taskKey t) = taskKey t \<and> map_of (st_items (sw_tasks w1)) (taskKey t) \<noteq> None"
    using st x w1 p(1) by auto
  with delete_tasks_all [OF q1, of ys "int (length xs)"] p(1) x w1 show ?thesis
    by (auto simp: cleanupHistory_def q s)
qed

section \<open>A demonstration\<close>

text \<open>A schedule every five minutes with a task template in place, as the store holds it.\<close>

definition demo_cf :: schedule_config where
  "demo_cf = \<lparr>cf_location = (\<lambda>z. if z = ''UTC'' then Some utc else None), cf_text = (\<lambda>_. ''error'')\<rparr>"

definition demo_template :: TaskSpec where
  "demo_template = zero_TaskSpec\<lparr>sp_System := ''s'', sp_Priority := ''normal'',
     sp_Retry := \<lparr>rp_MaxAttempts = 1, rp_Backoff = ''0s''\<rparr>,
     sp_MessageRetry := \<lparr>mr_MaxAttempts = 1, mr_Backoff = ''0s'', mr_MaxBackoff = ''24h'',
       mr_Jitter = ''full'', mr_NonRetryable = []\<rparr>\<rparr>"

definition demo_schedule :: TaskSchedule where
  "demo_schedule = \<lparr>sd_APIVersion = ''orloj.dev/v1'', sd_Kind = ''TaskSchedule'',
     sd_Metadata = zero_meta\<lparr>m_Name := ''n'', m_Namespace := ''default'', m_ResourceVersion := ''1''\<rparr>,
     sd_Spec = \<lparr>sc_TaskRef = [], sc_TaskTemplate = Some demo_template,
       sc_Schedule = ''*/5 * * * *'', sc_TimeZone = ''UTC'', sc_Suspend = False,
       sc_StartingDeadlineSeconds = 300, sc_ConcurrencyPolicy = ''forbid'', sc_SuccessfulHistoryLimit = 1,
       sc_FailedHistoryLimit = 1\<rparr>,
     sd_Status = \<lparr>ss_Phase = ''Ready'', ss_LastError = [], ss_LastScheduleTime = [],
       ss_LastSuccessfulTime = [], ss_NextScheduleTime = [], ss_LastTriggeredTask = [],
       ss_ActiveRuns = [], ss_ObservedGeneration = 0\<rparr>\<rparr>"

definition demo_sched_world :: "TaskSchedule \<Rightarrow> TaskStore \<Rightarrow> sched_world" where
  "demo_sched_world item s = \<lparr>sw_schedules = [(''default/n'', item)], sw_tasks = s, sw_env = []\<rparr>"

lemma demo_template_normal: "normalize_task_template demo_template = Inr demo_template"
  by code_simp

lemma demo_parse:
  obtains e where "Parse ''*/5 * * * *'' = Inr e"
    "\<And>item. ss_LastScheduleTime (sd_Status item) = [] \<Longrightarrow> sd_Spec item = sd_Spec demo_schedule \<Longrightarrow>
      evaluateDueSlot item e utc (9 * Minute) = Inr (Some (5 * Minute, True))"
proof -
  have "case Parse ''*/5 * * * *'' of Inr e \<Rightarrow>
      Prev utc e (9 * Minute) = Some (5 * Minute) | _ \<Rightarrow> False"
    by code_simp
  then obtain e where "Parse ''*/5 * * * *'' = Inr e" "Prev utc e (9 * Minute) = Some (5 * Minute)"
    by (auto split: sum.splits)
  then show thesis
    using that by (simp add: evaluateDueSlot_def Let_def demo_schedule_def wrap64_id in_int64_bounds)
qed

lemma demo_schedule_ok:
  "schedule_ok (cf_location demo_cf) demo_schedule"
  "schedule_ok (cf_location demo_cf) (demo_schedule\<lparr>sd_Spec := (sd_Spec demo_schedule)\<lparr>sc_Suspend := True\<rparr>\<rparr>)"
proof -
  obtain e where e: "Parse ''*/5 * * * *'' = Inr e" by (rule demo_parse)
  have w: "trim_space ''*/5 * * * *'' = ''*/5 * * * *''" "trim_space ''UTC'' = ''UTC''"
    "NormalizeNamespace ''default'' = ''default''" "ValidateMetadataName ''n'' = None"
    "equal_fold ''TaskSchedule'' ''TaskSchedule''" by code_simp+
  show "schedule_ok (cf_location demo_cf) demo_schedule"
    "schedule_ok (cf_location demo_cf) (demo_schedule\<lparr>sd_Spec := (sd_Spec demo_schedule)\<lparr>sc_Suspend := True\<rparr>\<rparr>)"
    unfolding schedule_ok_iff
    by (simp_all add: demo_schedule_def w e normalize_schedule_spec_def normalize_task_source_def
        demo_template_normal normal_policy demo_cf_def Let_def)
qed

lemma demo_sched_world_wf:
  assumes "schedule_ok load item" "m_Name (sd_Metadata item) = ''n''" "m_Namespace (sd_Metadata item) = ''default''"
    "m_ResourceVersion (sd_Metadata item) = ''1''"
  shows "schedule_store_wf load (sw_schedules (demo_sched_world item s))" "schedule_version_sound item"
proof -
  have "scopedName ''default'' ''n'' = ''default/n''" by code_simp
  then show "schedule_store_wf load (sw_schedules (demo_sched_world item s))"
    using assms one_version by (simp add: demo_sched_world_def items_wf_def scopedNameFromMeta_def version_ok_def)
  show "schedule_version_sound item"
    using assms(4) by (simp add: schedule_version_sound_def itoa_numerals exI [of _ 1])
qed

section \<open>Properties\<close>

text \<open>
  C34: A slot is handled by one pass. In a quiet system, a pass over a stored schedule that is not
  suspended and has a due slot succeeds and stores the slot as the last one; the slot matches the
  cron expression, is not in the future and lies after the last one stored before; and whenever a
  later pass over the stored schedule finds a due slot, that slot is a later one.
\<close>

theorem slot_handled_once:
  assumes "sw_env w = []" "schedule_store_wf (cf_location cf) (sw_schedules w)"
    and "map_of (sw_schedules w) k = Some item" "schedule_version_sound item"
    and "parseScheduleSpec cf item = Inr (expr, loc)" "\<not> sc_Suspend (sd_Spec item)"
    and "evaluateDueSlot item expr loc now = Inr (Some (slot, within))" "year_in_range slot"
  shows "\<exists>item' w'. reconcileSchedule cf now item w = (None, w')
    \<and> map_of (sw_schedules w') k = Some item' \<and> sd_Spec item' = sd_Spec item
    \<and> ss_LastScheduleTime (sd_Status item') = format_nano slot
    \<and> slot \<le> now \<and> cron_matches loc expr slot
    \<and> (\<forall>t. parseControllerTimestamp (ss_LastScheduleTime (sd_Status item)) = Some t \<longrightarrow> t < slot)
    \<and> (\<forall>later slot2 within2. evaluateDueSlot item' expr loc later = Inr (Some (slot2, within2)) \<longrightarrow> slot < slot2)"
proof -
  obtain item' w' where r: "reconcileSchedule cf now item w = (None, w')"
    "map_of (sw_schedules w') k = Some item'" "sd_Spec item' = sd_Spec item"
    "ss_LastScheduleTime (sd_Status item') = format_nano slot"
    by (rule reconcile_due [OF assms(1-7)]) blast
  have slot: "slot \<le> now" "cron_matches loc expr slot"
    using Prev_nearest [where loc = loc and e = expr and ?t0.0 = now] evaluateDueSlot_some(1) [OF assms(7)] by simp_all
  have last: "\<forall>t. parseControllerTimestamp (ss_LastScheduleTime (sd_Status item)) = Some t \<longrightarrow> t < slot"
    using evaluateDueSlot_some(2) [OF assms(7)] by blast
  have "\<forall>later slot2 within2. evaluateDueSlot item' expr loc later = Inr (Some (slot2, within2)) \<longrightarrow> slot < slot2"
    using evaluateDueSlot_some(2) [of item' expr loc _ _ _ slot] assms(8) r(4) by auto
  with r slot last show ?thesis by blast
qed

theorem slot_handled_once_witness:
  "\<exists>item' w'. reconcileSchedule demo_cf (9 * Minute) demo_schedule (demo_sched_world demo_schedule NewTaskStore) = (None, w')
    \<and> map_of (sw_schedules w') ''default/n'' = Some item'
    \<and> ss_LastScheduleTime (sd_Status item') = ''1970-01-01T00:05:00Z''"
proof -
  let ?w = "demo_sched_world demo_schedule NewTaskStore"
  obtain e where e: "Parse ''*/5 * * * *'' = Inr e"
    "evaluateDueSlot demo_schedule e utc (9 * Minute) = Inr (Some (5 * Minute, True))"
    by (rule demo_parse) (simp add: demo_schedule_def)
  have p: "parseScheduleSpec demo_cf demo_schedule = Inr (e, utc)"
    by (simp add: parseScheduleSpec_def demo_schedule_def demo_cf_def e)
  have i: "sw_env ?w = []" "map_of (sw_schedules ?w) ''default/n'' = Some demo_schedule"
    "\<not> sc_Suspend (sd_Spec demo_schedule)" "m_Name (sd_Metadata demo_schedule) = ''n''"
    "m_Namespace (sd_Metadata demo_schedule) = ''default''" "m_ResourceVersion (sd_Metadata demo_schedule) = ''1''"
    by (simp_all add: demo_sched_world_def demo_schedule_def)
  note wf = demo_sched_world_wf [OF demo_schedule_ok(1) i(4-6)]
  have f: "year_in_range (5 * Minute)" "format_nano (5 * Minute) = ''1970-01-01T00:05:00Z''" by code_simp+
  from slot_handled_once [OF i(1) wf(1) i(2) wf(2) p i(3) e(2) f(1)] show ?thesis
    unfolding f(2) by blast
qed

text \<open>
  The run of a slot is created once. In a quiet system, when ensureRunTask answers with a key, a
  task with the labels of the schedule and the slot is stored under it, every other task is as it was,
  and asking again, at any time, gives the same key and changes nothing.
\<close>

theorem run_task_created_once:
  assumes q: "sw_env w = []" and wf: "task_store_wf (sw_tasks w)"
    and r: "ensureRunTask now item slot w = (Inr key, w1)"
    and ns: "NormalizeNamespace (m_Namespace (sd_Metadata item)) = m_Namespace (sd_Metadata item)"
    and key: "normalizeLookupName key = key"
  shows "(\<exists>t. TaskStore_Get key (sw_tasks w1) = Some t \<and> run_matches item slot t)
    \<and> (\<forall>k. normalizeLookupName k \<noteq> key \<longrightarrow> TaskStore_Get k (sw_tasks w1) = TaskStore_Get k (sw_tasks w))
    \<and> ensureRunTask later item slot w1 = (Inr key, w1)"
proof -
  obtain spec n where t: "fst (run_template item w) = Inr (spec, n)"
    and k: "key = scopedName n (scheduledTaskName (m_Name (sd_Metadata item)) slot)"
    and c: "(\<exists>t. TaskStore_Get key (sw_tasks w) = Some t \<and> run_matches item slot t \<and> w1 = w)
     \<or> TaskStore_Get key (sw_tasks w) = None
       \<and> (\<exists>t ts. TaskStore_Upsert now (run_task item slot spec n) (sw_tasks w) = (Inr t, ts)
            \<and> w1 = w\<lparr>sw_tasks := ts\<rparr>)"
    by (rule ensureRunTask_cases [OF q r]) blast
  have "sw_env w1 = [] \<and> (\<exists>t. TaskStore_Get key (sw_tasks w1) = Some t \<and> run_matches item slot t)
    \<and> (\<forall>k. normalizeLookupName k \<noteq> key \<longrightarrow> TaskStore_Get k (sw_tasks w1) = TaskStore_Get k (sw_tasks w))
    \<and> (\<forall>k t. TaskStore_Get k (sw_tasks w) = Some t \<longrightarrow> TaskStore_Get k (sw_tasks w1) = Some t)"
    using c
  proof (elim disjE exE conjE)
    fix t ts assume up: "TaskStore_Upsert now (run_task item slot spec n) (sw_tasks w) = (Inr t, ts)"
      and w1: "w1 = w\<lparr>sw_tasks := ts\<rparr>" and none: "TaskStore_Get key (sw_tasks w) = None"
    note u = TaskStore_Upsert_task [OF up]
    have "scopedNameFromMeta (t_Metadata t) = key"
      using u(2) by (simp add: run_task_def scopedNameFromMeta_def k)
    then have ts: "st_items ts = AList.update key t (st_items (sw_tasks w))" using u(3) by simp
    have "run_matches item slot t" using run_task_matches [OF ns u(1)] .
    with w1 ts none key q show ?thesis
      by (auto simp: TaskStore_Get_def store_get_def update_conv')
  qed (use q in auto)
  moreover from this t have "run_template item w1 = (Inr (spec, n), w1)"
    by (intro run_template_same [OF q]) auto
  ultimately show ?thesis by (auto simp: ensureRunTask_def k)
qed

theorem run_task_created_once_witness:
  "\<exists>w1. ensureRunTask (9 * Minute) demo_schedule (5 * Minute) (demo_sched_world demo_schedule NewTaskStore)
      = (Inr ''default/n-19700101-0005'', w1)
    \<and> ensureRunTask (20 * Minute) demo_schedule (5 * Minute) w1 = (Inr ''default/n-19700101-0005'', w1)"
proof -
  let ?w = "demo_sched_world demo_schedule NewTaskStore"
  have "fst (ensureRunTask (9 * Minute) demo_schedule (5 * Minute) ?w) = Inr ''default/n-19700101-0005''"
    by code_simp
  then obtain w1 where w1: "ensureRunTask (9 * Minute) demo_schedule (5 * Minute) ?w
      = (Inr ''default/n-19700101-0005'', w1)"
    by (cases "ensureRunTask (9 * Minute) demo_schedule (5 * Minute) ?w") simp
  have i: "sw_env ?w = []" "task_store_wf (sw_tasks ?w)"
    "NormalizeNamespace (m_Namespace (sd_Metadata demo_schedule)) = m_Namespace (sd_Metadata demo_schedule)"
    by (simp_all add: demo_sched_world_def NewTaskStore_wf demo_schedule_def NormalizeNamespace_def
        DefaultNamespace_def is_space_def)
  have "normalizeLookupName ''default/n-19700101-0005'' = ''default/n-19700101-0005''" by code_simp
  from run_task_created_once [OF i(1,2) w1 i(3) this] w1 show ?thesis by blast
qed


text \<open>The demonstration's schedule with the run of its last slot still to be worked on.\<close>

definition demo_active :: TaskStore where
  "demo_active = sw_tasks (snd (ensureRunTask 0 demo_schedule 0 (demo_sched_world demo_schedule NewTaskStore)))"


text \<open>
  Pruning keeps the newest runs. In a quiet system, cleanupHistory succeeds; afterwards at most
  as many succeeded runs of the schedule are stored as its limit says, at most as many failed and
  dead-lettered ones as theirs, each of those kept ended no earlier than each of its kind that was
  deleted, and every task that is not a run of the schedule that has ended is as it was.
\<close>

theorem retention_keeps_newest:
  assumes q: "sw_env w = []" and wf: "task_store_wf (sw_tasks w)"
    and keys: "\<forall>k t. map_of (st_items (sw_tasks w)) k = Some t \<longrightarrow> normalizeLookupName k = k"
    and w': "w' = snd (cleanupHistory item w)"
    and kind: "(phases, limit) \<in> {([''succeeded''], sc_SuccessfulHistoryLimit (sd_Spec item)),
      ([''failed'', ''deadletter''], sc_FailedHistoryLimit (sd_Spec item))}"
  shows "length (filter (phase_is phases) (generatedTasks item (sw_tasks w'))) \<le> nat limit
    \<and> snd (fst (cleanupHistory item w)) = None
    \<and> (\<forall>kept \<in> set (filter (phase_is phases) (generatedTasks item (sw_tasks w'))).
        \<forall>gone \<in> set (filter (phase_is phases) (generatedTasks item (sw_tasks w)))
           - set (generatedTasks item (sw_tasks w')). taskTerminalTime gone \<le> taskTerminalTime kept)"
proof -
  have wf': "task_store_wf (sw_tasks w')" unfolding w' by (rule cleanup_wf [OF q wf])
  let ?g = "generatedTasks item (sw_tasks w)"
  let ?n = "newest_first (filter (phase_is phases) ?g)"
  obtain xs ys where s: "surplus item ?g = (xs, ys)" by fastforce
  note c = cleanup_all [OF q wf keys s]
  have g': "t \<in> set (generatedTasks item (sw_tasks w')) \<longleftrightarrow> t \<in> set ?g \<and> taskKey t \<notin> taskKey ` set (xs @ ys)" for t
    using c TaskStore_List_keys(1) [OF wf] TaskStore_List_keys(1) [OF wf'] w'
    by (auto simp: generatedTasks_def)
  have inj: "a = b" if "a \<in> set ?g" "b \<in> set ?g" "taskKey a = taskKey b" for a b
    using that TaskStore_List_keys [OF wf] by (simp add: generatedTasks_def)
  have drop: "set (drop (nat limit) ?n) = set (xs @ ys) \<inter> {t. phase_is phases t}"
  proof -
    have x: "xs = drop (nat (sc_SuccessfulHistoryLimit (sd_Spec item))) (newest_first (filter (phase_is [''succeeded'']) ?g))"
      "ys = drop (nat (sc_FailedHistoryLimit (sd_Spec item))) (newest_first (filter (phase_is [''failed'', ''deadletter'']) ?g))"
      using s by (simp_all add: surplus_def)
    have px: "\<forall>t \<in> set xs. phase_is [''succeeded''] t" and py: "\<forall>t \<in> set ys. phase_is [''failed'', ''deadletter''] t"
      unfolding x by (auto simp: newest_first_def dest!: in_set_dropD)
    have ex: "\<not> (phase_is [''succeeded''] t \<and> phase_is [''failed'', ''deadletter''] t)" for t
      by (auto simp: phase_is_def)
    from kind consider "phases = [''succeeded''] \<and> set (drop (nat limit) ?n) = set xs"
      | "phases = [''failed'', ''deadletter''] \<and> set (drop (nat limit) ?n) = set ys"
      by (auto simp: x)
    then show ?thesis by cases (use px py ex in auto)
  qed
  have kept: "t \<in> set (take (nat limit) ?n)"
    if "t \<in> set (filter (phase_is phases) (generatedTasks item (sw_tasks w')))" for t
  proof -
    have "t \<in> set ?n" "t \<notin> set (drop (nat limit) ?n)" using that g' drop by (auto simp: newest_first_def)
    then show ?thesis by (metis Un_iff append_take_drop_id set_append)
  qed
  have gone: "t \<in> set (drop (nat limit) ?n)" if "phase_is phases t" "t \<in> set ?g"
    "t \<notin> set (generatedTasks item (sw_tasks w'))" for t
  proof -
    have "taskKey t \<in> taskKey ` set (xs @ ys)" using that(2,3) g' by blast
    then obtain u where u: "u \<in> set (xs @ ys)" "taskKey t = taskKey u" by blast
    then have "t = u" using inj [OF that(2), of u] surplus_parts(2) [OF wf s] by blast
    with u show ?thesis using drop that(1) by simp
  qed
  have "distinct (filter (phase_is phases) (generatedTasks item (sw_tasks w')))"
    using TaskStore_List_keys(2) [OF wf'] by (simp add: generatedTasks_def distinct_map)
  then have "length (filter (phase_is phases) (generatedTasks item (sw_tasks w')))
      \<le> length (take (nat limit) ?n)"
    using kept by (metis card_length card_mono distinct_card finite_set le_trans subsetI)
  moreover have "taskTerminalTime d \<le> taskTerminalTime t"
    if "t \<in> set (take (nat limit) ?n)" "d \<in> set (drop (nat limit) ?n)" for t d
  proof -
    let ?f = "\<lambda>t. - taskTerminalTime t"
    have "sorted (map ?f (take (nat limit) ?n @ drop (nat limit) ?n))" by (simp add: newest_first_def)
    then have "\<forall>x \<in> set (map ?f (take (nat limit) ?n)). \<forall>y \<in> set (map ?f (drop (nat limit) ?n)). x \<le> y"
      by (simp only: map_append sorted_append) blast
    then have "?f t \<le> ?f d" using that by (simp only: set_map) blast
    then show ?thesis by simp
  qed
  ultimately show ?thesis using kept gone c by auto
qed

text \<open>Two succeeded runs, of which the demonstration's schedule keeps one.\<close>

definition demo_run :: "instant \<Rightarrow> Task" where
  "demo_run slot = on_status (\<lambda>st. st\<lparr>ts_Phase := ''Succeeded'', ts_CompletedAt := format_nano slot\<rparr>)
     (run_task demo_schedule slot demo_template ''default'')"

definition demo_runs :: TaskStore where
  "demo_runs = snd (TaskStore_Upsert 0 (demo_run (5 * Minute)) (snd (TaskStore_Upsert 0 (demo_run 0) NewTaskStore)))"

theorem retention_keeps_newest_witness:
  "length (filter (phase_is [''succeeded''])
      (generatedTasks demo_schedule (sw_tasks (snd (cleanupHistory demo_schedule (demo_sched_world demo_schedule demo_runs)))))) \<le> 1
    \<and> length (generatedTasks demo_schedule demo_runs) = 2"
proof -
  let ?w = "demo_sched_world demo_schedule demo_runs"
  have q: "sw_env ?w = []" by (simp add: demo_sched_world_def)
  have wf: "task_store_wf (sw_tasks ?w)"
    unfolding demo_sched_world_def demo_runs_def by (simp add: Upsert_wf NewTaskStore_wf)
  have "list_all (\<lambda>(k, t). normalizeLookupName k = k) (st_items demo_runs)" by code_simp
  then have keys: "\<forall>k t. map_of (st_items (sw_tasks ?w)) k = Some t \<longrightarrow> normalizeLookupName k = k"
    by (auto simp: demo_sched_world_def list_all_iff dest!: map_of_SomeD)
  have "sc_SuccessfulHistoryLimit (sd_Spec demo_schedule) = 1" by (simp add: demo_schedule_def)
  moreover have "length (generatedTasks demo_schedule demo_runs) = 2" by code_simp
  ultimately show ?thesis
    using retention_keeps_newest [OF q wf keys refl, of "[''succeeded'']" 1 demo_schedule] by simp
qed

text \<open>
  A suspended schedule reports Ready. The pass sets the phase Suspended and then refreshes the
  status, which sets Ready whenever there is no error: what is stored is never Suspended.
\<close>

theorem suspended_reports_ready:
  assumes q: "sw_env w = []" and wf: "schedule_store_wf (cf_location cf) (sw_schedules w)"
    and st: "map_of (sw_schedules w) k = Some item" and v: "schedule_version_sound item"
    and parsed: "parseScheduleSpec cf item = Inr (expr, loc)" and susp: "sc_Suspend (sd_Spec item)"
  shows "\<exists>item' w'. reconcileSchedule cf now item w = (None, w') \<and> map_of (sw_schedules w') k = Some item'
    \<and> sc_Suspend (sd_Spec item') \<and> ss_Phase (sd_Status item') = ''Ready''"
proof -
  define i1 where "i1 = observed (with_next expr loc now
    (on_sched_status (\<lambda>st. st\<lparr>ss_Phase := ''Suspended'', ss_LastError := []\<rparr>)
      (on_sched_status (\<lambda>st. st\<lparr>ss_LastError := []\<rparr>) item)))"
  define i2 where "i2 = refreshed_status i1 (generatedTasks i1 (sw_tasks w))"
  have r: "reconcileSchedule cf now item w = upsertTaskSchedule cf now i2 w"
    using parsed susp q by (simp add: reconcileSchedule_def Let_def refreshScheduleStatus_def i2_def i1_def)
  have i2: "status_only item i2" "ss_Phase (sd_Status i2) = ''Ready''"
    by (simp_all add: i2_def i1_def status_only_def refreshed_status_def Let_def observed_def with_next_def)
  obtain item' w' where u: "upsertTaskSchedule cf now i2 w = (None, w')"
    "sw_schedules w' = AList.update k item' (sw_schedules w)" "sd_Spec item' = sd_Spec i2"
    "sd_Status item' = sd_Status i2"
    by (rule upsertTaskSchedule_quiet [OF q wf st v i2(1), of now]) blast
  with r i2 susp show ?thesis by (auto simp: update_conv' status_only_def)
qed

theorem suspended_reports_ready_witness:
  "let item = demo_schedule\<lparr>sd_Spec := (sd_Spec demo_schedule)\<lparr>sc_Suspend := True\<rparr>\<rparr>
   in \<exists>item' w'. reconcileSchedule demo_cf 0 item (demo_sched_world item NewTaskStore) = (None, w')
      \<and> map_of (sw_schedules w') ''default/n'' = Some item' \<and> ss_Phase (sd_Status item') = ''Ready''"
proof -
  define item where "item = demo_schedule\<lparr>sd_Spec := (sd_Spec demo_schedule)\<lparr>sc_Suspend := True\<rparr>\<rparr>"
  let ?w = "demo_sched_world item NewTaskStore"
  obtain e where e: "Parse ''*/5 * * * *'' = Inr e" by (rule demo_parse)
  have p: "parseScheduleSpec demo_cf item = Inr (e, utc)"
    by (simp add: parseScheduleSpec_def item_def demo_schedule_def demo_cf_def e)
  have i: "sw_env ?w = []" "map_of (sw_schedules ?w) ''default/n'' = Some item" "sc_Suspend (sd_Spec item)"
    "m_Name (sd_Metadata item) = ''n''" "m_Namespace (sd_Metadata item) = ''default''"
    "m_ResourceVersion (sd_Metadata item) = ''1''"
    by (simp_all add: demo_sched_world_def item_def demo_schedule_def)
  have "schedule_ok (cf_location demo_cf) item" using demo_schedule_ok(2) by (simp add: item_def)
  note wf = demo_sched_world_wf [OF this i(4-6)]
  from suspended_reports_ready [OF i(1) wf(1) i(2) wf(2) p i(3), of 0] show ?thesis
    unfolding Let_def item_def [symmetric] by blast
qed

text \<open>
  A run is overwritten. The run task is written without a version, which the store takes as
  consent to replace whatever is there: when another replica creates the run of the slot, and a worker
  claims it, between this controller's lookup and its write, the write succeeds and the task, still
  leased to the worker, is pending and unclaimed again.
\<close>

theorem run_task_overwrites_claim:
  "let replica = (\<lambda>(ss, ts). (ss, snd (TaskStore_ClaimIfDue Second ''n-19700101-0000'' ''w9'' (30 * Second)
         (sw_tasks (snd (ensureRunTask 0 demo_schedule 0 (demo_sched_world demo_schedule ts)))))));
       w = (demo_sched_world demo_schedule NewTaskStore)\<lparr>sw_env := [id, replica]\<rparr>;
       between = snd (replica ([], NewTaskStore));
       r = ensureRunTask Second demo_schedule 0 w
   in lease_held ''default/n-19700101-0000'' ''w9'' (31 * Second) between
      \<and> fst r = Inr ''default/n-19700101-0000''
      \<and> map_option (\<lambda>t. (ts_Phase (t_Status t), ts_ClaimedBy (t_Status t)))
          (map_of (st_items (sw_tasks (snd r))) ''default/n-19700101-0000'') = Some (''Pending'', [])"
  by code_simp

end
