(* ===== verification/Task_Control.thy ===== *)
theory Task_Control
  imports Redaction Message_State Scheduler Controller_Common
begin

text \<open>
  What the task controller computes on a single task (controllers/task_controller.go): whether an
  attempt is due and a failure retryable, the retry delay, the history, messages and trace it
  appends, and the identifiers of messages and trace steps.

  Shown here: the retry delay is the capped exponential as long as the product fits into 64 bits;
  the identifiers of trace steps read back and stay distinct.
\<close>

section \<open>Retries\<close>

definition isAttemptDue :: "instant \<Rightarrow> Task \<Rightarrow> bool" where
  "isAttemptDue now t =
     (if trim_space (ts_NextAttemptAt (t_Status t)) = [] then True
      else case parseControllerTimestamp (ts_NextAttemptAt (t_Status t)) of
             None \<Rightarrow> True
           | Some nxt \<Rightarrow> \<not> now < nxt)"

definition nonRetryableMarkers :: "string list" where
  "nonRetryableMarkers =
     [''policy '', ''disallows model'', ''blocks tool'', ''permission denied'',
      ''tool_reason=tool_permission_denied'', ''tool_reason=tool_runtime_policy_invalid'',
      ''tool_reason=tool_unsupported'', ''tool_reason=tool_isolation_unavailable'',
      ''tool_reason=tool_secret_resolution_failed'', ''token budget exceeded'',
      ''unsupported task phase'', ''invalid '']"

definition retryableMarkers :: "string list" where
  "retryableMarkers =
     [''timed out'', ''timeout'', ''temporary'', ''transient'', ''connection reset'',
      ''connection refused'', ''i/o timeout'', ''retryable'']"

definition isRetryableError :: "string \<Rightarrow> bool" where
  "isRetryableError reason =
     (let lower = to_lower reason
      in if str_contains lower ''retryable=true'' then True
         else if str_contains lower ''retryable=false'' then False
         else if list_ex (str_contains lower) nonRetryableMarkers then False
         else list_ex (str_contains lower) retryableMarkers)"

definition shouldRetryTask :: "Task \<Rightarrow> string \<Rightarrow> bool" where
  "shouldRetryTask t reason =
     (if rp_MaxAttempts (sp_Retry (t_Spec t)) \<le> 0 then False
      else if rp_MaxAttempts (sp_Retry (t_Spec t)) \<le> ts_Attempts (t_Status t) then False
      else isRetryableError reason)"

text \<open>\<^const>\<open>None\<close> is the error of time.ParseDuration; the product wraps around.\<close>

definition retryDelay :: "Task \<Rightarrow> duration option" where
  "retryDelay t =
     (case parse_duration (rp_Backoff (sp_Retry (t_Spec t))) of
        None \<Rightarrow> None
      | Some base \<Rightarrow>
          if base \<le> 0 then Some 0
          else
            let exp = ts_Attempts (t_Status t) - 1;
                exp = (if exp < 0 then 0 else exp);
                exp = (if 10 < exp then 10 else exp);
                delay = wrap64 (base * 2 ^ nat exp)
            in Some (if 24 * Hour < delay then 24 * Hour else delay))"

section \<open>Identifiers\<close>

definition taskScopedName :: "Task \<Rightarrow> string" where
  "taskScopedName t = scopedName (m_Namespace (t_Metadata t)) (m_Name (t_Metadata t))"

definition sanitizeMessageToken :: "string \<Rightarrow> string" where
  "sanitizeMessageToken raw =
     (let token = trim_space (to_lower raw)
      in if token = [] then ''unknown''
         else replace_chars [(CHR '' '', ''_''), (CHR ''/'', ''_''), (CHR '':'', ''_'')] token)"

definition deterministicTaskMessageID ::
  "string \<Rightarrow> string \<Rightarrow> int \<Rightarrow> int \<Rightarrow> string \<Rightarrow> string \<Rightarrow> string" where
  "deterministicTaskMessageID namespace taskName attempt hop fromAgent toAgent =
     (let attempt = (if attempt \<le> 0 then 1 else attempt); hop = (if hop \<le> 0 then 1 else hop)
      in NormalizeNamespace namespace @ ''/'' @ trim_space taskName @ ''/a'' @ pad_int 3 attempt @ ''/h''
         @ pad_int 3 hop @ ''/'' @ sanitizeMessageToken fromAgent @ ''/'' @ sanitizeMessageToken toAgent)"

text \<open>The pattern \<open>^a([0-9]+)\.s([0-9]+)$\<close>: its two groups.\<close>

definition step_id_groups :: "string \<Rightarrow> (string \<times> string) option" where
  "step_id_groups s =
     (case s of
        [] \<Rightarrow> None
      | c # r \<Rightarrow>
          let ds = takeWhile is_digit r; r' = dropWhile is_digit r
          in if c = CHR ''a'' \<and> ds \<noteq> [] \<and> has_prefix r' ''.s'' \<and> drop 2 r' \<noteq> [] \<and> list_all is_digit (drop 2 r')
             then Some (ds, drop 2 r') else None)"

definition parseTraceStepID :: "string \<Rightarrow> (int \<times> int) option" where
  "parseTraceStepID stepID =
     (case step_id_groups (trim_space stepID) of
        None \<Rightarrow> None
      | Some (a, q) \<Rightarrow>
          (case atoi a of
             None \<Rightarrow> None
           | Some parsedAttempt \<Rightarrow>
               if parsedAttempt \<le> 0 then None
               else (case atoi q of
                       None \<Rightarrow> None
                     | Some parsedSequence \<Rightarrow>
                         if parsedSequence \<le> 0 then None else Some (parsedAttempt, parsedSequence))))"

definition step_id :: "int \<Rightarrow> int \<Rightarrow> string" where
  "step_id attempt n = ''a'' @ pad_int 3 attempt @ ''.s'' @ pad_int 4 n"

text \<open>The greatest sequence number of an attempt, one event at a time.\<close>

definition trace_seq :: "int \<Rightarrow> TaskTraceEvent \<Rightarrow> int \<Rightarrow> int" where
  "trace_seq attempt event maxSeq =
     (case (if te_Attempt event \<le> 0 then parseTraceStepID (te_StepID event) else None) of
        Some (parsedAttempt, n) \<Rightarrow> if parsedAttempt = attempt \<and> maxSeq < n then n else maxSeq
      | None \<Rightarrow>
          if te_Attempt event \<noteq> attempt then maxSeq
          else (case parseTraceStepID (te_StepID event) of
                  Some (_, n) \<Rightarrow> if maxSeq < n then n else maxSeq
                | None \<Rightarrow> if maxSeq < te_Step event then te_Step event else maxSeq))"

definition nextTraceStepID :: "TaskTraceEvent list \<Rightarrow> int \<Rightarrow> string" where
  "nextTraceStepID trace attempt =
     (let attempt = (if attempt \<le> 0 then 1 else attempt)
      in step_id attempt (wrap64 (fold (trace_seq attempt) trace 0 + 1)))"

section \<open>Appending to a task\<close>

definition appendTaskHistory :: "instant \<Rightarrow> string \<Rightarrow> string \<Rightarrow> string \<Rightarrow> Task \<Rightarrow> Task" where
  "appendTaskHistory now workerID eventType message =
     on_status (\<lambda>s. s\<lparr>ts_History := keep_last 200 (ts_History s @
       [\<lparr>he_Timestamp = format_nano now, he_Type = eventType, he_Worker = workerID,
         he_Message = message\<rparr>])\<rparr>)"

definition appendTaskMessage :: "instant \<Rightarrow> TaskMessage \<Rightarrow> Task \<Rightarrow> Task" where
  "appendTaskMessage now m t =
     (let m = (if trim_space (tm_Timestamp m) = [] then m\<lparr>tm_Timestamp := format_nano now\<rparr> else m);
          m = (if tm_MaxAttempts m \<le> 0
               then m\<lparr>tm_MaxAttempts := rp_MaxAttempts (sp_Retry (t_Spec t))\<rparr> else m);
          m = (if tm_MaxAttempts m \<le> 0 then m\<lparr>tm_MaxAttempts := 1\<rparr> else m);
          m = (if trim_space (tm_Phase m) = [] then m\<lparr>tm_Phase := ''Queued''\<rparr> else m);
          m = (if trim_space (tm_IdempotencyKey m) = []
               then m\<lparr>tm_IdempotencyKey := trim_space (tm_MessageID m)\<rparr> else m)
      in on_status (\<lambda>s. s\<lparr>ts_Messages := keep_last 500 (ts_Messages s @ [m])\<rparr>) t)"

definition populateTaskMessageMetadata :: "Task \<Rightarrow> int \<Rightarrow> TaskMessage \<Rightarrow> TaskMessage" where
  "populateTaskMessageMetadata t hopIndex m =
     (let namespace = NormalizeNamespace (m_Namespace (t_Metadata t));
          name = m_Name (t_Metadata t);
          attempt = ts_Attempts (t_Status t);
          attempt = (if attempt \<le> 0 then 1 else attempt);
          m = (if trim_space (tm_System m) = [] then m\<lparr>tm_System := trim_space (sp_System (t_Spec t))\<rparr> else m);
          m = (if trim_space (tm_TaskID m) = [] then m\<lparr>tm_TaskID := namespace @ ''/'' @ name\<rparr> else m);
          m = (if tm_Attempt m \<le> 0 then m\<lparr>tm_Attempt := attempt\<rparr> else m);
          m = (if trim_space (tm_BranchID m) = []
               then m\<lparr>tm_BranchID := ''b'' @ pad_int 3 (hopIndex + 1)\<rparr> else m);
          m = (if trim_space (tm_MessageID m) = []
               then m\<lparr>tm_MessageID := deterministicTaskMessageID namespace name (tm_Attempt m)
                        (hopIndex + 1) (tm_FromAgent m) (tm_ToAgent m)\<rparr> else m);
          m = (if trim_space (tm_IdempotencyKey m) = []
               then m\<lparr>tm_IdempotencyKey := trim_space (tm_MessageID m)\<rparr> else m)
      in if trim_space (tm_TraceID m) = []
         then m\<lparr>tm_TraceID := tm_TaskID m @ ''/a'' @ pad_int 3 (tm_Attempt m)\<rparr> else m)"

definition appendTaskTrace :: "instant \<Rightarrow> TaskTraceEvent \<Rightarrow> Task \<Rightarrow> Task" where
  "appendTaskTrace now e t =
     (let e = (if trim_space (te_Timestamp e) = [] then e\<lparr>te_Timestamp := format_nano now\<rparr> else e);
          e = (if te_Attempt e \<le> 0 then e\<lparr>te_Attempt := ts_Attempts (t_Status t)\<rparr> else e);
          e = (if te_Attempt e \<le> 0 then e\<lparr>te_Attempt := 1\<rparr> else e);
          e = (if te_Step e < 0 then e\<lparr>te_Step := 0\<rparr> else e);
          e = (if trim_space (te_StepID e) = []
               then e\<lparr>te_StepID := nextTraceStepID (ts_Trace (t_Status t)) (te_Attempt e)\<rparr> else e)
      in on_status (\<lambda>s. s\<lparr>ts_Trace := keep_last 500 (ts_Trace s @ [e])\<rparr>) t)"

definition countTraceEventsForType :: "TaskTraceEvent list \<Rightarrow> string \<Rightarrow> int \<Rightarrow> int" where
  "countTraceEventsForType trace eventType attempt =
     int (length (filter (\<lambda>e. equal_fold (trim_space (te_Type e)) (trim_space eventType)
       \<and> (attempt \<le> 0 \<or> te_Attempt e = 0 \<or> te_Attempt e = attempt)) trace))"

definition hasKickoffMessage :: "TaskMessage list \<Rightarrow> int \<Rightarrow> string \<Rightarrow> bool" where
  "hasKickoffMessage messages attempt agent =
     (let target = trim_space agent
      in target \<noteq> [] \<and> list_ex (\<lambda>m. equal_fold (trim_space (tm_Type m)) ''task_start''
           \<and> equal_fold (trim_space (tm_ToAgent m)) target
           \<and> (attempt \<le> 0 \<or> tm_Attempt m = 0 \<or> tm_Attempt m = attempt)) messages)"

section \<open>The retry delay\<close>

abbreviation retry_exponent :: "Task \<Rightarrow> nat" where
  "retry_exponent t \<equiv> nat (min 10 (max 0 (ts_Attempts (t_Status t) - 1)))"

lemma retryDelay_eq:
  assumes "parse_duration (rp_Backoff (sp_Retry (t_Spec t))) = Some base" "0 < base"
  shows "retryDelay t = Some (min (24 * Hour) (wrap64 (base * 2 ^ retry_exponent t)))"
  using assms
  by (cases "ts_Attempts (t_Status t) = 11") (auto simp: retryDelay_def Let_def min_def max_def)

lemma retry_product_fits:
  assumes "0 < (base::int)" "base < 2 ^ 53"
  shows "in_int64 (base * 2 ^ retry_exponent t)" "0 < base * 2 ^ retry_exponent t"
proof -
  have "(2::int) ^ retry_exponent t \<le> 2 ^ 10" by (rule power_increasing) auto
  then have "base * 2 ^ retry_exponent t \<le> base * 2 ^ 10" using assms by simp
  also have "\<dots> < 2 ^ 63" using assms(2) by simp
  finally have "base * 2 ^ retry_exponent t < 2 ^ 63" .
  moreover show "0 < base * 2 ^ retry_exponent t" using assms(1) by simp
  ultimately show "in_int64 (base * 2 ^ retry_exponent t)" by (simp add: in_int64_def)
qed

section \<open>Trace steps\<close>

lemma digits_take_drop:
  "list_all is_digit ds \<Longrightarrow> r = [] \<or> \<not> is_digit (hd r) \<Longrightarrow> takeWhile is_digit (ds @ r) = ds"
  "list_all is_digit ds \<Longrightarrow> r = [] \<or> \<not> is_digit (hd r) \<Longrightarrow> dropWhile is_digit (ds @ r) = r"
  by (induction ds; cases r; simp)+

lemma digits_no_space: "list_all is_digit s \<Longrightarrow> list_all (\<lambda>c. \<not> is_space c) s"
  by (auto simp: list_all_iff is_space_code is_digit_def)

lemma trim_step_id: "0 \<le> a \<Longrightarrow> 0 \<le> n \<Longrightarrow> trim_space (step_id a n) = step_id a n"
  using pad_int_all [of a 3] pad_int_all [of n 4]
  by (intro trim_space_id)
    (simp add: step_id_def digits_no_space is_space_def [of "CHR ''a''"] is_space_def [of "CHR ''.''"]
      is_space_def [of "CHR ''s''"])

lemma step_id_groups: "0 \<le> a \<Longrightarrow> 0 \<le> n \<Longrightarrow> step_id_groups (step_id a n) = Some (pad_int 3 a, pad_int 4 n)"
  using pad_int_all [of a 3] pad_int_all [of n 4]
  by (simp add: step_id_groups_def step_id_def digits_take_drop is_digit_def Let_def)

lemma parse_step_id:
  assumes "0 < a" "in_int64 a" "0 < n" "in_int64 n"
  shows "parseTraceStepID (step_id a n) = Some (a, n)"
  using assms by (simp add: parseTraceStepID_def trim_step_id step_id_groups atoi_pad)

lemma trace_seq_mono: "m \<le> trace_seq a e m"
  by (auto simp: trace_seq_def split: option.splits)

lemma fold_trace_seq_mono: "m \<le> fold (trace_seq a) tr m"
proof (induction tr arbitrary: m)
  case (Cons e tr)
  show ?case using Cons [of "trace_seq a e m"] trace_seq_mono [of m a e] by simp
qed simp

lemma trace_seq_counts:
  "parseTraceStepID (te_StepID e) = Some (a, n) \<Longrightarrow> te_Attempt e = a \<Longrightarrow> n \<le> trace_seq a e m"
  by (auto simp: trace_seq_def split: option.splits)

lemma fold_trace_seq_counts:
  assumes "e \<in> set tr" "parseTraceStepID (te_StepID e) = Some (a, n)" "te_Attempt e = a"
  shows "n \<le> fold (trace_seq a) tr m"
  using assms(1)
proof (induction tr arbitrary: m)
  case (Cons x tr)
  show ?case
  proof (cases "x = e")
    case True
    then have "n \<le> trace_seq a x m" using trace_seq_counts assms(2,3) by blast
    then show ?thesis using fold_trace_seq_mono [of "trace_seq a x m" a tr] by simp
  next
    case False
    then show ?thesis using Cons by simp
  qed
qed simp

text \<open>
  The identifiers in a trace: those that are set differ, and one that can be read names the attempt
  of its event. Events of the message consumer have none.
\<close>

definition trace_ids :: "TaskTraceEvent list \<Rightarrow> string list" where
  "trace_ids tr = filter (\<lambda>i. i \<noteq> []) (map (trim_space \<circ> te_StepID) tr)"

definition trace_ids_ok :: "TaskTraceEvent list \<Rightarrow> bool" where
  "trace_ids_ok tr \<longleftrightarrow> distinct (trace_ids tr)
     \<and> (\<forall>e \<in> set tr. \<forall>a n. parseTraceStepID (te_StepID e) = Some (a, n) \<longrightarrow> te_Attempt e = a)"

definition event_attempt :: "Task \<Rightarrow> TaskTraceEvent \<Rightarrow> int" where
  "event_attempt t e =
     (if 0 < te_Attempt e then te_Attempt e
      else if 0 < ts_Attempts (t_Status t) then ts_Attempts (t_Status t) else 1)"

lemma parse_trim: "parseTraceStepID (trim_space i) = parseTraceStepID i"
  by (simp add: parseTraceStepID_def)

lemma trace_ids_ok_snoc:
  assumes ok: "trace_ids_ok tr" and a: "0 < a" "in_int64 a"
    and m: "m = fold (trace_seq a) tr 0" "m < 2 ^ 63 - 1"
    and e: "te_Attempt e = a" "te_StepID e = step_id a (m + 1)"
  shows "trace_ids_ok (tr @ [e])"
proof -
  have m0: "0 \<le> m" using fold_trace_seq_mono [of 0 a tr] m(1) by simp
  then have n: "0 < m + 1" "in_int64 (m + 1)" using m(2) by (simp_all add: in_int64_def)
  have p: "parseTraceStepID (te_StepID e) = Some (a, m + 1)" using parse_step_id [OF a n] e by simp
  have other: "trim_space (te_StepID x) \<noteq> step_id a (m + 1)" if x: "x \<in> set tr" for x
  proof
    assume "trim_space (te_StepID x) = step_id a (m + 1)"
    then have px: "parseTraceStepID (te_StepID x) = Some (a, m + 1)"
      using parse_trim [of "te_StepID x"] p e(2) by simp
    moreover have "te_Attempt x = a" using ok x px unfolding trace_ids_ok_def by blast
    ultimately have "m + 1 \<le> m" using fold_trace_seq_counts [OF x] m(1) by blast
    then show False by simp
  qed
  have "trim_space (te_StepID e) = step_id a (m + 1)"
    using trim_step_id [of a "m + 1"] a n e(2) by simp
  then have "trim_space (te_StepID e) \<notin> (trim_space \<circ> te_StepID) ` set tr"
    using other by fastforce
  then have "distinct (trace_ids (tr @ [e]))"
    using ok by (auto simp: trace_ids_ok_def trace_ids_def)
  then show ?thesis using ok p e(1) unfolding trace_ids_ok_def by auto
qed

lemma trace_ids_ok_suffix: "trace_ids_ok (xs @ ys) \<Longrightarrow> trace_ids_ok ys"
  by (auto simp: trace_ids_ok_def trace_ids_def)

lemma trace_ids_ok_keep_last: "trace_ids_ok tr \<Longrightarrow> trace_ids_ok (keep_last n tr)"
  using keep_last_suffix [of tr n] trace_ids_ok_suffix by metis

end
