(* ===== verification/Tool_Authorizer.thy ===== *)
theory Tool_Authorizer
  imports Governance Tool_Approval
begin

text \<open>
  Who may call a tool (runtime/tool_authorizer.go, runtime/tool_approval_grant_authorizer.go): an
  agent's authorizer is built from its roles and the tool permissions of its namespace; it allows a
  call, denies it with an error, or demands an approval, and an approved approval counts as a grant.

  Go maps used as sets are lists here, the map of rules is a function from keys. A lookup answers
  with an error or with what it found; a nil lookup is \<^const>\<open>None\<close>.

  Shown here: the decision is the one of a declarative specification, in which neither the order of
  the permissions nor of their rules matters; a grant turns a demand for approval into permission
  and nothing else.
\<close>

section \<open>Permissions\<close>

record ToolSpec =
  tl_Type :: string
  tl_Capabilities :: "string list"
  tl_OperationClasses :: "string list"
  tl_RiskLevel :: string
  tl_Timeout :: string
  tl_IsolationMode :: string
  tl_MaxAttempts :: int
  tl_Backoff :: string
  tl_MaxBackoff :: string
  tl_Jitter :: string

definition normalizeToolKey :: "string \<Rightarrow> string" where
  "normalizeToolKey name = to_lower (trim_space name)"

definition scopedRuntimeName :: "string \<Rightarrow> string \<Rightarrow> string" where
  "scopedRuntimeName namespace name = NormalizeNamespace namespace @ ''/'' @ trim_space name"

definition normalizePermission :: "string \<Rightarrow> string" where
  "normalizePermission v =
     replace_chars [(CHR '' '', []), (CHR ''/'', ''_''), (CHR 0x5C, ''_''), (CHR ''-'', ''_'')]
       (trim_space (to_lower v))"

definition normalizePermissionToken :: "string \<Rightarrow> string" where
  "normalizePermissionToken v =
     trim_cutset ''_:'' (to_lower (replace_chars
       [(CHR '' '', ''_''), (CHR ''/'', ''_''), (CHR 0x5C, ''_''), (CHR ''-'', ''_'')] (trim_space v)))"

text \<open>The loop of dedupePermissions.\<close>

fun dedupe_loop :: "string list \<Rightarrow> string list \<Rightarrow> string list" where
  "dedupe_loop seen [] = []"
| "dedupe_loop seen (v # vs) =
     (let n = normalizePermission v
      in if n = [] \<or> List.member seen n then dedupe_loop seen vs else n # dedupe_loop (n # seen) vs)"

definition dedupePermissions :: "string list \<Rightarrow> string list" where
  "dedupePermissions vs = dedupe_loop [] vs"

definition defaultRequiredPermissions :: "string \<Rightarrow> ToolSpec \<Rightarrow> string \<Rightarrow> string list" where
  "defaultRequiredPermissions tool spec action =
     (let action = normalizePermissionToken action;
          action = (if action = [] then ''invoke'' else action);
          caps = filter (\<lambda>t. t \<noteq> []) (map (\<lambda>c. normalizePermission (''capability:'' @ normalizePermissionToken c))
                   (tl_Capabilities spec))
      in dedupePermissions (normalizePermission (''tool:'' @ normalizePermissionToken tool @ '':'' @ action) # caps))"

definition permissionMatchAll :: "string list \<Rightarrow> string list \<Rightarrow> bool \<times> string list" where
  "permissionMatchAll granted required =
     (let missing = filter (\<lambda>p. \<not> List.member granted p) (dedupePermissions required)
      in (missing = [], missing))"

definition permissionMatchAny :: "string list \<Rightarrow> string list \<Rightarrow> bool \<times> string list" where
  "permissionMatchAny granted required =
     (let required = dedupePermissions required
      in if list_ex (List.member granted) required then (True, []) else (False, required))"

section \<open>Operation rules\<close>

definition severity :: "string \<Rightarrow> nat" where
  "severity v = (case map_of [(''allow'', 0), (''approval_required'', 1), (''deny'', 2)] v of
     None \<Rightarrow> 0 | Some n \<Rightarrow> n)"

definition mostRestrictiveVerdict :: "string \<Rightarrow> string \<Rightarrow> string" where
  "mostRestrictiveVerdict a b = (if severity a < severity b then b else a)"

definition matchOperationClass :: "OperationRule list \<Rightarrow> string \<Rightarrow> string" where
  "matchOperationClass rules opClass =
     (case find (\<lambda>r. or_OperationClass r = opClass) rules of
        Some r \<Rightarrow> or_Verdict r
      | None \<Rightarrow> (case find (\<lambda>r. or_OperationClass r = ''*'') rules of
                   Some r \<Rightarrow> or_Verdict r
                 | None \<Rightarrow> ''allow''))"

definition evaluateOperationRules :: "OperationRule list \<Rightarrow> string list \<Rightarrow> string" where
  "evaluateOperationRules rules opClasses =
     fold (\<lambda>op v. mostRestrictiveVerdict v (matchOperationClass rules op)) opClasses ''allow''"

section \<open>The authorizer of an agent\<close>

record toolPermissionRule =
  ru_Name :: string
  ru_ToolRef :: string
  ru_Action :: string
  ru_MatchMode :: string
  ru_Required :: "string list"
  ru_OperationRules :: "OperationRule list"

record AgentToolAuthorizer =
  au_enforceByRole :: bool
  au_permissions :: "string list"
  au_roles :: "string list"
  au_missingRoles :: "string list"
  au_rules :: "string \<Rightarrow> toolPermissionRule list"
  au_allowedTools :: "string list"

type_synonym 'a lookup = "string \<Rightarrow> string + 'a option"

definition toolPermissionAppliesToAgent :: "ToolPermission \<Rightarrow> string \<Rightarrow> bool" where
  "toolPermissionAppliesToAgent p agentName =
     (let mode = to_lower (trim_space (pm_ApplyMode (pm_Spec p)))
      in if mode = [] \<or> mode = ''global'' then True
         else if mode \<noteq> ''scoped'' then False
         else contains_fold (pm_TargetAgents (pm_Spec p)) agentName)"

text \<open>A role by its name in the namespace, or by a scoped name.\<close>

definition find_role :: "string \<Rightarrow> AgentRole lookup option \<Rightarrow> string \<Rightarrow> AgentRole option" where
  "find_role namespace lookup roleName =
     (case lookup of
        None \<Rightarrow> None
      | Some get \<Rightarrow>
          (case get (scopedRuntimeName namespace roleName) of
             Inl e \<Rightarrow> None
           | Inr (Some r) \<Rightarrow> Some r
           | Inr None \<Rightarrow>
               if List.member roleName CHR ''/'' then (case get roleName of Inl e \<Rightarrow> None | Inr r \<Rightarrow> r)
               else None))"

definition permission_rule :: "ToolPermission \<Rightarrow> toolPermissionRule" where
  "permission_rule p =
     \<lparr>ru_Name = trim_space (m_Name (pm_Metadata p)), ru_ToolRef = trim_space (pm_ToolRef (pm_Spec p)),
      ru_Action = normalizePermissionToken (pm_Action (pm_Spec p)),
      ru_MatchMode = to_lower (trim_space (pm_MatchMode (pm_Spec p))),
      ru_Required = filter (\<lambda>t. t \<noteq> []) (map normalizePermission (pm_RequiredPermissions (pm_Spec p))),
      ru_OperationRules = pm_OperationRules (pm_Spec p)\<rparr>"

definition permission_applies :: "string \<Rightarrow> Agent \<Rightarrow> ToolPermission \<Rightarrow> bool" where
  "permission_applies namespace agent p \<longleftrightarrow>
     NormalizeNamespace (m_Namespace (pm_Metadata p)) = NormalizeNamespace namespace
     \<and> toolPermissionAppliesToAgent p (m_Name (ag_Metadata agent))
     \<and> normalizeToolKey (pm_ToolRef (pm_Spec p)) \<noteq> []"

text \<open>An error of the permission lookup is ignored by the code; the list is then empty.\<close>

definition NewAgentToolAuthorizer ::
  "string \<Rightarrow> Agent \<Rightarrow> AgentRole lookup option \<Rightarrow> ToolPermission list option \<Rightarrow> AgentToolAuthorizer" where
  "NewAgentToolAuthorizer namespace agent roleLookup perms =
     (let names = filter (\<lambda>n. n \<noteq> []) (map trim_space (ag_Roles (ag_Spec agent)));
          found = List.map_filter (find_role namespace roleLookup) names;
          applying = filter (permission_applies namespace agent) (case perms of None \<Rightarrow> [] | Some ps \<Rightarrow> ps)
      in \<lparr>au_enforceByRole = (0 < length (ag_Roles (ag_Spec agent))),
          au_permissions = filter (\<lambda>t. t \<noteq> []) (map normalizePermission (concat (map ro_Permissions found))),
          au_roles = names,
          au_missingRoles = filter (\<lambda>n. find_role namespace roleLookup n = None) names,
          au_rules = (\<lambda>key. map permission_rule
            (filter (\<lambda>p. normalizeToolKey (pm_ToolRef (pm_Spec p)) = key) applying)),
          au_allowedTools = filter (\<lambda>k. k \<noteq> []) (map normalizeToolKey (ag_AllowedTools (ag_Spec agent)))\<rparr>)"

record AuthorizeResult =
  ar_Verdict :: string
  ar_Reason :: string
  ar_Details :: "(string \<times> string) list"

definition allow_result :: AuthorizeResult where
  "allow_result = \<lparr>ar_Verdict = ''allow'', ar_Reason = [], ar_Details = []\<rparr>"

abbreviation denied_cause :: "go_error option" where
  "denied_cause \<equiv> Some (ErrText ''tool permission denied'')"

text \<open>The permissions a rule asks for.\<close>

definition rule_required :: "string \<Rightarrow> ToolSpec \<Rightarrow> toolPermissionRule \<Rightarrow> string list" where
  "rule_required tool spec rule =
     (if ru_Required rule = [] \<and> ru_OperationRules rule = []
      then defaultRequiredPermissions tool spec (ru_Action rule) else ru_Required rule)"

text \<open>The loop over the rules, with the verdict so far.\<close>

fun rule_loop :: "string list \<Rightarrow> string \<Rightarrow> ToolSpec \<Rightarrow> string \<Rightarrow> toolPermissionRule list \<Rightarrow> go_error + string" where
  "rule_loop granted tool spec verdict [] = Inr verdict"
| "rule_loop granted tool spec verdict (rule # rules) =
     (let required = rule_required tool spec rule;
          t = trim_space tool;
          refused = (if required = [] then None
                     else if to_lower (trim_space (ru_MatchMode rule)) = ''any'' then
                       (case permissionMatchAny granted required of
                          (True, _) \<Rightarrow> None
                        | (False, missing) \<Rightarrow>
                            Some (NewToolDeniedError
                              (''policy permission denied for tool='' @ t @ '' rule='' @ ru_Name rule
                               @ '' required_any='' @ str_join '','' missing)
                              [(''tool'', t), (''rule'', trim_space (ru_Name rule)),
                               (''required_any'', str_join '','' missing)] denied_cause))
                     else
                       (case permissionMatchAll granted required of
                          (True, _) \<Rightarrow> None
                        | (False, missing) \<Rightarrow>
                            Some (NewToolDeniedError
                              (''policy permission denied for tool='' @ t @ '' rule='' @ ru_Name rule
                               @ '' required='' @ str_join '','' missing)
                              [(''tool'', t), (''rule'', trim_space (ru_Name rule)),
                               (''required'', str_join '','' missing)] denied_cause)))
      in case refused of
           Some e \<Rightarrow> Inl e
         | None \<Rightarrow>
             rule_loop granted tool spec
               (if ru_OperationRules rule \<noteq> []
                then mostRestrictiveVerdict verdict
                       (evaluateOperationRules (ru_OperationRules rule) (tl_OperationClasses spec))
                else verdict) rules)"

definition Authorize :: "AgentToolAuthorizer \<Rightarrow> string \<Rightarrow> ToolSpec \<Rightarrow> go_error + AuthorizeResult" where
  "Authorize a tool spec =
     (let key = normalizeToolKey tool; t = trim_space tool; rules = au_rules a key
      in if List.member (au_allowedTools a) key then Inr allow_result
         else if au_missingRoles a \<noteq> [] then
           (let missing = str_join '','' (sort (au_missingRoles a))
            in Inl (NewToolDeniedError
                 (''policy permission denied for tool='' @ t @ '' missing_roles='' @ missing)
                 [(''tool'', t), (''missing_roles'', missing)] denied_cause))
         else if rules = [] \<and> \<not> au_enforceByRole a then Inr allow_result
         else if rules = [] then
           (case permissionMatchAll (au_permissions a) (defaultRequiredPermissions tool spec ''invoke'') of
              (True, _) \<Rightarrow> Inr allow_result
            | (False, missing) \<Rightarrow>
                Inl (NewToolDeniedError
                  (''policy permission denied for tool='' @ t @ '' required='' @ str_join '','' missing)
                  [(''tool'', t), (''required'', str_join '','' missing)] denied_cause))
         else case rule_loop (au_permissions a) tool spec ''allow'' rules of
                Inl e \<Rightarrow> Inl e
              | Inr verdict \<Rightarrow>
                  if verdict = ''deny'' then
                    Inl (NewToolDeniedError (''policy operation denied for tool='' @ t) [(''tool'', t)] denied_cause)
                  else if verdict = ''approval_required'' then
                    Inr \<lparr>ar_Verdict = ''approval_required'', ar_Reason = ''approval required for tool='' @ t,
                         ar_Details = [(''tool'', t)]\<rparr>
                  else Inr allow_result)"

section \<open>Grants\<close>

text \<open>
  A wrapped authorizer: the demand for an approval is dropped when the approval of the call, found
  under the key of the task and the message, is approved and for the same tool. An error of the
  lookup is returned.
\<close>

definition authorize_with_grant ::
  "(string \<Rightarrow> go_error + ToolApproval option) \<Rightarrow> string \<Rightarrow> string
    \<Rightarrow> (string \<Rightarrow> ToolSpec \<Rightarrow> go_error + AuthorizeResult) \<Rightarrow> string \<Rightarrow> ToolSpec \<Rightarrow> go_error + AuthorizeResult" where
  "authorize_with_grant getter taskKey messageID inner tool spec =
     (case inner tool spec of
        Inl e \<Rightarrow> Inl e
      | Inr out \<Rightarrow>
          if ar_Verdict out \<noteq> ''approval_required'' then Inr out
          else case getter (ToolApprovalScopedStoreKey taskKey messageID) of
                 Inl e \<Rightarrow> Inl e
               | Inr None \<Rightarrow> Inr out
               | Inr (Some row) \<Rightarrow>
                   if \<not> equal_fold (trim_space (av_Phase (ta_Status row))) ''approved'' then Inr out
                   else if \<not> equal_fold (normalizeToolKey (ap_Tool (ta_Spec row))) (normalizeToolKey tool) then Inr out
                   else Inr allow_result)"

definition NewAuthorizerWithApprovedToolGrant ::
  "(string \<Rightarrow> ToolSpec \<Rightarrow> go_error + AuthorizeResult) \<Rightarrow> (string \<Rightarrow> go_error + ToolApproval option) option
    \<Rightarrow> string \<Rightarrow> string \<Rightarrow> string \<Rightarrow> ToolSpec \<Rightarrow> go_error + AuthorizeResult" where
  "NewAuthorizerWithApprovedToolGrant inner getter taskKey messageID =
     (case getter of
        None \<Rightarrow> inner
      | Some get \<Rightarrow>
          if trim_space taskKey = [] \<or> trim_space messageID = [] then inner
          else authorize_with_grant get (trim_space taskKey) (trim_space messageID) inner)"

section \<open>The decision, declaratively\<close>

datatype decision = Allowed | NeedsApproval | Denied

definition decision_of :: "go_error + AuthorizeResult \<Rightarrow> decision" where
  "decision_of r =
     (case r of Inl _ \<Rightarrow> Denied | Inr out \<Rightarrow> if ar_Verdict out = ''approval_required'' then NeedsApproval else Allowed)"

definition rule_satisfied :: "string list \<Rightarrow> string \<Rightarrow> ToolSpec \<Rightarrow> toolPermissionRule \<Rightarrow> bool" where
  "rule_satisfied granted tool spec rule \<longleftrightarrow>
     (let required = rule_required tool spec rule; ps = set (dedupePermissions required)
      in required = []
         \<or> (if to_lower (trim_space (ru_MatchMode rule)) = ''any'' then ps \<inter> set granted \<noteq> {}
            else ps \<subseteq> set granted))"

text \<open>Some rule gives some operation class of the tool a verdict of at least this severity.\<close>

definition demands :: "nat \<Rightarrow> toolPermissionRule set \<Rightarrow> ToolSpec \<Rightarrow> bool" where
  "demands n rules spec \<longleftrightarrow> (\<exists>rule \<in> rules. \<exists>op \<in> set (tl_OperationClasses spec).
     n \<le> severity (matchOperationClass (ru_OperationRules rule) op))"

definition authorize_spec :: "AgentToolAuthorizer \<Rightarrow> string \<Rightarrow> ToolSpec \<Rightarrow> decision" where
  "authorize_spec a tool spec =
     (let key = normalizeToolKey tool; rules = set (au_rules a key); granted = au_permissions a
      in if key \<in> set (au_allowedTools a) then Allowed
         else if au_missingRoles a \<noteq> [] then Denied
         else if rules = {} then
           (if au_enforceByRole a
               \<and> \<not> set (dedupePermissions (defaultRequiredPermissions tool spec ''invoke'')) \<subseteq> set granted
            then Denied else Allowed)
         else if \<not> (\<forall>rule \<in> rules. rule_satisfied granted tool spec rule) \<or> demands 2 rules spec then Denied
         else if demands 1 rules spec then NeedsApproval
         else Allowed)"

lemma severity_values: "severity v = (if v = ''deny'' then 2 else if v = ''approval_required'' then 1 else 0)"
  by (simp add: severity_def)

lemma severity_most: "severity (mostRestrictiveVerdict a b) = max (severity a) (severity b)"
  by (simp add: mostRestrictiveVerdict_def)

lemma severity_fold:
  "0 < n \<Longrightarrow> n \<le> severity (fold (\<lambda>op v. mostRestrictiveVerdict v (f op)) ops v) \<longleftrightarrow>
     n \<le> severity v \<or> (\<exists>op \<in> set ops. n \<le> severity (f op))"
  by (induction ops arbitrary: v) (auto simp: severity_most)

lemma severity_evaluate:
  "0 < n \<Longrightarrow> n \<le> severity (evaluateOperationRules rules ops) \<longleftrightarrow>
     (\<exists>op \<in> set ops. n \<le> severity (matchOperationClass rules op))"
  by (simp add: evaluateOperationRules_def severity_fold) (simp add: severity_values)

lemma match_all: "fst (permissionMatchAll granted required) \<longleftrightarrow> set (dedupePermissions required) \<subseteq> set granted"
  by (auto simp: permissionMatchAll_def Let_def filter_empty_conv)

lemma match_any: "fst (permissionMatchAny granted required) \<longleftrightarrow> set (dedupePermissions required) \<inter> set granted \<noteq> {}"
  by (auto simp: permissionMatchAny_def Let_def list_ex_iff)

lemma rule_loop_Cons:
  "rule_satisfied granted tool spec rule \<Longrightarrow>
     rule_loop granted tool spec v (rule # rules) = rule_loop granted tool spec
       (if ru_OperationRules rule \<noteq> []
        then mostRestrictiveVerdict v (evaluateOperationRules (ru_OperationRules rule) (tl_OperationClasses spec))
        else v) rules"
  "\<not> rule_satisfied granted tool spec rule \<Longrightarrow> \<exists>e. rule_loop granted tool spec v (rule # rules) = Inl e"
  using match_all [of granted "rule_required tool spec rule"] match_any [of granted "rule_required tool spec rule"]
  by (auto simp: rule_satisfied_def Let_def split: prod.splits bool.splits if_splits)

declare rule_loop.simps(2) [simp del]

lemma no_rules_match [simp]: "matchOperationClass [] op = ''allow''"
  by (simp add: matchOperationClass_def)

lemma rule_loop_result:
  "(\<exists>e. rule_loop granted tool spec v rules = Inl e) \<longleftrightarrow> \<not> (\<forall>rule \<in> set rules. rule_satisfied granted tool spec rule)"
  "rule_loop granted tool spec v rules = Inr v' \<Longrightarrow> 0 < n \<Longrightarrow>
     n \<le> severity v' \<longleftrightarrow> n \<le> severity v \<or> demands n (set rules) spec"
proof (induction rules arbitrary: v)
  case (Cons rule rules)
  {
    case 1
    show ?case
      using Cons.IH(1) rule_loop_Cons [of granted tool spec rule v rules]
      by (cases "rule_satisfied granted tool spec rule") auto
  next
    case 2
    define w where "w = (if ru_OperationRules rule \<noteq> []
      then mostRestrictiveVerdict v (evaluateOperationRules (ru_OperationRules rule) (tl_OperationClasses spec)) else v)"
    have sat: "rule_satisfied granted tool spec rule"
      using 2(1) rule_loop_Cons(2) [of granted tool spec rule v rules] by auto
    then have "rule_loop granted tool spec w rules = Inr v'"
      using 2(1) by (simp add: rule_loop_Cons(1) w_def)
    then have "n \<le> severity v' \<longleftrightarrow> n \<le> severity w \<or> demands n (set rules) spec" by (rule Cons.IH(2) [OF _ 2(2)])
    moreover have "n \<le> severity w \<longleftrightarrow> n \<le> severity v \<or> demands n {rule} spec"
      using 2(2) by (auto simp: w_def demands_def severity_most severity_evaluate le_max_iff_disj severity_values [of "''allow''"])
    ultimately show ?case by (auto simp: demands_def)
  }
qed (auto simp: demands_def)

lemma authorize_decision: "decision_of (Authorize a tool spec) = authorize_spec a tool spec"
proof -
  let ?rules = "au_rules a (normalizeToolKey tool)"
  consider (loop) "\<not> List.member (au_allowedTools a) (normalizeToolKey tool)" "au_missingRoles a = []" "?rules \<noteq> []"
    | (other) "List.member (au_allowedTools a) (normalizeToolKey tool) \<or> au_missingRoles a \<noteq> [] \<or> ?rules = []"
    by blast
  then show ?thesis
  proof cases
    case other
    then show ?thesis
      using match_all [of "au_permissions a" "defaultRequiredPermissions tool spec ''invoke''"]
      by (auto simp: Authorize_def authorize_spec_def decision_of_def allow_result_def Let_def
          split: prod.splits bool.splits)
  next
    case loop
    show ?thesis
    proof (cases "rule_loop (au_permissions a) tool spec ''allow'' ?rules")
      case (Inl e)
      then have "\<not> (\<forall>rule \<in> set ?rules. rule_satisfied (au_permissions a) tool spec rule)"
        using rule_loop_result(1) by blast
      then show ?thesis using Inl loop
        by (auto simp: Authorize_def authorize_spec_def decision_of_def Let_def)
    next
      case (Inr v)
      then have sat: "\<forall>rule \<in> set ?rules. rule_satisfied (au_permissions a) tool spec rule"
        using rule_loop_result(1) [of "au_permissions a" tool spec "''allow''" ?rules] by auto
      have d: "n \<le> severity v \<longleftrightarrow> demands n (set ?rules) spec" if "0 < n" for n
        using rule_loop_result(2) [OF Inr that] that by (simp add: severity_values [of "''allow''"])
      have "v = ''deny'' \<longleftrightarrow> demands 2 (set ?rules) spec"
        using d [of 2] by (auto simp: severity_values split: if_splits)
      moreover have "v = ''deny'' \<or> v = ''approval_required'' \<longleftrightarrow> demands 1 (set ?rules) spec"
        using d [of 1] by (auto simp: severity_values split: if_splits)
      ultimately show ?thesis using Inr loop sat
        by (auto simp: Authorize_def authorize_spec_def decision_of_def allow_result_def Let_def)
    qed
  qed
qed

section \<open>Properties\<close>


lemma authorizer_same:
  assumes "set ps = set ps'"
  shows "authorize_spec (NewAgentToolAuthorizer ns agent roles (Some ps)) tool spec
       = authorize_spec (NewAgentToolAuthorizer ns agent roles (Some ps')) tool spec"
proof -
  let ?a = "\<lambda>ps. NewAgentToolAuthorizer ns agent roles (Some ps)"
  have r: "set (au_rules (?a ps) key) = set (au_rules (?a ps') key)" for key
    by (simp add: NewAgentToolAuthorizer_def Let_def assms)
  have f: "au_allowedTools (?a ps) = au_allowedTools (?a ps')" "au_missingRoles (?a ps) = au_missingRoles (?a ps')"
    "au_permissions (?a ps) = au_permissions (?a ps')" "au_enforceByRole (?a ps) = au_enforceByRole (?a ps')"
    by (simp_all add: NewAgentToolAuthorizer_def Let_def)
  show ?thesis unfolding authorize_spec_def Let_def r f ..
qed

text \<open>
  The order in which the permission store lists the permissions, and how often it lists one, does
  not matter to any decision.
\<close>

theorem permission_order_irrelevant:
  assumes "set ps = set ps'"
  shows "decision_of (Authorize (NewAgentToolAuthorizer ns agent roles (Some ps)) tool spec)
       = decision_of (Authorize (NewAgentToolAuthorizer ns agent roles (Some ps')) tool spec)"
  using authorizer_same [OF assms] by (simp add: authorize_decision)

definition demo_permission :: "string \<Rightarrow> ToolPermission" where
  "demo_permission verdict = \<lparr>pm_APIVersion = [], pm_Kind = ''ToolPermission'',
     pm_Metadata = zero_meta\<lparr>m_Name := ''p'', m_Namespace := ''default''\<rparr>,
     pm_Spec = \<lparr>pm_ToolRef = ''db'', pm_Action = ''invoke'', pm_RequiredPermissions = [], pm_MatchMode = ''all'',
       pm_ApplyMode = ''global'', pm_TargetAgents = [],
       pm_OperationRules = [\<lparr>or_OperationClass = ''write'', or_Verdict = verdict\<rparr>]\<rparr>,
     pm_Status = \<lparr>gs_Phase = ''Ready'', gs_LastError = [], gs_ObservedGeneration = 0\<rparr>\<rparr>"

definition demo_agent :: Agent where
  "demo_agent = \<lparr>ag_Metadata = zero_meta\<lparr>m_Name := ''writer''\<rparr>, ag_Spec = \<lparr>ag_Model = [], ag_ModelRef = ''m'',
     ag_Tools = [''db'', ''mail''], ag_AllowedTools = [], ag_Roles = [], ag_MemoryRef = [], ag_MemoryAllow = []\<rparr>\<rparr>"

definition demo_tool :: ToolSpec where
  "demo_tool = \<lparr>tl_Type = ''http'', tl_Capabilities = [], tl_OperationClasses = [''write''], tl_RiskLevel = ''low'',
     tl_Timeout = ''30s'', tl_IsolationMode = ''none'', tl_MaxAttempts = 1, tl_Backoff = ''0s'',
     tl_MaxBackoff = ''30s'', tl_Jitter = ''none''\<rparr>"

abbreviation demo_authorizer :: "ToolPermission list \<Rightarrow> AgentToolAuthorizer" where
  "demo_authorizer ps \<equiv> NewAgentToolAuthorizer ''default'' demo_agent None (Some ps)"

lemma permission_order_irrelevant_witness:
  "decision_of (Authorize (demo_authorizer [demo_permission ''deny'', demo_permission ''allow'']) ''db'' demo_tool)
     = decision_of (Authorize (demo_authorizer [demo_permission ''allow'', demo_permission ''deny'']) ''db'' demo_tool)
   \<and> decision_of (Authorize (demo_authorizer [demo_permission ''deny'']) ''db'' demo_tool) = Denied"
proof
  show "decision_of (Authorize (demo_authorizer [demo_permission ''deny'']) ''db'' demo_tool) = Denied"
    by code_simp
qed (rule permission_order_irrelevant, auto)

text \<open>
  A grant changes a decision only from a demand for approval to permission, and only when the
  approval stored for this task and message is approved and names this tool. A denial is never
  lifted.
\<close>

theorem grant_only_answers_demand:
  assumes "NewAuthorizerWithApprovedToolGrant inner (Some getter) taskKey messageID tool spec = Inr out"
    and "inner tool spec \<noteq> Inr out"
  shows "decision_of (inner tool spec) = NeedsApproval \<and> out = allow_result
    \<and> (\<exists>row. getter (ToolApprovalScopedStoreKey (trim_space taskKey) (trim_space messageID)) = Inr (Some row)
         \<and> equal_fold (trim_space (av_Phase (ta_Status row))) ''approved''
         \<and> equal_fold (normalizeToolKey (ap_Tool (ta_Spec row))) (normalizeToolKey tool))"
  using assms
  by (auto simp: NewAuthorizerWithApprovedToolGrant_def authorize_with_grant_def decision_of_def
      split: if_splits sum.splits option.splits)

definition demo_approval :: "string \<Rightarrow> string \<Rightarrow> ToolApproval" where
  "demo_approval tool phase = \<lparr>ta_APIVersion = [], ta_Kind = ''ToolApproval'', ta_Metadata = zero_meta,
     ta_Spec = \<lparr>ap_TaskRef = ''default/t'', ap_Tool = tool, ap_OperationClass = ''write'', ap_Agent = ''writer'',
       ap_Input = [], ap_Reason = [], ap_TTL = ''10m''\<rparr>,
     ta_Status = \<lparr>av_Phase = phase, av_Decision = [], av_DecidedBy = [], av_DecidedAt = [], av_Comment = [],
       av_ExpiresAt = []\<rparr>\<rparr>"

abbreviation demo_needs :: "string \<Rightarrow> ToolSpec \<Rightarrow> go_error + AuthorizeResult" where
  "demo_needs \<equiv> Authorize (demo_authorizer [demo_permission ''approval_required''])"

lemma demo_needs_result:
  "demo_needs ''db'' demo_tool = Inr \<lparr>ar_Verdict = ''approval_required'',
      ar_Reason = ''approval required for tool=db'', ar_Details = [(''tool'', ''db'')]\<rparr>"
  by code_simp

lemma grant_only_answers_demand_witness:
  "decision_of (demo_needs ''db'' demo_tool) = NeedsApproval"
proof -
  let ?get = "\<lambda>_. Inr (Some (demo_approval ''db'' ''Approved'')) :: go_error + ToolApproval option"
  have "equal_fold (trim_space (av_Phase (ta_Status (demo_approval ''db'' ''Approved'')))) ''approved''"
    "equal_fold (normalizeToolKey (ap_Tool (ta_Spec (demo_approval ''db'' ''Approved'')))) (normalizeToolKey ''db'')"
    "trim_space ''default/t'' \<noteq> []" "trim_space ''m1'' \<noteq> []"
    by code_simp+
  then have "NewAuthorizerWithApprovedToolGrant demo_needs (Some ?get) ''default/t'' ''m1'' ''db'' demo_tool
      = Inr allow_result"
    by (simp add: NewAuthorizerWithApprovedToolGrant_def authorize_with_grant_def demo_needs_result)
  from grant_only_answers_demand [OF this] show ?thesis by (simp add: demo_needs_result allow_result_def)
qed

text \<open>The first call of an execution that is not allowed, with what it meets.\<close>

fun first_blocked ::
  "(string \<Rightarrow> ToolSpec \<Rightarrow> go_error + AuthorizeResult) \<Rightarrow> (string \<times> ToolSpec) list \<Rightarrow> string option" where
  "first_blocked auth [] = None"
| "first_blocked auth ((tool, spec) # calls) =
     (if decision_of (auth tool spec) = Allowed then first_blocked auth calls else Some tool)"

lemma first_blocked_None: "first_blocked auth calls = None \<longleftrightarrow> (\<forall>(t, sp) \<in> set calls. decision_of (auth t sp) = Allowed)"
  by (induction auth calls rule: first_blocked.induct) auto

text \<open>
  One approval is kept per task and message, for one tool. So an execution that calls two
  different tools which both need approval is never allowed through, whatever was approved before:
  approving one takes the grant of the other away, and the execution is repeated for ever.
\<close>

theorem two_approvals_block:
  assumes "(t1, s1) \<in> set calls" "(t2, s2) \<in> set calls" "normalizeToolKey t1 \<noteq> normalizeToolKey t2"
    and "decision_of (inner t1 s1) = NeedsApproval" "decision_of (inner t2 s2) = NeedsApproval"
  shows "first_blocked (NewAuthorizerWithApprovedToolGrant inner getter taskKey messageID) calls \<noteq> None"
proof
  let ?auth = "NewAuthorizerWithApprovedToolGrant inner getter taskKey messageID"
  let ?key = "ToolApprovalScopedStoreKey (trim_space taskKey) (trim_space messageID)"
  assume "first_blocked ?auth calls = None"
  then have ok: "decision_of (?auth t1 s1) = Allowed" "decision_of (?auth t2 s2) = Allowed"
    using assms(1,2) by (auto simp: first_blocked_None)
  have "\<exists>get row. getter = Some get \<and> get ?key = Inr (Some row)
      \<and> equal_fold (normalizeToolKey (ap_Tool (ta_Spec row))) (normalizeToolKey t)"
    if "decision_of (inner t s) = NeedsApproval" "decision_of (?auth t s) = Allowed" for t s
    using that by (cases getter)
      (auto simp: NewAuthorizerWithApprovedToolGrant_def authorize_with_grant_def decision_of_def allow_result_def
        split: if_splits sum.splits option.splits)
  from this [OF assms(4) ok(1)] this [OF assms(5) ok(2)]
  show False using assms(3) by (auto simp: equal_fold_def normalizeToolKey_def)
qed

lemma two_approvals_block_witness:
  "first_blocked (NewAuthorizerWithApprovedToolGrant
     (Authorize (demo_authorizer [demo_permission ''approval_required'',
        demo_permission ''approval_required''\<lparr>pm_Spec := (pm_Spec (demo_permission ''approval_required''))\<lparr>pm_ToolRef := ''mail''\<rparr>\<rparr>]))
     (Some (\<lambda>_. Inr (Some (demo_approval ''mail'' ''Approved'')))) ''default/t'' ''m1'')
     [(''db'', demo_tool), (''mail'', demo_tool)] \<noteq> None"
proof (rule two_approvals_block [where ?t1.0 = "''db''" and ?t2.0 = "''mail''" and ?s1.0 = demo_tool and ?s2.0 = demo_tool])
  show "normalizeToolKey ''db'' \<noteq> normalizeToolKey ''mail''" by code_simp
qed (simp_all, code_simp+)

end
