(* ===== verification/Task_Controller.thy ===== *)
theory Task_Controller
  imports Task_Control Tool_Authorizer Graph_Order
begin

text \<open>
  The task controller (controllers/task_controller.go): a worker's loop claims due tasks, executes
  them or hands them to the message consumers, and records success, retries, failures and pauses
  for an approval; a sweep before the loop resumes the tasks whose approval was decided.

  The state has the stores, the message bus and, like the schedule controller's, a list of what
  other processes do to the task store before each of this controller's accesses to it
  (\<open>sync_tasks\<close>). What validation finds and what the execution of the agents does (validateTask,
  executeTask, executeTaskFromResume) are arguments of the definitions, in \<open>runtime\<close>; the heartbeat
  that renews the lease meanwhile is one of the other processes. Optional stores are options. Events,
  metering, audit and console output are left out. A call reads the clock once.
\<close>

section \<open>State\<close>

record ctl_world =
  cw_tasks :: TaskStore
  cw_workers :: "WorkerStore option"
  cw_systems :: "(string \<times> AgentSystem) list"
  cw_policies :: "AgentPolicy list"
  cw_toolApprovals :: "ToolApprovalStore option"
  cw_taskApprovals :: "TaskApprovalStore option"
  cw_bus :: "MemoryAgentMessageBus option"
  cw_env :: "(TaskStore \<Rightarrow> TaskStore) list"

definition sync_tasks :: "ctl_world \<Rightarrow> ctl_world" where
  "sync_tasks w = (case cw_env w of [] \<Rightarrow> w | e # es \<Rightarrow> w\<lparr>cw_tasks := e (cw_tasks w), cw_env := es\<rparr>)"

datatype ctl_error = CtlStore api_error | CtlMessage string

datatype exec_outcome = ExecOutput smap | ExecReviewPause string string | ExecError go_error

record task_config =
  tc_workerID :: string
  tc_leaseDuration :: duration
  tc_executionMode :: string

record runtime =
  rt_validate :: "ctl_world \<Rightarrow> Task \<Rightarrow> AgentSystem \<times> string list \<times> string list"
  rt_execute :: "AgentSystem \<Rightarrow> Task \<Rightarrow> ctl_world \<Rightarrow> exec_outcome \<times> Task \<times> ctl_world"
  rt_resume :: "AgentSystem \<Rightarrow> int \<Rightarrow> smap \<Rightarrow> smap \<Rightarrow> Task \<Rightarrow> ctl_world \<Rightarrow> exec_outcome \<times> Task \<times> ctl_world"

section \<open>Access to the task store\<close>

fun upsertTask_loop ::
  "instant \<Rightarrow> nat \<Rightarrow> api_error option \<Rightarrow> Task \<Rightarrow> ctl_world \<Rightarrow> (ctl_error + Task) \<times> ctl_world" where
  "upsertTask_loop now 0 lastErr t w =
     (case lastErr of
        Some e \<Rightarrow> (Inl (CtlStore e), w)
      | None \<Rightarrow>
          let w = sync_tasks w
          in case TaskStore_Upsert now t (cw_tasks w) of
               (Inl e, s) \<Rightarrow> (Inl (CtlStore e), w\<lparr>cw_tasks := s\<rparr>)
             | (Inr u, s) \<Rightarrow> (Inr u, w\<lparr>cw_tasks := s\<rparr>))"
| "upsertTask_loop now (Suc n) lastErr t w =
     (let w = sync_tasks w
      in case TaskStore_Upsert now t (cw_tasks w) of
           (Inr u, s) \<Rightarrow> (Inr u, w\<lparr>cw_tasks := s\<rparr>)
         | (Inl e, s) \<Rightarrow>
             let w = w\<lparr>cw_tasks := s\<rparr>
             in if \<not> IsConflict e then (Inl (CtlStore e), w)
                else let w = sync_tasks w
                     in case TaskStore_Get (taskScopedName t) (cw_tasks w) of
                          None \<Rightarrow> (Inl (CtlStore e), w)
                        | Some current \<Rightarrow>
                            upsertTask_loop now n (Some e)
                              (t\<lparr>t_Metadata := (t_Metadata t)\<lparr>
                                   m_ResourceVersion := m_ResourceVersion (t_Metadata current),
                                   m_Generation := m_Generation (t_Metadata current),
                                   m_CreatedAt := m_CreatedAt (t_Metadata current)\<rparr>,
                                 t_Spec := t_Spec current\<rparr>) w)"

definition upsertTask :: "instant \<Rightarrow> Task \<Rightarrow> ctl_world \<Rightarrow> (ctl_error + Task) \<times> ctl_world" where
  "upsertTask now t w = upsertTask_loop now 5 None t w"

definition appendTaskLog :: "instant \<Rightarrow> string \<Rightarrow> string \<Rightarrow> ctl_world \<Rightarrow> ctl_world" where
  "appendTaskLog now taskName message w =
     (if trim_space taskName = [] \<or> trim_space message = [] then w
      else w\<lparr>cw_tasks := snd (TaskStore_AppendLog now taskName message (cw_tasks w))\<rparr>)"

text \<open>The tail of most transitions: write the task and, when that went well, log.\<close>

definition save :: "instant \<Rightarrow> Task \<Rightarrow> string \<Rightarrow> ctl_world \<Rightarrow> ctl_error option \<times> ctl_world" where
  "save now t message w =
     (case upsertTask now t w of
        (Inl e, w) \<Rightarrow> (Some e, w)
      | (Inr _, w) \<Rightarrow> (None, appendTaskLog now (taskScopedName t) message w))"

section \<open>Ending and pausing a task\<close>

text \<open>The fields that say which worker has the task.\<close>

definition release_worker :: "TaskStatus \<Rightarrow> TaskStatus" where
  "release_worker st = st\<lparr>ts_AssignedWorker := [], ts_ClaimedBy := [], ts_LeaseUntil := [], ts_LastHeartbeat := []\<rparr>"

definition claim_worker :: "task_config \<Rightarrow> instant \<Rightarrow> TaskStatus \<Rightarrow> TaskStatus" where
  "claim_worker cf now st = st\<lparr>ts_AssignedWorker := tc_workerID cf, ts_ClaimedBy := tc_workerID cf,
     ts_LeaseUntil := format_nano (now + tc_leaseDuration cf), ts_LastHeartbeat := format_nano now\<rparr>"

definition started :: "instant \<Rightarrow> TaskStatus \<Rightarrow> TaskStatus" where
  "started now st = (if ts_StartedAt st = [] then st\<lparr>ts_StartedAt := format_nano now\<rparr> else st)"

definition observe_generation :: "Task \<Rightarrow> Task" where
  "observe_generation t = on_status (\<lambda>st. st\<lparr>ts_ObservedGeneration := m_Generation (t_Metadata t)\<rparr>) t"

text \<open>What markFailed and markDeadLetter share.\<close>

definition ended :: "instant \<Rightarrow> string \<Rightarrow> string \<Rightarrow> Task \<Rightarrow> Task" where
  "ended now phase reason t =
     observe_generation (on_status (\<lambda>st. release_worker ((started now (st\<lparr>ts_Phase := phase, ts_LastError := reason\<rparr>))
       \<lparr>ts_CompletedAt := format_nano now, ts_NextAttemptAt := [], ts_Output := fmempty\<rparr>)) t)"

definition markFailed :: "task_config \<Rightarrow> instant \<Rightarrow> Task \<Rightarrow> string \<Rightarrow> ctl_world \<Rightarrow> ctl_error option \<times> ctl_world" where
  "markFailed cf now t reason w =
     save now (appendTaskHistory now (tc_workerID cf) ''failed'' reason (ended now ''Failed'' reason t))
       (''task transitioned to Failed reason='' @ reason) w"

definition markDeadLetter :: "task_config \<Rightarrow> instant \<Rightarrow> Task \<Rightarrow> string \<Rightarrow> ctl_world \<Rightarrow> ctl_error option \<times> ctl_world" where
  "markDeadLetter cf now t reason w =
     save now (appendTaskHistory now (tc_workerID cf) ''deadletter'' reason (ended now ''DeadLetter'' reason t))
       (''task moved to DeadLetter reason='' @ reason) w"

text \<open>The task a scheduled retry leaves behind.\<close>

definition retrying :: "task_config \<Rightarrow> instant \<Rightarrow> duration \<Rightarrow> string \<Rightarrow> Task \<Rightarrow> Task" where
  "retrying cf now delay reason t =
     appendTaskHistory now (tc_workerID cf) ''retry_scheduled''
       (''retry scheduled in '' @ dur_string delay @ '' reason='' @ reason)
       (observe_generation (on_status (\<lambda>st. release_worker (st\<lparr>ts_Phase := ''Pending'',
          ts_LastError := reason @ '' (retry scheduled in '' @ dur_string delay @ '')'',
          ts_CompletedAt := [], ts_NextAttemptAt := format_nano (now + delay), ts_Output := fmempty,
          ts_Messages := []\<rparr>)) t))"

definition handleExecutionFailure ::
  "task_config \<Rightarrow> instant \<Rightarrow> Task \<Rightarrow> string \<Rightarrow> ctl_world \<Rightarrow> ctl_error option \<times> ctl_world" where
  "handleExecutionFailure cf now t reason w =
     (let reason = RedactSensitive reason; maxAttempts = rp_MaxAttempts (sp_Retry (t_Spec t))
      in if 0 < maxAttempts \<and> maxAttempts \<le> ts_Attempts (t_Status t) \<and> isRetryableError reason
           then markDeadLetter cf now t reason w
         else if shouldRetryTask t reason then
           (case retryDelay t of
              None \<Rightarrow> markFailed cf now t (reason @ ''; retry configuration error: time: invalid duration'') w
            | Some delay \<Rightarrow>
                let t' = retrying cf now delay reason t
                in save now t' (''retry scheduled: attempt='' @ itoa (ts_Attempts (t_Status t')) @ '' max_attempts=''
                     @ itoa maxAttempts @ '' next_attempt_at='' @ ts_NextAttemptAt (t_Status t')
                     @ '' reason='' @ reason) w)
         else markFailed cf now t reason w)"

definition waiting_on :: "task_config \<Rightarrow> instant \<Rightarrow> string \<Rightarrow> TaskBlockedOn \<Rightarrow> Task \<Rightarrow> Task" where
  "waiting_on cf now reason blockedOn t =
     appendTaskHistory now (tc_workerID cf) ''waiting_approval'' (''task paused pending approval: '' @ reason)
       (observe_generation (on_status (\<lambda>st. st\<lparr>ts_Phase := ''WaitingApproval'',
          ts_LastError := RedactSensitive reason, ts_BlockedOn := Some blockedOn\<rparr>) t))"

definition transitionToWaitingApproval ::
  "task_config \<Rightarrow> instant \<Rightarrow> Task \<Rightarrow> string \<Rightarrow> TaskBlockedOn \<Rightarrow> ctl_world \<Rightarrow> ctl_error option \<times> ctl_world" where
  "transitionToWaitingApproval cf now t reason blockedOn w =
     save now (waiting_on cf now reason blockedOn t)
       (''task transitioned Running->WaitingApproval reason='' @ reason) w"

definition sync_tool_approval :: "Task \<Rightarrow> string \<Rightarrow> string \<Rightarrow> ToolApproval" where
  "sync_tool_approval t toolName reason =
     \<lparr>ta_APIVersion = ''orloj.dev/v1'', ta_Kind = ''ToolApproval'',
      ta_Metadata = zero_meta\<lparr>m_Namespace := NormalizeNamespace (m_Namespace (t_Metadata t)),
        m_Name := ToolApprovalResourceName (taskScopedName t) (''sync/a'' @ itoa (ts_Attempts (t_Status t)))\<rparr>,
      ta_Spec = \<lparr>ap_TaskRef = taskScopedName t, ap_Tool = toolName, ap_OperationClass = ''write'', ap_Agent = [],
        ap_Input = [], ap_Reason = reason, ap_TTL = []\<rparr>,
      ta_Status = \<lparr>av_Phase = ''Pending'', av_Decision = [], av_DecidedBy = [], av_DecidedAt = [],
        av_Comment = [], av_ExpiresAt = []\<rparr>\<rparr>"

definition createSyncToolApproval ::
  "instant \<Rightarrow> Task \<Rightarrow> go_error \<Rightarrow> ctl_world \<Rightarrow> string \<times> ctl_world" where
  "createSyncToolApproval now t err w =
     (case cw_toolApprovals w of
        None \<Rightarrow> ([], w)
      | Some s \<Rightarrow>
          let toolName = ParseToolFromApprovalError err; reason = take 500 (trim_space (error_text err));
              approval = sync_tool_approval t toolName reason
          in if toolName = [] then ([], w)
             else (m_Name (ta_Metadata approval),
                   w\<lparr>cw_toolApprovals := Some (snd (ToolApprovalStore_Upsert now approval s))\<rparr>))"

section \<open>Running a task\<close>

definition succeeded :: "instant \<Rightarrow> smap \<Rightarrow> Task \<Rightarrow> Task" where
  "succeeded now output t =
     observe_generation (on_status (\<lambda>st. release_worker ((started now (st\<lparr>ts_Phase := ''Succeeded'', ts_LastError := []\<rparr>))
       \<lparr>ts_CompletedAt := format_nano now, ts_Output := output\<rparr>)) t)"

definition reconcilePending ::
  "task_config \<Rightarrow> runtime \<Rightarrow> instant \<Rightarrow> Task \<Rightarrow> ctl_world \<Rightarrow> ctl_error option \<times> ctl_world" where
  "reconcilePending cf rt now t w =
     (let (system, errs, pendingMCP) = rt_validate rt w t
      in if errs \<noteq> [] then markFailed cf now t (str_join ''; '' errs) w
         else if pendingMCP \<noteq> [] then
           (Some (CtlMessage (''mcp tools not yet available (will retry): '' @ str_join ''; '' pendingMCP)), w)
         else let t' = on_status (started now) (appendTaskHistory now (tc_workerID cf) ''running''
                    (''task entered running on worker='' @ tc_workerID cf @ '' attempt='' @ itoa (ts_Attempts (t_Status t)))
                    (observe_generation (on_status (\<lambda>st. claim_worker cf now (st\<lparr>ts_Phase := ''Running'',
                       ts_LastError := [], ts_CompletedAt := [], ts_NextAttemptAt := [], ts_Output := fmempty,
                       ts_Messages := []\<rparr>)) t)))
              in save now t' (''task transitioned Pending->Running system='' @ m_Name (sy_Metadata system)
                   @ '' attempt='' @ itoa (ts_Attempts (t_Status t))) w)"

definition publishAgentMessage ::
  "instant \<Rightarrow> Task \<Rightarrow> TaskMessage \<Rightarrow> ctl_world \<Rightarrow> string option \<times> ctl_world" where
  "publishAgentMessage now t m w =
     (case cw_bus w of
        None \<Rightarrow> (None, w)
      | Some bus \<Rightarrow>
          let envelope = \<lparr>am_MessageID = tm_MessageID m, am_IdempotencyKey = tm_IdempotencyKey m,
                am_TaskID = tm_TaskID m, am_Attempt = tm_Attempt m, am_System = tm_System m,
                am_Namespace = m_Namespace (t_Metadata t), am_FromAgent = tm_FromAgent m,
                am_ToAgent = tm_ToAgent m, am_BranchID = tm_BranchID m, am_ParentBranchID = tm_ParentBranchID m,
                am_Type = tm_Type m, am_Payload = tm_Content m, am_Timestamp = tm_Timestamp m,
                am_TraceID = tm_TraceID m, am_ParentID = tm_ParentID m, am_DelegateOf = []\<rparr>
          in case Publish now envelope bus of
               (Inl e, bus) \<Rightarrow>
                 (Some (''publish agent message to '' @ tm_ToAgent m @ '' failed: '' @ e),
                  appendTaskLog now (taskScopedName t) (''agent message publish failed: id='' @ tm_MessageID m
                    @ '' to='' @ tm_ToAgent m @ '' error='' @ e) (w\<lparr>cw_bus := Some bus\<rparr>))
             | (Inr _, bus) \<Rightarrow>
                 (None, appendTaskLog now (taskScopedName t) (''agent message published: id='' @ tm_MessageID m
                    @ '' to='' @ tm_ToAgent m) (w\<lparr>cw_bus := Some bus\<rparr>)))"

text \<open>The kickoff message for the entry agent of an index.\<close>

definition kickoff_message :: "instant \<Rightarrow> string \<Rightarrow> Task \<Rightarrow> nat \<Rightarrow> string \<Rightarrow> TaskMessage" where
  "kickoff_message now content t idx entry =
     populateTaskMessageMetadata t (int idx)
       (zero_TaskMessage\<lparr>tm_Timestamp := format_nano now, tm_FromAgent := ''system'', tm_ToAgent := entry,
          tm_Type := ''task_start'', tm_Content := content, tm_BranchID := ''b'' @ pad_int 3 (int idx + 1)\<rparr>)"

definition kickoff_trace :: "task_config \<Rightarrow> instant \<Rightarrow> string \<Rightarrow> TaskMessage \<Rightarrow> Task \<Rightarrow> Task" where
  "kickoff_trace cf now entry m t =
     appendTaskHistory now (tc_workerID cf) ''runtime_kickoff''
       (''message-driven kickoff sent to '' @ entry @ '' branch='' @ tm_BranchID m)
       (appendTaskTrace now (zero_TraceEvent\<lparr>te_Timestamp := format_nano now, te_Type := ''task_runtime_kickoff'',
          te_Attempt := ts_Attempts (t_Status t), te_Agent := entry, te_BranchID := tm_BranchID m,
          te_Message := ''message_id='' @ tm_MessageID m @ '' branch_id='' @ tm_BranchID m\<rparr>) t)"

text \<open>The loop over the entry agents: the error of a publication that failed, and the task so far.\<close>

fun kickoff_loop ::
  "task_config \<Rightarrow> instant \<Rightarrow> string \<Rightarrow> nat \<Rightarrow> string list \<Rightarrow> Task \<Rightarrow> ctl_world
    \<Rightarrow> string option \<times> Task \<times> ctl_world" where
  "kickoff_loop cf now content idx [] t w = (None, t, w)"
| "kickoff_loop cf now content idx (entry # entries) t w =
     (if hasKickoffMessage (ts_Messages (t_Status t)) (ts_Attempts (t_Status t)) entry
      then kickoff_loop cf now content (Suc idx) entries t w
      else let m = kickoff_message now content t idx entry;
               t = appendTaskMessage now m t
           in case publishAgentMessage now t m w of
                (Some e, w) \<Rightarrow> (Some e, t, w)
              | (None, w) \<Rightarrow>
                  kickoff_loop cf now content (Suc idx) entries (kickoff_trace cf now entry m t)
                    (appendTaskLog now (taskScopedName t) (''task message-driven kickoff published to='' @ entry
                       @ '' message_id='' @ tm_MessageID m @ '' branch_id='' @ tm_BranchID m) w))"

definition entries_of :: "AgentSystem \<Rightarrow> string list \<Rightarrow> string list" where
  "entries_of system order =
     (let es = entryAgentsFromSystem (sy_Spec system) in if es = [] then take 1 order else es)"

definition with_runtime_output :: "AgentPolicy list \<Rightarrow> AgentSystem \<Rightarrow> string list \<Rightarrow> Task \<Rightarrow> Task" where
  "with_runtime_output policies system entries t =
     (let budget = MinimumTokenBudget (MatchedPolicies t system policies)
      in on_status (\<lambda>st. st\<lparr>ts_Output :=
           fmupd ''runtime.entry_agent'' (str_join '','' entries) (fmupd ''runtime.mode'' ''message-driven''
             (if 0 < budget then fmupd ''token_budget'' (itoa budget) (ts_Output st)
              else fmdrop ''token_budget'' (ts_Output st)))\<rparr>) t)"

definition kickoff_content :: "Task \<Rightarrow> string" where
  "kickoff_content t =
     (let content = trim_space (smap_get (sp_Input (t_Spec t)) ''topic'')
      in if content = [] then ''task='' @ m_Name (t_Metadata t) @ '' attempt='' @ itoa (ts_Attempts (t_Status t))
         else content)"

definition reconcileRunningMessageDriven ::
  "task_config \<Rightarrow> instant \<Rightarrow> Task \<Rightarrow> AgentSystem \<Rightarrow> ctl_world \<Rightarrow> ctl_error option \<times> ctl_world" where
  "reconcileRunningMessageDriven cf now t system w =
     (let order = ExecutionAgentOrder (sy_Spec system)
      in if cw_bus w = None then handleExecutionFailure cf now t
           ''task execution mode message-driven requires configured agent message bus'' w
         else if order = [] then handleExecutionFailure cf now t
           (''cannot derive execution order from agentsystem \"'' @ m_Name (sy_Metadata system) @ ''\"'') w
         else
           let entries = entries_of system order;
               t = with_runtime_output (cw_policies w) system entries t
           in if int (length entries) \<le> countTraceEventsForType (ts_Trace (t_Status t)) ''task_runtime_kickoff''
                   (ts_Attempts (t_Status t))
              then save now (observe_generation t)
                (''task runtime waiting for message processing attempt='' @ itoa (ts_Attempts (t_Status t))) w
              else case kickoff_loop cf now (kickoff_content t) 0 entries t w of
                     (Some e, t, w) \<Rightarrow> handleExecutionFailure cf now t e w
                   | (None, t, w) \<Rightarrow>
                       (case upsertTask now (observe_generation t) w of
                          (Inl e, w) \<Rightarrow> (Some e, w)
                        | (Inr _, w) \<Rightarrow> (None, w)))"

definition reconcileRunning ::
  "task_config \<Rightarrow> runtime \<Rightarrow> instant \<Rightarrow> Task \<Rightarrow> ctl_world \<Rightarrow> ctl_error option \<times> ctl_world" where
  "reconcileRunning cf rt now t w =
     (let (system, errs, pendingMCP) = rt_validate rt w t; errs = errs @ pendingMCP
      in if errs \<noteq> [] then handleExecutionFailure cf now t (str_join ''; '' errs) w
         else if equal_fold (trim_space (tc_executionMode cf)) ''message-driven''
           then reconcileRunningMessageDriven cf now t system w
         else
           let w = appendTaskLog now (taskScopedName t) (''task execution started system='' @ m_Name (sy_Metadata system)) w
           in case rt_execute rt system t w of
                (ExecReviewPause approvalName reason, t, w) \<Rightarrow>
                  transitionToWaitingApproval cf now t reason
                    \<lparr>bo_Kind = ''TaskApproval'', bo_Name = approvalName, bo_Reason = ''output_review''\<rparr> w
              | (ExecError err, t, w) \<Rightarrow>
                  if IsApprovalRequiredError err then
                    (let (approvalName, w) = createSyncToolApproval now t err w
                     in transitionToWaitingApproval cf now t (error_text err)
                          \<lparr>bo_Kind = ''ToolApproval'', bo_Name = approvalName, bo_Reason = ''tool_approval''\<rparr> w)
                  else handleExecutionFailure cf now t (error_text err) w
              | (ExecOutput output, t, w) \<Rightarrow>
                  save now (appendTaskHistory now (tc_workerID cf) ''succeeded'' ''task execution completed successfully''
                      (succeeded now output t))
                    (''task transitioned Running->Succeeded agents='' @ smap_get output ''agents_executed''
                     @ '' tokens_used_total='' @ smap_get output ''tokens_used_total''
                     @ '' tokens_estimated_total='' @ smap_get output ''tokens_estimated_total'') w)"

end
