(* ===== verification/Task_Resume.thy ===== *)
theory Task_Resume
  imports Task_Controller
begin

text \<open>
  Tasks that wait for an approval (controllers/task_controller.go): what each decision leads to, the
  messages that are settled, published again or forwarded, and the resumption in both execution
  modes.
\<close>

section \<open>Tool approvals\<close>

text \<open>The task a granted tool approval leaves behind.\<close>

definition tool_resumed :: "task_config \<Rightarrow> instant \<Rightarrow> ToolApproval \<Rightarrow> Task \<Rightarrow> Task" where
  "tool_resumed cf now a t =
     appendTaskHistory now (tc_workerID cf) ''running'' ''tool approval granted, task resumed''
       (appendTaskTrace now (zero_TraceEvent\<lparr>te_Type := ''tool_approval_approved'',
          te_Agent := trim_space (ap_Agent (ta_Spec a)),
          te_Message := ''tool='' @ trim_space (ap_Tool (ta_Spec a)) @ '' decided_by=''
            @ trim_space (av_DecidedBy (ta_Status a))\<rparr>)
          (on_status (\<lambda>st. claim_worker cf now (st\<lparr>ts_Phase := ''Running'', ts_LastError := [],
             ts_BlockedOn := None\<rparr>)) t))"

text \<open>A pending approval past its expiry counts as expired.\<close>

definition expired_now :: "instant \<Rightarrow> ApprovalStatus \<Rightarrow> bool" where
  "expired_now now st \<longleftrightarrow> av_ExpiresAt st \<noteq> [] \<and> av_Phase st = ''Pending''
     \<and> (case parse_rfc3339 (av_ExpiresAt st) of None \<Rightarrow> False | Some e \<Rightarrow> e < now)"

definition applyWaitingToolApproval ::
  "task_config \<Rightarrow> instant \<Rightarrow> Task \<Rightarrow> ToolApproval \<Rightarrow> ctl_world \<Rightarrow> ctl_error option \<times> ctl_world" where
  "applyWaitingToolApproval cf now t a w =
     (let gone = expired_now now (ta_Status a);
          a = (if gone then a\<lparr>ta_Status := (ta_Status a)\<lparr>av_Phase := ''Expired''\<rparr>\<rparr> else a);
          w = (if gone then w\<lparr>cw_toolApprovals := map_option (\<lambda>s. snd (ToolApprovalStore_Upsert now a s))
                 (cw_toolApprovals w)\<rparr> else w);
          phase = av_Phase (ta_Status a);
          trace = (\<lambda>ty m. appendTaskTrace now (zero_TraceEvent\<lparr>te_Type := ty,
                     te_Agent := trim_space (ap_Agent (ta_Spec a)), te_Message := m\<rparr>) t);
          tool = ''tool='' @ trim_space (ap_Tool (ta_Spec a));
          by = '' decided_by='' @ trim_space (av_DecidedBy (ta_Status a))
      in if phase = ''Approved'' then
           save now (tool_resumed cf now a t) ''task transitioned WaitingApproval->Running (approved)'' w
         else if phase = ''Denied'' then
           markFailed cf now (trace ''tool_approval_denied'' (tool @ by @ '' comment='' @ trim_space (av_Comment (ta_Status a))))
             ''tool approval denied'' w
         else if phase = ''Expired'' then
           markFailed cf now (trace ''tool_approval_expired'' tool) ''tool approval expired'' w
         else (None, w))"

definition reconcileWaitingToolApproval ::
  "task_config \<Rightarrow> instant \<Rightarrow> Task \<Rightarrow> string \<Rightarrow> ctl_world \<Rightarrow> ctl_error option \<times> ctl_world" where
  "reconcileWaitingToolApproval cf now t approvalName w =
     (case cw_toolApprovals w of
        None \<Rightarrow> (None, w)
      | Some s \<Rightarrow>
          if trim_space approvalName = [] then (None, w)
          else case ToolApprovalStore_Get (scopedName (m_Namespace (t_Metadata t)) approvalName) s of
                 None \<Rightarrow> (None, w)
               | Some a \<Rightarrow> applyWaitingToolApproval cf now t a w)"

definition reconcileWaitingToolApprovalLegacy ::
  "task_config \<Rightarrow> instant \<Rightarrow> Task \<Rightarrow> ctl_world \<Rightarrow> ctl_error option \<times> ctl_world" where
  "reconcileWaitingToolApprovalLegacy cf now t w =
     (case cw_toolApprovals w of
        None \<Rightarrow> (None, w)
      | Some s \<Rightarrow>
          (case find (\<lambda>a. let ref = trim_space (ap_TaskRef (ta_Spec a))
                          in ref = taskScopedName t \<or> ref = m_Name (t_Metadata t)) (ToolApprovalStore_List s) of
             None \<Rightarrow> (None, w)
           | Some a \<Rightarrow> applyWaitingToolApproval cf now t a w))"

section \<open>Resuming after a review\<close>

definition resumeMessageToTaskMessage :: "TaskApprovalResumeMessage \<Rightarrow> TaskMessage" where
  "resumeMessageToTaskMessage m =
     zero_TaskMessage\<lparr>tm_Timestamp := trim_space (am_Timestamp m), tm_MessageID := trim_space (am_MessageID m),
       tm_IdempotencyKey := trim_space (am_IdempotencyKey m), tm_TaskID := trim_space (am_TaskID m),
       tm_Attempt := am_Attempt m, tm_System := trim_space (am_System m),
       tm_FromAgent := trim_space (am_FromAgent m), tm_ToAgent := trim_space (am_ToAgent m),
       tm_BranchID := trim_space (am_BranchID m), tm_ParentBranchID := trim_space (am_ParentBranchID m),
       tm_Type := trim_space (am_Type m), tm_Content := trim_space (am_Payload m),
       tm_TraceID := trim_space (am_TraceID m), tm_ParentID := trim_space (am_ParentID m),
       tm_DelegateOf := trim_space (am_DelegateOf m)\<rparr>"

text \<open>The index at which the message's record now is, with the task.\<close>

definition ensureTaskMessageRecordController :: "TaskMessage \<Rightarrow> Task \<Rightarrow> nat \<times> Task" where
  "ensureTaskMessageRecordController m t =
     (let ms = ts_Messages (t_Status t)
      in case find_idx (\<lambda>x. equal_fold (trim_space (tm_MessageID x)) (trim_space (tm_MessageID m))) ms of
           Some i \<Rightarrow>
             let m = (if trim_space (tm_IdempotencyKey m) = []
                      then m\<lparr>tm_IdempotencyKey := trim_space (tm_IdempotencyKey (ms ! i))\<rparr> else m)
             in (i, on_status (\<lambda>st. st\<lparr>ts_Messages := ms[i := m]\<rparr>) t)
         | None \<Rightarrow> (length ms, on_status (\<lambda>st. st\<lparr>ts_Messages := ms @ [m]\<rparr>) t))"

definition allTaskMessagesTerminalController :: "TaskMessage list \<Rightarrow> bool" where
  "allTaskMessagesTerminalController ms \<longleftrightarrow>
     list_all (\<lambda>m. List.member [''succeeded'', ''deadletter''] (to_lower (trim_space (tm_Phase m)))) ms"

text \<open>The current message is done.\<close>

definition settle_current :: "task_config \<Rightarrow> instant \<Rightarrow> TaskApprovalResumeMessage \<Rightarrow> Task \<Rightarrow> Task" where
  "settle_current cf now current t =
     (let (i, t) = ensureTaskMessageRecordController (resumeMessageToTaskMessage current) t
      in on_status (\<lambda>st. st\<lparr>ts_Messages := (ts_Messages st)[i := (ts_Messages st ! i)
           \<lparr>tm_Phase := ''Succeeded'', tm_Worker := tc_workerID cf, tm_ProcessedAt := format_nano now,
            tm_NextAttemptAt := [], tm_LastError := []\<rparr>]\<rparr>) t)"

definition queued_record :: "TaskApprovalResumeMessage \<Rightarrow> TaskMessage" where
  "queued_record m = (resumeMessageToTaskMessage m)\<lparr>tm_Phase := ''Queued'', tm_Worker := [],
     tm_ProcessedAt := [], tm_NextAttemptAt := [], tm_LastError := []\<rparr>"

definition running_again :: "task_config \<Rightarrow> instant \<Rightarrow> Task \<Rightarrow> Task" where
  "running_again cf now t = observe_generation (on_status (\<lambda>st. claim_worker cf now
     (st\<lparr>ts_Phase := ''Running'', ts_BlockedOn := None, ts_LastError := []\<rparr>)) t)"

definition bus_publish :: "instant \<Rightarrow> AgentMessage \<Rightarrow> MemoryAgentMessageBus \<Rightarrow> ctl_world \<Rightarrow> string option \<times> ctl_world" where
  "bus_publish now m bus w =
     (case Publish now m bus of
        (Inl e, bus) \<Rightarrow> (Some e, w\<lparr>cw_bus := Some bus\<rparr>)
      | (Inr _, bus) \<Rightarrow> (None, w\<lparr>cw_bus := Some bus\<rparr>))"

text \<open>
  Publishing the messages that were held back, each with its record in the task; the caller has
  checked that there is a bus.
\<close>

fun forward_held ::
  "instant \<Rightarrow> TaskApprovalResumeMessage list \<Rightarrow> Task \<Rightarrow> ctl_world \<Rightarrow> string option \<times> Task \<times> ctl_world" where
  "forward_held now [] t w = (None, t, w)"
| "forward_held now (m # ms) t w =
     (case cw_bus w of
        None \<Rightarrow> (None, t, w)
      | Some bus \<Rightarrow>
          (case bus_publish now (AgentMessageFromResumeMessage m) bus w of
             (Some e, w) \<Rightarrow> (Some e, t, w)
           | (None, w) \<Rightarrow> forward_held now ms (snd (ensureTaskMessageRecordController (queued_record m) t)) w))"

definition maybeCreateCompletionReviewFromTaskApproval ::
  "instant \<Rightarrow> Task \<Rightarrow> TaskApproval \<Rightarrow> TaskApprovalResumeContext \<Rightarrow> ctl_world \<Rightarrow> (ctl_error + bool) \<times> ctl_world" where
  "maybeCreateCompletionReviewFromTaskApproval now t a resume w =
     (case cw_taskApprovals w of
        None \<Rightarrow> (Inr False, w)
      | Some s \<Rightarrow>
          if equal_fold (trim_space (tv_CheckpointType (tr_Spec a))) ''task_output'' then (Inr False, w)
          else case store_get (scopedName (m_Namespace (t_Metadata t)) (sp_System (t_Spec t))) (cw_systems w) of
                 None \<Rightarrow> (Inr False, w)
               | Some system \<Rightarrow>
                   (case as_CompletionReview (sy_Spec system) of
                      None \<Rightarrow> (Inr False, w)
                    | Some rv \<Rightarrow>
                        if equal_fold (trim_space (tv_CheckpointID (tr_Spec a))) (trim_space (v_CheckpointID rv))
                          then (Inr False, w)
                        else
                          let name = TaskApprovalResourceName (taskScopedName t) (v_CheckpointID rv) 1;
                              nextResume = zero_resume\<lparr>rs_Mode := trim_space (rs_Mode resume),
                                rs_Action := ''message_complete'', rs_System := trim_space (sp_System (t_Spec t)),
                                rs_ProducingAgent := trim_space (rs_ProducingAgent resume),
                                rs_CurrentMessage := rs_CurrentMessage resume, rs_Output := ts_Output (t_Status t)\<rparr>;
                              created = \<lparr>tr_APIVersion = ''orloj.dev/v1'', tr_Kind = ''TaskApproval'',
                                tr_Metadata = zero_meta\<lparr>m_Namespace := m_Namespace (t_Metadata t), m_Name := name\<rparr>,
                                tr_Spec = \<lparr>tv_TaskRef = taskScopedName t, tv_CheckpointID = v_CheckpointID rv,
                                  tv_CheckpointType = ''task_output'', tv_Agent = trim_space (rs_ProducingAgent resume),
                                  tv_Reason = trim_space (v_Reason rv), tv_TTL = trim_space (v_TTL rv),
                                  tv_AllowRequestChanges = v_AllowRequestChanges rv,
                                  tv_MaxReviewCycles = v_MaxReviewCycles rv, tv_ReviewCycle = 1, tv_Supersedes = [],
                                  tv_Output = OutMap (ts_Output (t_Status t)), tv_OutputFormat = ''json'',
                                  tv_ResumeContext = Inr nextResume\<rparr>,
                                tr_Status = \<lparr>av_Phase = ''Pending'', av_Decision = [], av_DecidedBy = [],
                                  av_DecidedAt = [], av_Comment = [], av_ExpiresAt = []\<rparr>\<rparr>
                          in case TaskApprovalStore_Upsert now created s of
                               (Inl e, s) \<Rightarrow> (Inl (CtlStore e), w\<lparr>cw_taskApprovals := Some s\<rparr>)
                             | (Inr _, s) \<Rightarrow>
                                 let w = w\<lparr>cw_taskApprovals := Some s\<rparr>;
                                     t = observe_generation (on_status (\<lambda>st. st\<lparr>ts_Phase := ''WaitingApproval'',
                                           ts_BlockedOn := Some \<lparr>bo_Kind = ''TaskApproval'', bo_Name = name,
                                             bo_Reason = ''output_review''\<rparr>, ts_LastError := []\<rparr>) t)
                                 in case save now t (''task paused for completion review: approval='' @ name) w of
                                      (Some e, w) \<Rightarrow> (Inl e, w)
                                    | (None, w) \<Rightarrow> (Inr True, w)))"

definition rerun_message :: "instant \<Rightarrow> TaskApproval \<Rightarrow> TaskApprovalResumeMessage \<Rightarrow> AgentMessage" where
  "rerun_message now a current =
     (let i = trim_space (am_MessageID current) @ ''/review-'' @ itoa (tv_ReviewCycle (tr_Spec a) + 1)
      in (AgentMessageFromResumeMessage current)\<lparr>am_MessageID := i, am_IdempotencyKey := i,
           am_Type := ''review_request_changes'', am_ParentID := trim_space (am_MessageID current),
           am_Timestamp := format_nano now,
           am_Payload := EncodeReviewRequestPayload
             \<lparr>rq_Content = trim_space (am_Payload current), rq_Feedback = trim_space (av_Comment (tr_Status a)),
              rq_PreviousOutput = stringifyTaskApprovalOutput (tv_Output (tr_Spec a)),
              rq_CheckpointID = trim_space (tv_CheckpointID (tr_Spec a)), rq_Cycle = tv_ReviewCycle (tr_Spec a) + 1,
              rq_RequestedBy = trim_space (av_DecidedBy (tr_Status a)),
              rq_Supersedes = trim_space (m_Name (tr_Metadata a))\<rparr>\<rparr>)"

text \<open>An approved task with nothing to forward: done when all its messages are, else running again.\<close>

definition resumed_or_completed :: "task_config \<Rightarrow> instant \<Rightarrow> Task \<Rightarrow> Task" where
  "resumed_or_completed cf now t =
     observe_generation (on_status (\<lambda>st.
       (if allTaskMessagesTerminalController (ts_Messages st)
        then release_worker (st\<lparr>ts_Phase := ''Succeeded'', ts_CompletedAt := format_nano now\<rparr>)
        else claim_worker cf now (st\<lparr>ts_Phase := ''Running''\<rparr>))\<lparr>ts_BlockedOn := None, ts_LastError := []\<rparr>) t)"

definition resumeMessageDrivenTaskApproval ::
  "task_config \<Rightarrow> instant \<Rightarrow> Task \<Rightarrow> TaskApproval \<Rightarrow> TaskApprovalResumeContext \<Rightarrow> bool \<Rightarrow> ctl_world
    \<Rightarrow> ctl_error option \<times> ctl_world" where
  "resumeMessageDrivenTaskApproval cf now t a resume requestChanges w =
     (case rs_CurrentMessage resume of
        None \<Rightarrow> (Some (CtlMessage (''task approval \"'' @ m_Name (tr_Metadata a)
          @ ''\" is missing resume current_message'')), w)
      | Some current \<Rightarrow>
          let t = settle_current cf now current t
          in if requestChanges then
               (case cw_bus w of
                  None \<Rightarrow> (Some (CtlMessage
                    ''agent message bus is required to resume task approval request_changes''), w)
                | Some bus \<Rightarrow>
                    let rerun = rerun_message now a current
                    in case bus_publish now rerun bus w of
                         (Some e, w) \<Rightarrow> (Some (CtlMessage e), w)
                       | (None, w) \<Rightarrow>
                           let t = snd (ensureTaskMessageRecordController
                                 (queued_record (ResumeMessageFromAgentMessage rerun)) t)
                           in save now (running_again cf now t)
                                (''task approval requested changes: rerun_message='' @ am_MessageID rerun) w)
             else if to_lower (trim_space (rs_Action resume)) = ''message_forward'' then
               (case cw_bus w of
                  None \<Rightarrow> (Some (CtlMessage ''agent message bus is required to resume task approval''), w)
                | Some bus \<Rightarrow>
                    (case forward_held now (rs_NextMessages resume) t w of
                       (Some e, t, w) \<Rightarrow> (Some (CtlMessage e), w)
                     | (None, t, w) \<Rightarrow>
                         save now (running_again cf now t) (''task approval granted: forwarded ''
                           @ itoa (int (length (rs_NextMessages resume))) @ '' downstream message(s)'') w))
             else
               let t = (if rs_Output resume = fmempty then t
                        else on_status (\<lambda>st. st\<lparr>ts_Output := rs_Output resume\<rparr>) t)
               in case maybeCreateCompletionReviewFromTaskApproval now t a resume w of
                    (Inl e, w) \<Rightarrow> (Some e, w)
                  | (Inr True, w) \<Rightarrow> (None, w)
                  | (Inr False, w) \<Rightarrow>
                      save now (resumed_or_completed cf now t) ''task approval granted: task resumed/completed'' w)"

text \<open>Resuming the execution of the agents one after the other.\<close>

definition review_input :: "TaskApproval \<Rightarrow> smap \<Rightarrow> smap" where
  "review_input a input =
     fmupd ''review.supersedes'' (trim_space (m_Name (tr_Metadata a)))
     (fmupd ''review.requested_by'' (trim_space (av_DecidedBy (tr_Status a)))
     (fmupd ''review.cycle'' (itoa (tv_ReviewCycle (tr_Spec a) + 1))
     (fmupd ''review.checkpoint_id'' (trim_space (tv_CheckpointID (tr_Spec a)))
     (fmupd ''review.previous_output'' (stringifyTaskApprovalOutput (tv_Output (tr_Spec a)))
     (fmupd ''review.feedback'' (trim_space (av_Comment (tr_Status a))) input)))))"

definition completed_by_review :: "instant \<Rightarrow> smap \<Rightarrow> Task \<Rightarrow> Task" where
  "completed_by_review now output t =
     observe_generation (on_status (\<lambda>st. release_worker (st\<lparr>ts_Phase := ''Succeeded'', ts_LastError := [],
       ts_CompletedAt := format_nano now, ts_Output := output, ts_BlockedOn := None\<rparr>)) t)"

definition resumeSequentialTaskApproval ::
  "task_config \<Rightarrow> runtime \<Rightarrow> instant \<Rightarrow> Task \<Rightarrow> TaskApproval \<Rightarrow> TaskApprovalResumeContext \<Rightarrow> bool \<Rightarrow> ctl_world
    \<Rightarrow> ctl_error option \<times> ctl_world" where
  "resumeSequentialTaskApproval cf rt now t a resume requestChanges w =
     (case store_get (scopedName (m_Namespace (t_Metadata t)) (sp_System (t_Spec t))) (cw_systems w) of
        None \<Rightarrow> (Some (CtlMessage (''agentsystem \"'' @ sp_System (t_Spec t) @ ''\" not found'')), w)
      | Some system \<Rightarrow>
          let order = ExecutionAgentOrder (sy_Spec system);
              startIndex = (if requestChanges then rs_CurrentAgentIndex resume else rs_NextAgentIndex resume);
              input = (if requestChanges then review_input a (rs_RuntimeInput resume) else rs_NextRuntimeInput resume)
          in if order = [] then (Some (CtlMessage (''cannot derive execution order from agentsystem \"''
               @ m_Name (sy_Metadata system) @ ''\"'')), w)
             else if \<not> requestChanges \<and> int (length order) \<le> startIndex then
               (case maybeCreateCompletionReviewFromTaskApproval now t a resume w of
                  (Inl e, w) \<Rightarrow> (Some e, w)
                | (Inr True, w) \<Rightarrow> (None, w)
                | (Inr False, w) \<Rightarrow>
                    (case upsertTask now (completed_by_review now (rs_Output resume) t) w of
                       (Inl e, w) \<Rightarrow> (Some e, w)
                     | (Inr _, w) \<Rightarrow> (None, w)))
             else
               let t = running_again cf now t
               in case upsertTask now t w of
                    (Inl e, w) \<Rightarrow> (Some e, w)
                  | (Inr _, w) \<Rightarrow>
                      (case rt_resume rt system startIndex input (rs_Output resume) t w of
                         (ExecReviewPause approvalName reason, t, w) \<Rightarrow>
                           transitionToWaitingApproval cf now t reason
                             \<lparr>bo_Kind = ''TaskApproval'', bo_Name = approvalName, bo_Reason = ''output_review''\<rparr> w
                       | (ExecError err, t, w) \<Rightarrow> handleExecutionFailure cf now t (error_text err) w
                       | (ExecOutput output, t, w) \<Rightarrow>
                           save now (appendTaskHistory now (tc_workerID cf) ''succeeded''
                               ''task execution completed successfully''
                               (on_status (\<lambda>st. st\<lparr>ts_BlockedOn := None\<rparr>) (succeeded now output t)))
                             ''task approval resume completed successfully'' w))"

text \<open>The resume context is an error when its JSON cannot be decoded.\<close>

definition resumeTaskApproval ::
  "task_config \<Rightarrow> runtime \<Rightarrow> instant \<Rightarrow> Task \<Rightarrow> TaskApproval \<Rightarrow> bool \<Rightarrow> ctl_world \<Rightarrow> ctl_error option \<times> ctl_world" where
  "resumeTaskApproval cf rt now t a requestChanges w =
     (case tv_ResumeContext (tr_Spec a) of
        Inl e \<Rightarrow> (Some (CtlMessage e), w)
      | Inr resume \<Rightarrow>
          let mode = to_lower (trim_space (rs_Mode resume))
          in if mode = ''message-driven'' then resumeMessageDrivenTaskApproval cf now t a resume requestChanges w
             else if mode = ''sequential'' then resumeSequentialTaskApproval cf rt now t a resume requestChanges w
             else (Some (CtlMessage (''unsupported task approval resume mode \"'' @ rs_Mode resume @ ''\"'')), w))"

definition resumeRequestedChangesTaskApproval ::
  "task_config \<Rightarrow> runtime \<Rightarrow> instant \<Rightarrow> Task \<Rightarrow> TaskApproval \<Rightarrow> ctl_world \<Rightarrow> ctl_error option \<times> ctl_world" where
  "resumeRequestedChangesTaskApproval cf rt now t a w =
     (if \<not> TaskApprovalAllowsRequestChanges a then
        markFailed cf now t ''task approval request_changes is disabled for this checkpoint'' w
      else if TaskApprovalMaxReviewCycles a \<le> tv_ReviewCycle (tr_Spec a) then
        markFailed cf now t ''task approval max review cycles reached'' w
      else resumeTaskApproval cf rt now t a True w)"

definition reconcileWaitingTaskApproval ::
  "task_config \<Rightarrow> runtime \<Rightarrow> instant \<Rightarrow> Task \<Rightarrow> string \<Rightarrow> ctl_world \<Rightarrow> ctl_error option \<times> ctl_world" where
  "reconcileWaitingTaskApproval cf rt now t approvalName w =
     (case (if trim_space approvalName = [] then None else cw_taskApprovals w) of
        None \<Rightarrow> (None, w)
      | Some s \<Rightarrow>
          (case TaskApprovalStore_Get (scopedName (m_Namespace (t_Metadata t)) approvalName) s of
             None \<Rightarrow> (None, w)
           | Some a \<Rightarrow>
               let gone = expired_now now (tr_Status a);
                   a = (if gone then a\<lparr>tr_Status := (tr_Status a)\<lparr>av_Phase := ''Expired''\<rparr>\<rparr> else a);
                   w = (if gone then w\<lparr>cw_taskApprovals := Some (snd (TaskApprovalStore_Upsert now a s))\<rparr> else w);
                   phase = av_Phase (tr_Status a);
                   trace = (\<lambda>ty m. appendTaskTrace now (zero_TraceEvent\<lparr>te_Type := ty,
                              te_Agent := trim_space (tv_Agent (tr_Spec a)), te_Message := m\<rparr>) t);
                   checkpoint = ''checkpoint='' @ trim_space (tv_CheckpointID (tr_Spec a));
                   by = '' decided_by='' @ trim_space (av_DecidedBy (tr_Status a));
                   comment = '' comment='' @ trim_space (av_Comment (tr_Status a))
               in if phase = ''Approved'' then
                    resumeTaskApproval cf rt now (trace ''task_approval_approved'' (checkpoint @ by)) a False w
                  else if phase = ''Denied'' then
                    markFailed cf now (trace ''task_approval_denied'' (checkpoint @ by @ comment)) ''task approval denied'' w
                  else if phase = ''Expired'' then
                    markFailed cf now (trace ''task_approval_expired'' checkpoint) ''task approval expired'' w
                  else if phase = ''ChangesRequested'' then
                    resumeRequestedChangesTaskApproval cf rt now
                      (trace ''task_approval_changes_requested''
                        (checkpoint @ by @ '' cycle='' @ itoa (tv_ReviewCycle (tr_Spec a)) @ comment)) a w
                  else (None, w)))"

definition reconcileWaitingApproval ::
  "task_config \<Rightarrow> runtime \<Rightarrow> instant \<Rightarrow> Task \<Rightarrow> ctl_world \<Rightarrow> ctl_error option \<times> ctl_world" where
  "reconcileWaitingApproval cf rt now t w =
     (case ts_BlockedOn (t_Status t) of
        None \<Rightarrow> reconcileWaitingToolApprovalLegacy cf now t w
      | Some b \<Rightarrow>
          let kind = to_lower (trim_space (bo_Kind b))
          in if kind = ''toolapproval'' then reconcileWaitingToolApproval cf now t (trim_space (bo_Name b)) w
             else if kind = ''taskapproval'' then reconcileWaitingTaskApproval cf rt now t (trim_space (bo_Name b)) w
             else reconcileWaitingToolApprovalLegacy cf now t w)"

end
