(* ===== verification/Task_Pass.thy ===== *)
theory Task_Pass
  imports Task_Resume
begin

text \<open>
  A pass of the task controller (controllers/task_controller.go): the sweep over the waiting tasks,
  and the loop that acquires a slot, claims a task, reconciles it and releases the slot.

  The loop of ReconcileOnce ends when nothing can be claimed or its context is cancelled.
  \<open>claim_loop\<close> has a list of clock readings, one for each iteration; the context is cancelled when
  the list is used up.
\<close>

section \<open>The worker\<close>

text \<open>The checks of the requirements are those of the scheduler's taskFitsWorkerRequirements.\<close>

definition taskMatchesWorker :: "task_config \<Rightarrow> WorkerStore option \<Rightarrow> Task \<Rightarrow> bool" where
  "taskMatchesWorker cf ws t =
     (let phase = to_lower (trim_space (ts_Phase (t_Status t)));
          assigned = trim_space (ts_AssignedWorker (t_Status t))
      in if equal_fold (trim_space (sp_Mode (t_Spec t))) ''template'' then False
         else if phase \<noteq> ''running'' \<and> assigned \<noteq> [] \<and> \<not> equal_fold assigned (tc_workerID cf) then False
         else case ws of
                None \<Rightarrow> True
              | Some s \<Rightarrow>
                  (case WorkerStore_Get (tc_workerID cf) s of
                     None \<Rightarrow> True
                   | Some w \<Rightarrow>
                       if \<not> equal_fold (trim_space (wt_Phase (w_Status w))) ''ready''
                          \<and> \<not> equal_fold (trim_space (wt_Phase (w_Status w))) ''pending'' then False
                       else taskFitsWorkerRequirements t w))"

text \<open>
  The store and whether the worker may go on. A worker that is not registered has no slots to
  acquire and goes on without one.
\<close>

definition tryAcquireWorkerSlot ::
  "instant \<Rightarrow> task_config \<Rightarrow> WorkerStore \<Rightarrow> (api_error + bool) \<times> WorkerStore" where
  "tryAcquireWorkerSlot now cf s =
     (case TryAcquireSlot now (tc_workerID cf) s of
        (Inl e, s) \<Rightarrow> (Inl e, s)
      | (Inr (worker, acquired), s) \<Rightarrow>
          let name = (case worker of None \<Rightarrow> [] | Some w \<Rightarrow> m_Name (w_Metadata w))
          in (Inr (acquired \<or> name = []), s))"

definition release_slot :: "task_config \<Rightarrow> instant \<Rightarrow> ctl_world \<Rightarrow> ctl_world" where
  "release_slot cf now w = w\<lparr>cw_workers := map_option (\<lambda>s. snd (ReleaseSlot now (tc_workerID cf) s)) (cw_workers w)\<rparr>"

section \<open>Waiting tasks\<close>

abbreviation waits_for_approval :: "Task \<Rightarrow> bool" where
  "waits_for_approval t \<equiv> equal_fold (trim_space (ts_Phase (t_Status t))) ''waitingapproval''"

text \<open>The loop over the listed tasks; the first error ends it.\<close>

fun sweep_loop ::
  "task_config \<Rightarrow> runtime \<Rightarrow> instant \<Rightarrow> Task list \<Rightarrow> ctl_world \<Rightarrow> ctl_error option \<times> ctl_world" where
  "sweep_loop cf rt now [] w = (None, w)"
| "sweep_loop cf rt now (t # ts) w =
     (if \<not> waits_for_approval t \<or> \<not> taskMatchesWorker cf (cw_workers w) t then sweep_loop cf rt now ts w
      else let w = sync_tasks w
           in case TaskStore_Get (taskScopedName t) (cw_tasks w) of
                None \<Rightarrow> sweep_loop cf rt now ts w
              | Some fresh \<Rightarrow>
                  if \<not> waits_for_approval fresh then sweep_loop cf rt now ts w
                  else case reconcileWaitingApproval cf rt now fresh w of
                         (Some e, w) \<Rightarrow> (Some e, w)
                       | (None, w) \<Rightarrow> sweep_loop cf rt now ts w)"

definition reconcileWaitingApprovalSweep ::
  "task_config \<Rightarrow> runtime \<Rightarrow> instant \<Rightarrow> ctl_world \<Rightarrow> ctl_error option \<times> ctl_world" where
  "reconcileWaitingApprovalSweep cf rt now w =
     (if cw_toolApprovals w = None \<and> cw_taskApprovals w = None then (None, w)
      else let w = sync_tasks w in sweep_loop cf rt now (TaskStore_List (cw_tasks w)) w)"

section \<open>A claimed task\<close>

definition unsupported_phase :: "instant \<Rightarrow> Task \<Rightarrow> Task" where
  "unsupported_phase now t =
     observe_generation (on_status (\<lambda>st. release_worker (st\<lparr>ts_Phase := ''Failed'',
       ts_LastError := ''unsupported task phase \"'' @ ts_Phase st @ ''\"'',
       ts_CompletedAt := format_nano now\<rparr>)) t)"

definition reconcileTask ::
  "task_config \<Rightarrow> runtime \<Rightarrow> instant \<Rightarrow> Task \<Rightarrow> ctl_world \<Rightarrow> ctl_error option \<times> ctl_world" where
  "reconcileTask cf rt now t w =
     (let phase = to_lower (trim_space (ts_Phase (t_Status t)))
      in if phase = [] \<or> phase = ''pending'' then
           (if \<not> isAttemptDue now t then (None, w)
            else case reconcilePending cf rt now t w of
                   (Some e, w) \<Rightarrow> (Some e, w)
                 | (None, w) \<Rightarrow>
                     let w = sync_tasks w
                     in case TaskStore_Get (taskScopedName t) (cw_tasks w) of
                          None \<Rightarrow> (None, w)
                        | Some updated \<Rightarrow>
                            if equal_fold (ts_Phase (t_Status updated)) ''running''
                               \<and> equal_fold (ts_ClaimedBy (t_Status updated)) (tc_workerID cf)
                            then reconcileRunning cf rt now updated w else (None, w))
         else if phase = ''running'' then reconcileRunning cf rt now t w
         else if phase = ''waitingapproval'' then reconcileWaitingApproval cf rt now t w
         else if phase = ''succeeded'' \<or> phase = ''failed'' then (None, w)
         else
           (case upsertTask now (unsupported_phase now t) w of
              (r, w) \<Rightarrow>
                ((case r of Inl e \<Rightarrow> Some e | Inr _ \<Rightarrow> None),
                 appendTaskLog now (taskScopedName t)
                   (''task failed due to unsupported phase: '' @ ts_Phase (t_Status t)) w)))"

definition claim_text :: "task_config \<Rightarrow> string" where
  "claim_text cf = ''task claimed by worker='' @ tc_workerID cf @ '' lease='' @ dur_string (tc_leaseDuration cf)"

text \<open>What an iteration does with the task it has claimed; an error is logged and the loop goes on.\<close>

definition run_claimed :: "task_config \<Rightarrow> runtime \<Rightarrow> instant \<Rightarrow> Task \<Rightarrow> ctl_world \<Rightarrow> ctl_world" where
  "run_claimed cf rt now t w =
     (let w = appendTaskLog now (taskScopedName t) (claim_text cf) w;
          t = appendTaskHistory now (tc_workerID cf) ''claim'' (claim_text cf) t
      in release_slot cf now (snd (reconcileTask cf rt now t w)))"

section \<open>The pass\<close>

datatype claim_step = ClaimStop "ctl_error option" | ClaimGoOn

text \<open>One iteration: whether the loop goes on, and with which state.\<close>

definition claim_iteration ::
  "task_config \<Rightarrow> runtime \<Rightarrow> instant \<Rightarrow> ctl_world \<Rightarrow> claim_step \<times> ctl_world" where
  "claim_iteration cf rt now w =
     (let (slot, w) =
            (case cw_workers w of
               None \<Rightarrow> (Inr True, w)
             | Some s \<Rightarrow>
                 (case tryAcquireWorkerSlot now cf s of (r, s) \<Rightarrow> (r, w\<lparr>cw_workers := Some s\<rparr>)))
      in case slot of
           Inl e \<Rightarrow> (ClaimStop (Some (CtlStore e)), w)
         | Inr False \<Rightarrow> (ClaimStop None, w)
         | Inr True \<Rightarrow>
             let w = sync_tasks w
             in case TaskStore_ClaimNextDue now (tc_workerID cf) (tc_leaseDuration cf)
                       (Some (taskMatchesWorker cf (cw_workers w))) (cw_tasks w) of
                  (Inl e, s) \<Rightarrow> (ClaimStop (Some (CtlStore e)), release_slot cf now (w\<lparr>cw_tasks := s\<rparr>))
                | (Inr None, s) \<Rightarrow> (ClaimStop None, release_slot cf now (w\<lparr>cw_tasks := s\<rparr>))
                | (Inr (Some t), s) \<Rightarrow> (ClaimGoOn, run_claimed cf rt now t (w\<lparr>cw_tasks := s\<rparr>)))"

fun claim_loop ::
  "task_config \<Rightarrow> runtime \<Rightarrow> instant list \<Rightarrow> ctl_world \<Rightarrow> ctl_error option \<times> ctl_world" where
  "claim_loop cf rt [] w = (Some (CtlMessage ''context canceled''), w)"
| "claim_loop cf rt (now # nows) w =
     (case claim_iteration cf rt now w of
        (ClaimStop r, w) \<Rightarrow> (r, w)
      | (ClaimGoOn, w) \<Rightarrow> claim_loop cf rt nows w)"

definition TaskController_ReconcileOnce ::
  "task_config \<Rightarrow> runtime \<Rightarrow> instant \<Rightarrow> instant list \<Rightarrow> ctl_world \<Rightarrow> ctl_error option \<times> ctl_world" where
  "TaskController_ReconcileOnce cf rt now nows w =
     (case reconcileWaitingApprovalSweep cf rt now w of
        (Some e, w) \<Rightarrow> (Some e, w)
      | (None, w) \<Rightarrow> claim_loop cf rt nows w)"

end
