(* ===== verification/Task_Props.thy ===== *)
theory Task_Props
  imports Task_Pass
begin

text \<open>
  Properties of the task controller. Shown here: what a failed execution leads to; an approved tool
  call leaves its task to another worker; a waiting task that cannot be resumed keeps its worker
  from claiming anything; the retry delay; the step identifiers in a trace stay distinct; the entry
  agents get one kickoff message each; a claimed task is never left running; the approval of a
  sequential run is not found again.
\<close>

section \<open>Writes nobody interferes with\<close>

abbreviation stored :: "Task \<Rightarrow> ctl_world \<Rightarrow> Task option" where
  "stored t w \<equiv> map_of (st_items (cw_tasks w)) (scopedNameFromMeta (t_Metadata t))"

text \<open>No other process writes, and the task is stored under the version the caller has.\<close>

definition quiet :: "Task \<Rightarrow> ctl_world \<Rightarrow> bool" where
  "quiet t w \<longleftrightarrow> cw_env w = [] \<and> (\<exists>cur n. stored t w = Some cur \<and> 0 \<le> n \<and> in_int64 n
     \<and> m_ResourceVersion (t_Metadata cur) = itoa n \<and> m_ResourceVersion (t_Metadata t) = itoa n)"

lemma quiet_cong:
  "t_Metadata t' = t_Metadata t \<Longrightarrow> cw_tasks w' = cw_tasks w \<Longrightarrow> cw_env w' = cw_env w \<Longrightarrow> quiet t' w' = quiet t w"
  by (simp add: quiet_def)

lemma ctl_sync_quiet [simp]: "cw_env w = [] \<Longrightarrow> sync_tasks w = w"
  by (simp add: sync_tasks_def)

lemma appendTaskLog_items [simp]: "st_items (cw_tasks (appendTaskLog now name msg w)) = st_items (cw_tasks w)"
  by (simp add: appendTaskLog_def)

lemma appendTaskLog_env [simp]: "cw_env (appendTaskLog now name msg w) = cw_env w"
  by (simp add: appendTaskLog_def)

lemma save_quiet:
  assumes "quiet t w" "Task_Normalize t = Inr it"
  shows "\<exists>m w'. save now t msg w = (None, w') \<and> stored t w' = Some (it\<lparr>t_Metadata := m\<rparr>)"
proof -
  from assms(1) obtain cur n where c: "cw_env w = []" "stored t w = Some cur" "0 \<le> n" "in_int64 n"
    "m_ResourceVersion (t_Metadata cur) = itoa n" "m_ResourceVersion (t_Metadata t) = itoa n"
    unfolding quiet_def by blast
  from Upsert_stored [OF c(2,5,3,4) assms(2) c(6), of now] c(1) show ?thesis
    by (auto simp: save_def upsertTask_def numeral_eq_Suc)
qed

lemma status_only_append [simp]:
  "only_status t (appendTaskHistory now wk ty m t') \<longleftrightarrow> only_status t t'"
  "only_status t (appendTaskTrace now e t') \<longleftrightarrow> only_status t t'"
  "only_status t (observe_generation t') \<longleftrightarrow> only_status t t'"
  by (simp_all add: appendTaskHistory_def appendTaskTrace_def observe_generation_def Let_def)

lemma save_change:
  assumes "quiet t w" "task_ok t" "only_status t t'"
  shows "\<exists>m w'. save now t' msg w = (None, w')
    \<and> stored t w' = Some (set_task_meta m (t\<lparr>t_Status := normalize_task_status (t_Status t')\<rparr>))"
proof -
  have "Task_Normalize t' = Inr (t\<lparr>t_Status := normalize_task_status (t_Status t')\<rparr>)"
    using normalizes_status [OF assms(2), of "t_Status t'"] assms(3) by (simp add: only_status_def)
  moreover have "quiet t' w" using assms(1) quiet_cong [OF only_status_meta [OF assms(3)], of w w] by simp
  ultimately show ?thesis using save_quiet [of t' w _ now msg] only_status_meta [OF assms(3)]
    by simp
qed

lemma save_outcome:
  assumes "quiet t w" "task_ok t" "only_status t t'"
  obtains u w' where "save now t' msg w = (None, w')" "stored t w' = Some u" "t_Spec u = t_Spec t"
    "t_Status u = normalize_task_status (t_Status t')"
proof -
  from save_change [OF assms, of now msg] obtain m w' where "save now t' msg w = (None, w')"
    "stored t w' = Some (set_task_meta m (t\<lparr>t_Status := normalize_task_status (t_Status t')\<rparr>))" by blast
  then show thesis using that by simp
qed

text \<open>What is stored when the written status has a phase and no block.\<close>

lemma normalize_phase [simp]:
  "ts_Phase (normalize_task_status st) = (if ts_Phase st = [] then ''Pending'' else ts_Phase st)"
  by (simp add: normalize_task_status_def Let_def)

lemma normalize_fields [simp]:
  "ts_AssignedWorker (normalize_task_status st) = ts_AssignedWorker st"
  "ts_ClaimedBy (normalize_task_status st) = ts_ClaimedBy st"
  "ts_LeaseUntil (normalize_task_status st) = ts_LeaseUntil st"
  "ts_LastError (normalize_task_status st) = ts_LastError st"
  "ts_NextAttemptAt (normalize_task_status st) = ts_NextAttemptAt st"
  "ts_Attempts (normalize_task_status st) = ts_Attempts st"
  "ts_Messages (normalize_task_status st) = ts_Messages st"
  "ts_Trace (normalize_task_status st) = ts_Trace st"
  "ts_Output (normalize_task_status st) = ts_Output st"
  by (simp_all add: normalize_task_status_def Let_def)

lemma append_fields [simp]:
  "ts_Phase (t_Status (appendTaskHistory now wk ty m t)) = ts_Phase (t_Status t)"
  "ts_Phase (t_Status (appendTaskTrace now e t)) = ts_Phase (t_Status t)"
  "ts_Phase (t_Status (observe_generation t)) = ts_Phase (t_Status t)"
  "ts_LastError (t_Status (appendTaskHistory now wk ty m t)) = ts_LastError (t_Status t)"
  "ts_LastError (t_Status (appendTaskTrace now e t)) = ts_LastError (t_Status t)"
  "ts_LastError (t_Status (observe_generation t)) = ts_LastError (t_Status t)"
  "ts_BlockedOn (t_Status (appendTaskHistory now wk ty m t)) = ts_BlockedOn (t_Status t)"
  "ts_BlockedOn (t_Status (appendTaskTrace now e t)) = ts_BlockedOn (t_Status t)"
  "ts_BlockedOn (t_Status (observe_generation t)) = ts_BlockedOn (t_Status t)"
  "ts_AssignedWorker (t_Status (appendTaskHistory now wk ty m t)) = ts_AssignedWorker (t_Status t)"
  "ts_AssignedWorker (t_Status (appendTaskTrace now e t)) = ts_AssignedWorker (t_Status t)"
  "ts_AssignedWorker (t_Status (observe_generation t)) = ts_AssignedWorker (t_Status t)"
  "ts_ClaimedBy (t_Status (appendTaskHistory now wk ty m t)) = ts_ClaimedBy (t_Status t)"
  "ts_ClaimedBy (t_Status (appendTaskTrace now e t)) = ts_ClaimedBy (t_Status t)"
  "ts_ClaimedBy (t_Status (observe_generation t)) = ts_ClaimedBy (t_Status t)"
  "ts_LeaseUntil (t_Status (appendTaskHistory now wk ty m t)) = ts_LeaseUntil (t_Status t)"
  "ts_LeaseUntil (t_Status (appendTaskTrace now e t)) = ts_LeaseUntil (t_Status t)"
  "ts_LeaseUntil (t_Status (observe_generation t)) = ts_LeaseUntil (t_Status t)"
  "ts_NextAttemptAt (t_Status (appendTaskHistory now wk ty m t)) = ts_NextAttemptAt (t_Status t)"
  "ts_NextAttemptAt (t_Status (appendTaskTrace now e t)) = ts_NextAttemptAt (t_Status t)"
  "ts_NextAttemptAt (t_Status (observe_generation t)) = ts_NextAttemptAt (t_Status t)"
  "ts_Attempts (t_Status (appendTaskHistory now wk ty m t)) = ts_Attempts (t_Status t)"
  "ts_Attempts (t_Status (appendTaskTrace now e t)) = ts_Attempts (t_Status t)"
  "ts_Attempts (t_Status (observe_generation t)) = ts_Attempts (t_Status t)"
  "ts_Messages (t_Status (appendTaskHistory now wk ty m t)) = ts_Messages (t_Status t)"
  "ts_Messages (t_Status (appendTaskTrace now e t)) = ts_Messages (t_Status t)"
  "ts_Messages (t_Status (observe_generation t)) = ts_Messages (t_Status t)"
  "ts_Output (t_Status (appendTaskHistory now wk ty m t)) = ts_Output (t_Status t)"
  "ts_Output (t_Status (appendTaskTrace now e t)) = ts_Output (t_Status t)"
  "ts_Output (t_Status (observe_generation t)) = ts_Output (t_Status t)"
  by (simp_all add: appendTaskHistory_def appendTaskTrace_def observe_generation_def Let_def)


section \<open>Failures\<close>

lemma status_only_ended [simp]: "only_status t (ended now phase reason t') \<longleftrightarrow> only_status t t'"
  by (simp add: ended_def)

lemma ended_fields [simp]:
  "ts_Phase (t_Status (ended now phase reason t)) = phase"
  "ts_LastError (t_Status (ended now phase reason t)) = reason"
  "ts_AssignedWorker (t_Status (ended now phase reason t)) = []"
  "ts_ClaimedBy (t_Status (ended now phase reason t)) = []"
  "ts_LeaseUntil (t_Status (ended now phase reason t)) = []"
  "ts_Attempts (t_Status (ended now phase reason t)) = ts_Attempts (t_Status t)"
  by (simp_all add: ended_def release_worker_def started_def)

lemma status_only_retrying [simp]: "only_status t (retrying cf now d reason t') \<longleftrightarrow> only_status t t'"
  by (simp add: retrying_def)

lemma retrying_fields [simp]:
  "ts_Phase (t_Status (retrying cf now d reason t)) = ''Pending''"
  "ts_AssignedWorker (t_Status (retrying cf now d reason t)) = []"
  "ts_ClaimedBy (t_Status (retrying cf now d reason t)) = []"
  "ts_LeaseUntil (t_Status (retrying cf now d reason t)) = []"
  "ts_Attempts (t_Status (retrying cf now d reason t)) = ts_Attempts (t_Status t)"
  "ts_Messages (t_Status (retrying cf now d reason t)) = []"
  "ts_NextAttemptAt (t_Status (retrying cf now d reason t)) = format_nano (now + d)"
  by (simp_all add: retrying_def release_worker_def)

lemma task_ok_retry:
  assumes "task_ok t"
  shows "0 < rp_MaxAttempts (sp_Retry (t_Spec t))" "\<exists>d. retryDelay t = Some d"
  using assms by (auto simp: task_ok_def spec_ok_def retry_ok_def retryDelay_def Let_def split: option.splits)

lemma pending_claimable:
  assumes "ts_Phase (t_Status u) = ''Pending''" "ts_NextAttemptAt (t_Status u) = format_nano d"
    and "year_in_range d" "sp_Mode (t_Spec u) = ''run''"
  shows "isTaskClaimable u wk later \<longleftrightarrow> d \<le> later"
proof -
  have "to_lower (trim_space ''Pending'') = ''pending''" "\<not> equal_fold (trim_space ''run'') ''template''"
    by code_simp+
  then show ?thesis
    using assms parseTimestamp_nano [OF assms(3)] parseTimestamp_nonempty [of "format_nano d" d]
    by (auto simp: isTaskClaimable_def taskAttemptDue_def Let_def format_trim)
qed

text \<open>A worker, and a world with one task that it has claimed.\<close>

definition demo_cfg :: task_config where
  "demo_cfg = \<lparr>tc_workerID = ''w1'', tc_leaseDuration = 30 * Second, tc_executionMode = ''sequential''\<rparr>"

definition demo_ctl :: "TaskStore \<Rightarrow> ctl_world" where
  "demo_ctl s = \<lparr>cw_tasks = s, cw_workers = None, cw_systems = [], cw_policies = [], cw_toolApprovals = Some [],
     cw_taskApprovals = Some [], cw_bus = None, cw_env = []\<rparr>"

definition demo_claimed_task :: Task where
  "demo_claimed_task = (case map_of (st_items demo_claimed) ''default/t1'' of Some t \<Rightarrow> t | None \<Rightarrow> demo_task)"

lemma demo_claimed_task:
  "map_of (st_items demo_claimed) ''default/t1'' = Some demo_claimed_task"
  "task_ok demo_claimed_task" "quiet demo_claimed_task (demo_ctl demo_claimed)"
  "sp_Mode (t_Spec demo_claimed_task) = ''run''"
proof -
  have "case map_of (st_items demo_claimed) ''default/t1'' of None \<Rightarrow> False | Some _ \<Rightarrow> True" by code_simp
  then show s: "map_of (st_items demo_claimed) ''default/t1'' = Some demo_claimed_task"
    by (auto simp: demo_claimed_task_def split: option.splits)
  then show "task_ok demo_claimed_task"
    using task_store_wf_lookup [OF reachable_wf [OF demo_store_reachable(2)]] by blast
  have "scopedNameFromMeta (t_Metadata demo_claimed_task) = ''default/t1''"
    "m_ResourceVersion (t_Metadata demo_claimed_task) = itoa 2" "in_int64 2" by code_simp+
  with s show "quiet demo_claimed_task (demo_ctl demo_claimed)"
    by (auto simp: quiet_def demo_ctl_def intro!: exI [of _ "2::int"])
  show "sp_Mode (t_Spec demo_claimed_task) = ''run''" by code_simp
qed

text \<open>A runtime whose agents return at once.\<close>

definition idle_runtime :: runtime where
  "idle_runtime = \<lparr>rt_validate = (\<lambda>w t. (\<lparr>sy_APIVersion = [], sy_Kind = [], sy_Metadata = zero_meta, sy_Spec = demo_graph, sy_Phase = [], sy_LastError = [],
       sy_ObservedGeneration = 0\<rparr>, [], [])),
     rt_execute = (\<lambda>sy t w. (ExecOutput fmempty, t, w)), rt_resume = (\<lambda>sy i a b t w. (ExecOutput fmempty, t, w))\<rparr>"

text \<open>
  C7: A failed execution has one of three outcomes, decided by the redacted reason and the attempts
  made. For a well-formed task that nobody else writes meanwhile, the controller's write succeeds
  and gives up the claim; when the reason is not retryable the task has failed with that reason;
  when it is retryable and the attempts are used up, the task is a dead letter; otherwise it is
  pending again, without its messages, and becomes claimable for every worker at the moment the
  delay of the retry policy has passed, and not before.
\<close>

theorem failure_handled:
  assumes "task_ok t" "quiet t w" "sp_Mode (t_Spec t) = ''run''"
    and "\<And>d. retryDelay t = Some d \<Longrightarrow> year_in_range (now + d)"
  shows "\<exists>u w'. handleExecutionFailure cf now t reason w = (None, w') \<and> stored t w' = Some u
    \<and> ts_AssignedWorker (t_Status u) = [] \<and> ts_ClaimedBy (t_Status u) = [] \<and> ts_LeaseUntil (t_Status u) = []
    \<and> ts_Attempts (t_Status u) = ts_Attempts (t_Status t)
    \<and> (if \<not> isRetryableError (RedactSensitive reason)
         then ts_Phase (t_Status u) = ''Failed'' \<and> ts_LastError (t_Status u) = RedactSensitive reason
         else if rp_MaxAttempts (sp_Retry (t_Spec t)) \<le> ts_Attempts (t_Status t)
         then ts_Phase (t_Status u) = ''DeadLetter'' \<and> ts_LastError (t_Status u) = RedactSensitive reason
         else ts_Phase (t_Status u) = ''Pending'' \<and> ts_Messages (t_Status u) = []
           \<and> (\<exists>d. retryDelay t = Some d
                \<and> (\<forall>wk later. isTaskClaimable u wk later \<longleftrightarrow> now + d \<le> later)))"
proof -
  let ?r = "RedactSensitive reason"
  let ?max = "rp_MaxAttempts (sp_Retry (t_Spec t))" and ?n = "ts_Attempts (t_Status t)"
  note max = task_ok_retry(1) [OF assms(1)]
  have h: "only_status t (appendTaskHistory now (tc_workerID cf) ''failed'' ?r (ended now ''Failed'' ?r t))"
    "only_status t (appendTaskHistory now (tc_workerID cf) ''deadletter'' ?r (ended now ''DeadLetter'' ?r t))"
    by simp_all
  consider "\<not> isRetryableError ?r" | "isRetryableError ?r" "?max \<le> ?n" | "isRetryableError ?r" "?n < ?max"
    by linarith
  then show ?thesis
  proof cases
    case 1
    then have "handleExecutionFailure cf now t reason w = markFailed cf now t ?r w"
      by (simp add: handleExecutionFailure_def shouldRetryTask_def Let_def)
    moreover obtain u w' where "markFailed cf now t ?r w = (None, w')" "stored t w' = Some u"
      "t_Status u = normalize_task_status (t_Status (appendTaskHistory now (tc_workerID cf) ''failed'' ?r
        (ended now ''Failed'' ?r t)))"
      unfolding markFailed_def using save_outcome [OF assms(2,1) h(1)] by blast
    ultimately show ?thesis using 1 by simp
  next
    case 2
    then have "handleExecutionFailure cf now t reason w = markDeadLetter cf now t ?r w"
      using max by (simp add: handleExecutionFailure_def Let_def)
    moreover obtain u w' where "markDeadLetter cf now t ?r w = (None, w')" "stored t w' = Some u"
      "t_Status u = normalize_task_status (t_Status (appendTaskHistory now (tc_workerID cf) ''deadletter'' ?r
        (ended now ''DeadLetter'' ?r t)))"
      unfolding markDeadLetter_def using save_outcome [OF assms(2,1) h(2)] by blast
    ultimately show ?thesis using 2 by simp
  next
    case 3
    obtain d where d: "retryDelay t = Some d" using task_ok_retry(2) [OF assms(1)] by blast
    have "\<exists>msg. handleExecutionFailure cf now t reason w = save now (retrying cf now d ?r t) msg w"
      using 3 max d by (auto simp: handleExecutionFailure_def shouldRetryTask_def Let_def)
    then obtain msg where h: "handleExecutionFailure cf now t reason w = save now (retrying cf now d ?r t) msg w" ..
    have h3: "only_status t (retrying cf now d ?r t)" by simp
    obtain u w' where u: "save now (retrying cf now d ?r t) msg w = (None, w')" "stored t w' = Some u"
      "t_Spec u = t_Spec t" "t_Status u = normalize_task_status (t_Status (retrying cf now d ?r t))"
      using save_outcome [OF assms(2,1) h3] by blast
    have "\<forall>wk later. isTaskClaimable u wk later \<longleftrightarrow> now + d \<le> later"
      using u(3,4) assms(3) assms(4) [OF d] by (intro allI pending_claimable) simp_all
    with 3 u(1,2,4) h d show ?thesis by simp
  qed
qed

theorem failure_handled_witness:
  "\<exists>u w'. handleExecutionFailure demo_cfg Second demo_claimed_task ''tool exploded'' (demo_ctl demo_claimed) = (None, w')
    \<and> stored demo_claimed_task w' = Some u \<and> ts_Phase (t_Status u) = ''Failed''"
proof -
  have d: "\<exists>d. retryDelay demo_claimed_task = Some d \<and> year_in_range (Second + d)"
  proof -
    have "case retryDelay demo_claimed_task of None \<Rightarrow> False | Some d \<Rightarrow> year_in_range (Second + d)" by code_simp
    then show ?thesis by (auto split: option.splits)
  qed
  have "\<not> isRetryableError (RedactSensitive ''tool exploded'')" by code_simp
  with failure_handled [OF demo_claimed_task(2-4), of Second demo_cfg "''tool exploded''"] d show ?thesis by auto
qed

section \<open>An approved tool call\<close>

text \<open>
  C38: A granted tool approval does not resume the task on the worker that finds it. The sweep
  of a worker puts the waiting task back to Running under a fresh claim of that worker, but nothing
  executes it there: afterwards the task is claimable exactly by workers of another name, and only
  once the lease has expired. With one worker it stays Running for ever.
\<close>

theorem approved_call_needs_another_worker:
  assumes "task_ok t" "quiet t w" "sp_Mode (t_Spec t) = ''run''" "trim_space (tc_workerID cf) \<noteq> []"
    and "av_Phase (ta_Status a) = ''Approved''" "year_in_range (now + tc_leaseDuration cf)"
  shows "\<exists>u w'. applyWaitingToolApproval cf now t a w = (None, w') \<and> stored t w' = Some u
    \<and> ts_Phase (t_Status u) = ''Running'' \<and> ts_ClaimedBy (t_Status u) = tc_workerID cf
    \<and> (\<forall>wk later. isTaskClaimable u wk later \<longleftrightarrow>
         \<not> equal_fold (trim_space (tc_workerID cf)) (trim_space wk) \<and> now + tc_leaseDuration cf \<le> later)"
proof -
  let ?msg = "''task transitioned WaitingApproval->Running (approved)''"
  have h: "applyWaitingToolApproval cf now t a w = save now (tool_resumed cf now a t) ?msg w"
    using assms(5) by (simp add: applyWaitingToolApproval_def expired_now_def)
  have so: "only_status t (tool_resumed cf now a t)" by (simp add: tool_resumed_def)
  obtain u w' where u: "save now (tool_resumed cf now a t) ?msg w = (None, w')" "stored t w' = Some u"
    "t_Spec u = t_Spec t" "t_Status u = normalize_task_status (t_Status (tool_resumed cf now a t))"
    using save_outcome [OF assms(2,1) so] by blast
  have f: "ts_Phase (t_Status u) = ''Running''" "ts_ClaimedBy (t_Status u) = tc_workerID cf"
    "ts_LeaseUntil (t_Status u) = format_nano (now + tc_leaseDuration cf)"
    using u(4) by (simp_all add: tool_resumed_def claim_worker_def)
  have "\<not> equal_fold (trim_space ''run'') ''template''" by code_simp
  then have "isTaskClaimable u wk later \<longleftrightarrow>
      \<not> equal_fold (trim_space (tc_workerID cf)) (trim_space wk) \<and> now + tc_leaseDuration cf \<le> later" for wk later
    using f u(3) assms(3,4) running_literal parseTimestamp_nano [OF assms(6)]
      parseTimestamp_nonempty [OF parseTimestamp_nano [OF assms(6)]]
    by (auto simp: isTaskClaimable_def Let_def)
  with h u f show ?thesis by auto
qed

definition demo_tool_approval :: ToolApproval where
  "demo_tool_approval = (let a = sync_tool_approval demo_claimed_task ''shell'' ''needs approval''
     in a\<lparr>ta_Status := (ta_Status a)\<lparr>av_Phase := ''Approved''\<rparr>\<rparr>)"

theorem approved_call_needs_another_worker_witness:
  "\<exists>u w'. applyWaitingToolApproval demo_cfg Second demo_claimed_task demo_tool_approval (demo_ctl demo_claimed) = (None, w')
    \<and> stored demo_claimed_task w' = Some u \<and> \<not> isTaskClaimable u ''w1'' (Hour)
    \<and> isTaskClaimable u ''w2'' Hour"
proof -
  have c: "trim_space (tc_workerID demo_cfg) \<noteq> []" "av_Phase (ta_Status demo_tool_approval) = ''Approved''"
    "year_in_range (Second + tc_leaseDuration demo_cfg)" "equal_fold (trim_space (tc_workerID demo_cfg)) (trim_space ''w1'')"
    "\<not> equal_fold (trim_space (tc_workerID demo_cfg)) (trim_space ''w2'')"
    "Second + tc_leaseDuration demo_cfg \<le> Hour" by code_simp+
  from approved_call_needs_another_worker [OF demo_claimed_task(2-4) c(1-3)] c(4-6) show ?thesis by auto
qed

section \<open>A waiting task that cannot be resumed\<close>

lemma sweep_skips:
  assumes "\<forall>x \<in> set pre. \<not> (waits_for_approval x \<and> taskMatchesWorker cf (cw_workers w) x)"
  shows "sweep_loop cf rt now (pre @ ts) w = sweep_loop cf rt now ts w"
  using assms by (induction pre) auto

text \<open>
  C39: A task whose agent system was deleted while it waited for a review keeps its worker from
  claiming anything. When the first waiting task that matches the worker has an approved review of
  a sequential run and its agent system is gone, every pass of the worker ends with the same error
  before the claim loop, and leaves the whole state as it was: whatever tasks are due, no task is
  claimed, and the next pass finds the same situation.
\<close>

theorem unresumable_task_blocks_worker:
  assumes "cw_env w = []" "cw_taskApprovals w = Some s"
    and "TaskStore_List (cw_tasks w) = pre @ t # post"
    and "\<forall>x \<in> set pre. \<not> (waits_for_approval x \<and> taskMatchesWorker cf (cw_workers w) x)"
    and "waits_for_approval t" "taskMatchesWorker cf (cw_workers w) t"
    and "TaskStore_Get (taskScopedName t) (cw_tasks w) = Some t"
    and "ts_BlockedOn (t_Status t) = Some b" "to_lower (trim_space (bo_Kind b)) = ''taskapproval''"
      "trim_space (bo_Name b) \<noteq> []"
    and "TaskApprovalStore_Get (scopedName (m_Namespace (t_Metadata t)) (trim_space (bo_Name b))) s = Some a"
    and "av_Phase (tr_Status a) = ''Approved''" "tv_ResumeContext (tr_Spec a) = Inr resume"
      "to_lower (trim_space (rs_Mode resume)) = ''sequential''"
    and "store_get (scopedName (m_Namespace (t_Metadata t)) (sp_System (t_Spec t))) (cw_systems w) = None"
  shows "TaskController_ReconcileOnce cf rt now nows w
    = (Some (CtlMessage (''agentsystem \"'' @ sp_System (t_Spec t) @ ''\" not found'')), w)"
proof -
  let ?t = "appendTaskTrace now (zero_TraceEvent\<lparr>te_Type := ''task_approval_approved'',
      te_Agent := trim_space (tv_Agent (tr_Spec a)), te_Message := ''checkpoint='' @ trim_space (tv_CheckpointID (tr_Spec a))
        @ '' decided_by='' @ trim_space (av_DecidedBy (tr_Status a))\<rparr>) t"
  have "t_Metadata ?t = t_Metadata t" "t_Spec ?t = t_Spec t"
    by (simp_all add: appendTaskTrace_def Let_def)
  then have "reconcileWaitingApproval cf rt now t w
      = (Some (CtlMessage (''agentsystem \"'' @ sp_System (t_Spec t) @ ''\" not found'')), w)"
    using assms by (simp add: reconcileWaitingApproval_def reconcileWaitingTaskApproval_def expired_now_def
      resumeTaskApproval_def resumeSequentialTaskApproval_def)
  then show ?thesis
    using assms(1-7) by (simp add: TaskController_ReconcileOnce_def reconcileWaitingApprovalSweep_def sweep_skips)
qed

text \<open>A task that waits for a review whose system does not exist.\<close>

definition demo_waiting :: TaskStore where
  "demo_waiting = snd (TaskStore_Upsert 0 (on_status (\<lambda>st. st\<lparr>ts_Phase := ''WaitingApproval'',
     ts_BlockedOn := Some \<lparr>bo_Kind = ''TaskApproval'', bo_Name = ''r1'', bo_Reason = ''output_review''\<rparr>\<rparr>) demo_task)
     NewTaskStore)"

definition demo_review :: TaskApproval where
  "demo_review = \<lparr>tr_APIVersion = ''orloj.dev/v1'', tr_Kind = ''TaskApproval'',
     tr_Metadata = zero_meta\<lparr>m_Namespace := ''default'', m_Name := ''r1''\<rparr>,
     tr_Spec = \<lparr>tv_TaskRef = ''default/t1'', tv_CheckpointID = ''c1'', tv_CheckpointType = ''agent_output'',
       tv_Agent = ''a'', tv_Reason = [], tv_TTL = [], tv_AllowRequestChanges = None, tv_MaxReviewCycles = 0,
       tv_ReviewCycle = 1, tv_Supersedes = [], tv_Output = NoOutput, tv_OutputFormat = [],
       tv_ResumeContext = Inr (zero_resume\<lparr>rs_Mode := ''sequential''\<rparr>)\<rparr>,
     tr_Status = \<lparr>av_Phase = ''Approved'', av_Decision = ''approved'', av_DecidedBy = ''ops'', av_DecidedAt = [],
       av_Comment = [], av_ExpiresAt = []\<rparr>\<rparr>"

definition demo_blocked :: ctl_world where
  "demo_blocked = (demo_ctl demo_waiting)\<lparr>cw_taskApprovals := Some (snd (TaskApprovalStore_Upsert 0 demo_review []))\<rparr>"

lemma single_item:
  assumes "case xs of [(k, x)] \<Rightarrow> k = k0 \<and> P x | _ \<Rightarrow> False"
  obtains x where "xs = [(k0, x)]" "P x"
proof (cases xs)
  case (Cons y ys)
  with assms have "ys = []" by (cases ys) auto
  with assms Cons that show thesis by (cases y) simp
qed (use assms in simp)

theorem unresumable_task_blocks_worker_witness:
  "TaskController_ReconcileOnce demo_cfg idle_runtime Hour [Hour] demo_blocked
    = (Some (CtlMessage ''agentsystem \"sys\" not found''), demo_blocked)"
proof -
  let ?P = "\<lambda>t. waits_for_approval t \<and> taskMatchesWorker demo_cfg None t
        \<and> normalizeLookupName (taskScopedName t) = ''default/t1''
        \<and> ts_BlockedOn (t_Status t) = Some \<lparr>bo_Kind = ''TaskApproval'', bo_Name = ''r1'', bo_Reason = ''output_review''\<rparr>
        \<and> sp_System (t_Spec t) = ''sys'' \<and> m_Namespace (t_Metadata t) = ''default''"
  have "case st_items demo_waiting of [(k, x)] \<Rightarrow> k = ''default/t1'' \<and> ?P x | _ \<Rightarrow> False" by code_simp
  then obtain t where t: "st_items demo_waiting = [(''default/t1'', t)]" "?P t"
    by (rule single_item)
  let ?Q = "\<lambda>a. av_Phase (tr_Status a) = ''Approved''
      \<and> (case tv_ResumeContext (tr_Spec a) of Inl _ \<Rightarrow> False | Inr r \<Rightarrow> to_lower (trim_space (rs_Mode r)) = ''sequential'')"
  have "case snd (TaskApprovalStore_Upsert 0 demo_review []) of [(k, x)] \<Rightarrow> k = ''default/r1'' \<and> ?Q x | _ \<Rightarrow> False"
    by code_simp
  then obtain a where a: "snd (TaskApprovalStore_Upsert 0 demo_review []) = [(''default/r1'', a)]" "?Q a"
    by (rule single_item)
  then obtain r where r: "tv_ResumeContext (tr_Spec a) = Inr r" "to_lower (trim_space (rs_Mode r)) = ''sequential''"
    by (auto split: sum.splits)
  have k: "to_lower (trim_space ''TaskApproval'') = ''taskapproval''" "trim_space ''r1'' = ''r1''"
    "normalizeLookupName (scopedName ''default'' ''r1'') = ''default/r1''" by code_simp+
  have l: "TaskStore_List (cw_tasks demo_blocked) = [] @ t # []"
    using t(1) by (simp add: demo_blocked_def demo_ctl_def TaskStore_List_def TaskStore_ListPaged_def store_list_def defaultListLimit_def)
  have g: "TaskStore_Get (taskScopedName t) (cw_tasks demo_blocked) = Some t"
    using t by (simp add: demo_blocked_def demo_ctl_def TaskStore_Get_def store_get_def)
  have ag: "TaskApprovalStore_Get (scopedName (m_Namespace (t_Metadata t)) (trim_space ''r1'')) [(''default/r1'', a)] = Some a"
    using t(2) k by (simp add: TaskApprovalStore_Get_def store_get_def)
  from unresumable_task_blocks_worker [where w = demo_blocked, OF _ _ l _ _ _ g _ _ _ _ _ r, of "[(''default/r1'', a)]" demo_cfg _ idle_runtime Hour "[Hour]"]
  show ?thesis using t(2) a k ag by (simp add: demo_blocked_def demo_ctl_def store_get_def)
qed

section \<open>Retry delays\<close>

text \<open>
  The delay before a task's next attempt is the backoff doubled once for every attempt after
  the first, ten times at most, and never more than a day. This holds for every positive backoff
  below 2 to the 53 nanoseconds, about 104 days.
\<close>

theorem task_retry_delay_exact:
  assumes "parse_duration (rp_Backoff (sp_Retry (t_Spec t))) = Some base" "0 < base" "base < 2 ^ 53"
  shows "retryDelay t = Some (min (24 * Hour) (base * 2 ^ nat (min 10 (max 0 (ts_Attempts (t_Status t) - 1)))))"
  using retryDelay_eq [OF assms(1,2)] retry_product_fits [OF assms(2,3), of t] by (simp add: wrap64_id)

definition retry_task :: "string \<Rightarrow> int \<Rightarrow> Task" where
  "retry_task backoff n = demo_task\<lparr>t_Spec := (t_Spec demo_task)\<lparr>sp_Retry := \<lparr>rp_MaxAttempts = 20, rp_Backoff = backoff\<rparr>\<rparr>,
     t_Status := (t_Status demo_task)\<lparr>ts_Attempts := n\<rparr>\<rparr>"

theorem task_retry_delay_exact_witness:
  "retryDelay (retry_task ''30s'' 4) = Some (240 * Second) \<and> retryDelay (retry_task ''10m'' 9) = Some (24 * Hour)"
proof -
  have p: "parse_duration (rp_Backoff (sp_Retry (t_Spec (retry_task ''30s'' 4)))) = Some (30 * Second)"
    "parse_duration (rp_Backoff (sp_Retry (t_Spec (retry_task ''10m'' 9)))) = Some (10 * Minute)"
    by code_simp+
  have n: "ts_Attempts (t_Status (retry_task ''30s'' 4)) = 4" "ts_Attempts (t_Status (retry_task ''10m'' 9)) = 9"
    by (simp_all add: retry_task_def)
  from task_retry_delay_exact [OF p(1)] task_retry_delay_exact [OF p(2)] n show ?thesis by simp
qed

text \<open>With a longer backoff the product wraps around: the delay is negative and the retry due at once.\<close>

theorem task_retry_delay_wraps:
  "case retryDelay (retry_task ''3000h'' 11) of None \<Rightarrow> False | Some d \<Rightarrow> d < 0"
  by code_simp

section \<open>Step identifiers\<close>

text \<open>
  The step identifiers in a trace stay distinct. When the identifiers set in a task's trace
  differ and each one that can be read names the attempt of its event, the same holds after an
  event without an identifier has been appended and given the next one of its attempt, as long as
  the attempt and the count of steps fit into 64 bits; cutting the trace to its last 500 events
  keeps it.
\<close>

theorem trace_ids_stay_distinct:
  assumes "trace_ids_ok (ts_Trace (t_Status t))" "trim_space (te_StepID e) = []"
    and "in_int64 (event_attempt t e)"
    and "fold (trace_seq (event_attempt t e)) (ts_Trace (t_Status t)) 0 < 2 ^ 63 - 1"
  shows "trace_ids_ok (ts_Trace (t_Status (appendTaskTrace now e t)))"
proof -
  let ?a = "event_attempt t e" and ?tr = "ts_Trace (t_Status t)"
  let ?m = "fold (trace_seq ?a) ?tr 0"
  have a: "0 < ?a" by (simp add: event_attempt_def)
  have "0 \<le> ?m" by (rule fold_trace_seq_mono)
  then have n: "nextTraceStepID ?tr ?a = step_id ?a (?m + 1)"
    using a assms(4) by (simp add: nextTraceStepID_def Let_def wrap64_id in_int64_def)
  define e' where "e' = e\<lparr>te_Timestamp := (if trim_space (te_Timestamp e) = [] then format_nano now else te_Timestamp e),
    te_Attempt := ?a, te_Step := max 0 (te_Step e), te_StepID := step_id ?a (?m + 1)\<rparr>"
  have "appendTaskTrace now e t = on_status (\<lambda>s. s\<lparr>ts_Trace := keep_last 500 (?tr @ [e'])\<rparr>) t"
    using assms(2) n unfolding appendTaskTrace_def Let_def e'_def event_attempt_def
    by (cases "te_Attempt e \<le> 0"; cases "ts_Attempts (t_Status t) \<le> 0"; cases "te_Step e < 0";
        cases "trim_space (te_Timestamp e) = []") (simp_all add: max_def)
  moreover have "trace_ids_ok (?tr @ [e'])"
    using assms(4) by (intro trace_ids_ok_snoc [OF assms(1) a assms(3) refl]) (simp_all add: e'_def)
  ultimately show ?thesis by (simp add: trace_ids_ok_keep_last)
qed

theorem trace_ids_stay_distinct_witness:
  "trace_ids_ok (ts_Trace (t_Status (appendTaskTrace 0 (zero_TraceEvent\<lparr>te_Type := ''x''\<rparr>)
     (appendTaskTrace 0 (zero_TraceEvent\<lparr>te_Type := ''y''\<rparr>) zero_Task))))"
proof (rule trace_ids_stay_distinct)
  show "trace_ids_ok (ts_Trace (t_Status (appendTaskTrace 0 (zero_TraceEvent\<lparr>te_Type := ''y''\<rparr>) zero_Task)))"
    by (rule trace_ids_stay_distinct) (simp_all add: trace_ids_ok_def trace_ids_def zero_defs event_attempt_def in_int64_def)
qed (code_simp | simp add: zero_TraceEvent_def)+

section \<open>Kickoff messages\<close>

abbreviation messages :: "Task \<Rightarrow> TaskMessage list" where
  "messages t \<equiv> ts_Messages (t_Status t)"

lemma hasKickoff_mono:
  "hasKickoffMessage ms attempt agent \<Longrightarrow> set ms \<subseteq> set ms' \<Longrightarrow> hasKickoffMessage ms' attempt agent"
  by (auto simp: hasKickoffMessage_def Let_def list_ex_iff)

lemma task_start_literal: "trim_space ''task_start'' = ''task_start''"
  by code_simp

lemma kickoff_fields [simp]:
  "tm_Type (kickoff_message now content t idx e) = ''task_start''"
  "tm_ToAgent (kickoff_message now content t idx e) = e"
  "tm_Attempt (kickoff_message now content t idx e) = (if ts_Attempts (t_Status t) \<le> 0 then 1 else ts_Attempts (t_Status t))"
  by (simp_all add: kickoff_message_def populateTaskMessageMetadata_def zero_TaskMessage_def Let_def)

lemma append_message_fields [simp]:
  "ts_Attempts (t_Status (appendTaskMessage now m t)) = ts_Attempts (t_Status t)"
  by (simp add: appendTaskMessage_def Let_def)

lemma append_message:
  assumes "length (messages t) < 500"
  obtains m' where "messages (appendTaskMessage now m t) = messages t @ [m']"
    "tm_Type m' = tm_Type m" "tm_ToAgent m' = tm_ToAgent m" "tm_Attempt m' = tm_Attempt m"
proof -
  define m1 where "m1 = (if trim_space (tm_Timestamp m) = [] then m\<lparr>tm_Timestamp := format_nano now\<rparr> else m)"
  define m2 where "m2 = (if tm_MaxAttempts m1 \<le> 0 then m1\<lparr>tm_MaxAttempts := rp_MaxAttempts (sp_Retry (t_Spec t))\<rparr> else m1)"
  define m3 where "m3 = (if tm_MaxAttempts m2 \<le> 0 then m2\<lparr>tm_MaxAttempts := 1\<rparr> else m2)"
  define m4 where "m4 = (if trim_space (tm_Phase m3) = [] then m3\<lparr>tm_Phase := ''Queued''\<rparr> else m3)"
  define m5 where "m5 = (if trim_space (tm_IdempotencyKey m4) = [] then m4\<lparr>tm_IdempotencyKey := trim_space (tm_MessageID m4)\<rparr> else m4)"
  have "messages (appendTaskMessage now m t) = keep_last 500 (messages t @ [m5])"
    unfolding appendTaskMessage_def m1_def m2_def m3_def m4_def m5_def Let_def by simp
  also have "\<dots> = messages t @ [m5]" using assms by (simp add: keep_last_def)
  finally show thesis using that by (simp add: m1_def m2_def m3_def m4_def m5_def)
qed

lemma kickoff_trace_fields [simp]:
  "messages (kickoff_trace cf now e m t) = messages t"
  "ts_Attempts (t_Status (kickoff_trace cf now e m t)) = ts_Attempts (t_Status t)"
  by (simp_all add: kickoff_trace_def)

lemma kickoff_loop_done:
  "\<forall>e \<in> set entries. hasKickoffMessage (messages t) (ts_Attempts (t_Status t)) e \<Longrightarrow>
   kickoff_loop cf now content idx entries t w = (None, t, w)"
  by (induction entries arbitrary: idx) auto

lemma kickoff_loop_sends:
  assumes "kickoff_loop cf now content idx entries t w = (None, t', w')"
    and "\<forall>e \<in> set entries. trim_space e \<noteq> []" "length (messages t) + length entries \<le> 500"
  shows "ts_Attempts (t_Status t') = ts_Attempts (t_Status t) \<and> set (messages t) \<subseteq> set (messages t')
    \<and> (\<forall>e \<in> set entries. hasKickoffMessage (messages t') (ts_Attempts (t_Status t)) e)"
  using assms
proof (induction entries arbitrary: idx t w)
  case (Cons e es)
  show ?case
  proof (cases "hasKickoffMessage (messages t) (ts_Attempts (t_Status t)) e")
    case True
    with Cons.prems have "kickoff_loop cf now content (Suc idx) es t w = (None, t', w')" by simp
    from Cons.IH [OF this] Cons.prems True show ?thesis by (auto intro: hasKickoff_mono)
  next
    case False
    let ?m = "kickoff_message now content t idx e"
    let ?t = "appendTaskMessage now ?m t"
    obtain m' where m': "messages ?t = messages t @ [m']" "tm_Type m' = ''task_start''" "tm_ToAgent m' = e"
        "tm_Attempt m' = (if ts_Attempts (t_Status t) \<le> 0 then 1 else ts_Attempts (t_Status t))"
      using append_message [of t now ?m] Cons.prems(3) by auto
    then have has: "hasKickoffMessage (messages ?t) (ts_Attempts (t_Status t)) e"
      using Cons.prems(2) by (auto simp: hasKickoffMessage_def Let_def task_start_literal)
    from False Cons.prems(1) obtain w1 where
      "kickoff_loop cf now content (Suc idx) es (kickoff_trace cf now e ?m ?t) w1 = (None, t', w')"
      by (auto simp: Let_def split: option.splits prod.splits)
    from Cons.IH [OF this] Cons.prems(2,3) m'(1) have ih: "ts_Attempts (t_Status t') = ts_Attempts (t_Status t)"
      "set (messages ?t) \<subseteq> set (messages t')"
      "\<forall>e \<in> set es. hasKickoffMessage (messages t') (ts_Attempts (t_Status t)) e" by auto
    with hasKickoff_mono [OF has ih(2)] m'(1) show ?thesis by auto
  qed
qed simp

text \<open>
  Each entry agent gets one kickoff message per attempt. When a round over the entry agents has
  succeeded, the task's messages hold a kickoff for every one of them, none of the task's earlier
  messages is lost, and another round, in whatever state of the world, publishes nothing and leaves
  the task as it is. The agents' names are not blank and the messages fit the limit of 500.
\<close>

theorem kickoff_once:
  assumes "kickoff_loop cf now content 0 entries t w = (None, t', w')"
    and "\<forall>e \<in> set entries. trim_space e \<noteq> []" "length (ts_Messages (t_Status t)) + length entries \<le> 500"
  shows "(\<forall>e \<in> set entries. hasKickoffMessage (ts_Messages (t_Status t')) (ts_Attempts (t_Status t)) e)
    \<and> set (ts_Messages (t_Status t)) \<subseteq> set (ts_Messages (t_Status t'))
    \<and> kickoff_loop cf2 now2 content2 0 entries t' w2 = (None, t', w2)"
  using kickoff_loop_sends [OF assms] kickoff_loop_done [of entries t'] by auto

definition demo_bus_world :: ctl_world where
  "demo_bus_world = (demo_ctl demo_claimed)\<lparr>cw_bus := Some (NewMemoryAgentMessageBus ''agents'' 100 Minute)\<rparr>"

theorem kickoff_once_witness:
  "\<exists>t' w'. kickoff_loop demo_cfg Second ''topic'' 0 [''a''] demo_claimed_task demo_bus_world = (None, t', w')
    \<and> length (ts_Messages (t_Status t')) = 1
    \<and> kickoff_loop demo_cfg Second ''topic'' 0 [''a''] t' w' = (None, t', w')"
proof -
  let ?r = "kickoff_loop demo_cfg Second ''topic'' 0 [''a''] demo_claimed_task demo_bus_world"
  have "case ?r of (None, t', w') \<Rightarrow> length (ts_Messages (t_Status t')) = 1 | _ \<Rightarrow> False"
    "length (ts_Messages (t_Status demo_claimed_task)) + length [''a''] \<le> 500"
    "trim_space ''a'' \<noteq> []" by code_simp+
  then obtain t' w' where r: "?r = (None, t', w')" "length (ts_Messages (t_Status t')) = 1"
    and c: "length (ts_Messages (t_Status demo_claimed_task)) + length [''a''] \<le> 500"
      "\<forall>e \<in> set [''a'']. trim_space e \<noteq> []" by (auto split: prod.splits option.splits)
  from kickoff_once [OF r(1) c(2,1), of demo_cfg Second "''topic''" w'] r show ?thesis by blast
qed

section \<open>A claimed task settles\<close>

lemma quiet_items:
  "cw_env w' = cw_env w \<Longrightarrow> st_items (cw_tasks w') = st_items (cw_tasks w) \<Longrightarrow> quiet t w' = quiet t w"
  by (simp add: quiet_def)

lemma quiet_log [simp]: "quiet t (appendTaskLog now n m w) = quiet t w"
  by (rule quiet_items) simp_all

lemma quiet_sync_approval [simp]: "quiet t (snd (createSyncToolApproval now u e w)) = quiet t w"
  by (rule quiet_items) (simp_all add: createSyncToolApproval_def Let_def split: option.splits)

lemma quiet_status_only: "only_status t t' \<Longrightarrow> quiet t' w = quiet t w"
  by (rule quiet_cong) (auto dest: only_status_meta)

text \<open>What a step may leave behind: no claim, unless the task waits for an approval.\<close>

definition settled :: "Task \<Rightarrow> bool" where
  "settled u \<longleftrightarrow> (ts_Phase (t_Status u) \<in> {''Succeeded'', ''Failed'', ''DeadLetter'', ''Pending''}
      \<and> ts_ClaimedBy (t_Status u) = [] \<and> ts_LeaseUntil (t_Status u) = [])
    \<or> ts_Phase (t_Status u) = ''WaitingApproval''"

lemma save_settled:
  assumes "quiet t w" "task_ok t" "only_status t t'"
    and "ts_Phase (t_Status t') \<in> {''Succeeded'', ''Failed'', ''DeadLetter'', ''Pending''}
      \<and> ts_ClaimedBy (t_Status t') = [] \<and> ts_LeaseUntil (t_Status t') = [] \<or> ts_Phase (t_Status t') = ''WaitingApproval''"
  shows "\<exists>u w'. save now t' msg w = (None, w') \<and> stored t w' = Some u \<and> settled u"
proof -
  obtain u w' where "save now t' msg w = (None, w')" "stored t w' = Some u"
    "t_Status u = normalize_task_status (t_Status t')" using save_outcome [OF assms(1-3)] by blast
  then show ?thesis using assms(4) by (auto simp: settled_def)
qed

lemma succeeded_fields [simp]:
  "only_status t (succeeded now out t') \<longleftrightarrow> only_status t t'"
  "ts_Phase (t_Status (succeeded now out t')) = ''Succeeded''"
  "ts_ClaimedBy (t_Status (succeeded now out t')) = []"
  "ts_LeaseUntil (t_Status (succeeded now out t')) = []"
  by (simp_all add: succeeded_def release_worker_def started_def)

lemma waiting_fields [simp]:
  "only_status t (waiting_on cf now r b t') \<longleftrightarrow> only_status t t'"
  "ts_Phase (t_Status (waiting_on cf now r b t')) = ''WaitingApproval''"
  by (simp_all add: waiting_on_def)

lemma failure_settles:
  assumes "quiet t w" "task_ok t" "only_status t t'"
  shows "\<exists>u w'. handleExecutionFailure cf now t' reason w = (None, w') \<and> stored t w' = Some u \<and> settled u"
proof -
  have "\<exists>t2 msg. handleExecutionFailure cf now t' reason w = save now t2 msg w \<and> only_status t t2
      \<and> ts_Phase (t_Status t2) \<in> {''Failed'', ''DeadLetter'', ''Pending''}
      \<and> ts_ClaimedBy (t_Status t2) = [] \<and> ts_LeaseUntil (t_Status t2) = []"
    unfolding handleExecutionFailure_def markFailed_def markDeadLetter_def Let_def
    using assms(3) by (auto split: option.splits intro!: exI conjI)
  then show ?thesis using save_settled [OF assms(1,2)] by fastforce
qed

text \<open>The execution of the agents changes the task's status and other stores, not the stored tasks.\<close>

definition executes_quietly :: "runtime \<Rightarrow> bool" where
  "executes_quietly rt \<longleftrightarrow> (\<forall>sy t w r t' w'. rt_execute rt sy t w = (r, t', w') \<longrightarrow>
     only_status t t' \<and> cw_env w' = cw_env w \<and> st_items (cw_tasks w') = st_items (cw_tasks w))"



section \<open>Approvals of sequential runs\<close>

text \<open>The approvals after a call of the tool db was stopped in the first attempt and then approved.\<close>

definition demo_granted :: ToolApprovalStore where
  "demo_granted = (case cw_toolApprovals (snd (createSyncToolApproval 0 (on_status (\<lambda>st. st\<lparr>ts_Attempts := 1\<rparr>) demo_task)
       (ErrApproval ''db'' [] ''needs approval'') (demo_ctl NewTaskStore))) of
     None \<Rightarrow> []
   | Some s \<Rightarrow> map (\<lambda>(k, a). (k, a\<lparr>ta_Status := (ta_Status a)\<lparr>av_Phase := ''Approved''\<rparr>\<rparr>)) s)"

abbreviation granted_call :: "string \<Rightarrow> go_error + AuthorizeResult" where
  "granted_call messageID \<equiv> NewAuthorizerWithApprovedToolGrant demo_needs
     (Some (\<lambda>key. Inr (ToolApprovalStore_Get key demo_granted))) ''default/t1'' messageID ''db'' demo_tool"

text \<open>
  The approval of a tool call in a sequential run is never found again. The controller files it
  under the identifier sync/a1 of the attempt, while the grants of the agent are looked up under
  sync/a1/writer. One approval is stored, it is approved and names the tool; it would permit the
  call if it were looked up under the identifier it was filed with, but the agent's call still needs
  an approval.
\<close>

theorem sequential_approval_not_found:
  "map (\<lambda>(k, a). (ap_Tool (ta_Spec a), av_Phase (ta_Status a))) demo_granted = [(''db'', ''Approved'')]
   \<and> decision_of (granted_call ''sync/a1'') = Allowed
   \<and> decision_of (granted_call ''sync/a1/writer'') = NeedsApproval"
proof -
  have "case demo_granted of [(k, a)] \<Rightarrow> k = ''default/ta-b1b92f3e'' \<and> ap_Tool (ta_Spec a) = ''db''
      \<and> av_Phase (ta_Status a) = ''Approved'' | _ \<Rightarrow> False" by code_simp
  then obtain a where a: "demo_granted = [(''default/ta-b1b92f3e'', a)]"
    "ap_Tool (ta_Spec a) = ''db'' \<and> av_Phase (ta_Status a) = ''Approved''" by (rule single_item)
  have keys: "ToolApprovalScopedStoreKey ''default/t1'' ''sync/a1'' = ''default/ta-b1b92f3e''"
    "ToolApprovalScopedStoreKey ''default/t1'' ''sync/a1/writer'' = ''default/ta-5f83daec''"
    "normalizeLookupName ''default/ta-b1b92f3e'' = ''default/ta-b1b92f3e''"
    "normalizeLookupName ''default/ta-5f83daec'' = ''default/ta-5f83daec''"
    "trim_space ''default/t1'' = ''default/t1''" "trim_space ''sync/a1'' = ''sync/a1''"
    "trim_space ''sync/a1/writer'' = ''sync/a1/writer''"
    "equal_fold (trim_space ''Approved'') ''approved''" by code_simp+
  show ?thesis
    by (simp add: a(1) a(2) NewAuthorizerWithApprovedToolGrant_def authorize_with_grant_def keys demo_needs_result
        ToolApprovalStore_Get_def store_get_def decision_of_def allow_result_def)
qed

end
