(* ===== verification/Task_Slots.thy ===== *)
theory Task_Slots
  imports Task_Props
begin

text \<open>
  The slots of a worker over a pass of the task controller: every step of the controller leaves the
  worker store alone, an iteration of the claim loop gives back the slot it has acquired, and so
  does a whole pass.
\<close>

section \<open>Slots\<close>

text \<open>The controller's steps leave the worker store alone when the execution of the agents does.\<close>

definition runtime_keeps_workers :: "runtime \<Rightarrow> bool" where
  "runtime_keeps_workers rt \<longleftrightarrow>
     (\<forall>sy t w. cw_workers (snd (snd (rt_execute rt sy t w))) = cw_workers w)
     \<and> (\<forall>sy i a b t w. cw_workers (snd (snd (rt_resume rt sy i a b t w))) = cw_workers w)"

named_theorems keeps_workers

lemma sync_workers [keeps_workers]: "cw_workers (sync_tasks w) = cw_workers w"
  by (simp add: sync_tasks_def split: list.splits)

lemma log_workers [keeps_workers]: "cw_workers (appendTaskLog now n m w) = cw_workers w"
  by (simp add: appendTaskLog_def)

lemma upsert_loop_workers: "cw_workers (snd (upsertTask_loop now n e t w)) = cw_workers w"
  by (induction now n e t w rule: upsertTask_loop.induct)
    (auto simp: Let_def keeps_workers split: option.splits prod.splits sum.splits)

lemma upsert_workers [keeps_workers]: "cw_workers (snd (upsertTask now t w)) = cw_workers w"
  by (simp add: upsertTask_def upsert_loop_workers)

lemma save_workers [keeps_workers]: "cw_workers (snd (save now t m w)) = cw_workers w"
  by (simp add: save_def case_prod_beta keeps_workers split: sum.splits)

lemma mark_workers [keeps_workers]:
  "cw_workers (snd (markFailed cf now t r w)) = cw_workers w"
  "cw_workers (snd (markDeadLetter cf now t r w)) = cw_workers w"
  "cw_workers (snd (transitionToWaitingApproval cf now t r b w)) = cw_workers w"
  by (simp_all add: markFailed_def markDeadLetter_def transitionToWaitingApproval_def keeps_workers)

lemma failure_workers [keeps_workers]: "cw_workers (snd (handleExecutionFailure cf now t r w)) = cw_workers w"
  by (simp add: handleExecutionFailure_def Let_def keeps_workers split: option.splits)

lemma sync_approval_workers [keeps_workers]: "cw_workers (snd (createSyncToolApproval now t e w)) = cw_workers w"
  by (simp add: createSyncToolApproval_def Let_def split: option.splits)

lemma publish_workers [keeps_workers]:
  "cw_workers (snd (publishAgentMessage now t m w)) = cw_workers w"
  "cw_workers (snd (bus_publish now am bus w)) = cw_workers w"
  by (simp_all add: publishAgentMessage_def bus_publish_def Let_def case_prod_beta keeps_workers
      split: option.splits sum.splits)

lemma kickoff_workers [keeps_workers]:
  "cw_workers (snd (snd (kickoff_loop cf now c i es t w))) = cw_workers w"
  by (induction es arbitrary: i t w)
    (simp_all add: Let_def case_prod_beta keeps_workers split: option.splits)

lemma forward_workers [keeps_workers]: "cw_workers (snd (snd (forward_held now ms t w))) = cw_workers w"
  by (induction ms arbitrary: t w)
    (simp_all add: case_prod_beta keeps_workers split: option.splits)

lemma pending_workers [keeps_workers]: "cw_workers (snd (reconcilePending cf rt now t w)) = cw_workers w"
  by (simp add: reconcilePending_def Let_def case_prod_beta keeps_workers)

lemma message_driven_workers [keeps_workers]:
  "cw_workers (snd (reconcileRunningMessageDriven cf now t sy w)) = cw_workers w"
  by (simp add: reconcileRunningMessageDriven_def Let_def case_prod_beta keeps_workers
      split: option.splits sum.splits)

lemma completion_review_workers [keeps_workers]:
  "cw_workers (snd (maybeCreateCompletionReviewFromTaskApproval now t a r w)) = cw_workers w"
  by (simp add: maybeCreateCompletionReviewFromTaskApproval_def Let_def case_prod_beta keeps_workers
      split: option.splits sum.splits)

lemma resume_messages_workers [keeps_workers]:
  "cw_workers (snd (resumeMessageDrivenTaskApproval cf now t a r b w)) = cw_workers w"
  by (simp add: resumeMessageDrivenTaskApproval_def Let_def case_prod_beta keeps_workers
      split: option.splits sum.splits bool.splits)

lemma tool_approval_workers [keeps_workers]:
  "cw_workers (snd (applyWaitingToolApproval cf now t a w)) = cw_workers w"
  "cw_workers (snd (reconcileWaitingToolApproval cf now t n w)) = cw_workers w"
  "cw_workers (snd (reconcileWaitingToolApprovalLegacy cf now t w)) = cw_workers w"
proof -
  show a: "cw_workers (snd (applyWaitingToolApproval cf now t a w)) = cw_workers w" for a
    by (simp add: applyWaitingToolApproval_def Let_def keeps_workers)
  show "cw_workers (snd (reconcileWaitingToolApproval cf now t n w)) = cw_workers w"
    "cw_workers (snd (reconcileWaitingToolApprovalLegacy cf now t w)) = cw_workers w"
    by (simp_all add: reconcileWaitingToolApproval_def reconcileWaitingToolApprovalLegacy_def a split: option.splits)
qed

lemma runtime_workers:
  assumes "runtime_keeps_workers rt"
  shows "cw_workers (snd (reconcileRunning cf rt now t w)) = cw_workers w"
    and "cw_workers (snd (resumeSequentialTaskApproval cf rt now t a r b w)) = cw_workers w"
  using assms
  by (simp_all add: runtime_keeps_workers_def reconcileRunning_def resumeSequentialTaskApproval_def Let_def
      case_prod_beta keeps_workers split: option.splits sum.splits bool.splits exec_outcome.splits)

lemma waiting_workers:
  assumes "runtime_keeps_workers rt"
  shows "cw_workers (snd (resumeTaskApproval cf rt now t a b w)) = cw_workers w"
    and "cw_workers (snd (reconcileWaitingApproval cf rt now t w)) = cw_workers w"
proof -
  show r: "cw_workers (snd (resumeTaskApproval cf rt now t a b w)) = cw_workers w" for t a b w
    by (simp add: resumeTaskApproval_def Let_def runtime_workers [OF assms] keeps_workers split: sum.splits)
  have "cw_workers (snd (reconcileWaitingTaskApproval cf rt now t n w)) = cw_workers w" for n
    by (simp add: reconcileWaitingTaskApproval_def resumeRequestedChangesTaskApproval_def Let_def r keeps_workers
        split: option.splits)
  then show "cw_workers (snd (reconcileWaitingApproval cf rt now t w)) = cw_workers w"
    by (simp add: reconcileWaitingApproval_def Let_def keeps_workers split: option.splits)
qed

lemma sweep_workers:
  assumes "runtime_keeps_workers rt"
  shows "cw_workers (snd (reconcileWaitingApprovalSweep cf rt now w)) = cw_workers w"
proof -
  have "cw_workers (snd (sweep_loop cf rt now ts w)) = cw_workers w" for ts w
    by (induction ts arbitrary: w)
      (simp_all add: Let_def case_prod_beta waiting_workers [OF assms] keeps_workers split: option.splits)
  then show ?thesis by (simp add: reconcileWaitingApprovalSweep_def Let_def keeps_workers)
qed

lemma task_workers:
  assumes "runtime_keeps_workers rt"
  shows "cw_workers (snd (reconcileTask cf rt now t w)) = cw_workers w"
  by (simp add: reconcileTask_def Let_def case_prod_beta runtime_workers [OF assms] waiting_workers [OF assms]
      keeps_workers split: option.splits)

text \<open>The worker's version leaves room for a number of writes.\<close>

definition version_room :: "string \<Rightarrow> int \<Rightarrow> WorkerStore \<Rightarrow> bool" where
  "version_room key m s \<longleftrightarrow> (case map_of s key of None \<Rightarrow> True
     | Some k \<Rightarrow> \<exists>n. m_ResourceVersion (w_Metadata k) = itoa n \<and> 0 \<le> n \<and> n + m < 2 ^ 63)"

lemma update_room:
  assumes "initializeUpdateMetadata now ''Worker'' (w_Metadata k) (w_Metadata k) False = Inr m"
    and "m_ResourceVersion (w_Metadata k) = itoa n" "0 \<le> n" "n + 1 < 2 ^ 63"
  shows "m_ResourceVersion m = itoa (n + 1)"
  using initializeUpdateMetadata_version [OF assms(1,2)] assms(3,4)
  by (simp add: in_int64_def wrap64_id)

lemma update_succeeds:
  assumes "m_ResourceVersion (w_Metadata k) = itoa n" "0 \<le> n" "n + 1 < 2 ^ 63"
  shows "\<exists>m. initializeUpdateMetadata now ''Worker'' (w_Metadata k) (w_Metadata k) False = Inr m"
proof -
  have "nextResourceVersion (itoa n) = Some (itoa (n + 1))" using assms by (intro nextResourceVersion_itoa) simp_all
  then show ?thesis using assms(1) by (simp add: initializeUpdateMetadata_def Let_def)
qed

lemma acquire_then_release:
  assumes "worker_store_wf s" "version_room (normalizeLookupName (tc_workerID cf)) (m + 2) s" "0 \<le> m"
    and "0 \<le> slots_used (normalizeLookupName (tc_workerID cf)) s"
    and "tryAcquireWorkerSlot now cf s = (r, s1)"
  shows "case r of
      Inr True \<Rightarrow> (let s2 = snd (ReleaseSlot now (tc_workerID cf) s1) in worker_store_wf s2
        \<and> version_room (normalizeLookupName (tc_workerID cf)) m s2
        \<and> slots_used (normalizeLookupName (tc_workerID cf)) s2 = slots_used (normalizeLookupName (tc_workerID cf)) s)
    | _ \<Rightarrow> s1 = s"
proof (cases "map_of s (normalizeLookupName (tc_workerID cf))")
  case None
  then show ?thesis using assms
    by (auto simp: tryAcquireWorkerSlot_def TryAcquireSlot_def ReleaseSlot_def version_room_def Let_def)
next
  case (Some k)
  let ?key = "normalizeLookupName (tc_workerID cf)"
  from Some assms(2) obtain n where n: "m_ResourceVersion (w_Metadata k) = itoa n" "0 \<le> n" "n + (m + 2) < 2 ^ 63"
    by (auto simp: version_room_def)
  have "m_Name (w_Metadata k) \<noteq> []"
    using items_wf_lookup [OF assms(1) Some] valid_name_chars(1) by (auto simp: worker_ok_def)
  obtain m1 where m1: "initializeUpdateMetadata now ''Worker'' (w_Metadata k) (w_Metadata k) False = Inr m1"
    using update_succeeds n assms(3) by fastforce
  define k1 where "k1 = k\<lparr>w_Metadata := m1, w_Status := (w_Status k)\<lparr>wt_CurrentTasks := wt_CurrentTasks (w_Status k) + 1,
      wt_ObservedGeneration := m_Generation (w_Metadata k)\<rparr>\<rparr>"
  have v1: "m_ResourceVersion (w_Metadata k1) = itoa (n + 1)"
    using update_room [OF m1 n(1,2)] n(3) assms(3) by (simp add: k1_def)
  obtain m2 where m2: "initializeUpdateMetadata now ''Worker'' (w_Metadata k1) (w_Metadata k1) False = Inr m2"
    using update_succeeds [OF v1] n(2,3) assms(3) by fastforce
  have v2: "m_ResourceVersion m2 = itoa (n + 2)"
    using update_room [OF m2 v1] n(2,3) assms(3) by (simp add: ac_simps)
  have "TryAcquireSlot now (tc_workerID cf) s = (Inr (Some k, False), s)
      \<or> TryAcquireSlot now (tc_workerID cf) s = (Inr (Some k1, True), AList.update ?key k1 s)"
    using Some m1 by (simp add: TryAcquireSlot_def Let_def k1_def)
  then consider "TryAcquireSlot now (tc_workerID cf) s = (Inr (Some k, False), s)"
    | "TryAcquireSlot now (tc_workerID cf) s = (Inr (Some k1, True), AList.update ?key k1 s)" by blast
  then show ?thesis
  proof cases
    case 1
    then show ?thesis using assms(5) \<open>m_Name (w_Metadata k) \<noteq> []\<close> by (auto simp: tryAcquireWorkerSlot_def)
  next
    case 2
    then have s1: "r = Inr True" "s1 = AList.update ?key k1 s"
      using assms(5) by (auto simp: tryAcquireWorkerSlot_def)
    have wf1: "worker_store_wf s1" using TryAcquireSlot_wf [OF assms(1), of now "tc_workerID cf"] 2 s1(2) by simp
    have c: "wt_CurrentTasks (w_Status k1) = slots_used ?key s + 1"
      using Some by (simp add: k1_def slots_used_def)
    obtain k2 where k2: "ReleaseSlot now (tc_workerID cf) s1 = (None, AList.update ?key k2 s1)"
      "w_Metadata k2 = m2" "wt_CurrentTasks (w_Status k2) = slots_used ?key s"
      using s1(2) c assms(4) m2 by (auto simp: ReleaseSlot_def Let_def update_conv')
    moreover have "version_room ?key m (AList.update ?key k2 s1)"
    proof -
      have "m_ResourceVersion (w_Metadata k2) = itoa (n + 2)" "0 \<le> n + 2" "n + 2 + m < 2 ^ 63"
        using k2(2) v2 n(2,3) by auto
      then show ?thesis unfolding version_room_def update_conv' fun_upd_same option.case by blast
    qed
    ultimately show ?thesis
      using s1(1) ReleaseSlot_wf [OF wf1, of now "tc_workerID cf"] k2(3)
      by (simp add: slots_used_def update_conv' Let_def)
  qed
qed

text \<open>One iteration of the claim loop.\<close>

abbreviation slot_key :: "task_config \<Rightarrow> string" where
  "slot_key cf \<equiv> normalizeLookupName (tc_workerID cf)"

definition slots_kept :: "task_config \<Rightarrow> int \<Rightarrow> int \<Rightarrow> ctl_world \<Rightarrow> bool" where
  "slots_kept cf c m w \<longleftrightarrow> (case cw_workers w of None \<Rightarrow> True
     | Some s \<Rightarrow> worker_store_wf s \<and> version_room (slot_key cf) m s \<and> slots_used (slot_key cf) s = c)"

lemma slots_kept_cong: "cw_workers w' = cw_workers w \<Longrightarrow> slots_kept cf c m w' = slots_kept cf c m w"
  by (simp add: slots_kept_def)

lemma slots_kept_mono: "slots_kept cf c m w \<Longrightarrow> m' \<le> m \<Longrightarrow> slots_kept cf c m' w"
  by (fastforce simp: slots_kept_def version_room_def split: option.splits)

lemma claim_iteration_workers:
  assumes "runtime_keeps_workers rt"
  shows "cw_workers (snd (claim_iteration cf rt now w)) =
    (case cw_workers w of None \<Rightarrow> None
     | Some s \<Rightarrow> (case tryAcquireWorkerSlot now cf s of
         (Inr True, s1) \<Rightarrow> Some (snd (ReleaseSlot now (tc_workerID cf) s1)) | (_, s1) \<Rightarrow> Some s1))"
  by (simp add: claim_iteration_def Let_def case_prod_beta release_slot_def run_claimed_def
      task_workers [OF assms] keeps_workers split: option.splits sum.splits bool.splits)

lemma claim_iteration_slots:
  assumes "runtime_keeps_workers rt" "slots_kept cf c (m + 2) w" "0 \<le> m" "0 \<le> c"
  shows "slots_kept cf c m (snd (claim_iteration cf rt now w))"
proof (cases "cw_workers w")
  case None
  then show ?thesis using claim_iteration_workers [OF assms(1), of cf now w] by (simp add: slots_kept_def)
next
  case (Some s)
  with assms(2) have s: "worker_store_wf s" "version_room (slot_key cf) (m + 2) s" "slots_used (slot_key cf) s = c"
    by (simp_all add: slots_kept_def)
  obtain r s1 where r: "tryAcquireWorkerSlot now cf s = (r, s1)" by (cases "tryAcquireWorkerSlot now cf s")
  have room: "version_room (slot_key cf) m s" using s(2) by (auto simp: version_room_def split: option.splits)
  note a = acquire_then_release [OF s(1,2) assms(3) _ r]
  show ?thesis
    using a s assms(4) r Some room claim_iteration_workers [OF assms(1), of cf now w]
    by (auto simp: slots_kept_def Let_def split: sum.splits bool.splits)
qed

lemma claim_loop_slots:
  assumes "runtime_keeps_workers rt" "0 \<le> c"
  shows "slots_kept cf c (2 * int (length nows)) w \<Longrightarrow> slots_kept cf c 0 (snd (claim_loop cf rt nows w))"
proof (induction nows arbitrary: w)
  case (Cons now nows)
  then have k: "slots_kept cf c (2 * int (length nows)) (snd (claim_iteration cf rt now w))"
    using claim_iteration_slots [OF assms(1), of cf c "2 * int (length nows)" w now] assms(2) by (simp add: ac_simps)
  show ?case
  proof (cases "claim_iteration cf rt now w")
    case (Pair r w')
    with k Cons.IH [of w'] slots_kept_mono [of cf c "2 * int (length nows)" w' 0] show ?thesis
      by (cases r) simp_all
  qed
qed simp

lemma claim_loop_workers:
  assumes "runtime_keeps_workers rt"
  shows "cw_workers w \<noteq> None \<Longrightarrow> cw_workers (snd (claim_loop cf rt nows w)) \<noteq> None"
proof (induction nows arbitrary: w)
  case (Cons now nows)
  have "cw_workers (snd (claim_iteration cf rt now w)) \<noteq> None"
    using claim_iteration_workers [OF assms, of cf now w] Cons.prems
    by (auto split: prod.splits sum.splits bool.splits)
  then show ?case using Cons.IH by (cases "claim_iteration cf rt now w") (auto split: claim_step.splits)
qed simp

text \<open>
  C9: A pass of the controller gives back every slot it takes. Whatever it claims, executes, retries
  or fails, when the pass ends the worker's count of running tasks is the one it started with. The
  worker's version must have room for the writes of the pass, two for each iteration, and the
  execution of agents must not touch the worker store.
\<close>

theorem pass_returns_slots:
  assumes "runtime_keeps_workers rt" "cw_workers w = Some s" "worker_store_wf s"
    and "0 \<le> slots_used (normalizeLookupName (tc_workerID cf)) s"
    and "version_room (normalizeLookupName (tc_workerID cf)) (2 * int (length nows)) s"
  shows "\<exists>s'. cw_workers (snd (TaskController_ReconcileOnce cf rt now nows w)) = Some s'
    \<and> slots_used (normalizeLookupName (tc_workerID cf)) s' = slots_used (normalizeLookupName (tc_workerID cf)) s"
proof -
  let ?c = "slots_used (slot_key cf) s" and ?r = "reconcileWaitingApprovalSweep cf rt now w"
  have k: "slots_kept cf ?c (2 * int (length nows)) (snd ?r)"
    using assms(2,3,5) sweep_workers [OF assms(1), of cf now w] by (simp add: slots_kept_def)
  have "slots_kept cf ?c 0 (snd (TaskController_ReconcileOnce cf rt now nows w))"
    using claim_loop_slots [OF assms(1,4) k] slots_kept_mono [OF k, of 0]
    by (simp add: TaskController_ReconcileOnce_def case_prod_beta split: option.splits)
  moreover have "cw_workers (snd (TaskController_ReconcileOnce cf rt now nows w)) \<noteq> None"
    using assms(2) sweep_workers [OF assms(1), of cf now w] claim_loop_workers [OF assms(1)]
    by (simp add: TaskController_ReconcileOnce_def case_prod_beta split: option.splits)
  ultimately show ?thesis by (auto simp: slots_kept_def split: option.splits)
qed

theorem pass_returns_slots_witness:
  "\<exists>s'. cw_workers (snd (TaskController_ReconcileOnce demo_cfg idle_runtime 0 [0, Second]
      ((demo_ctl demo_store)\<lparr>cw_workers := Some demo_workers\<rparr>))) = Some s'
    \<and> slots_used ''default/w1'' s' = 0"
proof -
  have k: "normalizeLookupName (tc_workerID demo_cfg) = ''default/w1''" "slots_used ''default/w1'' demo_workers = 0"
    by code_simp+
  have "case map_of demo_workers ''default/w1'' of None \<Rightarrow> False | Some k \<Rightarrow> m_ResourceVersion (w_Metadata k) = itoa 1"
    by code_simp
  then have "version_room ''default/w1'' 4 demo_workers"
    by (auto simp: version_room_def split: option.splits intro!: exI [of _ "1::int"])
  moreover have "runtime_keeps_workers idle_runtime" by (simp add: runtime_keeps_workers_def idle_runtime_def)
  moreover have "worker_store_wf demo_workers" unfolding demo_workers_def by (simp add: WorkerStore_Upsert_wf)
  ultimately show ?thesis
    using pass_returns_slots [of idle_runtime "(demo_ctl demo_store)\<lparr>cw_workers := Some demo_workers\<rparr>" demo_workers
      demo_cfg "[0, Second]" 0] k by simp
qed

end
