(* ===== verification/Api_Request.thy ===== *)
theory Api_Request
  imports Resource_Store
begin

text \<open>
  What the handlers of the HTTP API share (api/namespace.go, preconditions.go, filters.go,
  pagination.go, status_updates.go): the parameters of a request, the precondition of an update, the
  label selector, and the pages of a listing.

  A request is its method, path, query parameters and If-Match header; a response its status code
  and what is written, or \<open>HttpElsewhere\<close> where an endpoint answers that is left out. Texts of store errors stay the store's error values. The stores are those in
  memory, whose reads do not fail.

  Shown here: a listing with a label selector ends, however few items match.
\<close>

section \<open>Requests and responses\<close>

record http_request =
  hr_Method :: string
  hr_Path :: string
  hr_Query :: "(string \<times> string) list"
  hr_IfMatch :: string

datatype response_text = ErrorText string | StoreErrorText api_error

datatype 'a http_response =
    HttpError nat response_text
  | HttpObject nat 'a
  | HttpPage "'a list" string
  | HttpStatus "ObjectMeta" 'a
  | HttpNoContent
  | HttpLogs "string list"
  | HttpElsewhere

definition MethodNotAllowed :: "'a http_response" where
  "MethodNotAllowed = HttpError 405 (ErrorText ''method not allowed'')"

definition query_get :: "http_request \<Rightarrow> string \<Rightarrow> string" where
  "query_get rq key = (case map_of (hr_Query rq) key of None \<Rightarrow> [] | Some v \<Rightarrow> v)"

definition maxPaginationLimit :: int where
  "maxPaginationLimit = 1000"

definition paginationParams :: "http_request \<Rightarrow> int \<times> int" where
  "paginationParams rq =
     (let number = (\<lambda>least v. case atoi (trim_space v) of None \<Rightarrow> 0 | Some n \<Rightarrow> if least \<le> n then n else 0);
          limit = number 1 (query_get rq ''limit'');
          limit = (if maxPaginationLimit < limit then maxPaginationLimit else limit)
      in (limit, number 0 (query_get rq ''offset'')))"

definition cursorParam :: "http_request \<Rightarrow> string" where
  "cursorParam rq = trim_space (query_get rq ''after'')"

definition requestNamespace :: "http_request \<Rightarrow> string" where
  "requestNamespace rq = NormalizeNamespace (query_get rq ''namespace'')"

definition namespaceFilter :: "http_request \<Rightarrow> string \<times> bool" where
  "namespaceFilter rq =
     (let raw = trim_space (query_get rq ''namespace'')
      in if raw = [] then ([], False) else (NormalizeNamespace raw, True))"

definition scopedNameForRequest :: "http_request \<Rightarrow> string \<Rightarrow> string" where
  "scopedNameForRequest rq name = scopedName (requestNamespace rq) name"

text \<open>The metadata with its namespace in normal form, or the text of the error.\<close>

definition applyRequestNamespace :: "http_request \<Rightarrow> ObjectMeta \<Rightarrow> string + ObjectMeta" where
  "applyRequestNamespace rq meta =
     (let ns = requestNamespace rq; mine = NormalizeNamespace (m_Namespace meta)
      in if \<not> equal_fold mine ns
           then Inl (''metadata.namespace \"'' @ mine @ ''\" does not match request namespace \"'' @ ns @ ''\"'')
         else Inr (meta\<lparr>m_Namespace := mine\<rparr>))"

section \<open>Preconditions\<close>

definition canonicalizeIfMatch :: "string \<Rightarrow> string" where
  "canonicalizeIfMatch v =
     (let v = trim_space v;
          v = (if equal_fold (take 2 v) ''W/'' then trim_space (drop 2 v) else v)
      in trim_cutset [CHR 0x22] v)"

text \<open>The incoming metadata with the version the update is conditional on.\<close>

definition requireUpdatePrecondition :: "string \<Rightarrow> ObjectMeta \<Rightarrow> ObjectMeta \<Rightarrow> string + ObjectMeta" where
  "requireUpdatePrecondition headerValue incoming current =
     (let ifMatch = canonicalizeIfMatch headerValue;
          ifMatch = (if ifMatch = ''*'' then m_ResourceVersion current else ifMatch);
          mine = m_ResourceVersion incoming
      in if canonicalizeIfMatch headerValue \<noteq> [] \<and> mine \<noteq> [] \<and> mine \<noteq> ifMatch
           then Inl (''metadata.resourceVersion \"'' @ mine @ ''\" does not match If-Match \"'' @ ifMatch @ ''\"'')
         else let version = (if canonicalizeIfMatch headerValue \<noteq> [] then ifMatch else mine)
              in if trim_space version = []
                   then Inl ''resourceVersion precondition required for update (set metadata.resourceVersion or If-Match)''
                 else if m_ResourceVersion current = [] then Inl ''current resourceVersion is missing''
                 else Inr (incoming\<lparr>m_ResourceVersion := version\<rparr>))"

text \<open>writeStoreError.\<close>

definition store_error_response :: "api_error \<Rightarrow> 'a http_response" where
  "store_error_response e =
     (if IsConflict e then HttpError 409 (StoreErrorText e)
      else HttpError 400 (ErrorText ''invalid store request''))"

section \<open>Label selectors\<close>

text \<open>The requirements as an association list; a later part for the same key replaces an earlier one.\<close>

fun selector_parts :: "string list \<Rightarrow> (string \<times> string) list \<Rightarrow> string + (string \<times> string) list" where
  "selector_parts [] req = Inr req"
| "selector_parts (part # parts) req =
     (let part = trim_space part
      in if part = [] then selector_parts parts req
         else if \<not> List.member part CHR ''=''
           then Inl (''invalid label selector \"'' @ part @ ''\": expected key=value pairs'')
         else let (key, value) = split_first CHR ''='' part
              in if trim_space key = [] then Inl (''invalid label selector \"'' @ part @ ''\": key is required'')
                 else selector_parts parts (AList.update (trim_space key) (trim_space value) req))"

definition labelSelectorFilter :: "http_request \<Rightarrow> string + (string \<times> string) list" where
  "labelSelectorFilter rq =
     (let raw = trim_space (query_get rq ''labelSelector'');
          raw = (if raw = [] then trim_space (query_get rq ''labels'') else raw)
      in if raw = [] then Inr [] else selector_parts (split_char CHR '','' raw) [])"

definition matchMetadataFilters :: "ObjectMeta \<Rightarrow> string \<Rightarrow> bool \<Rightarrow> (string \<times> string) list \<Rightarrow> bool" where
  "matchMetadataFilters meta namespace hasNamespace labels \<longleftrightarrow>
     \<not> (hasNamespace \<and> \<not> equal_fold (NormalizeNamespace (m_Namespace meta)) namespace)
     \<and> list_all (\<lambda>(key, expected). fmlookup (m_Labels meta) key = Some expected) labels"

section \<open>Pages\<close>

definition scopedResourceKey :: "ObjectMeta \<Rightarrow> string" where
  "scopedResourceKey meta = scopedName (NormalizeNamespace (m_Namespace meta)) (m_Name meta)"

definition normalizeListCursor :: "string \<Rightarrow> string \<Rightarrow> string" where
  "normalizeListCursor after requestNS =
     (if after = [] then []
      else if IsScopedName after then after
      else scopedName (NormalizeNamespace requestNS) after)"

definition boundedSelectorPageLimit :: "int \<Rightarrow> int" where
  "boundedSelectorPageLimit limit =
     (let limit = (if limit \<le> 0 then 100 else limit)
      in if maxPaginationLimit < limit then maxPaginationLimit else limit)"

definition scopedListContinue :: "int \<Rightarrow> string \<Rightarrow> bool \<Rightarrow> string" where
  "scopedListContinue limit lastScannedKey hasMore =
     (if 0 < limit \<and> hasMore \<and> lastScannedKey \<noteq> [] then lastScannedKey else [])"

text \<open>The scan of a batch: the result so far, the last key scanned, and whether the page is full.\<close>

fun scan_batch ::
  "('a \<Rightarrow> ObjectMeta) \<Rightarrow> (string \<times> string) list \<Rightarrow> int \<Rightarrow> 'a list \<Rightarrow> 'a list \<Rightarrow> string \<Rightarrow> 'a list \<times> string \<times> bool" where
  "scan_batch getMeta selector pageLimit [] result lastScanned = (result, lastScanned, False)"
| "scan_batch getMeta selector pageLimit (item # items) result lastScanned =
     (let lastScanned = scopedResourceKey (getMeta item)
      in if \<not> matchMetadataFilters (getMeta item) [] False selector
           then scan_batch getMeta selector pageLimit items result lastScanned
         else if pageLimit \<le> int (length (result @ [item])) then (result @ [item], lastScanned, True)
         else scan_batch getMeta selector pageLimit items (result @ [item]) lastScanned)"

text \<open>
  The loop over the batches, with fuel: the page, the last key scanned and whether there may be
  more; \<^const>\<open>None\<close> when the fuel is used up.
\<close>

fun selector_loop ::
  "(int \<Rightarrow> string \<Rightarrow> 'a list) \<Rightarrow> ('a \<Rightarrow> ObjectMeta) \<Rightarrow> (string \<times> string) list \<Rightarrow> int \<Rightarrow> nat \<Rightarrow> string
    \<Rightarrow> 'a list \<Rightarrow> string \<Rightarrow> ('a list \<times> string \<times> bool) option" where
  "selector_loop fetch getMeta selector pageLimit 0 cursor result lastScanned = None"
| "selector_loop fetch getMeta selector pageLimit (Suc fuel) cursor result lastScanned =
     (let batch = fetch (pageLimit * 2) cursor
      in if batch = [] then Some (result, lastScanned, False)
         else case scan_batch getMeta selector pageLimit batch result lastScanned of
                (result, lastScanned, True) \<Rightarrow> Some (result, lastScanned, True)
              | (result, lastScanned, False) \<Rightarrow>
                  if int (length batch) < pageLimit * 2 then Some (result, lastScanned, False)
                  else selector_loop fetch getMeta selector pageLimit fuel
                         (scopedResourceKey (getMeta (last batch))) result lastScanned)"

definition fetchListPageWithSelector ::
  "nat \<Rightarrow> int \<Rightarrow> string \<Rightarrow> (string \<times> string) list \<Rightarrow> (int \<Rightarrow> string \<Rightarrow> 'a list) \<Rightarrow> ('a \<Rightarrow> ObjectMeta)
    \<Rightarrow> ('a list \<times> string) option" where
  "fetchListPageWithSelector fuel limit after selector fetch getMeta =
     (if selector = [] then
        let items = fetch limit after
        in Some (items, if items = [] then []
             else scopedListContinue limit (scopedResourceKey (getMeta (last items))) (limit \<le> int (length items)))
      else
        let pageLimit = boundedSelectorPageLimit limit
        in case selector_loop fetch getMeta selector pageLimit fuel after [] [] of
             None \<Rightarrow> None
           | Some (result, lastScanned, hasMore) \<Rightarrow>
               if result = [] \<or> \<not> hasMore then Some (result, [])
               else Some (result, scopedListContinue pageLimit lastScanned True))"

text \<open>The fetch function gets the limit, the cursor and the namespace filter.\<close>

definition fetchListPage ::
  "nat \<Rightarrow> http_request \<Rightarrow> (int \<Rightarrow> string \<Rightarrow> string \<Rightarrow> 'a list) \<Rightarrow> ('a \<Rightarrow> ObjectMeta) \<Rightarrow> string + ('a list \<times> string) option" where
  "fetchListPage fuel rq fetch getMeta =
     (case labelSelectorFilter rq of
        Inl e \<Rightarrow> Inl e
      | Inr selector \<Rightarrow>
          let (ns, hasNS) = namespaceFilter rq; nsFilter = (if hasNS then ns else [])
          in Inr (fetchListPageWithSelector fuel (fst (paginationParams rq))
                    (normalizeListCursor (cursorParam rq) (requestNamespace rq)) selector
                    (\<lambda>limit after. fetch limit after nsFilter) getMeta))"

section \<open>A page with a label selector\<close>

lemma scan_batch_filter:
  assumes "int (length result) < pageLimit"
  shows "\<exists>ls. scan_batch getMeta selector pageLimit items result lastScanned =
    (let m = filter (\<lambda>x. matchMetadataFilters (getMeta x) [] False selector) items; need = nat pageLimit - length result
     in (result @ take need m, ls, need \<le> length m))"
  using assms
proof (induction items arbitrary: result lastScanned)
  case (Cons x items)
  let ?match = "matchMetadataFilters (getMeta x) [] False selector"
  consider "\<not> ?match" | "?match" "pageLimit \<le> int (length (result @ [x]))" | "?match" "int (length (result @ [x])) < pageLimit"
    by linarith
  then show ?case
  proof cases
    case 1
    then show ?thesis using Cons.IH [OF Cons.prems] by (simp add: Let_def)
  next
    case 2
    then have "nat pageLimit - length result = Suc 0" using Cons.prems by simp
    with 2 show ?thesis by (simp add: Let_def)
  next
    case 3
    then have n: "nat pageLimit - length result = Suc (nat pageLimit - length (result @ [x]))" by simp
    have "scan_batch getMeta selector pageLimit (x # items) result lastScanned
        = scan_batch getMeta selector pageLimit items (result @ [x]) (scopedResourceKey (getMeta x))"
      using 3 by (simp add: Let_def)
    with Cons.IH [OF 3(2), of "scopedResourceKey (getMeta x)"] 3(1) show ?thesis
      unfolding n by (simp add: Let_def)
  qed
qed simp

text \<open>The batches are cut from a list \<open>F\<close> that is sorted by key, behind the cursor.\<close>

lemma selector_loop_exact:
  assumes "\<And>c. sorted_wrt (\<lambda>x y. key x < (key y :: string)) (F c)"
    and "\<And>x. key x = scopedResourceKey (getMeta x)"
    and "\<And>c c'. c \<le> c' \<Longrightarrow> F c' = filter (\<lambda>x. c' < key x) (F c)" "\<And>c x. x \<in> set (F c) \<Longrightarrow> c < key x"
    and "\<And>l c. 0 < l \<Longrightarrow> fetch l c = take (nat l) (F c)" "0 < pageLimit"
  shows "length (F cursor) < fuel \<Longrightarrow> int (length result) < pageLimit \<Longrightarrow>
    \<exists>ls b. selector_loop fetch getMeta selector pageLimit fuel cursor result lastScanned
      = Some (result @ take (nat pageLimit - length result)
          (filter (\<lambda>x. matchMetadataFilters (getMeta x) [] False selector) (F cursor)), ls, b)"
proof (induction fuel arbitrary: cursor result lastScanned)
  case (Suc fuel)
  let ?match = "\<lambda>x. matchMetadataFilters (getMeta x) [] False selector"
  let ?b = "take (nat (pageLimit * 2)) (F cursor)" and ?need = "nat pageLimit - length result"
  have b: "fetch (pageLimit * 2) cursor = ?b" using assms(5,6) by simp
  show ?case
  proof (cases "?b = []")
    case True
    then have "F cursor = []" using assms(6) by simp
    with True b show ?thesis by auto
  next
    case False
    obtain ls where s: "scan_batch getMeta selector pageLimit ?b result lastScanned
        = (result @ take ?need (filter ?match ?b), ls, ?need \<le> length (filter ?match ?b))"
      using scan_batch_filter [OF Suc.prems(2), of getMeta selector ?b lastScanned] by (auto simp: Let_def)
    have F: "filter ?match (F cursor) = filter ?match ?b @ filter ?match (drop (nat (pageLimit * 2)) (F cursor))"
      by (metis append_take_drop_id filter_append)
    consider "?need \<le> length (filter ?match ?b)"
      | "length (filter ?match ?b) < ?need" "int (length ?b) < pageLimit * 2"
      | "length (filter ?match ?b) < ?need" "\<not> int (length ?b) < pageLimit * 2" by linarith
    then show ?thesis
    proof cases
      case 1
      then show ?thesis using False b s F by auto
    next
      case 2
      then have "?b = F cursor" using assms(6) by (cases "length (F cursor) \<le> nat (pageLimit * 2)") auto
      with 2 False b s show ?thesis by auto
    next
      case 3
      let ?c = "key (last ?b)"
      have "last ?b \<in> set (F cursor)" using False by (meson in_set_takeD last_in_set)
      then have "cursor < ?c" by (rule assms(4))
      then have d: "F ?c = drop (nat (pageLimit * 2)) (F cursor)"
        using assms(3) [of cursor ?c] filter_after_take [OF assms(1) False] by simp
      moreover have "0 < nat (pageLimit * 2)" "0 < length (F cursor)" using False assms(6) by auto
      ultimately have "length (F ?c) < fuel" using Suc.prems(1) unfolding d length_drop by linarith
      moreover have "int (length (result @ filter ?match ?b)) < pageLimit" using 3(1) by simp
      ultimately have "\<exists>ls' b'. selector_loop fetch getMeta selector pageLimit fuel ?c (result @ filter ?match ?b) ls
          = Some (result @ filter ?match ?b @ take (?need - length (filter ?match ?b)) (filter ?match (F ?c)), ls', b')"
        using Suc.IH [of ?c "result @ filter ?match ?b" ls] by (simp add: diff_diff_left)
      then show ?thesis using 3 False b s F d assms(2) by (simp add: take_all Let_def)
    qed
  qed
qed simp

lemma namespace_pages:
  assumes "items_wf meta ok items" "ns \<noteq> []"
    and "\<forall>x \<in> snd ` set items. equal_fold (NormalizeNamespace (m_Namespace (meta x))) ns \<longrightarrow>
      NormalizeNamespace (m_Namespace (meta x)) = ns \<and> trim_space (m_Name (meta x)) = m_Name (meta x)"
  defines "F \<equiv> \<lambda>c. filter (\<lambda>x. c < scopedResourceKey (meta x)
      \<and> equal_fold (NormalizeNamespace (m_Namespace (meta x))) ns) (store_list meta items)"
  shows "sorted_wrt (\<lambda>x y. scopedResourceKey (meta x) < scopedResourceKey (meta y)) (F c)"
    and "0 < l \<Longrightarrow> store_list_cursor meta l c ns items = take (nat l) (F c)"
proof -
  have k: "scopedResourceKey m = scopedNameFromMeta m" for m
    by (simp add: scopedResourceKey_def scopedNameFromMeta_def scopedName_def)
  show "sorted_wrt (\<lambda>x y. scopedResourceKey (meta x) < scopedResourceKey (meta y)) (F c)"
    unfolding F_def k using assms(3) by (intro store_list_sorted [OF assms(1), where ns = ns]) simp
  show "0 < l \<Longrightarrow> store_list_cursor meta l c ns items = take (nat l) (F c)"
    using assms(2) by (simp add: F_def store_list_cursor_def cursorFilter_less scopedResourceKey_def)
qed


end
