(* ===== verification/Resource_Kinds.thy ===== *)
theory Resource_Kinds
  imports Api_Request Governance Graph Task_Schedule Worker_Store Task_Store
begin

text \<open>
  The stores of the resource types not treated elsewhere (store/resource_stores.go), the renaming of
  a resource (store/resource_stores_upsert_moving.go, json_payload_moving_key.go), and what the API
  handlers need of a kind of resource, as a record of its operations.

  Shown here: every store keeps its resources well-formed and read-your-write (interpretations of
  versioned_resource); a renaming is conditional on the version, takes no other resource's place and
  leaves the others alone.
\<close>

section \<open>Stores\<close>

type_synonym AgentSystemStore = "(string \<times> AgentSystem) list"
type_synonym AgentPolicyStore = "(string \<times> AgentPolicy) list"
type_synonym AgentRoleStore = "(string \<times> AgentRole) list"
type_synonym ToolPermissionStore = "(string \<times> ToolPermission) list"

definition AgentSystemStore_Upsert ::
  "cond_lib \<Rightarrow> instant \<Rightarrow> AgentSystem \<Rightarrow> AgentSystemStore \<Rightarrow> (api_error + AgentSystem) \<times> AgentSystemStore" where
  "AgentSystemStore_Upsert lib now item s =
     store_upsert ''AgentSystem'' sy_Metadata (\<lambda>m a. a\<lparr>sy_Metadata := m\<rparr>) (\<lambda>a b. sy_Spec a \<noteq> sy_Spec b)
       (AgentSystem_Normalize lib) now item s"

definition AgentSystemStore_Get :: "string \<Rightarrow> AgentSystemStore \<Rightarrow> AgentSystem option" where
  "AgentSystemStore_Get name s = store_get name s"

definition AgentSystemStore_List :: "AgentSystemStore \<Rightarrow> AgentSystem list" where
  "AgentSystemStore_List s = store_list sy_Metadata s"

definition AgentSystemStore_ListCursor :: "int \<Rightarrow> string \<Rightarrow> string \<Rightarrow> AgentSystemStore \<Rightarrow> AgentSystem list" where
  "AgentSystemStore_ListCursor limit after namespace s = store_list_cursor sy_Metadata limit after namespace s"

definition AgentSystemStore_Delete :: "string \<Rightarrow> AgentSystemStore \<Rightarrow> api_error option \<times> AgentSystemStore" where
  "AgentSystemStore_Delete name s = store_delete ''agentsystem'' name s"

definition AgentPolicyStore_Upsert ::
  "instant \<Rightarrow> AgentPolicy \<Rightarrow> AgentPolicyStore \<Rightarrow> (api_error + AgentPolicy) \<times> AgentPolicyStore" where
  "AgentPolicyStore_Upsert now item s =
     store_upsert ''AgentPolicy'' po_Metadata (\<lambda>m a. a\<lparr>po_Metadata := m\<rparr>) (\<lambda>a b. po_Spec a \<noteq> po_Spec b)
       AgentPolicy_Normalize now item s"

definition AgentPolicyStore_Get :: "string \<Rightarrow> AgentPolicyStore \<Rightarrow> AgentPolicy option" where
  "AgentPolicyStore_Get name s = store_get name s"

definition AgentPolicyStore_List :: "AgentPolicyStore \<Rightarrow> AgentPolicy list" where
  "AgentPolicyStore_List s = store_list po_Metadata s"

definition AgentPolicyStore_ListCursor :: "int \<Rightarrow> string \<Rightarrow> string \<Rightarrow> AgentPolicyStore \<Rightarrow> AgentPolicy list" where
  "AgentPolicyStore_ListCursor limit after namespace s = store_list_cursor po_Metadata limit after namespace s"

definition AgentPolicyStore_Delete :: "string \<Rightarrow> AgentPolicyStore \<Rightarrow> api_error option \<times> AgentPolicyStore" where
  "AgentPolicyStore_Delete name s = store_delete ''agentpolicy'' name s"

definition AgentRoleStore_Upsert ::
  "instant \<Rightarrow> AgentRole \<Rightarrow> AgentRoleStore \<Rightarrow> (api_error + AgentRole) \<times> AgentRoleStore" where
  "AgentRoleStore_Upsert now item s =
     store_upsert ''AgentRole'' ro_Metadata (\<lambda>m a. a\<lparr>ro_Metadata := m\<rparr>)
       (\<lambda>a b. ro_Description a \<noteq> ro_Description b \<or> ro_Permissions a \<noteq> ro_Permissions b) AgentRole_Normalize now item s"

definition AgentRoleStore_Get :: "string \<Rightarrow> AgentRoleStore \<Rightarrow> AgentRole option" where
  "AgentRoleStore_Get name s = store_get name s"

definition AgentRoleStore_List :: "AgentRoleStore \<Rightarrow> AgentRole list" where
  "AgentRoleStore_List s = store_list ro_Metadata s"

definition AgentRoleStore_ListCursor :: "int \<Rightarrow> string \<Rightarrow> string \<Rightarrow> AgentRoleStore \<Rightarrow> AgentRole list" where
  "AgentRoleStore_ListCursor limit after namespace s = store_list_cursor ro_Metadata limit after namespace s"

definition AgentRoleStore_Delete :: "string \<Rightarrow> AgentRoleStore \<Rightarrow> api_error option \<times> AgentRoleStore" where
  "AgentRoleStore_Delete name s = store_delete ''agentrole'' name s"

definition ToolPermissionStore_Upsert ::
  "instant \<Rightarrow> ToolPermission \<Rightarrow> ToolPermissionStore \<Rightarrow> (api_error + ToolPermission) \<times> ToolPermissionStore" where
  "ToolPermissionStore_Upsert now item s =
     store_upsert ''ToolPermission'' pm_Metadata (\<lambda>m a. a\<lparr>pm_Metadata := m\<rparr>) (\<lambda>a b. pm_Spec a \<noteq> pm_Spec b)
       ToolPermission_Normalize now item s"

definition ToolPermissionStore_Get :: "string \<Rightarrow> ToolPermissionStore \<Rightarrow> ToolPermission option" where
  "ToolPermissionStore_Get name s = store_get name s"

definition ToolPermissionStore_List :: "ToolPermissionStore \<Rightarrow> ToolPermission list" where
  "ToolPermissionStore_List s = store_list pm_Metadata s"

definition ToolPermissionStore_ListCursor :: "int \<Rightarrow> string \<Rightarrow> string \<Rightarrow> ToolPermissionStore \<Rightarrow> ToolPermission list" where
  "ToolPermissionStore_ListCursor limit after namespace s = store_list_cursor pm_Metadata limit after namespace s"

definition ToolPermissionStore_Delete :: "string \<Rightarrow> ToolPermissionStore \<Rightarrow> api_error option \<times> ToolPermissionStore" where
  "ToolPermissionStore_Delete name s = store_delete ''toolpermission'' name s"

section \<open>Renaming\<close>

datatype move_error = MoveError api_error | AlreadyExists string string

text \<open>
  jsonPayloadMovingKey. Its callers pass a function that normalises a copy of the resource, so the
  check is made but the resource itself is stored as it came.
\<close>

definition store_move ::
  "string \<Rightarrow> ('a \<Rightarrow> ObjectMeta) \<Rightarrow> (ObjectMeta \<Rightarrow> 'a \<Rightarrow> 'a) \<Rightarrow> ('a \<Rightarrow> 'a \<Rightarrow> bool) \<Rightarrow> ('a \<Rightarrow> api_error + 'a)
    \<Rightarrow> instant \<Rightarrow> string \<Rightarrow> 'a \<Rightarrow> (string \<times> 'a) list \<Rightarrow> (move_error + 'a) \<times> (string \<times> 'a) list" where
  "store_move resource meta set_meta spec_changed norm_item now oldStoreKey item items =
     (case norm_item item of
        Inl e \<Rightarrow> (Inl (MoveError e), items)
      | Inr _ \<Rightarrow>
          let oldKey = normalizeLookupName oldStoreKey; newKey = scopedNameFromMeta (meta item)
          in if oldKey = newKey then
               (case store_upsert resource meta set_meta spec_changed norm_item now item items of
                  (Inl e, items) \<Rightarrow> (Inl (MoveError e), items)
                | (Inr x, items) \<Rightarrow> (Inr x, items))
             else case map_of items oldKey of
                    None \<Rightarrow> (Inl (MoveError (NotFound resource oldStoreKey)), items)
                  | Some existing \<Rightarrow>
                      if map_of items newKey \<noteq> None then (Inl (AlreadyExists resource (m_Name (meta item))), items)
                      else case initializeUpdateMetadata now resource (meta item) (meta existing) (spec_changed existing item) of
                             Inl e \<Rightarrow> (Inl (MoveError e), items)
                           | Inr m \<Rightarrow> (Inr (set_meta m item),
                               AList.update newKey (set_meta m item) (AList.delete oldKey items)))"

text \<open>The task store's own version normalises the task, and the log moves with it.\<close>

definition TaskStore_UpsertMovingKey ::
  "instant \<Rightarrow> string \<Rightarrow> Task \<Rightarrow> TaskStore \<Rightarrow> (move_error + Task) \<times> TaskStore" where
  "TaskStore_UpsertMovingKey now oldStoreKey item s =
     (case Task_Normalize item of
        Inl e \<Rightarrow> (Inl (MoveError e), s)
      | Inr item \<Rightarrow>
          let oldKey = normalizeLookupName oldStoreKey; newKey = scopedNameFromMeta (t_Metadata item)
          in if oldKey = newKey then
               (case TaskStore_Upsert now item s of
                  (Inl e, s) \<Rightarrow> (Inl (MoveError e), s)
                | (Inr x, s) \<Rightarrow> (Inr x, s))
             else case map_of (st_items s) oldKey of
                    None \<Rightarrow> (Inl (MoveError (NotFound ''task'' oldStoreKey)), s)
                  | Some existing \<Rightarrow>
                      if map_of (st_items s) newKey \<noteq> None
                        then (Inl (AlreadyExists ''task'' (m_Name (t_Metadata item))), s)
                      else case initializeUpdateMetadata now ''Task'' (t_Metadata item) (t_Metadata existing)
                                  (task_spec_changed existing item) of
                             Inl e \<Rightarrow> (Inl (MoveError e), s)
                           | Inr m \<Rightarrow>
                               (Inr (item\<lparr>t_Metadata := m\<rparr>),
                                s\<lparr>st_items := AList.update newKey (item\<lparr>t_Metadata := m\<rparr>) (AList.delete oldKey (st_items s)),
                                  st_logs := (case map_of (st_logs s) oldKey of
                                      None \<Rightarrow> st_logs s
                                    | Some l \<Rightarrow> AList.delete oldKey (AList.update newKey l (st_logs s)))\<rparr>))"

section \<open>Kinds\<close>

text \<open>
  What the handlers of the API use of a kind of resource: its names in messages and paths, its
  metadata and status, and the operations of its store.
\<close>

record ('a, 's) kind_ops =
  k_kind :: string
  k_noun :: string
  k_title :: string
  k_path :: string
  k_crd :: bool
  k_meta :: "'a \<Rightarrow> ObjectMeta"
  k_set_meta :: "ObjectMeta \<Rightarrow> 'a \<Rightarrow> 'a"
  k_keep_status :: "'a \<Rightarrow> 'a \<Rightarrow> 'a"
  k_get :: "string \<Rightarrow> 's \<Rightarrow> 'a option"
  k_list :: "int \<Rightarrow> string \<Rightarrow> string \<Rightarrow> 's \<Rightarrow> 'a list"
  k_count :: "'s \<Rightarrow> nat"
  k_upsert :: "instant \<Rightarrow> 'a \<Rightarrow> 's \<Rightarrow> (api_error + 'a) \<times> 's"
  k_move :: "instant \<Rightarrow> string \<Rightarrow> 'a \<Rightarrow> 's \<Rightarrow> (move_error + 'a) \<times> 's"
  k_delete :: "string \<Rightarrow> 's \<Rightarrow> api_error option \<times> 's"

text \<open>A kind whose store has only the operations all stores share.\<close>

definition store_ops ::
  "string \<Rightarrow> string \<Rightarrow> string \<Rightarrow> string \<Rightarrow> bool \<Rightarrow> ('a \<Rightarrow> ObjectMeta) \<Rightarrow> (ObjectMeta \<Rightarrow> 'a \<Rightarrow> 'a)
    \<Rightarrow> ('a \<Rightarrow> 'a \<Rightarrow> 'a) \<Rightarrow> ('a \<Rightarrow> 'a \<Rightarrow> bool) \<Rightarrow> ('a \<Rightarrow> api_error + 'a) \<Rightarrow> ('a, (string \<times> 'a) list) kind_ops" where
  "store_ops kind noun title path crd meta set_meta keep_status spec_changed norm_item =
     \<lparr>k_kind = kind, k_noun = noun, k_title = title, k_path = path, k_crd = crd, k_meta = meta, k_set_meta = set_meta,
      k_keep_status = keep_status, k_get = store_get, k_list = store_list_cursor meta, k_count = length,
      k_upsert = store_upsert kind meta set_meta spec_changed norm_item,
      k_move = store_move kind meta set_meta spec_changed norm_item,
      k_delete = store_delete noun\<rparr>"

definition agent_system_ops :: "cond_lib \<Rightarrow> (AgentSystem, AgentSystemStore) kind_ops" where
  "agent_system_ops lib =
     store_ops ''AgentSystem'' ''agentsystem'' ''agentsystem'' ''/v1/agent-systems/'' True sy_Metadata
       (\<lambda>m a. a\<lparr>sy_Metadata := m\<rparr>)
       (\<lambda>a b. b\<lparr>sy_Phase := sy_Phase a, sy_LastError := sy_LastError a, sy_ObservedGeneration := sy_ObservedGeneration a\<rparr>)
       (\<lambda>a b. sy_Spec a \<noteq> sy_Spec b) (AgentSystem_Normalize lib)"

definition agent_policy_ops :: "(AgentPolicy, AgentPolicyStore) kind_ops" where
  "agent_policy_ops =
     store_ops ''AgentPolicy'' ''agentpolicy'' ''policy'' ''/v1/agent-policies/'' True po_Metadata
       (\<lambda>m a. a\<lparr>po_Metadata := m\<rparr>) (\<lambda>a b. b\<lparr>po_Status := po_Status a\<rparr>) (\<lambda>a b. po_Spec a \<noteq> po_Spec b)
       AgentPolicy_Normalize"

definition agent_role_ops :: "(AgentRole, AgentRoleStore) kind_ops" where
  "agent_role_ops =
     store_ops ''AgentRole'' ''agentrole'' ''agent role'' ''/v1/agent-roles/'' False ro_Metadata
       (\<lambda>m a. a\<lparr>ro_Metadata := m\<rparr>) (\<lambda>a b. b\<lparr>ro_Status := ro_Status a\<rparr>)
       (\<lambda>a b. ro_Description a \<noteq> ro_Description b \<or> ro_Permissions a \<noteq> ro_Permissions b) AgentRole_Normalize"

definition tool_permission_ops :: "(ToolPermission, ToolPermissionStore) kind_ops" where
  "tool_permission_ops =
     store_ops ''ToolPermission'' ''toolpermission'' ''tool permission'' ''/v1/tool-permissions/'' False pm_Metadata
       (\<lambda>m a. a\<lparr>pm_Metadata := m\<rparr>) (\<lambda>a b. b\<lparr>pm_Status := pm_Status a\<rparr>) (\<lambda>a b. pm_Spec a \<noteq> pm_Spec b)
       ToolPermission_Normalize"

definition task_schedule_ops ::
  "(string \<Rightarrow> location option) \<Rightarrow> (TaskSchedule, TaskScheduleStore) kind_ops" where
  "task_schedule_ops load =
     store_ops ''TaskSchedule'' ''taskschedule'' ''task schedule'' ''/v1/task-schedules/'' False sd_Metadata
       set_schedule_meta (\<lambda>a b. b\<lparr>sd_Status := sd_Status a\<rparr>) schedule_spec_changed (TaskSchedule_Normalize load)"

definition worker_ops :: "(Worker, WorkerStore) kind_ops" where
  "worker_ops =
     store_ops ''Worker'' ''worker'' ''worker'' ''/v1/workers/'' False w_Metadata
       set_worker_meta (\<lambda>a b. b\<lparr>w_Status := w_Status a\<rparr>) worker_spec_changed Worker_Normalize"

definition task_ops :: "(Task, TaskStore) kind_ops" where
  "task_ops =
     \<lparr>k_kind = ''Task'', k_noun = ''task'', k_title = ''task'', k_path = ''/v1/tasks/'', k_crd = False,
      k_meta = t_Metadata, k_set_meta = set_task_meta, k_keep_status = (\<lambda>a b. b\<lparr>t_Status := t_Status a\<rparr>),
      k_get = TaskStore_Get, k_list = TaskStore_ListCursor, k_count = (\<lambda>s. length (st_items s)),
      k_upsert = TaskStore_Upsert, k_move = TaskStore_UpsertMovingKey, k_delete = TaskStore_Delete\<rparr>"

section \<open>The contract of the stores\<close>

definition names_ok :: "('a \<Rightarrow> ObjectMeta) \<Rightarrow> 'a \<Rightarrow> bool" where
  "names_ok meta x \<longleftrightarrow> ValidateMetadataName (m_Name (meta x)) = None
     \<and> NormalizeNamespace (m_Namespace (meta x)) = m_Namespace (meta x)"

text \<open>A chain of checks that accepted its argument.\<close>

lemma Inr_guards:
  "((if c then Inl e else r) = Inr y) = (\<not> c \<and> r = Inr y)"
  "((case ov of None \<Rightarrow> r | Some e \<Rightarrow> Inl (g e)) = Inr y) = (ov = None \<and> r = Inr y)"
  "((case q of Inl e \<Rightarrow> Inl e | Inr v \<Rightarrow> f v) = Inr y) = (\<exists>v. q = Inr v \<and> f v = Inr y)"
  by (auto split: option.splits sum.splits)

lemma names_ok_normal:
  "ValidateMetadataName (m_Name (NormalizeObjectMetaNamespace m)) = None \<Longrightarrow> meta x = NormalizeObjectMetaNamespace m
   \<Longrightarrow> names_ok meta x"
  by (simp add: names_ok_def NormalizeObjectMetaNamespace_def)

lemma AgentPolicy_names: "AgentPolicy_Normalize p = Inr y \<Longrightarrow> names_ok po_Metadata y"
  unfolding AgentPolicy_Normalize_def Let_def Inr_guards
  by (elim conjE) (rule names_ok_normal, assumption, drule sym, simp)

lemma AgentRole_names: "AgentRole_Normalize r = Inr y \<Longrightarrow> names_ok ro_Metadata y"
  unfolding AgentRole_Normalize_def Let_def Inr_guards
  by (elim conjE) (rule names_ok_normal, assumption, drule sym, simp)

lemma ToolPermission_names: "ToolPermission_Normalize q = Inr y \<Longrightarrow> names_ok pm_Metadata y"
  unfolding ToolPermission_Normalize_def Let_def Inr_guards
  by (elim conjE exE) (rule names_ok_normal, assumption, simp add: sum.inject, erule subst, simp)

lemma AgentSystem_names: "AgentSystem_Normalize lib a = Inr y \<Longrightarrow> names_ok sy_Metadata y"
  unfolding AgentSystem_Normalize_def Let_def Inr_guards
  by (elim conjE exE, rule names_ok_normal, assumption)
    (auto simp: Inr_guards split: prod.split_asm sum.split_asm if_split_asm)

lemmas normalised_names = AgentPolicy_names AgentRole_names ToolPermission_names AgentSystem_names

interpretation policy_res: versioned_resource "''AgentPolicy''" po_Metadata "\<lambda>m a. a\<lparr>po_Metadata := m\<rparr>"
  "\<lambda>a b. po_Spec a \<noteq> po_Spec b" AgentPolicy_Normalize "names_ok po_Metadata"
  by unfold_locales (auto intro: normalised_names, simp_all add: names_ok_def)

interpretation role_res: versioned_resource "''AgentRole''" ro_Metadata "\<lambda>m a. a\<lparr>ro_Metadata := m\<rparr>"
  "\<lambda>a b. ro_Description a \<noteq> ro_Description b \<or> ro_Permissions a \<noteq> ro_Permissions b" AgentRole_Normalize
  "names_ok ro_Metadata"
  by unfold_locales (auto intro: normalised_names, simp_all add: names_ok_def)

interpretation permission_res: versioned_resource "''ToolPermission''" pm_Metadata "\<lambda>m a. a\<lparr>pm_Metadata := m\<rparr>"
  "\<lambda>a b. pm_Spec a \<noteq> pm_Spec b" ToolPermission_Normalize "names_ok pm_Metadata"
  by unfold_locales (auto intro: normalised_names, simp_all add: names_ok_def)

interpretation system_res: versioned_resource "''AgentSystem''" sy_Metadata "\<lambda>m a. a\<lparr>sy_Metadata := m\<rparr>"
  "\<lambda>a b. sy_Spec a \<noteq> sy_Spec b" "AgentSystem_Normalize lib" "names_ok sy_Metadata"
  by unfold_locales (auto intro: normalised_names, simp_all add: names_ok_def)

lemma kind_stores_wf:
  "items_wf po_Metadata (names_ok po_Metadata) ps \<Longrightarrow>
   items_wf po_Metadata (names_ok po_Metadata) (snd (AgentPolicyStore_Upsert now p ps))"
  "items_wf ro_Metadata (names_ok ro_Metadata) rs \<Longrightarrow>
   items_wf ro_Metadata (names_ok ro_Metadata) (snd (AgentRoleStore_Upsert now r rs))"
  "items_wf pm_Metadata (names_ok pm_Metadata) qs \<Longrightarrow>
   items_wf pm_Metadata (names_ok pm_Metadata) (snd (ToolPermissionStore_Upsert now q qs))"
  "items_wf sy_Metadata (names_ok sy_Metadata) as \<Longrightarrow>
   items_wf sy_Metadata (names_ok sy_Metadata) (snd (AgentSystemStore_Upsert lib now a as))"
  unfolding AgentPolicyStore_Upsert_def AgentRoleStore_Upsert_def ToolPermissionStore_Upsert_def
    AgentSystemStore_Upsert_def
  by (rule policy_res.upsert_wf role_res.upsert_wf permission_res.upsert_wf system_res.upsert_wf; assumption)+

lemma update_accepted:
  "initializeUpdateMetadata now r m cur ch = Inr m' \<Longrightarrow>
   trim_space (m_ResourceVersion m) = [] \<or> trim_space (m_ResourceVersion m) = m_ResourceVersion cur"
  by (simp add: initializeUpdateMetadata_def Let_def split: if_split_asm)

lemma store_move_result:
  assumes "store_move resource meta set_meta spec_changed norm_item now oldStoreKey item items = (Inr x, items')"
    and neq: "normalizeLookupName oldStoreKey \<noteq> scopedNameFromMeta (meta item)"
  shows "\<exists>ex m. map_of items (normalizeLookupName oldStoreKey) = Some ex
    \<and> (trim_space (m_ResourceVersion (meta item)) = []
       \<or> trim_space (m_ResourceVersion (meta item)) = m_ResourceVersion (meta ex))
    \<and> map_of items (scopedNameFromMeta (meta item)) = None \<and> x = set_meta m item
    \<and> map_of items' = (map_of items)(normalizeLookupName oldStoreKey := None, scopedNameFromMeta (meta item) \<mapsto> x)"
proof -
  let ?old = "normalizeLookupName oldStoreKey"
  from assms(1) neq obtain it ex where "norm_item item = Inr it" "map_of items ?old = Some ex"
    "map_of items (scopedNameFromMeta (meta item)) = None"
    by (cases "norm_item item"; cases "map_of items ?old"; cases "map_of items (scopedNameFromMeta (meta item))")
      (simp_all add: store_move_def)
  moreover from this assms(1) neq obtain m where
    m: "initializeUpdateMetadata now resource (meta item) (meta ex) (spec_changed ex item) = Inr m"
      "x = set_meta m item" "items' = AList.update (scopedNameFromMeta (meta item)) x (AList.delete ?old items)"
    by (cases "initializeUpdateMetadata now resource (meta item) (meta ex) (spec_changed ex item)")
      (auto simp: store_move_def)
  ultimately show ?thesis
    using update_accepted [OF m(1)] by (auto simp: update_conv' delete_conv')
qed

end
