(* ===== verification/Api_Resources.thy ===== *)
theory Api_Resources
  imports Resource_Kinds
begin

text \<open>
  The handlers of the HTTP API for the kinds of resources modelled here (api/server.go,
  status_updates.go, crd_conflict.go): listing, POST, GET, PUT, DELETE and the status subresource.

  The handlers of the kinds differ in names and in a few steps, so the steps they share are given
  once over \<^const>\<open>store_ops\<close> and \<open>kind_ops\<close>, and each handler is an instance. A handler reads the store
  and then writes it, and other requests and the controllers run in between: \<open>env\<close> is what they do to
  the store. The parsed body, or the text of the parser's error, is an argument. Events, logging and
  the warning header of the CRD policy are left out; so are authentication, the watch streams, the
  agent card and the observability endpoints.
\<close>

section \<open>Paths\<close>

definition has_suffix :: "string \<Rightarrow> string \<Rightarrow> bool" where
  "has_suffix s suf \<longleftrightarrow> has_prefix (rev s) (rev suf)"

definition trim_prefix :: "string \<Rightarrow> string \<Rightarrow> string" where
  "trim_prefix s pre = (if has_prefix s pre then drop (length pre) s else s)"

definition trim_suffix :: "string \<Rightarrow> string \<Rightarrow> string" where
  "trim_suffix s suf = (if has_suffix s suf then take (length s - length suf) s else s)"

definition path_name :: "string \<Rightarrow> http_request \<Rightarrow> string" where
  "path_name pre rq = trim_cutset ''/'' (trim_prefix (hr_Path rq) pre)"

definition subresource :: "string \<Rightarrow> string \<Rightarrow> string" where
  "subresource path suf = trim_cutset ''/'' (trim_suffix path suf)"

section \<open>Resources managed by an operator\<close>

definition normalizeCRDConflictPolicy :: "string \<Rightarrow> string" where
  "normalizeCRDConflictPolicy policy =
     (let p = to_lower (trim_space policy)
      in if p = ''reject'' then ''reject'' else if p = ''off'' then ''off'' else ''warn'')"

definition IsCRDManaged :: "ObjectMeta \<Rightarrow> bool" where
  "IsCRDManaged meta \<longleftrightarrow> smap_get (m_Annotations meta) ''orloj.dev/managed-by'' = ''crd-sync''"

text \<open>Whether the request is refused; the policy warn only sets a header.\<close>

definition checkCRDConflict :: "string \<Rightarrow> ObjectMeta \<Rightarrow> bool" where
  "checkCRDConflict policy meta \<longleftrightarrow> policy = ''reject'' \<and> IsCRDManaged meta"

definition crd_refusal :: "string \<Rightarrow> ObjectMeta \<Rightarrow> 'a http_response" where
  "crd_refusal kind meta = HttpError 409 (ErrorText (kind @ '' \"'' @ m_Name meta
     @ ''\" is managed by a CRD: update it via kubectl apply or your Git repo, not the REST API''))"

section \<open>The steps the handlers share\<close>

definition not_found :: "('a, 's) kind_ops \<Rightarrow> string \<Rightarrow> 'a http_response" where
  "not_found ops name = HttpError 404 (ErrorText (k_noun ops @ '' \"'' @ name @ ''\" not found''))"

definition name_required :: "('a, 's) kind_ops \<Rightarrow> 'a http_response" where
  "name_required ops = HttpError 400 (ErrorText (k_title ops @ '' name is required''))"

text \<open>
  The listing. The loop over the batches ends within the fuel given here; without it the request
  would run into the server's time limit, which is a 503.
\<close>

definition list_resources :: "('a, 's) kind_ops \<Rightarrow> http_request \<Rightarrow> 's \<Rightarrow> 'a http_response" where
  "list_resources ops rq s =
     (case fetchListPage (Suc (k_count ops s)) rq (\<lambda>limit after ns. k_list ops limit after ns s) (k_meta ops) of
        Inl e \<Rightarrow> HttpError 400 (ErrorText e)
      | Inr None \<Rightarrow> HttpError 503 (ErrorText ''request timed out'')
      | Inr (Some (items, cont)) \<Rightarrow> HttpPage items cont)"

definition get_resource :: "('a, 's) kind_ops \<Rightarrow> http_request \<Rightarrow> string \<Rightarrow> 's \<Rightarrow> 'a http_response" where
  "get_resource ops rq name s =
     (case k_get ops (scopedNameForRequest rq name) s of
        None \<Rightarrow> not_found ops name
      | Some obj \<Rightarrow> HttpObject 200 obj)"

definition post_resource ::
  "('a, 's) kind_ops \<Rightarrow> string \<Rightarrow> ('s \<Rightarrow> 's) \<Rightarrow> instant \<Rightarrow> http_request \<Rightarrow> string + 'a \<Rightarrow> 's
    \<Rightarrow> 'a http_response \<times> 's" where
  "post_resource ops crdPolicy env now rq body s =
     (case body of
        Inl e \<Rightarrow> (HttpError 400 (ErrorText e), s)
      | Inr obj \<Rightarrow>
          (case applyRequestNamespace rq (k_meta ops obj) of
             Inl e \<Rightarrow> (HttpError 400 (ErrorText e), s)
           | Inr meta \<Rightarrow>
               let obj = k_set_meta ops meta obj;
                   existing = k_get ops (scopedName (m_Namespace meta) (m_Name meta)) s;
                   refused = (case existing of None \<Rightarrow> None
                     | Some e \<Rightarrow> if k_crd ops \<and> checkCRDConflict crdPolicy (k_meta ops e) then Some (k_meta ops e) else None);
                   obj = (case existing of None \<Rightarrow> obj | Some e \<Rightarrow> k_keep_status ops e obj)
               in case refused of
                    Some m \<Rightarrow> (crd_refusal (k_kind ops) m, s)
                  | None \<Rightarrow>
                      (case k_upsert ops now obj (env s) of
                         (Inl e, s) \<Rightarrow> (store_error_response e, s)
                       | (Inr obj, s) \<Rightarrow> (HttpObject 201 obj, s))))"

definition delete_resource ::
  "('a, 's) kind_ops \<Rightarrow> string \<Rightarrow> ('s \<Rightarrow> 's) \<Rightarrow> http_request \<Rightarrow> string \<Rightarrow> 's \<Rightarrow> 'a http_response \<times> 's" where
  "delete_resource ops crdPolicy env rq name s =
     (let key = scopedNameForRequest rq name;
          remove = (\<lambda>s. case k_delete ops key s of
             (Some e, s) \<Rightarrow> (HttpError 404 (StoreErrorText e), s)
           | (None, s) \<Rightarrow> (HttpNoContent, s))
      in if \<not> k_crd ops then remove s
         else case k_get ops key s of
                None \<Rightarrow> (not_found ops name, s)
              | Some existing \<Rightarrow>
                  if checkCRDConflict crdPolicy (k_meta ops existing)
                    then (crd_refusal (k_kind ops) (k_meta ops existing), s)
                  else remove (env s))"

text \<open>The write of a PUT: a rename when the name in the body differs from the path's.\<close>

definition put_write ::
  "('a, 's) kind_ops \<Rightarrow> instant \<Rightarrow> http_request \<Rightarrow> string \<Rightarrow> 'a \<Rightarrow> 's \<Rightarrow> 'a http_response \<times> 's" where
  "put_write ops now rq key obj s =
     (if scopedName (requestNamespace rq) (trim_space (m_Name (k_meta ops obj))) \<noteq> key then
        (case k_move ops now key obj s of
           (Inl (AlreadyExists k n), s) \<Rightarrow>
             (HttpError 409 (ErrorText (''cannot rename '' @ k @ '' to \"'' @ n @ ''\": resource already exists'')), s)
         | (Inl (MoveError e), s) \<Rightarrow> (store_error_response e, s)
         | (Inr obj, s) \<Rightarrow> (HttpObject 200 obj, s))
      else
        (case k_upsert ops now obj s of
           (Inl e, s) \<Rightarrow> (store_error_response e, s)
         | (Inr obj, s) \<Rightarrow> (HttpObject 200 obj, s)))"

text \<open>\<open>adjust\<close> is what a kind takes over from the current resource besides the status.\<close>

definition put_resource ::
  "('a, 's) kind_ops \<Rightarrow> ('a \<Rightarrow> 'a \<Rightarrow> 'a) \<Rightarrow> string \<Rightarrow> ('s \<Rightarrow> 's) \<Rightarrow> instant \<Rightarrow> http_request \<Rightarrow> string \<Rightarrow> string + 'a \<Rightarrow> 's
    \<Rightarrow> 'a http_response \<times> 's" where
  "put_resource ops adjust crdPolicy env now rq name body s =
     (let key = scopedNameForRequest rq name
      in case body of
        Inl e \<Rightarrow> (HttpError 400 (ErrorText e), s)
      | Inr obj \<Rightarrow>
          (case k_get ops key s of
             None \<Rightarrow> (not_found ops name, s)
           | Some current \<Rightarrow>
               (case applyRequestNamespace rq (k_meta ops obj) of
                  Inl e \<Rightarrow> (HttpError 400 (ErrorText e), s)
                | Inr meta \<Rightarrow>
                    (case requireUpdatePrecondition (hr_IfMatch rq) meta (k_meta ops current) of
                       Inl e \<Rightarrow> (HttpError 409 (ErrorText e), s)
                     | Inr meta \<Rightarrow>
                         if k_crd ops \<and> checkCRDConflict crdPolicy (k_meta ops current)
                           then (crd_refusal (k_kind ops) (k_meta ops current), s)
                         else put_write ops now rq key
                                (adjust current (k_keep_status ops current (k_set_meta ops meta obj))) (env s)))))"

text \<open>
  The status subresource. A patch has metadata and a status; \<open>set_status\<close> puts the status in, with
  the resource's generation as the observed one when the patch has none.
\<close>

definition status_resource ::
  "('a, 's) kind_ops \<Rightarrow> ('st \<Rightarrow> 'a \<Rightarrow> 'a) \<Rightarrow> ('s \<Rightarrow> 's) \<Rightarrow> instant \<Rightarrow> http_request \<Rightarrow> string \<Rightarrow> string + ObjectMeta \<times> 'st
    \<Rightarrow> 's \<Rightarrow> 'a http_response \<times> 's" where
  "status_resource ops set_status env now rq name patch s =
     (case k_get ops (scopedNameForRequest rq name) s of
        None \<Rightarrow> (not_found ops name, s)
      | Some obj \<Rightarrow>
          if hr_Method rq = ''GET'' then (HttpStatus (k_meta ops obj) obj, s)
          else if hr_Method rq = ''PUT'' then
            (case patch of
               Inl e \<Rightarrow> (HttpError 400 (ErrorText e), s)
             | Inr (meta, status) \<Rightarrow>
                 (case requireUpdatePrecondition (hr_IfMatch rq) meta (k_meta ops obj) of
                    Inl e \<Rightarrow> (HttpError 409 (ErrorText e), s)
                  | Inr meta \<Rightarrow>
                      let obj = set_status status obj;
                          obj = k_set_meta ops ((k_meta ops obj)\<lparr>m_ResourceVersion := m_ResourceVersion meta\<rparr>) obj
                      in case k_upsert ops now obj (env s) of
                           (Inl e, s) \<Rightarrow> (store_error_response e, s)
                         | (Inr updated, s) \<Rightarrow> (HttpStatus (k_meta ops updated) updated, s)))
          else (MethodNotAllowed, s))"

definition collection_handler ::
  "('a, 's) kind_ops \<Rightarrow> string \<Rightarrow> ('s \<Rightarrow> 's) \<Rightarrow> instant \<Rightarrow> http_request \<Rightarrow> string + 'a \<Rightarrow> 's \<Rightarrow> 'a http_response \<times> 's" where
  "collection_handler ops crdPolicy env now rq body s =
     (if hr_Method rq = ''GET'' then (list_resources ops rq s, s)
      else if hr_Method rq = ''POST'' then post_resource ops crdPolicy env now rq body s
      else (MethodNotAllowed, s))"

text \<open>GET, DELETE and PUT of a named resource.\<close>

definition named_handler ::
  "('a, 's) kind_ops \<Rightarrow> ('a \<Rightarrow> 'a \<Rightarrow> 'a) \<Rightarrow> string \<Rightarrow> ('s \<Rightarrow> 's) \<Rightarrow> instant \<Rightarrow> http_request \<Rightarrow> string \<Rightarrow> string + 'a \<Rightarrow> 's
    \<Rightarrow> 'a http_response \<times> 's" where
  "named_handler ops adjust crdPolicy env now rq name body s =
     (if hr_Method rq = ''GET'' then (get_resource ops rq name s, s)
      else if hr_Method rq = ''DELETE'' then delete_resource ops crdPolicy env rq name s
      else if hr_Method rq = ''PUT'' then put_resource ops adjust crdPolicy env now rq name body s
      else (MethodNotAllowed, s))"

text \<open>A kind with a status subresource; \<open>extra\<close> is what answers requests for endpoints of the kind alone.\<close>

definition status_kind_handler ::
  "('a, 's) kind_ops \<Rightarrow> (http_request \<Rightarrow> 'a http_response option) \<Rightarrow> ('st \<Rightarrow> 'a \<Rightarrow> 'a) \<Rightarrow> string \<Rightarrow> ('s \<Rightarrow> 's) \<Rightarrow> instant \<Rightarrow> http_request \<Rightarrow> string + 'a
    \<Rightarrow> string + ObjectMeta \<times> 'st \<Rightarrow> 's \<Rightarrow> 'a http_response \<times> 's" where
  "status_kind_handler ops extra set_status crdPolicy env now rq body patch s =
     (let name = path_name (k_path ops) rq
      in if name = [] then (name_required ops, s)
         else case extra rq of Some r \<Rightarrow> (r, s) | None \<Rightarrow>
         if has_suffix name ''/status'' then
           (let base = subresource name ''/status''
            in if base = [] then (name_required ops, s)
               else status_resource ops set_status env now rq base patch s)
         else named_handler ops (\<lambda>_ obj. obj) crdPolicy env now rq name body s)"

definition observed_or_given :: "int \<Rightarrow> int \<Rightarrow> int" where
  "observed_or_given given generation = (if given = 0 then generation else given)"

section \<open>Agent systems, policies, roles, permissions, schedules, workers\<close>

definition handleAgentSystems where
  "handleAgentSystems lib = collection_handler (agent_system_ops lib)"

definition handleAgentSystemStatusByName where
  "handleAgentSystemStatusByName lib = status_resource (agent_system_ops lib)
     (\<lambda>(phase, lastError, generation) a. a\<lparr>sy_Phase := phase, sy_LastError := lastError,
        sy_ObservedGeneration := observed_or_given generation (m_Generation (sy_Metadata a))\<rparr>)"

text \<open>The agent card and the agent-to-agent protocol.\<close>

definition agent_system_extra :: "http_request \<Rightarrow> AgentSystem http_response option" where
  "agent_system_extra rq =
     (if str_contains (hr_Path rq) ''/.well-known/agent-card.json'' \<or> has_suffix (hr_Path rq) ''/.well-known/agent.json''
         \<or> has_suffix (hr_Path rq) ''/a2a'' then Some HttpElsewhere else None)"

definition handleAgentSystemByName where
  "handleAgentSystemByName lib = status_kind_handler (agent_system_ops lib) agent_system_extra
     (\<lambda>(phase, lastError, generation) a. a\<lparr>sy_Phase := phase, sy_LastError := lastError,
        sy_ObservedGeneration := observed_or_given generation (m_Generation (sy_Metadata a))\<rparr>)"

definition handlePolicies where
  "handlePolicies = collection_handler agent_policy_ops"

definition handlePolicyStatusByName where
  "handlePolicyStatusByName = status_resource agent_policy_ops
     (\<lambda>st a. a\<lparr>po_Status := st\<lparr>gs_ObservedGeneration := observed_or_given (gs_ObservedGeneration st) (m_Generation (po_Metadata a))\<rparr>\<rparr>)"

definition handlePolicyByName where
  "handlePolicyByName = status_kind_handler agent_policy_ops (\<lambda>_. None)
     (\<lambda>st a. a\<lparr>po_Status := st\<lparr>gs_ObservedGeneration := observed_or_given (gs_ObservedGeneration st) (m_Generation (po_Metadata a))\<rparr>\<rparr>)"

definition handleAgentRoles where
  "handleAgentRoles = collection_handler agent_role_ops"

text \<open>Roles and permissions have no status subresource.\<close>

definition plain_kind_handler ::
  "('a, 's) kind_ops \<Rightarrow> ('s \<Rightarrow> 's) \<Rightarrow> instant \<Rightarrow> http_request \<Rightarrow> string + 'a \<Rightarrow> 's \<Rightarrow> 'a http_response \<times> 's" where
  "plain_kind_handler ops env now rq body s =
     (let name = path_name (k_path ops) rq
      in if name = [] then (name_required ops, s)
         else named_handler ops (\<lambda>_ obj. obj) ''off'' env now rq name body s)"

definition handleAgentRoleByName where
  "handleAgentRoleByName = plain_kind_handler agent_role_ops"

definition handleToolPermissions where
  "handleToolPermissions = collection_handler tool_permission_ops"

definition handleToolPermissionByName where
  "handleToolPermissionByName = plain_kind_handler tool_permission_ops"

definition handleTaskSchedules where
  "handleTaskSchedules load = collection_handler (task_schedule_ops load)"

definition handleTaskScheduleStatusByName where
  "handleTaskScheduleStatusByName load = status_resource (task_schedule_ops load)
     (\<lambda>st t. t\<lparr>sd_Status := st\<lparr>ss_ObservedGeneration := observed_or_given (ss_ObservedGeneration st) (m_Generation (sd_Metadata t))\<rparr>\<rparr>)"

text \<open>The stream of changes.\<close>

definition watch_extra :: "string \<Rightarrow> http_request \<Rightarrow> 'a http_response option" where
  "watch_extra pre rq =
     (if path_name pre rq = ''watch'' then Some (if hr_Method rq = ''GET'' then HttpElsewhere else MethodNotAllowed)
      else None)"

definition handleTaskScheduleByName where
  "handleTaskScheduleByName load = status_kind_handler (task_schedule_ops load) (watch_extra ''/v1/task-schedules/'')
     (\<lambda>st t. t\<lparr>sd_Status := st\<lparr>ss_ObservedGeneration := observed_or_given (ss_ObservedGeneration st) (m_Generation (sd_Metadata t))\<rparr>\<rparr>)"

definition handleWorkers where
  "handleWorkers = collection_handler worker_ops"

definition handleWorkerStatusByName where
  "handleWorkerStatusByName = status_resource worker_ops
     (\<lambda>st w. w\<lparr>w_Status := st\<lparr>wt_ObservedGeneration := observed_or_given (wt_ObservedGeneration st) (m_Generation (w_Metadata w))\<rparr>\<rparr>)"

definition handleWorkerByName where
  "handleWorkerByName = status_kind_handler worker_ops (\<lambda>_. None)
     (\<lambda>st w. w\<lparr>w_Status := st\<lparr>wt_ObservedGeneration := observed_or_given (wt_ObservedGeneration st) (m_Generation (w_Metadata w))\<rparr>\<rparr>)"

section \<open>Tasks\<close>

text \<open>base[:40] without trailing hyphens, and the time in milliseconds.\<close>

definition rerunTaskName :: "instant \<Rightarrow> string \<Rightarrow> string" where
  "rerunTaskName now name =
     (let base = (if 40 < length name then rev (dropWhile (\<lambda>c. c = CHR ''-'') (rev (take 40 name))) else name)
      in base @ ''-run-'' @ itoa (now div 1000000))"

text \<open>
  The task a POST writes, or the text of the refusal: a new task as it came, an applied task with the
  status it has, or a rerun under a new name. \<open>inject\<close> is what telemetry adds to the annotations.
\<close>

definition applied_task ::
  "(smap \<Rightarrow> smap) \<Rightarrow> instant \<Rightarrow> bool \<Rightarrow> Task \<Rightarrow> Task option \<Rightarrow> string + Task" where
  "applied_task inject now rerun obj existing =
     (let stamp = (\<lambda>t. t\<lparr>t_Metadata := (t_Metadata t)\<lparr>m_Annotations := inject (m_Annotations (t_Metadata t))\<rparr>\<rparr>);
          meta = t_Metadata obj
      in case existing of
           None \<Rightarrow> Inr (stamp obj)
         | Some e \<Rightarrow>
             if \<not> rerun then Inr (stamp (obj\<lparr>t_Status := t_Status e\<rparr>))
             else let phase = to_lower (trim_space (ts_Phase (t_Status e)))
                  in if List.member [''deadletter'', ''failed'', ''succeeded''] phase then
                       Inr (stamp (obj\<lparr>t_Metadata := meta\<lparr>m_Name := rerunTaskName now (m_Name meta),
                         m_Labels := fmupd ''orloj.dev/source-task-namespace'' (NormalizeNamespace (m_Namespace (t_Metadata e)))
                           (fmupd ''orloj.dev/source-task'' (m_Name (t_Metadata e)) (m_Labels meta))\<rparr>\<rparr>))
                     else if List.member [''pending'', ''running'', [], ''waitingapproval''] phase then
                       Inl (''task/'' @ m_Name (t_Metadata e) @ '' is still active (phase='' @ ts_Phase (t_Status e)
                         @ ''); cannot rerun'')
                     else Inr (stamp obj))"

definition post_task ::
  "(smap \<Rightarrow> smap) \<Rightarrow> (TaskStore \<Rightarrow> TaskStore) \<Rightarrow> instant \<Rightarrow> http_request \<Rightarrow> string + Task \<Rightarrow> TaskStore
    \<Rightarrow> Task http_response \<times> TaskStore" where
  "post_task inject env now rq body s =
     (case body of
        Inl e \<Rightarrow> (HttpError 400 (ErrorText e), s)
      | Inr obj \<Rightarrow>
          (case applyRequestNamespace rq (t_Metadata obj) of
             Inl e \<Rightarrow> (HttpError 400 (ErrorText e), s)
           | Inr meta \<Rightarrow>
               (case applied_task inject now (query_get rq ''rerun'' = ''true'') (obj\<lparr>t_Metadata := meta\<rparr>)
                       (TaskStore_Get (scopedName (m_Namespace meta) (m_Name meta)) s) of
                  Inl e \<Rightarrow> (HttpError 409 (ErrorText e), s)
                | Inr obj \<Rightarrow>
                    (case TaskStore_Upsert now obj (env s) of
                       (Inl e, s) \<Rightarrow> (store_error_response e, s)
                     | (Inr obj, s) \<Rightarrow> (HttpObject 201 obj, s)))))"

definition list_tasks :: "http_request \<Rightarrow> TaskStore \<Rightarrow> Task http_response" where
  "list_tasks rq s =
     (let (limit, offset) = paginationParams rq; after = normalizeListCursor (cursorParam rq) (requestNamespace rq)
      in if after \<noteq> [] \<or> offset = 0 then list_resources task_ops rq s
         else let (ns, hasNS) = namespaceFilter rq;
                  items = TaskStore_ListPaged limit offset (if hasNS then ns else []) s
              in case labelSelectorFilter rq of
                   Inl e \<Rightarrow> HttpError 400 (ErrorText e)
                 | Inr selector \<Rightarrow>
                     HttpPage (if selector = [] then items
                       else filter (\<lambda>t. matchMetadataFilters (t_Metadata t) [] False selector) items) [])"

definition handleTasks ::
  "(smap \<Rightarrow> smap) \<Rightarrow> (TaskStore \<Rightarrow> TaskStore) \<Rightarrow> instant \<Rightarrow> http_request \<Rightarrow> string + Task \<Rightarrow> TaskStore
    \<Rightarrow> Task http_response \<times> TaskStore" where
  "handleTasks inject env now rq body s =
     (if hr_Method rq = ''GET'' then (list_tasks rq s, s)
      else if hr_Method rq = ''POST'' then post_task inject env now rq body s
      else (MethodNotAllowed, s))"

text \<open>The trace context set at creation stays.\<close>

definition keep_trace_context :: "Task \<Rightarrow> Task \<Rightarrow> Task" where
  "keep_trace_context current obj =
     (case fmlookup (m_Annotations (t_Metadata current)) ''orloj.io/traceparent'' of
        None \<Rightarrow> obj
      | Some tp \<Rightarrow>
          let a = fmupd ''orloj.io/traceparent'' tp (m_Annotations (t_Metadata obj));
              a = (case fmlookup (m_Annotations (t_Metadata current)) ''orloj.io/tracestate'' of
                     None \<Rightarrow> a | Some ts \<Rightarrow> fmupd ''orloj.io/tracestate'' ts a)
          in obj\<lparr>t_Metadata := (t_Metadata obj)\<lparr>m_Annotations := a\<rparr>\<rparr>)"

definition handleTaskStatusByName where
  "handleTaskStatusByName = status_resource task_ops
     (\<lambda>st t. t\<lparr>t_Status := st\<lparr>ts_ObservedGeneration := observed_or_given (ts_ObservedGeneration st) (m_Generation (t_Metadata t))\<rparr>\<rparr>)"

definition getTaskLogs :: "string \<Rightarrow> TaskStore \<Rightarrow> 'a http_response" where
  "getTaskLogs key s =
     (case TaskStore_GetLogs key s of
        Inl e \<Rightarrow> HttpError 404 (StoreErrorText e)
      | Inr logs \<Rightarrow> HttpLogs logs)"

text \<open>The pages of a task that can only be read: its logs, and those of the observability endpoints.\<close>

definition task_page :: "http_request \<Rightarrow> string \<Rightarrow> string \<Rightarrow> Task http_response \<Rightarrow> Task http_response" where
  "task_page rq path suf page =
     (if subresource path suf = [] then name_required task_ops
      else if hr_Method rq \<noteq> ''GET'' then MethodNotAllowed else page)"

definition handleTaskByName ::
  "(TaskStore \<Rightarrow> TaskStore) \<Rightarrow> instant \<Rightarrow> http_request \<Rightarrow> string + Task \<Rightarrow> string + ObjectMeta \<times> TaskStatus \<Rightarrow> TaskStore
    \<Rightarrow> Task http_response \<times> TaskStore" where
  "handleTaskByName env now rq body patch s =
     (let path = path_name ''/v1/tasks/'' rq
      in if path = [] then (name_required task_ops, s)
         else if path = ''watch'' then ((if hr_Method rq = ''GET'' then HttpElsewhere else MethodNotAllowed), s)
         else if has_suffix path ''/logs''
           then (task_page rq path ''/logs'' (getTaskLogs (scopedNameForRequest rq (subresource path ''/logs'')) s), s)
         else if has_suffix path ''/messages'' then (task_page rq path ''/messages'' HttpElsewhere, s)
         else if has_suffix path ''/metrics'' then (task_page rq path ''/metrics'' HttpElsewhere, s)
         else if has_suffix path ''/status'' then
           (let name = subresource path ''/status''
            in if name = [] then (name_required task_ops, s) else handleTaskStatusByName env now rq name patch s)
         else named_handler task_ops keep_trace_context ''off'' env now rq path body s)"

end
