(* ===== verification/Api_Approvals.thy ===== *)
theory Api_Approvals
  imports Api_Resources Task_Resume
begin

text \<open>
  The handlers of the HTTP API for approvals (api/server.go): listing, creating, reading and deleting
  them, and the decision of a reviewer, which is a loop of up to five attempts to read the approval,
  check that it is pending, and write it at the version that was read.

  Other requests and the controllers run between the steps of a decision. They are the argument
  \<open>env\<close> of the loop, indexed by the step, and the transitions of approval_step where the runs of
  many requests are treated.

  Shown here: with decisions, expiries and creations in any order an approval is decided at most
  once and the decision is final; a repeated POST of the approval can undo a decision.
\<close>

section \<open>Kinds\<close>

text \<open>The stores of approvals have no renaming, and no handler asks for one.\<close>

definition tool_approval_ops :: "(ToolApproval, ToolApprovalStore) kind_ops" where
  "tool_approval_ops =
     \<lparr>k_kind = ''ToolApproval'', k_noun = ''toolapproval'', k_title = ''tool approval'', k_path = ''/v1/tool-approvals/'',
      k_crd = False, k_meta = ta_Metadata, k_set_meta = set_tool_approval_meta,
      k_keep_status = (\<lambda>a b. b\<lparr>ta_Status := ta_Status a\<rparr>), k_get = ToolApprovalStore_Get,
      k_list = ToolApprovalStore_ListCursor, k_count = length, k_upsert = ToolApprovalStore_Upsert,
      k_move = (\<lambda>now old item s. (Inl (MoveError (NotFound ''ToolApproval'' old)), s)), k_delete = ToolApprovalStore_Delete\<rparr>"

definition task_approval_ops :: "(TaskApproval, TaskApprovalStore) kind_ops" where
  "task_approval_ops =
     \<lparr>k_kind = ''TaskApproval'', k_noun = ''taskapproval'', k_title = ''task approval'', k_path = ''/v1/task-approvals/'',
      k_crd = False, k_meta = tr_Metadata, k_set_meta = set_task_approval_meta,
      k_keep_status = (\<lambda>a b. b\<lparr>tr_Status := tr_Status a\<rparr>), k_get = TaskApprovalStore_Get,
      k_list = TaskApprovalStore_ListCursor, k_count = length, k_upsert = TaskApprovalStore_Upsert,
      k_move = (\<lambda>now old item s. (Inl (MoveError (NotFound ''TaskApproval'' old)), s)), k_delete = TaskApprovalStore_Delete\<rparr>"

section \<open>Decisions\<close>

record approvalDecisionRequest =
  dr_DecidedBy :: string
  dr_Comment :: string
  dr_Reason :: string

text \<open>\<open>body\<close> is what decoding the JSON text leaves in the struct; \<^const>\<open>None\<close> stands for an empty text.\<close>

definition readApprovalDecisionRequest :: "approvalDecisionRequest option \<Rightarrow> approvalDecisionRequest" where
  "readApprovalDecisionRequest body =
     (case body of
        None \<Rightarrow> \<lparr>dr_DecidedBy = [], dr_Comment = [], dr_Reason = []\<rparr>
      | Some b \<Rightarrow> if trim_space (dr_Comment b) = [] then b\<lparr>dr_Comment := trim_space (dr_Reason b)\<rparr> else b)"

definition decided_status :: "string \<Rightarrow> string \<Rightarrow> approvalDecisionRequest \<Rightarrow> instant \<Rightarrow> ApprovalStatus \<Rightarrow> ApprovalStatus" where
  "decided_status phase decision body now st =
     st\<lparr>av_Phase := phase, av_Decision := decision, av_DecidedBy := dr_DecidedBy body,
        av_DecidedAt := format_sec now, av_Comment := dr_Comment body\<rparr>"

text \<open>
  The attempts. \<open>check\<close> is what the handler does with the approval it read: the response that refuses
  the decision, or the approval to write.
\<close>

fun decision_attempts ::
  "('a, 's) kind_ops \<Rightarrow> (nat \<Rightarrow> 's \<Rightarrow> 's) \<Rightarrow> (nat \<Rightarrow> instant) \<Rightarrow> (instant \<Rightarrow> 'a \<Rightarrow> 'a http_response + 'a) \<Rightarrow> string \<Rightarrow> string
    \<Rightarrow> nat \<Rightarrow> 's \<Rightarrow> 'a http_response \<times> 's" where
  "decision_attempts ops env clock check key name 0 s =
     (HttpError 409 (ErrorText (''conflict updating '' @ k_title ops @ '', please retry'')), s)"
| "decision_attempts ops env clock check key name (Suc n) s =
     (case k_get ops key s of
        None \<Rightarrow> (not_found ops name, s)
      | Some obj \<Rightarrow>
          (case check (clock n) obj of
             Inl refusal \<Rightarrow> (refusal, s)
           | Inr obj \<Rightarrow>
               (case k_upsert ops (clock n) obj (env (2 * n + 1) s) of
                  (Inl e, s) \<Rightarrow> if IsConflict e then decision_attempts ops env clock check key name n (env (2 * n) s)
                                else (store_error_response e, s)
                | (Inr updated, s) \<Rightarrow> (HttpObject 200 updated, s))))"

definition already_decided :: "('a, 's) kind_ops \<Rightarrow> string \<Rightarrow> string \<Rightarrow> 'a http_response" where
  "already_decided ops name phase =
     HttpError 409 (ErrorText (k_noun ops @ '' \"'' @ name @ ''\" is already '' @ phase))"

definition tool_decision_check ::
  "string \<Rightarrow> string \<Rightarrow> string \<Rightarrow> approvalDecisionRequest \<Rightarrow> instant \<Rightarrow> ToolApproval \<Rightarrow> ToolApproval http_response + ToolApproval" where
  "tool_decision_check name phase decision body now a =
     (if av_Phase (ta_Status a) \<noteq> ''Pending'' then Inl (already_decided tool_approval_ops name (av_Phase (ta_Status a)))
      else Inr (a\<lparr>ta_Status := decided_status phase decision body now (ta_Status a)\<rparr>))"

definition handleToolApprovalDecision ::
  "(nat \<Rightarrow> ToolApprovalStore \<Rightarrow> ToolApprovalStore) \<Rightarrow> (nat \<Rightarrow> instant) \<Rightarrow> http_request \<Rightarrow> approvalDecisionRequest option
    \<Rightarrow> string \<Rightarrow> string \<Rightarrow> string \<Rightarrow> ToolApprovalStore \<Rightarrow> ToolApproval http_response \<times> ToolApprovalStore" where
  "handleToolApprovalDecision env clock rq body name phase decision s =
     (if hr_Method rq \<noteq> ''POST'' then (MethodNotAllowed, s)
      else decision_attempts tool_approval_ops env clock
             (tool_decision_check name phase decision (readApprovalDecisionRequest body))
             (scopedNameForRequest rq name) name 5 s)"

definition task_decision_check ::
  "string \<Rightarrow> string \<Rightarrow> string \<Rightarrow> approvalDecisionRequest \<Rightarrow> instant \<Rightarrow> TaskApproval \<Rightarrow> TaskApproval http_response + TaskApproval" where
  "task_decision_check name phase decision body now a =
     (if av_Phase (tr_Status a) \<noteq> ''Pending'' then Inl (already_decided task_approval_ops name (av_Phase (tr_Status a)))
      else if decision = ''request_changes'' \<and> \<not> TaskApprovalAllowsRequestChanges a
        then Inl (HttpError 409 (ErrorText (''taskapproval \"'' @ name @ ''\" does not allow request_changes'')))
      else if decision = ''request_changes'' \<and> TaskApprovalMaxReviewCycles a \<le> tv_ReviewCycle (tr_Spec a)
        then Inl (HttpError 409 (ErrorText (''taskapproval \"'' @ name @ ''\" has reached max_review_cycles'')))
      else Inr (a\<lparr>tr_Status := decided_status phase decision body now (tr_Status a)\<rparr>))"

definition handleTaskApprovalDecision ::
  "(nat \<Rightarrow> TaskApprovalStore \<Rightarrow> TaskApprovalStore) \<Rightarrow> (nat \<Rightarrow> instant) \<Rightarrow> http_request \<Rightarrow> approvalDecisionRequest option
    \<Rightarrow> string \<Rightarrow> string \<Rightarrow> string \<Rightarrow> TaskApprovalStore \<Rightarrow> TaskApproval http_response \<times> TaskApprovalStore" where
  "handleTaskApprovalDecision env clock rq body name phase decision s =
     (let body = readApprovalDecisionRequest body
      in if hr_Method rq \<noteq> ''POST'' then (MethodNotAllowed, s)
         else if decision = ''request_changes'' \<and> trim_space (dr_Comment body) = []
           then (HttpError 400 (ErrorText ''comment is required for request_changes''), s)
         else decision_attempts task_approval_ops env clock (task_decision_check name phase decision body)
                (scopedNameForRequest rq name) name 5 s)"

section \<open>The handlers\<close>

definition handleToolApprovals ::
  "(ToolApprovalStore \<Rightarrow> ToolApprovalStore) \<Rightarrow> instant \<Rightarrow> http_request \<Rightarrow> string + ToolApproval \<Rightarrow> ToolApprovalStore
    \<Rightarrow> ToolApproval http_response \<times> ToolApprovalStore" where
  "handleToolApprovals = collection_handler tool_approval_ops ''off''"

definition handleTaskApprovals ::
  "(TaskApprovalStore \<Rightarrow> TaskApprovalStore) \<Rightarrow> instant \<Rightarrow> http_request \<Rightarrow> string + TaskApproval \<Rightarrow> TaskApprovalStore
    \<Rightarrow> TaskApproval http_response \<times> TaskApprovalStore" where
  "handleTaskApprovals = collection_handler task_approval_ops ''off''"

text \<open>GET and DELETE of an approval; there is no PUT.\<close>

definition approval_resource ::
  "('a, 's) kind_ops \<Rightarrow> ('s \<Rightarrow> 's) \<Rightarrow> http_request \<Rightarrow> string \<Rightarrow> 's \<Rightarrow> 'a http_response \<times> 's" where
  "approval_resource ops env rq name s =
     (if hr_Method rq = ''GET'' then (get_resource ops rq name s, s)
      else if hr_Method rq = ''DELETE'' then delete_resource ops ''off'' env rq name s
      else (MethodNotAllowed, s))"

definition handleToolApprovalByName ::
  "(nat \<Rightarrow> ToolApprovalStore \<Rightarrow> ToolApprovalStore) \<Rightarrow> (nat \<Rightarrow> instant) \<Rightarrow> http_request \<Rightarrow> approvalDecisionRequest option
    \<Rightarrow> ToolApprovalStore \<Rightarrow> ToolApproval http_response \<times> ToolApprovalStore" where
  "handleToolApprovalByName env clock rq body s =
     (let path = path_name ''/v1/tool-approvals/'' rq
      in if path = [] then (name_required tool_approval_ops, s)
         else if has_suffix path ''/approve''
           then handleToolApprovalDecision env clock rq body (trim_suffix path ''/approve'') ''Approved'' ''approved'' s
         else if has_suffix path ''/deny''
           then handleToolApprovalDecision env clock rq body (trim_suffix path ''/deny'') ''Denied'' ''denied'' s
         else approval_resource tool_approval_ops (env 0) rq path s)"

definition handleTaskApprovalByName ::
  "(nat \<Rightarrow> TaskApprovalStore \<Rightarrow> TaskApprovalStore) \<Rightarrow> (nat \<Rightarrow> instant) \<Rightarrow> http_request \<Rightarrow> approvalDecisionRequest option
    \<Rightarrow> TaskApprovalStore \<Rightarrow> TaskApproval http_response \<times> TaskApprovalStore" where
  "handleTaskApprovalByName env clock rq body s =
     (let path = path_name ''/v1/task-approvals/'' rq
      in if path = [] then (name_required task_approval_ops, s)
         else if has_suffix path ''/approve''
           then handleTaskApprovalDecision env clock rq body (trim_suffix path ''/approve'') ''Approved'' ''approved'' s
         else if has_suffix path ''/deny''
           then handleTaskApprovalDecision env clock rq body (trim_suffix path ''/deny'') ''Denied'' ''denied'' s
         else if has_suffix path ''/request-changes''
           then handleTaskApprovalDecision env clock rq body (trim_suffix path ''/request-changes'')
                  ''ChangesRequested'' ''request_changes'' s
         else approval_resource task_approval_ops (env 0) rq path s)"

section \<open>Runs of decisions\<close>

text \<open>
  The updates of pending approvals: a decision of a reviewer, and the expiry by the task controller
  (reconcileWaitingToolApproval, reconcileWaitingTaskApproval).
\<close>

definition tool_updates :: "ToolApproval \<Rightarrow> ToolApproval \<Rightarrow> bool" where
  "tool_updates a b \<longleftrightarrow>
     (\<exists>name body now. tool_decision_check name ''Approved'' ''approved'' body now a = Inr b
        \<or> tool_decision_check name ''Denied'' ''denied'' body now a = Inr b)
     \<or> (\<exists>now. expired_now now (ta_Status a) \<and> b = a\<lparr>ta_Status := (ta_Status a)\<lparr>av_Phase := ''Expired''\<rparr>\<rparr>)"

definition task_updates :: "TaskApproval \<Rightarrow> TaskApproval \<Rightarrow> bool" where
  "task_updates a b \<longleftrightarrow>
     (\<exists>name body now. task_decision_check name ''Approved'' ''approved'' body now a = Inr b
        \<or> task_decision_check name ''Denied'' ''denied'' body now a = Inr b
        \<or> task_decision_check name ''ChangesRequested'' ''request_changes'' body now a = Inr b)
     \<or> (\<exists>now. expired_now now (tr_Status a) \<and> b = a\<lparr>tr_Status := (tr_Status a)\<lparr>av_Phase := ''Expired''\<rparr>\<rparr>)"

text \<open>The store, the updates between their read and their write, and the accepted ones with their phase.\<close>

record 'a approval_run =
  ar_store :: "(string \<times> 'a) list"
  ar_open :: "(string \<times> 'a) list"
  ar_done :: "(string \<times> string) list"

inductive approval_step ::
  "('a, (string \<times> 'a) list) kind_ops \<Rightarrow> ('a \<Rightarrow> ApprovalStatus) \<Rightarrow> ('a \<Rightarrow> 'a \<Rightarrow> bool) \<Rightarrow> 'a approval_run \<Rightarrow> 'a approval_run \<Rightarrow> bool"
  for ops status updates where
  read_pending: "k_get ops key (ar_store r) = Some a \<Longrightarrow> av_Phase (status a) = ''Pending'' \<Longrightarrow> updates a b \<Longrightarrow>
    approval_step ops status updates r (r\<lparr>ar_open := (normalizeLookupName key, b) # ar_open r\<rparr>)"
| write_accepted: "(key, b) \<in> set (ar_open r) \<Longrightarrow> k_upsert ops now b (ar_store r) = (Inr u, s) \<Longrightarrow>
    approval_step ops status updates r
      (r\<lparr>ar_store := s, ar_open := remove1 (key, b) (ar_open r), ar_done := (key, av_Phase (status u)) # ar_done r\<rparr>)"
| write_refused: "(key, b) \<in> set (ar_open r) \<Longrightarrow> k_upsert ops now b (ar_store r) = (Inl e, s) \<Longrightarrow>
    approval_step ops status updates r (r\<lparr>ar_store := s, ar_open := remove1 (key, b) (ar_open r)\<rparr>)"
| create_new: "map_of (ar_store r) (scopedNameFromMeta (k_meta ops a)) = None \<Longrightarrow> k_upsert ops now a (ar_store r) = (Inr u, s) \<Longrightarrow>
    approval_step ops status updates r (r\<lparr>ar_store := s\<rparr>)"

section \<open>A decision is made once\<close>

definition decided :: "ApprovalStatus \<Rightarrow> bool" where
  "decided st \<longleftrightarrow> List.member [''Approved'', ''Denied'', ''ChangesRequested'', ''Expired''] (av_Phase st)"

definition version_rank :: "ObjectMeta \<Rightarrow> int" where
  "version_rank m = the (atoi (m_ResourceVersion m)) mod 2 ^ 64"

lemma decided_not_pending: "decided st \<Longrightarrow> av_Phase st \<noteq> ''Pending''"
  by (auto simp: decided_def)

lemma accepted_update_grows:
  assumes "initializeUpdateMetadata now r m cur ch = Inr m'" "version_ok m" "version_ok cur"
  shows "m_ResourceVersion m = m_ResourceVersion cur \<and> version_rank cur < version_rank m'"
proof -
  obtain n where n: "in_int64 n" "m_ResourceVersion cur = itoa n"
    using assms(3) by (auto simp: version_ok_def)
  have *: "m_ResourceVersion m' = itoa (wrap64 (n + 1))" "0 \<le> n"
    "trim_space (m_ResourceVersion m) = [] \<or> trim_space (m_ResourceVersion m) = itoa n"
    using initializeUpdateMetadata_version [OF assms(1) n(2,1)] by auto
  have "n < 2 ^ 63" using n(1) by (simp add: in_int64_bounds)
  moreover have "wrap64 (n + 1) mod 2 ^ 64 = (n + 1) mod 2 ^ 64"
    by (simp add: wrap64_def mod_diff_left_eq add.commute)
  ultimately have "version_rank cur < version_rank m'"
    using * n by (simp add: version_rank_def)
  moreover have "m_ResourceVersion m = m_ResourceVersion cur"
    using *(3) assms(2) n(2) by (auto simp: version_ok_def)
  ultimately show ?thesis by blast
qed

text \<open>What a run keeps: nothing but an update at the version of a pending approval can still succeed.\<close>

definition open_ok :: "('a \<Rightarrow> ObjectMeta) \<Rightarrow> ('a \<Rightarrow> ApprovalStatus) \<Rightarrow> (string \<times> 'a) list \<Rightarrow> string \<Rightarrow> 'a \<Rightarrow> bool" where
  "open_ok meta status s k b \<longleftrightarrow> version_ok (meta b) \<and> scopedNameFromMeta (meta b) = k \<and> decided (status b)
     \<and> (\<exists>cur. map_of s k = Some cur \<and> version_rank (meta b) \<le> version_rank (meta cur)
          \<and> (m_ResourceVersion (meta b) = m_ResourceVersion (meta cur) \<longrightarrow> av_Phase (status cur) = ''Pending''))"

definition done_ok :: "('a \<Rightarrow> ApprovalStatus) \<Rightarrow> (string \<times> 'a) list \<Rightarrow> string \<Rightarrow> string \<Rightarrow> bool" where
  "done_ok status s k p \<longleftrightarrow> p \<noteq> ''Pending'' \<and> (\<exists>cur. map_of s k = Some cur \<and> av_Phase (status cur) = p)"

definition run_ok :: "('a \<Rightarrow> ObjectMeta) \<Rightarrow> ('a \<Rightarrow> ApprovalStatus) \<Rightarrow> ('a \<Rightarrow> bool) \<Rightarrow> 'a approval_run \<Rightarrow> bool" where
  "run_ok meta status ok r \<longleftrightarrow> items_wf meta ok (ar_store r)
     \<and> (\<forall>(k, b) \<in> set (ar_open r). open_ok meta status (ar_store r) k b)
     \<and> distinct (map fst (ar_done r)) \<and> (\<forall>(k, p) \<in> set (ar_done r). done_ok status (ar_store r) k p)"

lemma ok_after_create:
  assumes "map_of s' = (map_of s)(n \<mapsto> u)" "map_of s n = None"
  shows "open_ok meta status s k b \<Longrightarrow> open_ok meta status s' k b" "done_ok status s k p \<Longrightarrow> done_ok status s' k p"
  using assms by (cases "k = n", auto simp: open_ok_def done_ok_def)+

locale decided_resource =
  fixes ops :: "('a, (string \<times> 'a) list) kind_ops"
    and resource :: string
    and spec_changed :: "'a \<Rightarrow> 'a \<Rightarrow> bool"
    and norm_item :: "instant \<Rightarrow> 'a \<Rightarrow> api_error + 'a"
    and ok :: "'a \<Rightarrow> bool"
    and status :: "'a \<Rightarrow> ApprovalStatus"
    and updates :: "'a \<Rightarrow> 'a \<Rightarrow> bool"
  assumes stored: "versioned_resource (k_meta ops) (k_set_meta ops) (norm_item now) ok"
    and get_is: "k_get ops = store_get"
    and upsert_is: "k_upsert ops now = store_upsert resource (k_meta ops) (k_set_meta ops) spec_changed (norm_item now) now"
    and status_set: "status (k_set_meta ops m x) = status x"
    and norm_meta: "norm_item now x = Inr y \<Longrightarrow> scopedNameFromMeta (k_meta ops y) = scopedNameFromMeta (k_meta ops x)
      \<and> m_ResourceVersion (k_meta ops y) = m_ResourceVersion (k_meta ops x)"
    and norm_phase: "norm_item now x = Inr y \<Longrightarrow> decided (status x) \<Longrightarrow> av_Phase (status y) = av_Phase (status x)"
    and updates_decide: "updates a b \<Longrightarrow> k_meta ops b = k_meta ops a \<and> decided (status b)"
begin

lemma refused_write: "k_upsert ops now b s = (Inl e, s') \<Longrightarrow> s' = s"
  by (auto simp: upsert_is store_upsert_def Let_def split: sum.splits)

lemma write_cases:
  assumes "k_upsert ops now b s = (Inr u, s')"
  obtains it m where "norm_item now b = Inr it" "u = k_set_meta ops m it"
    "s' = AList.update (scopedNameFromMeta (k_meta ops b)) u s"
    "\<And>cur. map_of s (scopedNameFromMeta (k_meta ops b)) = Some cur \<Longrightarrow>
       \<exists>ch. initializeUpdateMetadata now resource (k_meta ops it) (k_meta ops cur) ch = Inr m"
proof -
  from assms obtain it where it: "norm_item now b = Inr it"
    by (cases "norm_item now b") (simp_all add: upsert_is store_upsert_def)
  let ?init = "case map_of s (scopedNameFromMeta (k_meta ops b)) of
      None \<Rightarrow> initializeCreateMetadata now resource (k_meta ops it)
    | Some ex \<Rightarrow> initializeUpdateMetadata now resource (k_meta ops it) (k_meta ops ex) (spec_changed ex it)"
  from assms it norm_meta [OF it] obtain m where m: "?init = Inr m" "u = k_set_meta ops m it"
    "s' = AList.update (scopedNameFromMeta (k_meta ops b)) u s"
    by (cases ?init) (auto simp: upsert_is store_upsert_def Let_def)
  show thesis by (rule that [OF it m(2,3)]) (use m(1) in auto)
qed

lemma accepted_wf:
  "k_upsert ops now b s = (Inr u, s') \<Longrightarrow> items_wf (k_meta ops) ok s \<Longrightarrow> items_wf (k_meta ops) ok s'"
  using versioned_resource.upsert_wf [OF stored, of s resource spec_changed now now b] by (simp add: upsert_is)

lemma accepted_map:
  "k_upsert ops now b s = (Inr u, s') \<Longrightarrow> map_of s' = (map_of s)(scopedNameFromMeta (k_meta ops b) \<mapsto> u)"
  by (erule write_cases) (simp add: update_conv')

lemma accepted_phase:
  "k_upsert ops now b s = (Inr u, s') \<Longrightarrow> decided (status b) \<Longrightarrow> av_Phase (status u) = av_Phase (status b)"
  by (erule write_cases) (simp add: status_set norm_phase)

lemma accepted_version:
  assumes "k_upsert ops now b s = (Inr u, s')" "items_wf (k_meta ops) ok s" "version_ok (k_meta ops b)"
    and "map_of s (scopedNameFromMeta (k_meta ops b)) = Some cur"
  shows "m_ResourceVersion (k_meta ops b) = m_ResourceVersion (k_meta ops cur)
    \<and> version_rank (k_meta ops cur) < version_rank (k_meta ops u)"
proof -
  obtain it m ch where it: "norm_item now b = Inr it" "u = k_set_meta ops m it"
    "initializeUpdateMetadata now resource (k_meta ops it) (k_meta ops cur) ch = Inr m"
    using write_cases [OF assms(1)] assms(4) by metis
  moreover have "version_ok (k_meta ops it)" "m_ResourceVersion (k_meta ops it) = m_ResourceVersion (k_meta ops b)"
    using norm_meta [OF it(1)] assms(3) by (simp_all add: version_ok_def)
  moreover have "version_ok (k_meta ops cur)" using items_wf_lookup [OF assms(2,4)] by simp
  ultimately show ?thesis
    using accepted_update_grows [OF it(3)] versioned_resource.meta_set [OF stored] by simp
qed

lemma open_ok_after_write:
  assumes "open_ok (k_meta ops) status s k b" "k_upsert ops now x s = (Inr u, s')" "items_wf (k_meta ops) ok s"
    and "version_ok (k_meta ops x)"
  shows "open_ok (k_meta ops) status s' k b"
proof (cases "k = scopedNameFromMeta (k_meta ops x)")
  case True
  obtain cur where cur: "map_of s k = Some cur" "version_rank (k_meta ops b) \<le> version_rank (k_meta ops cur)"
    using assms(1) by (auto simp: open_ok_def)
  have "version_rank (k_meta ops cur) < version_rank (k_meta ops u)"
    using accepted_version [OF assms(2-4)] cur(1) True by simp
  moreover have "version_rank (k_meta ops b) = version_rank (k_meta ops u)"
    if "m_ResourceVersion (k_meta ops b) = m_ResourceVersion (k_meta ops u)"
    using that by (simp add: version_rank_def)
  ultimately show ?thesis
    using assms(1) cur(2) True accepted_map [OF assms(2)] by (auto simp: open_ok_def)
next
  case False
  then show ?thesis using assms(1) accepted_map [OF assms(2)] by (auto simp: open_ok_def)
qed

lemma step_ok:
  assumes "approval_step ops status updates r r'" "run_ok (k_meta ops) status ok r"
  shows "run_ok (k_meta ops) status ok r'"
  using assms(1)
proof (cases rule: approval_step.cases)
  case (read_pending key a b)
  have a: "map_of (ar_store r) (normalizeLookupName key) = Some a"
    using read_pending by (simp add: get_is store_get_def)
  then have "normalizeLookupName key = scopedNameFromMeta (k_meta ops a)" "version_ok (k_meta ops a)"
    using assms(2) items_wf_lookup [OF _ a] unfolding run_ok_def by blast+
  with a read_pending updates_decide [OF read_pending(4)]
  have "open_ok (k_meta ops) status (ar_store r) (normalizeLookupName key) b"
    by (simp add: open_ok_def)
  with read_pending assms(2) show ?thesis by (simp add: run_ok_def)
next
  case (write_accepted key b now u s)
  have open_b: "open_ok (k_meta ops) status (ar_store r) key b" and wf: "items_wf (k_meta ops) ok (ar_store r)"
    using write_accepted assms(2) by (auto simp: run_ok_def)
  then obtain cur where cur: "map_of (ar_store r) key = Some cur" "key = scopedNameFromMeta (k_meta ops b)"
    "version_ok (k_meta ops b)" "decided (status b)"
    "m_ResourceVersion (k_meta ops b) = m_ResourceVersion (k_meta ops cur) \<longrightarrow> av_Phase (status cur) = ''Pending''"
    unfolding open_ok_def by blast
  then have pending: "av_Phase (status cur) = ''Pending''"
    using accepted_version [OF write_accepted(3) wf] by simp
  then have fresh: "key \<notin> fst ` set (ar_done r)"
    using assms(2) cur(1) by (auto simp: run_ok_def done_ok_def)
  have m: "map_of s = (map_of (ar_store r))(key \<mapsto> u)" using accepted_map [OF write_accepted(3)] cur(2) by simp
  have phase: "av_Phase (status u) \<noteq> ''Pending''"
    using accepted_phase [OF write_accepted(3) cur(4)] decided_not_pending [OF cur(4)] by simp
  have "\<forall>(k, p) \<in> set ((key, av_Phase (status u)) # ar_done r). done_ok status s k p"
  proof (intro ballI, clarify)
    fix k p assume "(k, p) \<in> set ((key, av_Phase (status u)) # ar_done r)"
    then consider "k = key" "p = av_Phase (status u)" | "(k, p) \<in> set (ar_done r)" "k \<noteq> key"
      using fresh by (cases "k = key") (auto simp: image_iff)
    then show "done_ok status s k p"
      using assms(2) phase by cases (auto simp: run_ok_def done_ok_def m)
  qed
  moreover have "\<forall>(k, x) \<in> set (remove1 (key, b) (ar_open r)). open_ok (k_meta ops) status s k x"
  proof (intro ballI, clarify)
    fix k x assume "(k, x) \<in> set (remove1 (key, b) (ar_open r))"
    then have "(k, x) \<in> set (ar_open r)" using set_remove1_subset by fast
    then show "open_ok (k_meta ops) status s k x"
      using assms(2) open_ok_after_write [OF _ write_accepted(3) wf cur(3)] unfolding run_ok_def by fast
  qed
  ultimately show ?thesis
    using write_accepted assms(2) fresh accepted_wf [OF write_accepted(3) wf] by (simp add: run_ok_def)
next
  case (write_refused key b now e s)
  then have "s = ar_store r" "set (remove1 (key, b) (ar_open r)) \<subseteq> set (ar_open r)"
    using refused_write set_remove1_subset by fast+
  then show ?thesis using assms(2) write_refused(1) unfolding run_ok_def by auto
next
  case (create_new a now u s)
  have wf: "items_wf (k_meta ops) ok (ar_store r)" using assms(2) by (simp add: run_ok_def)
  show ?thesis
    using assms(2) create_new(1) accepted_wf [OF create_new(3) wf]
      ok_after_create [OF accepted_map [OF create_new(3)] create_new(2)]
    by (force simp: run_ok_def)
qed

lemma runs_ok:
  assumes "(approval_step ops status updates)\<^sup>*\<^sup>* r r'" "run_ok (k_meta ops) status ok r"
  shows "run_ok (k_meta ops) status ok r'"
  using assms by (induction rule: rtranclp_induct) (auto intro: step_ok)

end

section \<open>The approvals of the model\<close>

lemma norm_keeps_key:
  "NormalizeObjectMetaNamespace m = m' \<Longrightarrow> scopedNameFromMeta m' = scopedNameFromMeta m \<and> m_ResourceVersion m' = m_ResourceVersion m"
  by (auto simp: NormalizeObjectMetaNamespace_def scopedNameFromMeta_def scopedName_def)

lemma ToolApproval_Normalize_keeps:
  assumes "ToolApproval_Normalize now x = Inr y"
  shows "scopedNameFromMeta (ta_Metadata y) = scopedNameFromMeta (ta_Metadata x)
    \<and> m_ResourceVersion (ta_Metadata y) = m_ResourceVersion (ta_Metadata x)"
    and "decided (ta_Status x) \<Longrightarrow> av_Phase (ta_Status y) = av_Phase (ta_Status x)"
proof -
  show "scopedNameFromMeta (ta_Metadata y) = scopedNameFromMeta (ta_Metadata x)
    \<and> m_ResourceVersion (ta_Metadata y) = m_ResourceVersion (ta_Metadata x)"
    using assms norm_keeps_key [OF refl]
    by (auto simp: ToolApproval_Normalize_def Let_def split: if_splits option.splits)
  have "av_Phase (ta_Status y) = or_default ''Pending'' (trim_space (av_Phase (ta_Status x)))"
    using assms by (auto simp: ToolApproval_Normalize_def Let_def split: if_splits option.splits)
  then show "decided (ta_Status x) \<Longrightarrow> av_Phase (ta_Status y) = av_Phase (ta_Status x)"
    by (auto simp: decided_def or_default_def trim_space_id is_space_def)
qed

lemma TaskApproval_Normalize_keeps:
  assumes "TaskApproval_Normalize now x = Inr y"
  shows "scopedNameFromMeta (tr_Metadata y) = scopedNameFromMeta (tr_Metadata x)
    \<and> m_ResourceVersion (tr_Metadata y) = m_ResourceVersion (tr_Metadata x)"
    and "decided (tr_Status x) \<Longrightarrow> av_Phase (tr_Status y) = av_Phase (tr_Status x)"
proof -
  show "scopedNameFromMeta (tr_Metadata y) = scopedNameFromMeta (tr_Metadata x)
    \<and> m_ResourceVersion (tr_Metadata y) = m_ResourceVersion (tr_Metadata x)"
    using assms norm_keeps_key [OF refl]
    by (auto simp: TaskApproval_Normalize_def Let_def split: if_splits option.splits)
  have "av_Phase (tr_Status y) = or_default ''Pending'' (trim_space (av_Phase (tr_Status x)))"
    using assms by (auto simp: TaskApproval_Normalize_def Let_def split: if_splits option.splits)
  then show "decided (tr_Status x) \<Longrightarrow> av_Phase (tr_Status y) = av_Phase (tr_Status x)"
    by (auto simp: decided_def or_default_def trim_space_id is_space_def)
qed

lemma tool_updates_decide: "tool_updates a b \<Longrightarrow> ta_Metadata b = ta_Metadata a \<and> decided (ta_Status b)"
  by (auto simp: tool_updates_def tool_decision_check_def decided_status_def decided_def split: if_splits)

lemma task_updates_decide: "task_updates a b \<Longrightarrow> tr_Metadata b = tr_Metadata a \<and> decided (tr_Status b)"
  by (auto simp: task_updates_def task_decision_check_def decided_status_def decided_def split: if_splits)

interpretation tool_decisions: decided_resource tool_approval_ops "''ToolApproval''"
  "\<lambda>a b. ta_Spec a \<noteq> ta_Spec b" ToolApproval_Normalize tool_approval_ok ta_Status tool_updates
proof (rule decided_resource.intro)
  show "versioned_resource (k_meta tool_approval_ops) (k_set_meta tool_approval_ops) (ToolApproval_Normalize now) tool_approval_ok"
    for now using tool_approvals.versioned_resource_axioms by (simp add: tool_approval_ops_def)
qed (simp_all add: tool_approval_ops_def ToolApprovalStore_Upsert_def ToolApprovalStore_Get_def fun_eq_iff
    ToolApproval_Normalize_keeps tool_updates_decide)

interpretation task_decisions: decided_resource task_approval_ops "''TaskApproval''"
  "\<lambda>a b. tr_Spec a \<noteq> tr_Spec b" TaskApproval_Normalize task_approval_ok tr_Status task_updates
proof (rule decided_resource.intro)
  show "versioned_resource (k_meta task_approval_ops) (k_set_meta task_approval_ops) (TaskApproval_Normalize now) task_approval_ok"
    for now using task_approvals.versioned_resource_axioms by (simp add: task_approval_ops_def)
qed (simp_all add: task_approval_ops_def TaskApprovalStore_Upsert_def TaskApprovalStore_Get_def fun_eq_iff
    TaskApproval_Normalize_keeps task_updates_decide)

end
