(* ===== verification/Api_Props.thy ===== *)
theory Api_Props
  imports Api_Approvals
begin

text \<open>
  Properties of the HTTP API handlers: every request keeps the stores well-typed, a PUT is a
  compare-and-swap on the version the client names, a POST of an existing resource is not, and an
  approval is decided once.
\<close>

section \<open>Listings\<close>

definition labelled :: "string \<Rightarrow> string \<Rightarrow> ObjectMeta" where
  "labelled name team = zero_meta\<lparr>m_Name := name, m_Namespace := ''default'', m_ResourceVersion := ''1'',
     m_Labels := fmupd ''team'' team fmempty\<rparr>"

definition demo_labelled :: "(string \<times> ObjectMeta) list" where
  "demo_labelled = map (\<lambda>m. (scopedNameFromMeta m, m)) [labelled ''c'' ''x'', labelled ''b'' ''y'', labelled ''a'' ''x'']"


section \<open>Requests keep what the store keeps\<close>

locale kept_by_store =
  fixes ops :: "('a, 's) kind_ops" and kept :: "'s \<Rightarrow> bool"
  assumes upsert_kept: "kept s \<Longrightarrow> kept (snd (k_upsert ops now x s))"
    and move_kept: "kept s \<Longrightarrow> kept (snd (k_move ops now old x s))"
    and delete_kept: "kept s \<Longrightarrow> kept (snd (k_delete ops name s))"
begin

lemma upsert_kept': "k_upsert ops now x s = (r, s') \<Longrightarrow> kept s \<Longrightarrow> kept s'"
  using upsert_kept [of s now x] by simp

lemma move_kept': "k_move ops now old x s = (r, s') \<Longrightarrow> kept s \<Longrightarrow> kept s'"
  using move_kept [of s now old x] by simp

lemma delete_kept': "k_delete ops name s = (r, s') \<Longrightarrow> kept s \<Longrightarrow> kept s'"
  using delete_kept [of s name] by simp

lemmas kept_intros = upsert_kept' move_kept' delete_kept'

lemma post_kept:
  "kept s \<Longrightarrow> kept (env s) \<Longrightarrow> kept (snd (post_resource ops crd env now rq body s))"
  by (auto simp: post_resource_def Let_def intro: kept_intros split: sum.splits option.splits prod.splits)

lemma delete_kept_request:
  "kept s \<Longrightarrow> kept (env s) \<Longrightarrow> kept (snd (delete_resource ops crd env rq name s))"
  by (auto simp: delete_resource_def Let_def intro: kept_intros split: option.splits prod.splits)

lemma put_write_kept: "kept s \<Longrightarrow> kept (snd (put_write ops now rq key obj s))"
  by (auto simp: put_write_def intro: kept_intros split: sum.splits move_error.splits prod.splits)

lemma put_kept:
  "kept s \<Longrightarrow> kept (env s) \<Longrightarrow> kept (snd (put_resource ops adjust crd env now rq name body s))"
  by (auto simp: put_resource_def Let_def intro: put_write_kept split: sum.splits option.splits)

lemma status_kept:
  "kept s \<Longrightarrow> kept (env s) \<Longrightarrow> kept (snd (status_resource ops set_status env now rq name patch s))"
  by (auto simp: status_resource_def Let_def intro: kept_intros split: sum.splits option.splits prod.splits)

lemma named_kept:
  "kept s \<Longrightarrow> kept (env s) \<Longrightarrow> kept (snd (named_handler ops adjust crd env now rq name body s))"
  by (simp add: named_handler_def put_kept delete_kept_request)

lemma collection_kept:
  "kept s \<Longrightarrow> kept (env s) \<Longrightarrow> kept (snd (collection_handler ops crd env now rq body s))"
  by (simp add: collection_handler_def post_kept)

lemma attempts_kept:
  assumes "\<And>n s. kept s \<Longrightarrow> kept (env n s)" "kept s"
  shows "kept (snd (decision_attempts ops env clock check key name n s))"
  using assms(2)
proof (induction n arbitrary: s)
  case (Suc n)
  show ?case
  proof (cases "k_get ops key s")
    case (Some obj)
    show ?thesis
    proof (cases "check (clock n) obj")
      case (Inr b)
      obtain r s' where up: "k_upsert ops (clock n) b (env (2 * n + 1) s) = (r, s')" by fastforce
      then have "kept s'" using upsert_kept' assms(1) Suc.prems by blast
      then show ?thesis using Some Inr up Suc.IH [OF assms(1)] by (cases r) simp_all
    qed (simp add: Some Suc.prems)
  qed (simp add: Suc.prems)
qed simp

end

section \<open>Tasks\<close>

lemma UpsertMovingKey_wf:
  assumes "task_store_wf s"
  shows "task_store_wf (snd (TaskStore_UpsertMovingKey now old item s))"
proof (cases "Task_Normalize item")
  case (Inr it)
  let ?old = "normalizeLookupName old" and ?new = "scopedNameFromMeta (t_Metadata it)"
  have ok: "task_ok it" using Inr task_res.norm_item_ok by blast
  have moved: "task_store_wf (s\<lparr>st_items := AList.update ?new (set_task_meta m it) (AList.delete ?old (st_items s)),
      st_logs := (case map_of (st_logs s) ?old of None \<Rightarrow> st_logs s
        | Some l \<Rightarrow> AList.delete ?old (AList.update ?new l (st_logs s)))\<rparr>)"
    if "?old \<noteq> ?new" and m: "initializeUpdateMetadata now ''Task'' (t_Metadata it) cur ch = Inr m" for m cur ch
  proof -
    have "task_ok (set_task_meta m it)" "version_ok m" "?new = scopedNameFromMeta m"
      using m initializeUpdateMetadata_names [OF m] version_ok_update [OF m] task_ok_meta [OF ok]
      by (simp_all add: scopedNameFromMeta_def)
    then have "items_wf t_Metadata task_ok (AList.update ?new (set_task_meta m it) (AList.delete ?old (st_items s)))"
      using assms by (intro items_wf_update items_wf_delete) (simp_all add: task_store_wf_def)
    then show ?thesis
      using assms that(1)
      by (auto simp: task_store_wf_def update_conv' delete_conv' split: option.splits if_splits)
  qed
  show ?thesis
    using assms Inr moved Upsert_wf [OF assms, of now it]
    by (auto simp: TaskStore_UpsertMovingKey_def Let_def split: option.splits sum.splits prod.splits)
qed (simp add: TaskStore_UpsertMovingKey_def assms)

interpretation task_requests: kept_by_store task_ops task_store_wf
  by unfold_locales (simp_all add: task_ops_def Upsert_wf UpsertMovingKey_wf Delete_wf)

lemma post_task_kept:
  assumes "task_store_wf s" "task_store_wf (env s)"
  shows "task_store_wf (snd (post_task inject env now rq body s))"
proof -
  have "task_store_wf s'" if "TaskStore_Upsert now obj (env s) = (r, s')" for obj r s'
    using Upsert_wf [OF assms(2), of now obj] that by simp
  then show ?thesis
    using assms(1) by (auto simp: post_task_def split: sum.split prod.split)
qed

text \<open>
  C11: No request stores an ill-typed task. If the task store is well-formed - every task has a valid
  name, the key of its name, a defaulted specification, a phase and a version, and every log belongs
  to a task - and what the rest of the system does meanwhile keeps it so, then it is well-formed
  after any request to the task endpoints, renaming included, whatever the request is and whatever
  it answers.
\<close>
theorem task_requests_keep_types:
  assumes "task_store_wf s" "task_store_wf (env s)"
  shows "task_store_wf (snd (handleTasks inject env now rq body s))
    \<and> task_store_wf (snd (handleTaskByName env now rq body patch s))"
  by (simp add: handleTasks_def handleTaskByName_def handleTaskStatusByName_def Let_def task_requests.named_kept
      task_requests.status_kept post_task_kept assms)

interpretation tool_approval_requests: kept_by_store tool_approval_ops tool_approvals_wf
  by unfold_locales (simp_all add: tool_approval_ops_def approval_store_ops_wf)

interpretation task_approval_requests: kept_by_store task_approval_ops task_approvals_wf
  by unfold_locales (simp_all add: task_approval_ops_def approval_store_ops_wf)

section \<open>Writes that ignore what happened since the read\<close>

lemma normalize_status_id: "task_ok t \<Longrightarrow> normalize_task_status (t_Status t) = t_Status t"
  by (cases "ts_BlockedOn (t_Status t)") (auto simp: task_ok_def blocked_ok_def normalize_task_status_def Let_def)

lemma upsert_status:
  "TaskStore_Upsert now t s = (Inr u, s') \<Longrightarrow> t_Status u = normalize_task_status (t_Status t)"
  by (auto simp: TaskStore_Upsert_def store_upsert_def Task_Normalize_def Let_def
      split: sum.splits option.splits if_splits prod.splits)


definition demo_post :: http_request where
  "demo_post = \<lparr>hr_Method = ''POST'', hr_Path = ''/v1/tasks'', hr_Query = [], hr_IfMatch = []\<rparr>"

theorem task_requests_keep_types_witness:
  "task_store_wf (snd (handleTasks (\<lambda>a. a) (\<lambda>_. demo_claimed) 0 demo_post (Inr demo_task) demo_store))"
  using task_requests_keep_types [of demo_store "\<lambda>_. demo_claimed"] reachable_wf demo_store_reachable by blast


section \<open>Conditional updates\<close>

lemma task_ops_sel:
  "k_crd task_ops = False" "k_meta task_ops = t_Metadata" "k_set_meta task_ops = set_task_meta"
  "k_keep_status task_ops a b = b\<lparr>t_Status := t_Status a\<rparr>" "k_get task_ops = TaskStore_Get"
  "k_upsert task_ops = TaskStore_Upsert" "k_move task_ops = TaskStore_UpsertMovingKey"
  by (simp_all add: task_ops_def)

text \<open>The version a PUT names: the If-Match header, with a star for the version it read, or the body's.\<close>

definition named_version :: "http_request \<Rightarrow> ObjectMeta \<Rightarrow> ObjectMeta \<Rightarrow> string" where
  "named_version rq incoming current =
     (let i = canonicalizeIfMatch (hr_IfMatch rq)
      in trim_space (if i = ''*'' then m_ResourceVersion current else if i \<noteq> [] then i else m_ResourceVersion incoming))"

lemma requireUpdatePrecondition_version:
  "requireUpdatePrecondition (hr_IfMatch rq) m cur = Inr m' \<Longrightarrow>
   trim_space (m_ResourceVersion m') = named_version rq m cur \<and> named_version rq m cur \<noteq> []"
  by (auto simp: requireUpdatePrecondition_def named_version_def Let_def split: if_splits)

lemma upsert_checks_version:
  assumes "TaskStore_Upsert now t s = (Inr u, s')" "trim_space (m_ResourceVersion (t_Metadata t)) = v" "v \<noteq> []" "v \<noteq> ''0''"
  shows "\<exists>k cur. map_of (st_items s) k = Some cur \<and> m_ResourceVersion (t_Metadata cur) = v \<and> k = scopedNameFromMeta (t_Metadata t)"
proof -
  obtain it where it: "Task_Normalize t = Inr it"
    using assms(1) by (cases "Task_Normalize t") (auto simp: TaskStore_Upsert_def store_upsert_def)
  note same = Task_Normalize_meta [OF it]
  show ?thesis
  proof (cases "map_of (st_items s) (scopedNameFromMeta (t_Metadata t))")
    case None
    then have "initializeCreateMetadata now ''Task'' (t_Metadata it) = Inl (ConflictError ''Task'' v [])"
      using assms(2-4) same by (simp add: initializeCreateMetadata_def Let_def)
    then show ?thesis using assms(1) it None same by (simp add: TaskStore_Upsert_def store_upsert_def Let_def)
  next
    case (Some cur)
    then obtain m where "initializeUpdateMetadata now ''Task'' (t_Metadata it) (t_Metadata cur) (task_spec_changed cur it) = Inr m"
      using assms(1) it same
      by (cases "initializeUpdateMetadata now ''Task'' (t_Metadata it) (t_Metadata cur) (task_spec_changed cur it)")
        (simp_all add: TaskStore_Upsert_def store_upsert_def Let_def)
    from update_accepted [OF this] Some assms(2,3) same show ?thesis by simp
  qed
qed

lemma move_checks_version:
  assumes "TaskStore_UpsertMovingKey now old t s = (Inr u, s')" "trim_space (m_ResourceVersion (t_Metadata t)) = v" "v \<noteq> []" "v \<noteq> ''0''"
  shows "\<exists>k cur. map_of (st_items s) k = Some cur \<and> m_ResourceVersion (t_Metadata cur) = v
    \<and> (k = scopedNameFromMeta (t_Metadata t) \<or> k = normalizeLookupName old)"
proof -
  obtain it where it: "Task_Normalize t = Inr it"
    using assms(1) by (cases "Task_Normalize t") (auto simp: TaskStore_UpsertMovingKey_def)
  note same = Task_Normalize_meta [OF it]
  show ?thesis
  proof (cases "normalizeLookupName old = scopedNameFromMeta (t_Metadata it)")
    case True
    then have "TaskStore_Upsert now it s = (Inr u, s')"
      using assms(1) it by (auto simp: TaskStore_UpsertMovingKey_def split: sum.splits prod.splits)
    from upsert_checks_version [OF this] assms(2-4) same show ?thesis by auto
  next
    case False
    then obtain cur where cur: "map_of (st_items s) (normalizeLookupName old) = Some cur"
      using assms(1) it by (cases "map_of (st_items s) (normalizeLookupName old)") (simp_all add: TaskStore_UpsertMovingKey_def)
    obtain m where "initializeUpdateMetadata now ''Task'' (t_Metadata it) (t_Metadata cur) (task_spec_changed cur it) = Inr m"
      using assms(1) it cur False
      by (cases "initializeUpdateMetadata now ''Task'' (t_Metadata it) (t_Metadata cur) (task_spec_changed cur it)")
        (simp_all add: TaskStore_UpsertMovingKey_def Let_def split: if_split_asm)
    from update_accepted [OF this] cur assms(2,3) same show ?thesis by auto
  qed
qed


definition demo_put :: http_request where
  "demo_put = \<lparr>hr_Method = ''PUT'', hr_Path = ''/v1/tasks/t1'', hr_Query = [], hr_IfMatch = ''1''\<rparr>"


section \<open>Reruns\<close>

text \<open>
  A rerun leaves the ended task alone. A POST with rerun=true of a task that ended creates another
  task: the one that is there keeps its specification, status and history, unless the new name
  happens to be the old one, and the new task is labelled with the old one's name.
\<close>
theorem rerun_keeps_original:
  assumes "handleTasks inject env now rq (Inr m) s = (HttpObject 201 t, s')" "hr_Method rq = ''POST''"
    and "query_get rq ''rerun'' = ''true''"
    and "TaskStore_Get (scopedName (NormalizeNamespace (m_Namespace (t_Metadata m))) (m_Name (t_Metadata m))) s = Some e"
    and "to_lower (trim_space (ts_Phase (t_Status e))) \<in> {''deadletter'', ''failed'', ''succeeded''}"
    and "scopedName (m_Namespace (t_Metadata m)) (rerunTaskName now (m_Name (t_Metadata m))) \<noteq> key"
  shows "map_of (st_items s') key = map_of (st_items (env s)) key
    \<and> fmlookup (m_Labels (t_Metadata t)) ''orloj.dev/source-task'' = Some (m_Name (t_Metadata e))"
proof -
  obtain meta where meta: "applyRequestNamespace rq (t_Metadata m) = Inr meta"
    using assms(1,2) by (cases "applyRequestNamespace rq (t_Metadata m)") (auto simp: handleTasks_def post_task_def)
  then have same: "m_Namespace meta = NormalizeNamespace (m_Namespace (t_Metadata m))" "m_Name meta = m_Name (t_Metadata m)"
    by (auto simp: applyRequestNamespace_def Let_def split: if_split_asm)
  then obtain obj where obj: "applied_task inject now True (set_task_meta meta m) (Some e) = Inr obj"
    and up: "TaskStore_Upsert now obj (env s) = (Inr t, s')"
    using assms(1-4) meta
    by (auto simp: handleTasks_def post_task_def store_error_response_def split: sum.splits prod.splits if_splits)
  have "scopedNameFromMeta (t_Metadata obj) \<noteq> key"
    "fmlookup (m_Labels (t_Metadata obj)) ''orloj.dev/source-task'' = Some (m_Name (t_Metadata e))"
    using obj assms(5,6) same by (auto simp: applied_task_def Let_def scopedNameFromMeta_def scopedName_def)
  moreover have "m_Labels (t_Metadata t) = m_Labels (t_Metadata obj)"
    using up by (auto simp: TaskStore_Upsert_def store_upsert_def Task_Normalize_def Let_def
        initializeCreateMetadata_def initializeUpdateMetadata_def NormalizeObjectMetaNamespace_def
        split: sum.splits option.splits if_splits prod.splits)
  ultimately show ?thesis using Upsert_other_key [of obj key now "env s"] up by simp
qed

definition demo_failed :: TaskStore where
  "demo_failed = snd (TaskStore_Upsert 0 (demo_task\<lparr>t_Status := (t_Status demo_task)\<lparr>ts_Phase := ''Failed''\<rparr>\<rparr>) NewTaskStore)"

definition demo_rerun :: http_request where
  "demo_rerun = \<lparr>hr_Method = ''POST'', hr_Path = ''/v1/tasks'', hr_Query = [(''rerun'', ''true'')], hr_IfMatch = []\<rparr>"

theorem rerun_keeps_original_witness:
  "\<exists>t s'. handleTasks (\<lambda>a. a) (\<lambda>s. s) 0 demo_rerun (Inr demo_task) demo_failed = (HttpObject 201 t, s')
     \<and> map_of (st_items s') ''default/t1'' = map_of (st_items demo_failed) ''default/t1''"
proof -
  let ?r = "handleTasks (\<lambda>a. a) (\<lambda>s. s) 0 demo_rerun (Inr demo_task) demo_failed"
  let ?get = "TaskStore_Get (scopedName (NormalizeNamespace (m_Namespace (t_Metadata demo_task))) (m_Name (t_Metadata demo_task))) demo_failed"
  have "case fst ?r of HttpObject n t \<Rightarrow> n = 201 | _ \<Rightarrow> False" by code_simp
  then obtain t s' where r: "?r = (HttpObject 201 t, s')" by (cases ?r; cases "fst ?r") auto
  have "case ?get of None \<Rightarrow> False | Some e \<Rightarrow> to_lower (trim_space (ts_Phase (t_Status e))) = ''failed''" by code_simp
  then obtain e where e: "?get = Some e" "to_lower (trim_space (ts_Phase (t_Status e))) = ''failed''"
    by (auto split: option.splits)
  have "query_get demo_rerun ''rerun'' = ''true''" "hr_Method demo_rerun = ''POST''"
    "scopedName (m_Namespace (t_Metadata demo_task)) (rerunTaskName 0 (m_Name (t_Metadata demo_task))) \<noteq> ''default/t1''"
    by code_simp+
  with rerun_keeps_original [OF r _ _ e(1), of "''default/t1''"] e(2) r show ?thesis by auto
qed

section \<open>Approvals\<close>


definition demo_open_approval :: ToolApproval where
  "demo_open_approval = \<lparr>ta_APIVersion = [], ta_Kind = [], ta_Metadata = zero_meta\<lparr>m_Name := ''ta1''\<rparr>,
     ta_Spec = \<lparr>ap_TaskRef = ''t1'', ap_Tool = ''x'', ap_OperationClass = [], ap_Agent = [], ap_Input = [], ap_Reason = [], ap_TTL = []\<rparr>,
     ta_Status = \<lparr>av_Phase = [], av_Decision = [], av_DecidedBy = [], av_DecidedAt = [], av_Comment = [], av_ExpiresAt = []\<rparr>\<rparr>"

definition demo_approvals :: ToolApprovalStore where
  "demo_approvals = snd (ToolApprovalStore_Upsert 0 demo_open_approval [])"

lemma demo_approvals_wf: "tool_approvals_wf demo_approvals"
  unfolding demo_approvals_def by (intro approval_store_ops_wf) simp

definition demo_body :: approvalDecisionRequest where
  "demo_body = \<lparr>dr_DecidedBy = ''ann'', dr_Comment = [], dr_Reason = []\<rparr>"


theorem task_approval_decided_once:
  assumes "(approval_step task_approval_ops tr_Status task_updates)\<^sup>*\<^sup>* \<lparr>ar_store = s, ar_open = [], ar_done = []\<rparr> r"
    and "task_approvals_wf s"
  shows "distinct (map fst (ar_done r)) \<and> (\<forall>k p. (k, p) \<in> set (ar_done r) \<longrightarrow>
    p \<noteq> ''Pending'' \<and> (\<exists>a. map_of (ar_store r) k = Some a \<and> av_Phase (tr_Status a) = p))"
proof -
  have "run_ok (k_meta task_approval_ops) tr_Status task_approval_ok \<lparr>ar_store = s, ar_open = [], ar_done = []\<rparr>"
    using assms(2) by (simp add: run_ok_def task_approval_ops_def)
  from task_decisions.runs_ok [OF assms(1) this] show ?thesis
    by (auto simp: run_ok_def done_ok_def)
qed

text \<open>
  Applying an approval again takes back a decision. A POST of an approval that answers 201 leaves it
  pending when it was pending at the handler's read, even if a reviewer approved or denied it before
  the write: the handler copies the old status and writes without a version.
\<close>
theorem repeated_post_reopens:
  assumes "handleToolApprovals env now rq (Inr m) s = (HttpObject 201 a, s')" "hr_Method rq = ''POST''"
    and "ToolApprovalStore_Get (scopedName (NormalizeNamespace (m_Namespace (ta_Metadata m))) (m_Name (ta_Metadata m))) s = Some e"
    and "av_Phase (ta_Status e) = ''Pending''"
  shows "av_Phase (ta_Status a) = ''Pending''"
proof -
  obtain meta where meta: "applyRequestNamespace rq (ta_Metadata m) = Inr meta"
    using assms(1,2)
    by (cases "applyRequestNamespace rq (ta_Metadata m)")
      (auto simp: handleToolApprovals_def collection_handler_def post_resource_def tool_approval_ops_def)
  then have "m_Namespace meta = NormalizeNamespace (m_Namespace (ta_Metadata m))" "m_Name meta = m_Name (ta_Metadata m)"
    by (auto simp: applyRequestNamespace_def Let_def split: if_split_asm)
  then have obj: "ToolApprovalStore_Upsert now ((set_tool_approval_meta meta m)\<lparr>ta_Status := ta_Status e\<rparr>) (env s) = (Inr a, s')"
    using assms(1-3) meta
    by (auto simp: handleToolApprovals_def collection_handler_def post_resource_def tool_approval_ops_def Let_def
        store_error_response_def split: sum.splits prod.splits if_splits)
  then obtain it where it: "ToolApproval_Normalize now ((set_tool_approval_meta meta m)\<lparr>ta_Status := ta_Status e\<rparr>) = Inr it"
    "ta_Status a = ta_Status it"
    by (auto simp: ToolApprovalStore_Upsert_def store_upsert_def Let_def split: sum.splits option.splits)
  then have "av_Phase (ta_Status it) = or_default ''Pending'' (trim_space ''Pending'')"
    using assms(4) by (auto simp: ToolApproval_Normalize_def Let_def split: if_splits option.splits)
  then show ?thesis using it(2) by (simp add: or_default_def is_space_def)
qed

definition demo_approve :: "ToolApprovalStore \<Rightarrow> ToolApprovalStore" where
  "demo_approve s = snd (handleToolApprovalByName (\<lambda>_ s. s) (\<lambda>_. 0)
     \<lparr>hr_Method = ''POST'', hr_Path = ''/v1/tool-approvals/ta1/approve'', hr_Query = [], hr_IfMatch = []\<rparr> None s)"

theorem repeated_post_reopens_witness:
  "map_option (\<lambda>a. av_Phase (ta_Status a)) (ToolApprovalStore_Get ''ta1'' (demo_approve demo_approvals)) = Some ''Approved''
   \<and> (\<exists>a s'. handleToolApprovals demo_approve 0 demo_post (Inr demo_open_approval) demo_approvals = (HttpObject 201 a, s')
        \<and> av_Phase (ta_Status a) = ''Pending'')"
proof
  show "map_option (\<lambda>a. av_Phase (ta_Status a)) (ToolApprovalStore_Get ''ta1'' (demo_approve demo_approvals)) = Some ''Approved''"
    by code_simp
  let ?r = "handleToolApprovals demo_approve 0 demo_post (Inr demo_open_approval) demo_approvals"
  let ?get = "ToolApprovalStore_Get (scopedName (NormalizeNamespace (m_Namespace (ta_Metadata demo_open_approval)))
    (m_Name (ta_Metadata demo_open_approval))) demo_approvals"
  have "case fst ?r of HttpObject n a \<Rightarrow> n = 201 | _ \<Rightarrow> False" by code_simp
  then obtain a s' where r: "?r = (HttpObject 201 a, s')" by (cases ?r; cases "fst ?r") auto
  have "case ?get of None \<Rightarrow> False | Some e \<Rightarrow> av_Phase (ta_Status e) = ''Pending''" by code_simp
  then obtain e where "?get = Some e" "av_Phase (ta_Status e) = ''Pending''" by (auto split: option.splits)
  from repeated_post_reopens [OF r _ this] r
  show "\<exists>a s'. ?r = (HttpObject 201 a, s') \<and> av_Phase (ta_Status a) = ''Pending''" by (simp add: demo_post_def)
qed

end
